(* ===== verification/Go_Prelude.thy ===== *)
theory Go_Prelude
  imports Main "HOL-Library.Word" "HOL-Library.Sublist"
begin

text \<open>
  Shared material of the development: the Go string functions the bridge calls (on byte
  strings, as Go has them), decimal rendering and parsing, finite maps as association
  lists, and the three interfaces the components are proved against: a finite map, a
  machine with an invariant, and a framed byte-stream codec.
\<close>

named_theorems go_str \<open>evaluation rules for the Go string functions\<close>
named_theorems gm_simps \<open>rules for Go maps\<close>

type_synonym byte = "8 word"
type_synonym bytes = "8 word list"

section \<open>Results\<close>

definition is_ok :: "'e + 'a \<Rightarrow> bool" where
  "is_ok r = (case r of Inl _ \<Rightarrow> False | Inr _ \<Rightarrow> True)"

lemma is_ok_simps [simp]: "is_ok (Inr x)" "\<not> is_ok (Inl e)"
  by (simp_all add: is_ok_def)

section \<open>Go strings\<close>

subsection \<open>Prefixes and cutting\<close>

definition HasPrefix :: "string \<Rightarrow> string \<Rightarrow> bool" where
  "HasPrefix s p \<longleftrightarrow> take (length p) s = p"

definition TrimPrefix :: "string \<Rightarrow> string \<Rightarrow> string" where
  "TrimPrefix s p = (if HasPrefix s p then drop (length p) s else s)"

lemma HasPrefix_append [simp]: "HasPrefix (p @ s) p"
  by (simp add: HasPrefix_def)

lemma HasPrefix_iff: "HasPrefix s p \<longleftrightarrow> (\<exists>t. s = p @ t)"
  unfolding HasPrefix_def by (metis append_eq_conv_conj append_take_drop_id)

lemma TrimPrefix_append [simp]: "TrimPrefix (p @ s) p = s"
  by (simp add: TrimPrefix_def)

subsection \<open>strings.TrimSpace\<close>

text \<open>
  The runes with the Unicode White\_Space property, in UTF-8: \<open>unicode.IsSpace\<close>. Go strips
  whole runes at both ends; none of these sequences is a suffix of another one that is a
  rune by itself, so cutting sequences off either end is what \<open>TrimFunc\<close> does.
\<close>

definition space_runes :: "string list" where
  "space_runes =
     [[CHR 0x20], [CHR 0x09], [CHR 0x0A], [CHR 0x0B], [CHR 0x0C], [CHR 0x0D],
      [CHR 0xC2, CHR 0x85], [CHR 0xC2, CHR 0xA0], [CHR 0xE1, CHR 0x9A, CHR 0x80],
      [CHR 0xE2, CHR 0x80, CHR 0x80], [CHR 0xE2, CHR 0x80, CHR 0x81],
      [CHR 0xE2, CHR 0x80, CHR 0x82], [CHR 0xE2, CHR 0x80, CHR 0x83],
      [CHR 0xE2, CHR 0x80, CHR 0x84], [CHR 0xE2, CHR 0x80, CHR 0x85],
      [CHR 0xE2, CHR 0x80, CHR 0x86], [CHR 0xE2, CHR 0x80, CHR 0x87],
      [CHR 0xE2, CHR 0x80, CHR 0x88], [CHR 0xE2, CHR 0x80, CHR 0x89],
      [CHR 0xE2, CHR 0x80, CHR 0x8A], [CHR 0xE2, CHR 0x80, CHR 0xA8],
      [CHR 0xE2, CHR 0x80, CHR 0xA9], [CHR 0xE2, CHR 0x80, CHR 0xAF],
      [CHR 0xE2, CHR 0x81, CHR 0x9F], [CHR 0xE3, CHR 0x80, CHR 0x80]]"

fun cut_first :: "string list \<Rightarrow> string \<Rightarrow> string option" where
  "cut_first [] s = None"
| "cut_first (w # ws) s = (if w \<noteq> [] \<and> HasPrefix s w then Some (drop (length w) s) else cut_first ws s)"

lemma cut_first_shorter: "cut_first ws s = Some t \<Longrightarrow> length t < length s"
  by (induction ws) (auto simp: HasPrefix_iff split: if_splits)

function strip :: "string list \<Rightarrow> string \<Rightarrow> string" where
  "strip ws s = (case cut_first ws s of None \<Rightarrow> s | Some t \<Rightarrow> strip ws t)"
  by pat_completeness auto
termination
  by (relation "measure (\<lambda>(ws, s). length s)") (auto dest: cut_first_shorter)

declare strip.simps [simp del]

definition TrimSpace :: "string \<Rightarrow> string" where
  "TrimSpace s = rev (strip (map rev space_runes) (rev (strip space_runes s)))"

lemma strip_Nil [simp]: "strip ws [] = []"
proof -
  have "cut_first ws [] = None"
    by (induction ws) (auto simp: HasPrefix_def)
  then show ?thesis by (simp add: strip.simps)
qed

lemma strip_done [simp]: "cut_first ws (strip ws s) = None"
proof (induction ws s rule: strip.induct)
  case (1 ws s)
  then show ?case
    by (cases "cut_first ws s") (simp_all add: strip.simps [of ws s])
qed

lemma strip_None: "cut_first ws s = None \<Longrightarrow> strip ws s = s"
  by (simp add: strip.simps)

lemma strip_suffix: "\<exists>p. s = p @ strip ws s"
proof (induction ws s rule: strip.induct)
  case (1 ws s)
  show ?case
  proof (cases "cut_first ws s")
    case None
    then show ?thesis by (simp add: strip.simps [of ws s])
  next
    case (Some t)
    have "\<exists>p. s = p @ t"
      using Some by (induction ws) (auto simp: HasPrefix_iff split: if_splits)
    with 1 Some show ?thesis
      by (metis append.assoc option.simps(5) strip.simps)
  qed
qed

lemma TrimSpace_Nil [simp]: "TrimSpace [] = []"
  by (simp add: TrimSpace_def)

text \<open>Trimming keeps a contiguous part of the string.\<close>

lemma TrimSpace_factor: "\<exists>p q. s = p @ TrimSpace s @ q"
proof -
  obtain p where p: "s = p @ strip space_runes s" using strip_suffix by blast
  obtain q where q: "rev (strip space_runes s) = q @ strip (map rev space_runes) (rev (strip space_runes s))"
    using strip_suffix by blast
  then have "strip space_runes s = TrimSpace s @ rev q"
    by (metis TrimSpace_def rev_append rev_rev_ident)
  with p show ?thesis by metis
qed

lemma set_TrimSpace: "set (TrimSpace s) \<subseteq> set s"
  using TrimSpace_factor [of s] by (metis Un_iff set_append subsetI)

lemma length_TrimSpace: "length (TrimSpace s) \<le> length s"
  using TrimSpace_factor [of s] by (metis le_add1 le_add2 length_append order_trans)

text \<open>
  A byte that can begin or end no white-space rune: trimming a string that starts and ends
  with such bytes changes nothing.
\<close>

definition solid :: "char \<Rightarrow> bool" where
  "solid c \<longleftrightarrow> c \<notin> set (map hd space_runes) \<and> c \<notin> set (map last space_runes)"

lemma cut_first_hd_None:
  "\<forall>w \<in> set ws. w \<noteq> [] \<longrightarrow> hd w \<noteq> c \<Longrightarrow> cut_first ws (c # s) = None"
proof (induction ws)
  case (Cons w ws)
  have "\<not> (w \<noteq> [] \<and> HasPrefix (c # s) w)"
    using Cons.prems by (cases w) (auto simp: HasPrefix_def)
  with Cons show ?case by simp
qed simp

lemma TrimSpace_solid:
  assumes "s \<noteq> []" and "solid (hd s)" and "solid (last s)"
  shows "TrimSpace s = s"
proof -
  obtain c t where s: "s = c # t" using assms(1) by (cases s) auto
  have "\<forall>w \<in> set space_runes. w \<noteq> [] \<longrightarrow> hd w \<noteq> c"
    using assms(2) s by (auto simp: solid_def)
  then have l: "strip space_runes s = s"
    unfolding s by (intro strip_None cut_first_hd_None)
  obtain d u where r: "rev s = d # u" using assms(1) by (cases "rev s") auto
  then have "d = last s" by (metis last_rev list.sel(1) list.simps(3) rev_is_Nil_conv rev_rev_ident)
  then have "d \<notin> set (map last space_runes)" using assms(3) by (simp add: solid_def)
  then have "\<forall>w \<in> set (map rev space_runes). w \<noteq> [] \<longrightarrow> hd w \<noteq> d"
    by (auto simp: hd_rev)
  then have "strip (map rev space_runes) (rev s) = rev s"
    unfolding r by (intro strip_None cut_first_hd_None)
  with l show ?thesis by (simp add: TrimSpace_def)
qed


lemma TrimSpace_idem [simp]: "strip space_runes (strip space_runes s) = strip space_runes s"
  by (simp add: strip_None)

subsection \<open>strings.Split, strings.Join, strings.Index\<close>

text \<open>\<open>strings.Split(s, sep)\<close> and \<open>strings.SplitN(s, sep, 2)\<close> for a one-byte separator.\<close>

fun split_on :: "char \<Rightarrow> string \<Rightarrow> string list" where
  "split_on c [] = [[]]"
| "split_on c (x # xs) =
     (if x = c then [] # split_on c xs
      else case split_on c xs of [] \<Rightarrow> [[x]] | y # ys \<Rightarrow> (x # y) # ys)"

fun split_first :: "char \<Rightarrow> string \<Rightarrow> string \<times> string option" where
  "split_first c [] = ([], None)"
| "split_first c (x # xs) =
     (if x = c then ([], Some xs) else (case split_first c xs of (a, b) \<Rightarrow> (x # a, b)))"

fun Join :: "string \<Rightarrow> string list \<Rightarrow> string" where
  "Join sep [] = []"
| "Join sep [x] = x"
| "Join sep (x # y # ys) = x @ sep @ Join sep (y # ys)"

lemma split_on_not_Nil [simp]: "split_on c s \<noteq> []"
  by (induction s) (auto split: list.splits)

lemma Join_split_on [simp]: "Join [c] (split_on c s) = s"
proof (induction s)
  case (Cons x xs)
  obtain y ys where "split_on c xs = y # ys" by (cases "split_on c xs") auto
  with Cons show ?case by (cases ys) auto
qed simp

lemma split_on_no_sep: "p \<in> set (split_on c s) \<Longrightarrow> c \<notin> set p"
  by (induction s arbitrary: p) (auto split: list.splits if_splits)

lemma split_on_append: "c \<notin> set p \<Longrightarrow> split_on c (p @ c # s) = p # split_on c s"
  by (induction p) auto

lemma split_on_single: "c \<notin> set p \<Longrightarrow> split_on c p = [p]"
  by (induction p) auto

lemma split_on_Join:
  "xs \<noteq> [] \<Longrightarrow> \<forall>x \<in> set xs. c \<notin> set x \<Longrightarrow> split_on c (Join [c] xs) = xs"
  by (induction "[c]" xs rule: Join.induct) (auto simp: split_on_append split_on_single)

lemma split_first_None: "snd (split_first c s) = None \<longleftrightarrow> c \<notin> set s"
  by (induction s) (auto split: prod.splits)

lemma split_first_Some: "split_first c s = (a, Some b) \<Longrightarrow> s = a @ c # b \<and> c \<notin> set a"
  by (induction s arbitrary: a) (auto split: prod.splits if_splits)

lemma split_first_append: "c \<notin> set a \<Longrightarrow> split_first c (a @ c # b) = (a, Some b)"
  by (induction a) auto

text \<open>\<open>strings.Index\<close>: the suffix from the first occurrence of a non-empty pattern.\<close>

fun from_sub :: "string \<Rightarrow> string \<Rightarrow> string option" where
  "from_sub p [] = (if p = [] then Some [] else None)"
| "from_sub p (x # xs) = (if HasPrefix (x # xs) p then Some (x # xs) else from_sub p xs)"

definition Contains :: "string \<Rightarrow> string \<Rightarrow> bool" where
  "Contains s p \<longleftrightarrow> from_sub p s \<noteq> None"

lemma from_sub_Some: "from_sub p s = Some t \<Longrightarrow> HasPrefix t p \<and> (\<exists>q. s = q @ t)"
proof (induction s)
  case (Cons x xs)
  then show ?case
    by (cases "HasPrefix (x # xs) p") (auto intro: exI [of _ "x # _"])
qed (auto simp: HasPrefix_def split: if_splits)

lemma from_sub_None: "from_sub p s = None \<Longrightarrow> \<not> HasPrefix s p"
  by (cases s) (auto simp: HasPrefix_def split: if_splits)

text \<open>\<open>strings.LastIndex(s, c)\<close> for one byte: the parts before and after the last occurrence.\<close>

definition cut_last :: "char \<Rightarrow> string \<Rightarrow> (string \<times> string) option" where
  "cut_last c s = (case split_first c (rev s) of (a, None) \<Rightarrow> None
                   | (a, Some b) \<Rightarrow> Some (rev b, rev a))"

lemma cut_last_append: "c \<notin> set b \<Longrightarrow> cut_last c (a @ c # b) = Some (a, b)"
  by (simp add: cut_last_def split_first_append)

lemma cut_last_None: "cut_last c s = None \<longleftrightarrow> c \<notin> set s"
  using split_first_None [of c "rev s"]
  by (auto simp: cut_last_def split: prod.splits option.splits)

text \<open>\<open>strings.TrimRight(s, cutset)\<close> for a one-byte cutset.\<close>

definition TrimRight :: "string \<Rightarrow> char \<Rightarrow> string" where
  "TrimRight s c = rev (dropWhile (\<lambda>x. x = c) (rev s))"

section \<open>Decimal numbers\<close>

definition digit_char :: "nat \<Rightarrow> char" where
  "digit_char d = char_of (48 + d)"

definition is_digit :: "char \<Rightarrow> bool" where
  "is_digit c \<longleftrightarrow> 48 \<le> (of_char c :: nat) \<and> (of_char c :: nat) \<le> 57"

definition digit_val :: "char \<Rightarrow> nat" where
  "digit_val c = of_char c - 48"

fun show_nat :: "nat \<Rightarrow> string" where
  "show_nat n = (if n < 10 then [digit_char n] else show_nat (n div 10) @ [digit_char (n mod 10)])"

declare show_nat.simps [simp del]

definition show_int :: "int \<Rightarrow> string" where
  "show_int i = (if i < 0 then ''-'' @ show_nat (nat (- i)) else show_nat (nat i))"

definition read_digits :: "string \<Rightarrow> nat" where
  "read_digits s = foldl (\<lambda>n c. 10 * n + digit_val c) 0 s"

lemma digit_char_props:
  assumes "d < 10"
  shows "is_digit (digit_char d)" and "digit_val (digit_char d) = d"
proof -
  have "(of_char (char_of (48 + d)) :: nat) = 48 + d" using assms by simp
  then show "is_digit (digit_char d)" and "digit_val (digit_char d) = d"
    using assms by (simp_all add: is_digit_def digit_val_def digit_char_def)
qed

lemma show_nat_not_Nil [simp]: "show_nat n \<noteq> []"
  by (subst show_nat.simps) simp

lemma show_nat_digits: "c \<in> set (show_nat n) \<Longrightarrow> is_digit c"
proof (induction n rule: show_nat.induct)
  case (1 n)
  then show ?case
    by (subst (asm) (2) show_nat.simps) (auto split: if_splits simp: digit_char_props)
qed

lemma read_show_nat [simp]: "read_digits (show_nat n) = n"
proof (induction n rule: show_nat.induct)
  case (1 n)
  show ?case
  proof (cases "n < 10")
    case True
    then show ?thesis by (subst show_nat.simps) (simp add: read_digits_def digit_char_props)
  next
    case False
    with 1 have "read_digits (show_nat (n div 10)) = n div 10" by simp
    with False show ?thesis
      by (subst show_nat.simps) (simp add: read_digits_def digit_char_props)
  qed
qed

text \<open>\<open>strconv.ParseInt(s, 10, 64)\<close>: an optional sign, digits, and the int64 range.\<close>

definition ParseInt64 :: "string \<Rightarrow> int option" where
  "ParseInt64 s =
     (let neg = (s \<noteq> [] \<and> hd s = CHR ''-'');
          body = (if s \<noteq> [] \<and> (hd s = CHR ''-'' \<or> hd s = CHR ''+'') then tl s else s);
          n = int (read_digits body)
      in if body = [] \<or> \<not> list_all is_digit body then None
         else if neg then (if n \<le> 2 ^ 63 then Some (- n) else None)
         else (if n < 2 ^ 63 then Some n else None))"

lemma is_digit_not_sign: "is_digit c \<Longrightarrow> c \<noteq> CHR ''-'' \<and> c \<noteq> CHR ''+''"
  by (auto simp: is_digit_def)

lemma ParseInt64_show_int:
  assumes "- (2 ^ 63) \<le> i" and "i < 2 ^ 63"
  shows "ParseInt64 (show_int i) = Some i"
proof (cases "i < 0")
  case True
  have "list_all is_digit (show_nat (nat (- i)))"
    by (simp add: list_all_iff show_nat_digits)
  with True assms(1) show ?thesis by (simp add: ParseInt64_def show_int_def)
next
  case False
  obtain c t where ct: "show_nat (nat i) = c # t" by (cases "show_nat (nat i)") auto
  have d: "list_all is_digit (show_nat (nat i))"
    by (simp add: list_all_iff show_nat_digits)
  then have "c \<noteq> CHR ''-''" "c \<noteq> CHR ''+''" using ct is_digit_not_sign by auto
  moreover have "read_digits (c # t) = nat i" using ct read_show_nat by metis
  ultimately show ?thesis using False assms(2) d ct
    by (simp add: ParseInt64_def show_int_def)
qed

section \<open>Go maps as association lists\<close>

text \<open>
  A Go map is a finite map: \<open>m[k]\<close> is \<open>map_of m k\<close>, \<open>m[k] = v\<close> is \<open>gput k v m\<close>,
  \<open>delete(m, k)\<close> is \<open>gdel k m\<close>. The order of the list stands for one iteration order; the
  lemmas below speak of lookups only.
\<close>

type_synonym ('k, 'v) gmap = "('k \<times> 'v) list"

fun gput :: "'k \<Rightarrow> 'v \<Rightarrow> ('k, 'v) gmap \<Rightarrow> ('k, 'v) gmap" where
  "gput k v [] = [(k, v)]"
| "gput k v ((k', v') # m) = (if k = k' then (k, v) # m else (k', v') # gput k v m)"

definition gdel :: "'k \<Rightarrow> ('k, 'v) gmap \<Rightarrow> ('k, 'v) gmap" where
  "gdel k m = filter (\<lambda>p. fst p \<noteq> k) m"

definition ghas :: "'k \<Rightarrow> ('k, 'v) gmap \<Rightarrow> bool" where
  "ghas k m \<longleftrightarrow> map_of m k \<noteq> None"

lemma gput_map_of [gm_simps]: "map_of (gput k v m) = (map_of m)(k \<mapsto> v)"
  by (induction m) auto

lemma gdel_map_of [gm_simps]: "map_of (gdel k m) = (map_of m)(k := None)"
  by (induction m) (auto simp: gdel_def)

lemma keys_gput: "set (map fst (gput k v m)) = insert k (set (map fst m))"
proof (induction m)
  case (Cons p m)
  then show ?case by (cases p) (simp add: insert_commute)
qed simp

lemma keys_gdel: "set (map fst (gdel k m)) = set (map fst m) - {k}"
  by (auto simp: gdel_def)

lemma distinct_gput: "distinct (map fst m) \<Longrightarrow> distinct (map fst (gput k v m))"
proof (induction m)
  case (Cons p m)
  then show ?case using keys_gput [of k v m] by (cases p) auto
qed simp

lemma distinct_gdel: "distinct (map fst m) \<Longrightarrow> distinct (map fst (gdel k m))"
  by (induction m) (auto simp: gdel_def)

lemma ghas_iff: "ghas k m \<longleftrightarrow> k \<in> set (map fst m)"
  by (simp add: ghas_def map_of_eq_None_iff)

lemma ghas_gput [gm_simps]: "ghas k (gput k' v m) \<longleftrightarrow> k = k' \<or> ghas k m"
  by (simp add: ghas_def gm_simps)

lemma ghas_gdel [gm_simps]: "ghas k (gdel k' m) \<longleftrightarrow> k \<noteq> k' \<and> ghas k m"
  by (simp add: ghas_def gm_simps)

text \<open>The interface the components rely on, with what follows from it for any client.\<close>

locale finite_map =
  fixes mempty :: "'m"
    and put :: "'k \<Rightarrow> 'v \<Rightarrow> 'm \<Rightarrow> 'm"
    and del :: "'k \<Rightarrow> 'm \<Rightarrow> 'm"
    and get :: "'m \<Rightarrow> 'k \<Rightarrow> 'v option"
  assumes get_empty: "get mempty k = None"
    and get_put: "get (put k v m) k' = (if k' = k then Some v else get m k')"
    and get_del: "get (del k m) k' = (if k' = k then None else get m k')"
begin

lemma get_put_same: "get (put k v m) k = Some v"
  by (simp add: get_put)

lemma put_overwrites: "get (put k v (put k w m)) = get (put k v m)"
  by (rule ext) (simp add: get_put)

lemma put_commute: "k \<noteq> l \<Longrightarrow> get (put k v (put l w m)) = get (put l w (put k v m))"
  by (rule ext) (simp add: get_put)

lemma get_fold_put:
  "get (fold (\<lambda>p m. put (fst p) (snd p) m) ps m) k =
     (case map_of (rev ps) k of None \<Rightarrow> get m k | Some v \<Rightarrow> Some v)"
proof (induction ps arbitrary: m)
  case (Cons p ps)
  then show ?case
    by (cases "map_of (rev ps) k") (auto simp: get_put map_add_def)
qed simp

lemma get_fold_del: "get (fold del ks m) k = (if k \<in> set ks then None else get m k)"
  by (induction ks arbitrary: m) (auto simp: get_del)

end

interpretation gm: finite_map "[]" gput gdel map_of
  by unfold_locales (auto simp: gm_simps)

section \<open>Machines with an invariant\<close>

text \<open>
  A component whose operations are a step function: what holds initially and survives each
  operation holds after any sequence of operations.
\<close>

locale invariant_machine =
  fixes start :: "'s" and step :: "'s \<Rightarrow> 'e \<Rightarrow> 's" and inv :: "'s \<Rightarrow> bool"
  assumes inv_start: "inv start"
    and inv_step: "inv s \<Longrightarrow> inv (step s e)"
begin

lemma run_inv: "inv s \<Longrightarrow> inv (foldl step s es)"
  by (induction es arbitrary: s) (auto intro: inv_step)

lemma run_start: "inv (foldl step start es)"
  by (rule run_inv [OF inv_start])

end

section \<open>Framed codecs\<close>

text \<open>
  A writer that turns a message into a self-delimiting frame, and a reader that takes one
  message off the front of a buffer; both may carry state (nonces). The law: a reader in
  step with the writer takes exactly the frame just written. For any client the whole
  stream then decodes to the messages that were written, in order, with what was left over.
\<close>

locale framed_codec =
  fixes enc :: "'s \<Rightarrow> 'a \<Rightarrow> 'b list \<times> 's"
    and dec :: "'s \<Rightarrow> 'b list \<Rightarrow> ('a \<times> 'b list \<times> 's) option"
    and wf :: "'a \<Rightarrow> bool"
  assumes dec_enc: "wf a \<Longrightarrow> enc s a = (f, s') \<Longrightarrow> dec s (f @ rest) = Some (a, rest, s')"
begin

fun enc_all :: "'s \<Rightarrow> 'a list \<Rightarrow> 'b list \<times> 's" where
  "enc_all s [] = ([], s)"
| "enc_all s (a # as) = (let (f, s') = enc s a; (g, s'') = enc_all s' as in (f @ g, s''))"

fun dec_n :: "nat \<Rightarrow> 's \<Rightarrow> 'b list \<Rightarrow> ('a list \<times> 'b list \<times> 's) option" where
  "dec_n 0 s b = Some ([], b, s)"
| "dec_n (Suc n) s b = (case dec s b of None \<Rightarrow> None
     | Some (a, r, s') \<Rightarrow> (case dec_n n s' r of None \<Rightarrow> None
         | Some (as, r', s'') \<Rightarrow> Some (a # as, r', s'')))"

lemma dec_enc_all:
  "\<forall>a \<in> set as. wf a \<Longrightarrow> enc_all s as = (f, s') \<Longrightarrow>
   dec_n (length as) s (f @ rest) = Some (as, rest, s')"
proof (induction as arbitrary: s f s')
  case (Cons a as)
  obtain f1 s1 where e1: "enc s a = (f1, s1)" by fastforce
  obtain g s2 where e2: "enc_all s1 as = (g, s2)" by fastforce
  have fs: "f = f1 @ g" "s' = s2" using Cons.prems(2) e1 e2 by auto
  have "dec s (f1 @ g @ rest) = Some (a, g @ rest, s1)"
    using dec_enc [OF _ e1] Cons.prems(1) by simp
  moreover have "dec_n (length as) s1 (g @ rest) = Some (as, rest, s2)"
    using Cons.IH [OF _ e2] Cons.prems(1) by simp
  ultimately show ?case using fs by simp
qed simp

end

end
