(* ===== verification/Go_Value.thy ===== *)
theory Go_Value
  imports Go_Prelude "HOL-Library.List_Lexorder" "HOL-Library.Char_ord"
begin

text \<open>
  Dynamically typed Go values (\<open>interface{}\<close>) as the mapper and the processor handle them,
  their \<open>fmt.Sprint\<close> rendering, and parsed JSON documents with the field-matching rule of
  \<open>encoding/json\<close>. JSON text itself is read and written by functions that the components
  take as arguments.
\<close>

text \<open>
  A float64 is kept as its \<open>%v\<close> rendering: nothing computes with it. \<open>VNilList\<close> is a nil
  \<open>[]interface{}\<close>, which marshals to \<open>null\<close>, unlike an empty one. \<open>VMaps\<close> is
  \<open>[]map[string]interface{}\<close> and \<open>VStrs\<close> is \<open>[]string\<close>, which Go distinguishes from
  \<open>[]interface{}\<close> in type switches.
\<close>

datatype val =
    VNil
  | VStr string
  | VBool bool
  | VInt int
  | VFloat string
  | VNilList
  | VList "val list"
  | VMap "(string \<times> val) list"
  | VMaps "(string \<times> val) list list"
  | VStrs "string list"

type_synonym msg = "(string, val) gmap"

subsection \<open>fmt.Sprint\<close>

lemma size_val_in_map: "(k, v) \<in> set m \<Longrightarrow> size v < Suc (size_list (size_prod (\<lambda>x. 0) size) m)"
  by (induction m) auto

lemma size_val_in_maps:
  "m \<in> set ms \<Longrightarrow> (k, v) \<in> set m \<Longrightarrow>
   size v < Suc (size_list (size_list (size_prod (\<lambda>x. 0) size)) ms)"
proof (induction ms)
  case (Cons a ms)
  then show ?case using size_val_in_map [of k v m] by (auto intro: less_SucI trans_less_add2)
qed simp

lemma size_val_in_list: "v \<in> set vs \<Longrightarrow> size v < Suc (size_list size vs)"
  by (induction vs) auto

text \<open>\<open>fmt\<close> prints slices in brackets and maps with their keys sorted.\<close>

function (sequential) Sprint :: "val \<Rightarrow> string" where
  "Sprint VNil = ''<nil>''"
| "Sprint (VStr s) = s"
| "Sprint (VBool b) = (if b then ''true'' else ''false'')"
| "Sprint (VInt i) = show_int i"
| "Sprint (VFloat s) = s"
| "Sprint VNilList = ''[]''"
| "Sprint (VList vs) = ''['' @ Join '' '' (map Sprint vs) @ '']''"
| "Sprint (VMap m) =
     ''map['' @ Join '' '' (map (\<lambda>p. fst p @ '':'' @ Sprint (snd p)) (sort_key fst m)) @ '']''"
| "Sprint (VMaps ms) =
     ''['' @ Join '' '' (map (\<lambda>m. ''map['' @
        Join '' '' (map (\<lambda>p. fst p @ '':'' @ Sprint (snd p)) (sort_key fst m)) @ '']'') ms) @ '']''"
| "Sprint (VStrs ss) = ''['' @ Join '' '' ss @ '']''"
  by pat_completeness auto

termination
  by (relation "measure size") (auto intro: size_val_in_map size_val_in_maps size_val_in_list)

text \<open>\<open>v, _ := m[k].(string)\<close> and \<open>asString\<close> of the mapper.\<close>

definition str_at :: "msg \<Rightarrow> string \<Rightarrow> string option" where
  "str_at m k = (case map_of m k of Some (VStr s) \<Rightarrow> Some s | _ \<Rightarrow> None)"

lemma str_at_Some: "str_at m k = Some s \<longleftrightarrow> map_of m k = Some (VStr s)"
  by (auto simp: str_at_def split: option.splits val.splits)

lemma str_at_gput [gm_simps]:
  "str_at (gput k v m) k' = (if k' = k then (case v of VStr s \<Rightarrow> Some s | _ \<Rightarrow> None) else str_at m k')"
  by (simp add: str_at_def gm_simps split: val.splits)

lemma str_at_gdel [gm_simps]: "str_at (gdel k m) k' = (if k' = k then None else str_at m k')"
  by (simp add: str_at_def gm_simps)

lemma str_at_Nil [gm_simps]: "str_at [] k = None"
  by (simp add: str_at_def)

lemma str_at_Cons [gm_simps]:
  "str_at ((k, v) # m) k' = (if k' = k then (case v of VStr s \<Rightarrow> Some s | _ \<Rightarrow> None) else str_at m k')"
  by (simp add: str_at_def)

section \<open>JSON documents\<close>

text \<open>
  A parsed document: object members in document order, duplicates kept, numbers as their
  literal text.
\<close>

datatype json =
    JNull
  | JBool bool
  | JNum string
  | JStr string
  | JArr "json list"
  | JObj "(string \<times> json) list"

text \<open>
  \<open>encoding/json\<close> matches an object key to a struct field exactly or after case folding;
  besides the ASCII letters, U+017F folds to \<open>s\<close> and U+212A to \<open>k\<close>.
\<close>

fun fold_name :: "string \<Rightarrow> string" where
  "fold_name [] = []"
| "fold_name (c # cs) =
     (if c = CHR 0xC5 \<and> cs \<noteq> [] \<and> hd cs = CHR 0xBF then CHR ''S'' # fold_name (tl cs)
      else if c = CHR 0xE2 \<and> 2 \<le> length cs \<and> hd cs = CHR 0x84 \<and> cs ! 1 = CHR 0xAA
        then CHR ''K'' # fold_name (drop 2 cs)
      else (if 97 \<le> (of_char c :: nat) \<and> (of_char c :: nat) \<le> 122 then char_of (of_char c - 32 :: nat) else c)
           # fold_name cs)"

definition field_is :: "string \<Rightarrow> string \<Rightarrow> bool" where
  "field_is name key \<longleftrightarrow> key = name \<or> fold_name key = fold_name name"

lemma field_is_refl [simp]: "field_is n n"
  by (simp add: field_is_def)

text \<open>Decoding into a string, an int64, a pointer and a slice; \<open>None\<close> is a decoding error.\<close>

fun into_string :: "json \<Rightarrow> string \<Rightarrow> string option" where
  "into_string (JStr s) _ = Some s"
| "into_string JNull old = Some old"
| "into_string _ _ = None"

fun into_int64 :: "json \<Rightarrow> int \<Rightarrow> int option" where
  "into_int64 (JNum t) _ = ParseInt64 t"
| "into_int64 JNull old = Some old"
| "into_int64 _ _ = None"

fun into_ptr :: "'a \<Rightarrow> (json \<Rightarrow> 'a \<Rightarrow> 'a option) \<Rightarrow> json \<Rightarrow> 'a option \<Rightarrow> 'a option option" where
  "into_ptr zero f JNull _ = Some None"
| "into_ptr zero f j old = map_option Some (f j (case old of None \<Rightarrow> zero | Some x \<Rightarrow> x))"

fun dec_list :: "(json \<Rightarrow> 'a option) \<Rightarrow> json list \<Rightarrow> 'a list option" where
  "dec_list f [] = Some []"
| "dec_list f (j # js) = (case f j of None \<Rightarrow> None
     | Some x \<Rightarrow> (case dec_list f js of None \<Rightarrow> None | Some xs \<Rightarrow> Some (x # xs)))"

fun into_slice :: "(json \<Rightarrow> 'a option) \<Rightarrow> json \<Rightarrow> 'a list \<Rightarrow> 'a list option" where
  "into_slice f (JArr js) _ = dec_list f js"
| "into_slice f JNull _ = Some []"
| "into_slice f _ _ = None"

text \<open>
  A struct: each member of the object, in document order, is stored by the struct's own
  field function, which leaves the struct alone for a key it does not know.
\<close>

fun dec_members :: "(string \<Rightarrow> json \<Rightarrow> 'a \<Rightarrow> 'a option) \<Rightarrow> (string \<times> json) list \<Rightarrow> 'a \<Rightarrow> 'a option" where
  "dec_members f [] x = Some x"
| "dec_members f ((k, j) # ms) x = (case f k j x of None \<Rightarrow> None | Some y \<Rightarrow> dec_members f ms y)"

fun into_struct :: "(string \<Rightarrow> json \<Rightarrow> 'a \<Rightarrow> 'a option) \<Rightarrow> json \<Rightarrow> 'a \<Rightarrow> 'a option" where
  "into_struct f (JObj ms) x = dec_members f ms x"
| "into_struct f JNull x = Some x"
| "into_struct f _ _ = None"

text \<open>
  \<open>map[string]json.RawMessage\<close>: the last of several equal keys wins; \<open>null\<close> leaves the map
  empty and anything that is no object is an error.
\<close>

fun raw_fields :: "json \<Rightarrow> (string \<rightharpoonup> json) option" where
  "raw_fields (JObj ms) = Some (map_of (rev ms))"
| "raw_fields JNull = Some (\<lambda>_. None)"
| "raw_fields _ = None"

lemma size_json_in_obj: "(k, v) \<in> set m \<Longrightarrow> size v < Suc (size_list (size_prod (\<lambda>x. 0) size) m)"
  by (induction m) auto

lemma size_json_in_arr: "(v :: json) \<in> set vs \<Longrightarrow> size v < Suc (size_list size vs)"
  by (induction vs) auto

text \<open>\<open>json.Unmarshal\<close> into an \<open>interface{}\<close>.\<close>

function (sequential) json_val :: "json \<Rightarrow> val" where
  "json_val JNull = VNil"
| "json_val (JBool b) = VBool b"
| "json_val (JNum t) = VFloat t"
| "json_val (JStr s) = VStr s"
| "json_val (JArr js) = VList (map json_val js)"
| "json_val (JObj ms) = VMap (fold (\<lambda>p m. gput (fst p) (json_val (snd p)) m) ms [])"
  by pat_completeness auto

termination
  by (relation "measure size") (auto intro: size_json_in_obj size_json_in_arr)

end
