(* ===== verification/Appbsky.thy ===== *)
theory Appbsky
  imports Go_Value
begin

text \<open>
  The ATProto record structs of \<open>pkg/atproto/appbsky/types.go\<close> that the mapper decodes, and
  their JSON decoders, from a parsed document. \<open>cid_ok\<close> stands for \<open>cid.Decode\<close> of the
  third-party go-cid package: whether a CID string decodes.
\<close>

record RepoStrongRef =
  Uri :: string
  Cid :: string

record LexBlob =
  Ref :: string
  MimeType :: string
  Size :: int

record ByteSlice =
  ByteStart :: int
  ByteEnd :: int

text \<open>One-field structs behind pointers (link, mention, tag) are kept as their field.\<close>

record Features_Elem =
  FLink :: "string option"
  FMention :: "string option"
  FTag :: "string option"

record RichtextFacet =
  Index :: "ByteSlice option"
  Features :: "Features_Elem option list"

record AspectRatio =
  Width :: int
  Height :: int

record EmbedImages_Image =
  Alt :: string
  Image :: "LexBlob option"
  ImgRatio :: "AspectRatio option"

record EmbedVideo =
  VAlt :: "string option"
  Video :: "LexBlob option"
  VRatio :: "AspectRatio option"

record EmbedExternal_External =
  EUri :: string
  ETitle :: string
  EDescription :: "string option"
  EThumb :: "LexBlob option"

record EmbedRecordWithMedia_Media =
  MImages :: "EmbedImages_Image option list option"
  MVideo :: "EmbedVideo option"
  MExternal :: "EmbedExternal_External option option"

text \<open>
  \<open>EmbedImages\<close>, \<open>EmbedExternal\<close> and \<open>EmbedRecord\<close> have one field each and are kept as it:
  a slice, a pointer and a pointer.
\<close>

record EmbedRecordWithMedia =
  RRecord :: "RepoStrongRef option option"
  RMedia :: "EmbedRecordWithMedia_Media option"

record FeedPost_Embed =
  EmbedImages :: "EmbedImages_Image option list option"
  EmbedVideo :: "EmbedVideo option"
  EmbedExternal :: "EmbedExternal_External option option"
  EmbedRecord :: "RepoStrongRef option option"
  EmbedRecordWithMedia :: "EmbedRecordWithMedia option"

record ReplyRef =
  Root :: "RepoStrongRef option"
  Parent :: "RepoStrongRef option"

record FeedPost =
  LexiconTypeID :: string
  CreatedAt :: string
  Embed :: "FeedPost_Embed option"
  Facets :: "RichtextFacet option list"
  Langs :: "string list"
  Reply :: "ReplyRef option"
  Tags :: "string list"
  Text :: string

record FeedLike =
  LType :: string
  LSubject :: "RepoStrongRef option"
  LCreatedAt :: string

record GraphFollow =
  GType :: string
  GSubject :: string
  GCreatedAt :: string

record ActorProfile =
  PType :: string
  DisplayName :: "string option"
  Description :: "string option"
  Avatar :: "LexBlob option"
  Banner :: "LexBlob option"

section \<open>Decoders\<close>

definition field_strongref :: "string \<Rightarrow> json \<Rightarrow> RepoStrongRef \<Rightarrow> RepoStrongRef option" where
  "field_strongref k j r =
     (if field_is ''uri'' k then map_option (\<lambda>s. r\<lparr>Uri := s\<rparr>) (into_string j (Uri r))
      else if field_is ''cid'' k then map_option (\<lambda>s. r\<lparr>Cid := s\<rparr>) (into_string j (Cid r))
      else Some r)"

abbreviation zero_ref :: RepoStrongRef where
  "zero_ref \<equiv> \<lparr>Uri = [], Cid = []\<rparr>"

text \<open>The alias type decodes from a zero struct, which then replaces the receiver.\<close>

definition RepoStrongRef_UnmarshalJSON :: "json \<Rightarrow> RepoStrongRef \<Rightarrow> RepoStrongRef option" where
  "RepoStrongRef_UnmarshalJSON j r = into_struct field_strongref j zero_ref"

definition field_link :: "string \<Rightarrow> json \<Rightarrow> string \<Rightarrow> string option" where
  "field_link k j l = (if field_is ''$link'' k then into_string j l else Some l)"

text \<open>\<open>LexLink.UnmarshalJSON\<close>: an object with \<open>$link\<close> whose text is a CID.\<close>

definition LexLink_UnmarshalJSON :: "(string \<Rightarrow> bool) \<Rightarrow> json \<Rightarrow> string option" where
  "LexLink_UnmarshalJSON cid_ok j =
     (case into_struct field_link j [] of None \<Rightarrow> None
      | Some l \<Rightarrow> (if cid_ok (TrimSpace l) then Some (TrimSpace l) else None))"

definition field_blob :: "(string \<Rightarrow> bool) \<Rightarrow> string \<Rightarrow> json \<Rightarrow> LexBlob \<Rightarrow> LexBlob option" where
  "field_blob cid_ok k j b =
     (if field_is ''ref'' k then map_option (\<lambda>l. b\<lparr>Ref := l\<rparr>) (LexLink_UnmarshalJSON cid_ok j)
      else if field_is ''mimeType'' k then map_option (\<lambda>s. b\<lparr>MimeType := s\<rparr>) (into_string j (MimeType b))
      else if field_is ''size'' k then map_option (\<lambda>n. b\<lparr>Size := n\<rparr>) (into_int64 j (Size b))
      else Some b)"

abbreviation zero_blob :: LexBlob where
  "zero_blob \<equiv> \<lparr>Ref = [], MimeType = [], Size = 0\<rparr>"

definition LexBlob_UnmarshalJSON :: "(string \<Rightarrow> bool) \<Rightarrow> json \<Rightarrow> LexBlob \<Rightarrow> LexBlob option" where
  "LexBlob_UnmarshalJSON cid_ok j b = into_struct (field_blob cid_ok) j zero_blob"

definition field_ratio :: "string \<Rightarrow> json \<Rightarrow> AspectRatio \<Rightarrow> AspectRatio option" where
  "field_ratio k j r =
     (if field_is ''width'' k then map_option (\<lambda>n. r\<lparr>Width := n\<rparr>) (into_int64 j (Width r))
      else if field_is ''height'' k then map_option (\<lambda>n. r\<lparr>Height := n\<rparr>) (into_int64 j (Height r))
      else Some r)"

abbreviation into_blob :: "(string \<Rightarrow> bool) \<Rightarrow> json \<Rightarrow> LexBlob option \<Rightarrow> LexBlob option option" where
  "into_blob cid_ok \<equiv> into_ptr zero_blob (LexBlob_UnmarshalJSON cid_ok)"

abbreviation into_ratio :: "json \<Rightarrow> AspectRatio option \<Rightarrow> AspectRatio option option" where
  "into_ratio \<equiv> into_ptr \<lparr>Width = 0, Height = 0\<rparr> (into_struct field_ratio)"

definition field_image :: "(string \<Rightarrow> bool) \<Rightarrow> string \<Rightarrow> json \<Rightarrow> EmbedImages_Image \<Rightarrow> EmbedImages_Image option" where
  "field_image cid_ok k j i =
     (if field_is ''alt'' k then map_option (\<lambda>s. i\<lparr>Alt := s\<rparr>) (into_string j (Alt i))
      else if field_is ''image'' k then map_option (\<lambda>b. i\<lparr>Image := b\<rparr>) (into_blob cid_ok j (Image i))
      else if field_is ''aspectRatio'' k then map_option (\<lambda>r. i\<lparr>ImgRatio := r\<rparr>) (into_ratio j (ImgRatio i))
      else Some i)"

definition dec_images :: "(string \<Rightarrow> bool) \<Rightarrow> json \<Rightarrow> EmbedImages_Image option list \<Rightarrow> EmbedImages_Image option list option" where
  "dec_images cid_ok j old =
     into_slice (\<lambda>e. into_ptr \<lparr>Alt = [], Image = None, ImgRatio = None\<rparr>
                      (into_struct (field_image cid_ok)) e None) j old"

definition EmbedImages_UnmarshalJSON :: "(string \<Rightarrow> bool) \<Rightarrow> json \<Rightarrow> EmbedImages_Image option list \<Rightarrow> EmbedImages_Image option list option" where
  "EmbedImages_UnmarshalJSON cid_ok j e =
     (case j of JArr _ \<Rightarrow> dec_images cid_ok j e
      | _ \<Rightarrow> into_struct (\<lambda>k v is. if field_is ''images'' k then dec_images cid_ok v is else Some is) j [])"

definition field_video :: "(string \<Rightarrow> bool) \<Rightarrow> string \<Rightarrow> json \<Rightarrow> EmbedVideo \<Rightarrow> EmbedVideo option" where
  "field_video cid_ok k j v =
     (if field_is ''alt'' k then map_option (\<lambda>s. v\<lparr>VAlt := s\<rparr>) (into_ptr [] into_string j (VAlt v))
      else if field_is ''video'' k then map_option (\<lambda>b. v\<lparr>Video := b\<rparr>) (into_blob cid_ok j (Video v))
      else if field_is ''aspectRatio'' k then map_option (\<lambda>r. v\<lparr>VRatio := r\<rparr>) (into_ratio j (VRatio v))
      else Some v)"

definition dec_video :: "(string \<Rightarrow> bool) \<Rightarrow> json \<Rightarrow> EmbedVideo option" where
  "dec_video cid_ok j = into_struct (field_video cid_ok) j \<lparr>VAlt = None, Video = None, VRatio = None\<rparr>"

definition field_ext :: "(string \<Rightarrow> bool) \<Rightarrow> string \<Rightarrow> json \<Rightarrow> EmbedExternal_External \<Rightarrow> EmbedExternal_External option" where
  "field_ext cid_ok k j e =
     (if field_is ''uri'' k then map_option (\<lambda>s. e\<lparr>EUri := s\<rparr>) (into_string j (EUri e))
      else if field_is ''title'' k then map_option (\<lambda>s. e\<lparr>ETitle := s\<rparr>) (into_string j (ETitle e))
      else if field_is ''description'' k then map_option (\<lambda>s. e\<lparr>EDescription := s\<rparr>) (into_ptr [] into_string j (EDescription e))
      else if field_is ''thumb'' k then map_option (\<lambda>b. e\<lparr>EThumb := b\<rparr>) (into_blob cid_ok j (EThumb e))
      else Some e)"

abbreviation zero_ext :: EmbedExternal_External where
  "zero_ext \<equiv> \<lparr>EUri = [], ETitle = [], EDescription = None, EThumb = None\<rparr>"

definition EmbedExternal_UnmarshalJSON :: "(string \<Rightarrow> bool) \<Rightarrow> json \<Rightarrow> EmbedExternal_External option option" where
  "EmbedExternal_UnmarshalJSON cid_ok j =
     (case raw_fields j of None \<Rightarrow> None
      | Some flds \<Rightarrow>
         (if flds ''uri'' \<noteq> None then map_option Some (into_struct (field_ext cid_ok) j zero_ext)
          else into_struct (\<lambda>k v e. if field_is ''external'' k
                                    then into_ptr zero_ext (into_struct (field_ext cid_ok)) v e else Some e) j None))"

definition EmbedRecord_UnmarshalJSON :: "json \<Rightarrow> RepoStrongRef option option" where
  "EmbedRecord_UnmarshalJSON j =
     (case raw_fields j of None \<Rightarrow> None
      | Some flds \<Rightarrow>
         (if flds ''uri'' \<noteq> None then map_option Some (RepoStrongRef_UnmarshalJSON j zero_ref)
          else into_struct (\<lambda>k v r. if field_is ''record'' k
                                    then into_ptr zero_ref RepoStrongRef_UnmarshalJSON v r else Some r) j None))"

text \<open>
  The members of an embed are looked up in the raw fields one after the other; the first
  that fails to decode stops the decoder. \<open>dec_part\<close> is one such look-up.
\<close>

definition dec_part :: "(string \<rightharpoonup> json) \<Rightarrow> string \<Rightarrow> (json \<Rightarrow> 'a option) \<Rightarrow> 'a option \<Rightarrow> 'a option option" where
  "dec_part flds k f old =
     (case flds k of None \<Rightarrow> Some old | Some part \<Rightarrow> map_option Some (f part))"

definition Media_UnmarshalJSON :: "(string \<Rightarrow> bool) \<Rightarrow> json \<Rightarrow> EmbedRecordWithMedia_Media \<Rightarrow> EmbedRecordWithMedia_Media option" where
  "Media_UnmarshalJSON cid_ok j e =
     (case raw_fields j of None \<Rightarrow> None
      | Some flds \<Rightarrow>
     (case dec_part flds ''images'' (\<lambda>p. EmbedImages_UnmarshalJSON cid_ok p []) (MImages e) of None \<Rightarrow> None
      | Some im \<Rightarrow>
     (case dec_part flds ''video'' (dec_video cid_ok) (MVideo e) of None \<Rightarrow> None
      | Some vi \<Rightarrow>
     (case dec_part flds ''external'' (EmbedExternal_UnmarshalJSON cid_ok) (MExternal e) of None \<Rightarrow> None
      | Some ex \<Rightarrow> Some \<lparr>MImages = im, MVideo = vi, MExternal = ex\<rparr>))))"

definition field_rwm :: "(string \<Rightarrow> bool) \<Rightarrow> string \<Rightarrow> json \<Rightarrow> EmbedRecordWithMedia \<Rightarrow> EmbedRecordWithMedia option" where
  "field_rwm cid_ok k j r =
     (if field_is ''record'' k then
        map_option (\<lambda>x. r\<lparr>RRecord := x\<rparr>) (into_ptr None (\<lambda>v _. EmbedRecord_UnmarshalJSON v) j (RRecord r))
      else if field_is ''media'' k then
        map_option (\<lambda>x. r\<lparr>RMedia := x\<rparr>)
          (into_ptr \<lparr>MImages = None, MVideo = None, MExternal = None\<rparr> (Media_UnmarshalJSON cid_ok) j (RMedia r))
      else Some r)"

definition FeedPost_Embed_UnmarshalJSON :: "(string \<Rightarrow> bool) \<Rightarrow> json \<Rightarrow> FeedPost_Embed \<Rightarrow> FeedPost_Embed option" where
  "FeedPost_Embed_UnmarshalJSON cid_ok j e =
     (case raw_fields j of None \<Rightarrow> None
      | Some flds \<Rightarrow>
     (case dec_part flds ''images'' (\<lambda>p. EmbedImages_UnmarshalJSON cid_ok p []) (EmbedImages e) of None \<Rightarrow> None
      | Some im \<Rightarrow>
     (case dec_part flds ''video'' (dec_video cid_ok) (EmbedVideo e) of None \<Rightarrow> None
      | Some vi \<Rightarrow>
     (case dec_part flds ''external'' (EmbedExternal_UnmarshalJSON cid_ok) (EmbedExternal e) of None \<Rightarrow> None
      | Some ex \<Rightarrow>
     (case dec_part flds ''record'' EmbedRecord_UnmarshalJSON (EmbedRecord e) of None \<Rightarrow> None
      | Some re \<Rightarrow>
     (case dec_part flds ''recordWithMedia''
             (\<lambda>p. into_struct (field_rwm cid_ok) p \<lparr>RRecord = None, RMedia = None\<rparr>) (EmbedRecordWithMedia e) of None \<Rightarrow> None
      | Some rw \<Rightarrow> Some \<lparr>EmbedImages = im, EmbedVideo = vi, EmbedExternal = ex,
                       EmbedRecord = re, EmbedRecordWithMedia = rw\<rparr>))))))"

text \<open>
  A facet feature: \<open>link\<close>, \<open>mention\<close> and \<open>tag\<close> objects (a tag may be a bare string), then the
  flattened \<open>uri\<close>, \<open>did\<close> and \<open>tag\<close> members where the object form was absent.
\<close>

definition one_field :: "string \<Rightarrow> json \<Rightarrow> string option" where
  "one_field name j = into_struct (\<lambda>k v s. if field_is name k then into_string v s else Some s) j []"

definition dec_tag :: "json \<Rightarrow> string option" where
  "dec_tag part = (case part of JStr s \<Rightarrow> Some s | _ \<Rightarrow> one_field ''tag'' part)"

definition dec_flat :: "(string \<rightharpoonup> json) \<Rightarrow> string \<Rightarrow> string option \<Rightarrow> string option option" where
  "dec_flat flds k old =
     (if old \<noteq> None then Some old
      else case flds k of None \<Rightarrow> Some None
        | Some part \<Rightarrow> (case into_string part [] of None \<Rightarrow> None
            | Some s \<Rightarrow> Some (if TrimSpace s \<noteq> [] then Some s else None)))"

text \<open>The last branch of the source ignores its decoding error.\<close>

definition dec_flat_tag :: "(string \<rightharpoonup> json) \<Rightarrow> string option \<Rightarrow> string option" where
  "dec_flat_tag flds old =
     (if old \<noteq> None then old
      else case flds ''tag'' of None \<Rightarrow> None
        | Some part \<Rightarrow> (case into_string part [] of None \<Rightarrow> None
            | Some s \<Rightarrow> if TrimSpace s \<noteq> [] then Some s else None))"

definition Features_Elem_UnmarshalJSON :: "json \<Rightarrow> Features_Elem \<Rightarrow> Features_Elem option" where
  "Features_Elem_UnmarshalJSON j f =
     (case raw_fields j of None \<Rightarrow> None
      | Some flds \<Rightarrow>
     (case dec_part flds ''link'' (one_field ''uri'') (FLink f) of None \<Rightarrow> None
      | Some li \<Rightarrow>
     (case dec_part flds ''mention'' (one_field ''did'') (FMention f) of None \<Rightarrow> None
      | Some me \<Rightarrow>
     (case dec_part flds ''tag'' dec_tag (FTag f) of None \<Rightarrow> None
      | Some ta \<Rightarrow>
     (case dec_flat flds ''uri'' li of None \<Rightarrow> None
      | Some li' \<Rightarrow>
     (case dec_flat flds ''did'' me of None \<Rightarrow> None
      | Some me' \<Rightarrow> Some \<lparr>FLink = li', FMention = me', FTag = dec_flat_tag flds ta\<rparr>))))))"

definition field_slice :: "string \<Rightarrow> json \<Rightarrow> ByteSlice \<Rightarrow> ByteSlice option" where
  "field_slice k j b =
     (if field_is ''byteStart'' k then map_option (\<lambda>n. b\<lparr>ByteStart := n\<rparr>) (into_int64 j (ByteStart b))
      else if field_is ''byteEnd'' k then map_option (\<lambda>n. b\<lparr>ByteEnd := n\<rparr>) (into_int64 j (ByteEnd b))
      else Some b)"

definition field_facet :: "string \<Rightarrow> json \<Rightarrow> RichtextFacet \<Rightarrow> RichtextFacet option" where
  "field_facet k j f =
     (if field_is ''index'' k then
        map_option (\<lambda>x. f\<lparr>Index := x\<rparr>)
          (into_ptr \<lparr>ByteStart = 0, ByteEnd = 0\<rparr> (into_struct field_slice) j (Index f))
      else if field_is ''features'' k then
        map_option (\<lambda>x. f\<lparr>Features := x\<rparr>)
          (into_slice (\<lambda>e. into_ptr \<lparr>FLink = None, FMention = None, FTag = None\<rparr>
                            Features_Elem_UnmarshalJSON e None) j (Features f))
      else Some f)"

definition field_reply :: "string \<Rightarrow> json \<Rightarrow> ReplyRef \<Rightarrow> ReplyRef option" where
  "field_reply k j r =
     (if field_is ''root'' k then
        map_option (\<lambda>x. r\<lparr>Root := x\<rparr>) (into_ptr zero_ref RepoStrongRef_UnmarshalJSON j (Root r))
      else if field_is ''parent'' k then
        map_option (\<lambda>x. r\<lparr>Parent := x\<rparr>) (into_ptr zero_ref RepoStrongRef_UnmarshalJSON j (Parent r))
      else Some r)"

definition dec_string :: "json \<Rightarrow> string option" where
  "dec_string e = into_string e []"

abbreviation zero_embed :: FeedPost_Embed where
  "zero_embed \<equiv> \<lparr>EmbedImages = None, EmbedVideo = None, EmbedExternal = None,
                 EmbedRecord = None, EmbedRecordWithMedia = None\<rparr>"

definition field_post :: "(string \<Rightarrow> bool) \<Rightarrow> string \<Rightarrow> json \<Rightarrow> FeedPost \<Rightarrow> FeedPost option" where
  "field_post cid_ok k j p =
     (if field_is ''$type'' k then map_option (\<lambda>s. p\<lparr>LexiconTypeID := s\<rparr>) (into_string j (LexiconTypeID p))
      else if field_is ''createdAt'' k then map_option (\<lambda>s. p\<lparr>CreatedAt := s\<rparr>) (into_string j (CreatedAt p))
      else if field_is ''embed'' k then
        map_option (\<lambda>x. p\<lparr>Embed := x\<rparr>) (into_ptr zero_embed (FeedPost_Embed_UnmarshalJSON cid_ok) j (Embed p))
      else if field_is ''facets'' k then
        map_option (\<lambda>x. p\<lparr>Facets := x\<rparr>)
          (into_slice (\<lambda>e. into_ptr \<lparr>Index = None, Features = []\<rparr> (into_struct field_facet) e None) j (Facets p))
      else if field_is ''langs'' k then map_option (\<lambda>x. p\<lparr>Langs := x\<rparr>) (into_slice dec_string j (Langs p))
      else if field_is ''reply'' k then
        map_option (\<lambda>x. p\<lparr>Reply := x\<rparr>) (into_ptr \<lparr>Root = None, Parent = None\<rparr> (into_struct field_reply) j (Reply p))
      else if field_is ''tags'' k then map_option (\<lambda>x. p\<lparr>Tags := x\<rparr>) (into_slice dec_string j (Tags p))
      else if field_is ''text'' k then map_option (\<lambda>s. p\<lparr>Text := s\<rparr>) (into_string j (Text p))
      else Some p)"

definition dec_FeedPost :: "(string \<Rightarrow> bool) \<Rightarrow> json \<Rightarrow> FeedPost option" where
  "dec_FeedPost cid_ok j =
     into_struct (field_post cid_ok) j
       \<lparr>LexiconTypeID = [], CreatedAt = [], Embed = None, Facets = [], Langs = [], Reply = None,
        Tags = [], Text = []\<rparr>"

text \<open>\<open>FeedLike\<close> and \<open>FeedRepost\<close> have the same fields, as have \<open>GraphFollow\<close> and \<open>GraphBlock\<close>.\<close>

definition field_like :: "string \<Rightarrow> json \<Rightarrow> FeedLike \<Rightarrow> FeedLike option" where
  "field_like k j l =
     (if field_is ''$type'' k then map_option (\<lambda>s. l\<lparr>LType := s\<rparr>) (into_string j (LType l))
      else if field_is ''subject'' k then
        map_option (\<lambda>x. l\<lparr>LSubject := x\<rparr>) (into_ptr zero_ref RepoStrongRef_UnmarshalJSON j (LSubject l))
      else if field_is ''createdAt'' k then map_option (\<lambda>s. l\<lparr>LCreatedAt := s\<rparr>) (into_string j (LCreatedAt l))
      else Some l)"

definition dec_FeedLike :: "json \<Rightarrow> FeedLike option" where
  "dec_FeedLike j = into_struct field_like j \<lparr>LType = [], LSubject = None, LCreatedAt = []\<rparr>"

definition field_follow :: "string \<Rightarrow> json \<Rightarrow> GraphFollow \<Rightarrow> GraphFollow option" where
  "field_follow k j g =
     (if field_is ''$type'' k then map_option (\<lambda>s. g\<lparr>GType := s\<rparr>) (into_string j (GType g))
      else if field_is ''subject'' k then map_option (\<lambda>s. g\<lparr>GSubject := s\<rparr>) (into_string j (GSubject g))
      else if field_is ''createdAt'' k then map_option (\<lambda>s. g\<lparr>GCreatedAt := s\<rparr>) (into_string j (GCreatedAt g))
      else Some g)"

definition dec_GraphFollow :: "json \<Rightarrow> GraphFollow option" where
  "dec_GraphFollow j = into_struct field_follow j \<lparr>GType = [], GSubject = [], GCreatedAt = []\<rparr>"

definition field_profile :: "(string \<Rightarrow> bool) \<Rightarrow> string \<Rightarrow> json \<Rightarrow> ActorProfile \<Rightarrow> ActorProfile option" where
  "field_profile cid_ok k j p =
     (if field_is ''$type'' k then map_option (\<lambda>s. p\<lparr>PType := s\<rparr>) (into_string j (PType p))
      else if field_is ''displayName'' k then
        map_option (\<lambda>s. p\<lparr>DisplayName := s\<rparr>) (into_ptr [] into_string j (DisplayName p))
      else if field_is ''description'' k then
        map_option (\<lambda>s. p\<lparr>Description := s\<rparr>) (into_ptr [] into_string j (Description p))
      else if field_is ''avatar'' k then map_option (\<lambda>b. p\<lparr>Avatar := b\<rparr>) (into_blob cid_ok j (Avatar p))
      else if field_is ''banner'' k then map_option (\<lambda>b. p\<lparr>Banner := b\<rparr>) (into_blob cid_ok j (Banner p))
      else Some p)"

definition dec_ActorProfile :: "(string \<Rightarrow> bool) \<Rightarrow> json \<Rightarrow> ActorProfile option" where
  "dec_ActorProfile cid_ok j =
     into_struct (field_profile cid_ok) j
       \<lparr>PType = [], DisplayName = None, Description = None, Avatar = None, Banner = None\<rparr>"

end
