(* ===== verification/Mapper.thy ===== *)
theory Mapper
  imports Appbsky "HOL-Library.Product_Lexorder"
begin

text \<open>
  \<open>internal/mapper/mapper.go\<close>: from ATProto records to SSB message maps, the replacement of
  ATProto references by SSB references, and the checks before publishing. JSON text is
  parsed by the argument \<open>jp\<close> (the syntactic half of \<open>json.Unmarshal\<close>).
\<close>

section \<open>Record types and errors\<close>

definition RecordTypePost :: string where "RecordTypePost = ''app.bsky.feed.post''"
definition RecordTypeLike :: string where "RecordTypeLike = ''app.bsky.feed.like''"
definition RecordTypeRepost :: string where "RecordTypeRepost = ''app.bsky.feed.repost''"
definition RecordTypeFollow :: string where "RecordTypeFollow = ''app.bsky.graph.follow''"
definition RecordTypeBlock :: string where "RecordTypeBlock = ''app.bsky.graph.block''"
definition RecordTypeProfile :: string where "RecordTypeProfile = ''app.bsky.actor.profile''"
definition RecordTypeList :: string where "RecordTypeList = ''app.bsky.graph.list''"
definition RecordTypeListItem :: string where "RecordTypeListItem = ''app.bsky.graph.listitem''"
definition RecordTypeThreadgate :: string where "RecordTypeThreadgate = ''app.bsky.feed.threadgate''"

lemmas record_type_defs =
  RecordTypePost_def RecordTypeLike_def RecordTypeRepost_def RecordTypeFollow_def
  RecordTypeBlock_def RecordTypeProfile_def RecordTypeList_def RecordTypeListItem_def
  RecordTypeThreadgate_def

text \<open>\<open>Panic\<close> is a run-time panic (a nil dereference or a slice out of range).\<close>

datatype map_error = DecodeError | UnsupportedRecordType string | Panic

section \<open>Mentions\<close>

definition asString :: "val option \<Rightarrow> string" where
  "asString raw = (case raw of None \<Rightarrow> [] | Some VNil \<Rightarrow> [] | Some v \<Rightarrow> Sprint v)"

definition mention_key :: "msg \<Rightarrow> string" where
  "mention_key m =
     TrimSpace (asString (map_of m ''link'')) @ ''|'' @ TrimSpace (asString (map_of m ''name''))"

definition appendUniqueMention :: "msg list \<Rightarrow> string list \<Rightarrow> msg \<Rightarrow> msg list \<times> string list" where
  "appendUniqueMention mentions seen mention =
     (if TrimSpace (asString (map_of mention ''link'')) = [] then (mentions, seen)
      else let key = mention_key mention
           in if key \<in> set seen then (mentions, seen)
              else (mentions @ [mention], key # seen))"

definition normalizedMentions :: "val option \<Rightarrow> msg list" where
  "normalizedMentions raw =
     (case raw of Some (VMaps ms) \<Rightarrow> ms
      | Some (VList vs) \<Rightarrow> List.map_filter (\<lambda>v. case v of VMap m \<Rightarrow> Some m | _ \<Rightarrow> None) vs
      | _ \<Rightarrow> [])"

section \<open>Rich text\<close>

record textFacet =
  tf_start :: int
  tf_end :: int
  tf_facet :: RichtextFacet

text \<open>\<open>s[a:b]\<close>: \<open>None\<close> is the run-time panic of an index out of range.\<close>

definition slice :: "string \<Rightarrow> int \<Rightarrow> int \<Rightarrow> string option" where
  "slice s a b =
     (if 0 \<le> a \<and> a \<le> b \<and> b \<le> int (length s) then Some (take (nat (b - a)) (drop (nat a) s)) else None)"

definition ranged_facets :: "RichtextFacet option list \<Rightarrow> textFacet list" where
  "ranged_facets facets =
     sort_key (\<lambda>f. (tf_start f, tf_end f))
       (List.map_filter (\<lambda>fo. case fo of None \<Rightarrow> None
          | Some f \<Rightarrow> (case Index f of None \<Rightarrow> None
              | Some ix \<Rightarrow> Some \<lparr>tf_start = ByteStart ix, tf_end = ByteEnd ix, tf_facet = f\<rparr>)) facets)"

fun rewriteFeatures :: "string \<Rightarrow> Features_Elem option list \<Rightarrow> string" where
  "rewriteFeatures segment [] = segment"
| "rewriteFeatures segment (fo # fs) =
     (case fo of None \<Rightarrow> rewriteFeatures segment fs
      | Some f \<Rightarrow> (case FLink f of None \<Rightarrow> rewriteFeatures segment fs
          | Some raw \<Rightarrow> (let uri = TrimSpace raw
              in if uri = [] \<or> TrimSpace segment = uri then segment
                 else ''['' @ segment @ '']('' @ uri @ '')'')))"

definition rewriteFacetSegment :: "string \<Rightarrow> RichtextFacet \<Rightarrow> string" where
  "rewriteFacetSegment segment facet = rewriteFeatures segment (Features facet)"

definition feature_mention :: "string \<Rightarrow> Features_Elem \<Rightarrow> msg option" where
  "feature_mention segment f =
     (case FMention f of
        Some did \<Rightarrow> Some [(''link'', VStr did), (''name'', VStr segment)]
      | None \<Rightarrow>
         (case FTag f of None \<Rightarrow> None
          | Some raw \<Rightarrow> (let tag = TrimSpace (TrimPrefix raw ''#'')
              in if tag = [] then None
                 else Some [(''link'', VStr (''#'' @ tag)),
                            (''name'', VStr (if TrimSpace segment = [] then ''#'' @ tag else segment))])))"

fun appendFeatures :: "string \<Rightarrow> Features_Elem option list \<Rightarrow> msg list \<times> string list \<Rightarrow> msg list \<times> string list" where
  "appendFeatures segment [] acc = acc"
| "appendFeatures segment (fo # fs) acc =
     (case fo of None \<Rightarrow> appendFeatures segment fs acc
      | Some f \<Rightarrow> (case feature_mention segment f of None \<Rightarrow> appendFeatures segment fs acc
          | Some m \<Rightarrow> appendFeatures segment fs (appendUniqueMention (fst acc) (snd acc) m)))"

definition appendFacetMentions :: "msg list \<Rightarrow> string list \<Rightarrow> string \<Rightarrow> RichtextFacet \<Rightarrow> msg list \<times> string list" where
  "appendFacetMentions mentions seen segment facet = appendFeatures segment (Features facet) (mentions, seen)"

text \<open>The loop over the sorted facets: position, text written so far, mentions, seen keys.\<close>

fun rewrite_loop :: "string \<Rightarrow> textFacet list \<Rightarrow> int \<Rightarrow> string \<Rightarrow> msg list \<times> string list
    \<Rightarrow> (int \<times> string \<times> (msg list \<times> string list)) option" where
  "rewrite_loop text [] prev out acc = Some (prev, out, acc)"
| "rewrite_loop text (f # fs) prev out acc =
     (if tf_start f < prev \<or> tf_start f < 0 \<or> tf_end f < tf_start f \<or> int (length text) < tf_end f
      then rewrite_loop text fs prev out acc
      else case slice text prev (tf_start f) of None \<Rightarrow> None
       | Some before \<Rightarrow> (case slice text (tf_start f) (tf_end f) of None \<Rightarrow> None
          | Some segment \<Rightarrow>
             rewrite_loop text fs (tf_end f) (out @ before @ rewriteFacetSegment segment (tf_facet f))
               (appendFacetMentions (fst acc) (snd acc) segment (tf_facet f))))"

fun append_tags :: "string list \<Rightarrow> msg list \<times> string list \<Rightarrow> msg list \<times> string list" where
  "append_tags [] acc = acc"
| "append_tags (t # ts) acc =
     (let tag = TrimSpace (TrimPrefix t ''#'')
      in if tag = [] then append_tags ts acc
         else append_tags ts (appendUniqueMention (fst acc) (snd acc)
                [(''link'', VStr (''#'' @ tag)), (''name'', VStr (''#'' @ tag))]))"

definition rewriteRichText :: "string \<Rightarrow> RichtextFacet option list \<Rightarrow> string list \<Rightarrow> (string \<times> msg list) option" where
  "rewriteRichText text facets tags =
     (case rewrite_loop text (ranged_facets facets) 0 [] ([], []) of None \<Rightarrow> None
      | Some (prev, out, acc) \<Rightarrow>
         (case slice text prev (int (length text)) of None \<Rightarrow> None
          | Some rest \<Rightarrow> Some (out @ rest, fst (append_tags tags acc))))"

section \<open>Mapping one record\<close>

definition quoteSubjectURI :: "FeedPost_Embed option \<Rightarrow> string" where
  "quoteSubjectURI emb =
     (case emb of None \<Rightarrow> []
      | Some e \<Rightarrow> (case EmbedRecord e of
          Some (Some r) \<Rightarrow> TrimSpace (Uri r)
        | _ \<Rightarrow> (case EmbedRecordWithMedia e of
            Some rwm \<Rightarrow> (case RRecord rwm of Some (Some r) \<Rightarrow> TrimSpace (Uri r) | _ \<Rightarrow> [])
          | None \<Rightarrow> [])))"

definition mapPost :: "(string \<Rightarrow> bool) \<Rightarrow> json \<Rightarrow> map_error + msg" where
  "mapPost cid_ok j =
     (case dec_FeedPost cid_ok j of None \<Rightarrow> Inl DecodeError
      | Some post \<Rightarrow>
     (case rewriteRichText (Text post) (Facets post) (Tags post) of None \<Rightarrow> Inl Panic
      | Some (text, mentions) \<Rightarrow>
         (let res = [(''type'', VStr ''post''), (''text'', VStr text)];
              res = (if mentions \<noteq> [] then gput ''mentions'' (VMaps mentions) res else res);
              res = (case Reply post of None \<Rightarrow> res
                     | Some r \<Rightarrow>
                        (let res = (case Root r of None \<Rightarrow> res
                               | Some s \<Rightarrow> gput ''_atproto_reply_root'' (VStr (Uri s)) res)
                         in case Parent r of None \<Rightarrow> res
                               | Some s \<Rightarrow> gput ''_atproto_reply_parent'' (VStr (Uri s)) res));
              quoteURI = quoteSubjectURI (Embed post)
          in Inr (if quoteURI \<noteq> [] then gput ''_atproto_quote_subject'' (VStr quoteURI) res else res))))"

definition mapLike :: "json \<Rightarrow> map_error + msg" where
  "mapLike j =
     (case dec_FeedLike j of None \<Rightarrow> Inl DecodeError
      | Some like \<Rightarrow> (case LSubject like of None \<Rightarrow> Inl Panic
          | Some s \<Rightarrow> Inr [(''type'', VStr ''vote''),
                          (''vote'', VMap [(''value'', VInt 1), (''expression'', VStr ''Like'')]),
                          (''_atproto_subject'', VStr (Uri s))]))"

definition mapRepost :: "json \<Rightarrow> map_error + msg" where
  "mapRepost j =
     (case dec_FeedLike j of None \<Rightarrow> Inl DecodeError
      | Some repost \<Rightarrow> (case LSubject repost of None \<Rightarrow> Inl Panic
          | Some s \<Rightarrow> Inr [(''type'', VStr ''repost''), (''_atproto_repost_subject'', VStr (Uri s))]))"

definition mapFollow :: "json \<Rightarrow> map_error + msg" where
  "mapFollow j =
     (case dec_GraphFollow j of None \<Rightarrow> Inl DecodeError
      | Some follow \<Rightarrow> Inr [(''type'', VStr ''contact''), (''following'', VBool True),
                           (''blocking'', VBool False), (''_atproto_contact'', VStr (GSubject follow))])"

definition mapBlock :: "json \<Rightarrow> map_error + msg" where
  "mapBlock j =
     (case dec_GraphFollow j of None \<Rightarrow> Inl DecodeError
      | Some block \<Rightarrow> Inr [(''type'', VStr ''contact''), (''following'', VBool False),
                          (''blocking'', VBool True), (''_atproto_contact'', VStr (GSubject block))])"

definition mapProfile :: "(string \<Rightarrow> bool) \<Rightarrow> string \<Rightarrow> json \<Rightarrow> map_error + msg" where
  "mapProfile cid_ok atDID j =
     (case dec_ActorProfile cid_ok j of None \<Rightarrow> Inl DecodeError
      | Some profile \<Rightarrow>
         (let res = [(''type'', VStr ''about''), (''_atproto_about_did'', VStr atDID)];
              res = (case DisplayName profile of None \<Rightarrow> res | Some n \<Rightarrow> gput ''name'' (VStr n) res)
          in Inr (case Description profile of None \<Rightarrow> res | Some d \<Rightarrow> gput ''description'' (VStr d) res)))"

record listRecord =
  LName :: string
  LPurpose :: string
  LDescription :: string

definition field_list :: "string \<Rightarrow> json \<Rightarrow> listRecord \<Rightarrow> listRecord option" where
  "field_list k j l =
     (if field_is ''name'' k then map_option (\<lambda>s. l\<lparr>LName := s\<rparr>) (into_string j (LName l))
      else if field_is ''purpose'' k then map_option (\<lambda>s. l\<lparr>LPurpose := s\<rparr>) (into_string j (LPurpose l))
      else if field_is ''description'' k then map_option (\<lambda>s. l\<lparr>LDescription := s\<rparr>) (into_string j (LDescription l))
      else Some l)"

definition mapList :: "json \<Rightarrow> map_error + msg" where
  "mapList j =
     (case into_struct field_list j \<lparr>LName = [], LPurpose = [], LDescription = []\<rparr> of None \<Rightarrow> Inl DecodeError
      | Some l \<Rightarrow> Inr [(''type'', VStr ''list''), (''name'', VStr (LName l)),
                      (''purpose'', VStr (LPurpose l)), (''description'', VStr (LDescription l))])"

record listItemRecord =
  IList :: string
  ISubject :: string

definition field_listitem :: "string \<Rightarrow> json \<Rightarrow> listItemRecord \<Rightarrow> listItemRecord option" where
  "field_listitem k j i =
     (if field_is ''list'' k then map_option (\<lambda>s. i\<lparr>IList := s\<rparr>) (into_string j (IList i))
      else if field_is ''subject'' k then map_option (\<lambda>s. i\<lparr>ISubject := s\<rparr>) (into_string j (ISubject i))
      else Some i)"

definition mapListItem :: "json \<Rightarrow> map_error + msg" where
  "mapListItem j =
     (case into_struct field_listitem j \<lparr>IList = [], ISubject = []\<rparr> of None \<Rightarrow> Inl DecodeError
      | Some i \<Rightarrow> Inr [(''type'', VStr ''listitem''), (''_atproto_list'', VStr (IList i)),
                      (''_atproto_contact'', VStr (ISubject i))])"

text \<open>\<open>Allow\<close> is nil when the member is absent or null.\<close>

record threadgateRecord =
  Post :: string
  Allow :: "val list option"

fun into_any_slice :: "json \<Rightarrow> val list option option" where
  "into_any_slice (JArr js) = Some (Some (map json_val js))"
| "into_any_slice JNull = Some None"
| "into_any_slice _ = None"

definition field_gate :: "string \<Rightarrow> json \<Rightarrow> threadgateRecord \<Rightarrow> threadgateRecord option" where
  "field_gate k j g =
     (if field_is ''post'' k then map_option (\<lambda>s. g\<lparr>Post := s\<rparr>) (into_string j (Post g))
      else if field_is ''allow'' k then map_option (\<lambda>a. g\<lparr>Allow := a\<rparr>) (into_any_slice j)
      else Some g)"

definition mapThreadgate :: "json \<Rightarrow> map_error + msg" where
  "mapThreadgate j =
     (case into_struct field_gate j \<lparr>Post = [], Allow = None\<rparr> of None \<Rightarrow> Inl DecodeError
      | Some g \<Rightarrow> Inr [(''type'', VStr ''threadgate''), (''_atproto_subject'', VStr (Post g)),
                      (''allow'', (case Allow g of None \<Rightarrow> VNilList | Some a \<Rightarrow> VList a))])"

definition with_json :: "(string \<Rightarrow> json option) \<Rightarrow> string \<Rightarrow> (json \<Rightarrow> map_error + msg) \<Rightarrow> map_error + msg" where
  "with_json jp raw f = (case jp raw of None \<Rightarrow> Inl DecodeError | Some j \<Rightarrow> f j)"

definition MapRecord :: "(string \<Rightarrow> json option) \<Rightarrow> (string \<Rightarrow> bool) \<Rightarrow> string \<Rightarrow> string \<Rightarrow> string \<Rightarrow> map_error + msg" where
  "MapRecord jp cid_ok recordType atDID rawJSON =
     (if recordType = RecordTypePost then with_json jp rawJSON (mapPost cid_ok)
      else if recordType = RecordTypeLike then with_json jp rawJSON mapLike
      else if recordType = RecordTypeRepost then with_json jp rawJSON mapRepost
      else if recordType = RecordTypeFollow then with_json jp rawJSON mapFollow
      else if recordType = RecordTypeBlock then with_json jp rawJSON mapBlock
      else if recordType = RecordTypeProfile then with_json jp rawJSON (mapProfile cid_ok atDID)
      else if recordType = RecordTypeList then with_json jp rawJSON mapList
      else if recordType = RecordTypeListItem then with_json jp rawJSON mapListItem
      else if recordType = RecordTypeThreadgate then with_json jp rawJSON mapThreadgate
      else Inl (UnsupportedRecordType recordType))"

section \<open>Replacing references\<close>

definition appendMarkdownBlock :: "string \<Rightarrow> string \<Rightarrow> string" where
  "appendMarkdownBlock text block =
     (let text = TrimRight text (CHR 0x0A); block = TrimSpace block
      in if block = [] then text else if text = [] then block
         else text @ [CHR 0x0A, CHR 0x0A] @ block)"

text \<open>
  One placeholder: when the key holds a string and the look-up answers, the SSB reference
  goes into \<open>target\<close> and the placeholder is deleted.
\<close>

definition replace_key :: "string \<Rightarrow> string \<Rightarrow> (string \<Rightarrow> string) \<Rightarrow> msg \<Rightarrow> msg" where
  "replace_key key target lookup m =
     (case str_at m key of None \<Rightarrow> m
      | Some ref \<Rightarrow> (if lookup ref \<noteq> [] then gdel key (gput target (VStr (lookup ref)) m) else m))"

definition add_tangle :: "string \<Rightarrow> msg \<Rightarrow> msg" where
  "add_tangle ssbRef m =
     (case str_at m ''root'' of None \<Rightarrow> m
      | Some ssbRoot \<Rightarrow>
         (if ssbRoot = [] then m
          else let tangles = (case map_of m ''tangles'' of Some (VMap t) \<Rightarrow> t | _ \<Rightarrow> [])
               in gput ''tangles''
                    (VMap (gput ''comment'' (VMap [(''root'', VStr ssbRoot), (''previous'', VStrs [ssbRef])]) tangles)) m))"

definition replace_parent :: "(string \<Rightarrow> string) \<Rightarrow> msg \<Rightarrow> msg" where
  "replace_parent lookupURI m =
     (case str_at m ''_atproto_reply_parent'' of None \<Rightarrow> m
      | Some parentURI \<Rightarrow>
         (let ssbRef = lookupURI parentURI
          in if ssbRef = [] then m
             else add_tangle ssbRef (gdel ''_atproto_reply_parent'' (gput ''branch'' (VStr ssbRef) m))))"

definition replace_subject :: "(string \<Rightarrow> string) \<Rightarrow> msg \<Rightarrow> msg" where
  "replace_subject lookupURI m =
     (case str_at m ''_atproto_subject'' of None \<Rightarrow> m
      | Some subjURI \<Rightarrow>
         (let ssbRef = lookupURI subjURI
          in if ssbRef = [] then m
             else gdel ''_atproto_subject''
                    (case map_of m ''vote'' of Some (VMap v) \<Rightarrow> gput ''vote'' (VMap (gput ''link'' (VStr ssbRef) v)) m
                     | _ \<Rightarrow> m)))"

definition replace_quote :: "(string \<Rightarrow> string) \<Rightarrow> msg \<Rightarrow> msg" where
  "replace_quote lookupURI m =
     (case str_at m ''_atproto_quote_subject'' of None \<Rightarrow> m
      | Some quoteURI \<Rightarrow>
         (let ssbRef = lookupURI quoteURI
          in if ssbRef = [] then m
             else let mentions = fst (appendUniqueMention (normalizedMentions (map_of m ''mentions'')) []
                                   [(''link'', VStr ssbRef), (''name'', VStr ''quoted post'')]);
                      m = gput ''mentions'' (VMaps mentions) m;
                      m = gput ''text'' (VStr (appendMarkdownBlock (asString (map_of m ''text''))
                                 (''[quoted post]('' @ ssbRef @ '')''))) m
                  in gdel ''_atproto_quote_subject'' m))"

definition resolve_mention :: "(string \<Rightarrow> string) \<Rightarrow> msg \<Rightarrow> msg option" where
  "resolve_mention lookupDID mention =
     (let link = (case str_at mention ''link'' of None \<Rightarrow> [] | Some l \<Rightarrow> l)
      in if \<not> HasPrefix link ''did:'' then Some mention
         else if lookupDID link \<noteq> [] then Some (gput ''link'' (VStr (lookupDID link)) mention)
         else None)"

definition resolve_mentions :: "(string \<Rightarrow> string) \<Rightarrow> msg \<Rightarrow> msg" where
  "resolve_mentions lookupDID m =
     (let resolved = List.map_filter (resolve_mention lookupDID) (normalizedMentions (map_of m ''mentions''))
      in if resolved \<noteq> [] then gput ''mentions'' (VMaps resolved) m else gdel ''mentions'' m)"

definition ReplaceATProtoRefs :: "msg \<Rightarrow> (string \<Rightarrow> string) \<Rightarrow> (string \<Rightarrow> string) \<Rightarrow> msg" where
  "ReplaceATProtoRefs m lookupURI lookupDID =
     (let m = replace_key ''_atproto_reply_root'' ''root'' lookupURI m;
          m = replace_key ''_atproto_list'' ''list'' lookupURI m;
          m = replace_parent lookupURI m;
          m = replace_subject lookupURI m;
          m = replace_quote lookupURI m;
          m = replace_key ''_atproto_contact'' ''contact'' lookupDID m;
          m = replace_key ''_atproto_about_did'' ''about'' lookupDID m;
          m = replace_key ''_atproto_repost_subject'' ''repost'' lookupURI m
      in resolve_mentions lookupDID m)"

section \<open>Before publishing\<close>

definition SanitizeForPublish :: "msg \<Rightarrow> msg" where
  "SanitizeForPublish m = filter (\<lambda>p. \<not> HasPrefix (fst p) ''_atproto_'') m"

definition ReadyForPublish :: "msg \<Rightarrow> bool" where
  "ReadyForPublish m =
     (let msgType = (case str_at m ''type'' of None \<Rightarrow> [] | Some t \<Rightarrow> t)
      in if msgType = ''contact''
         then TrimSpace (case str_at m ''contact'' of None \<Rightarrow> [] | Some c \<Rightarrow> c) \<noteq> []
         else if msgType = ''vote'' then
           (case map_of m ''vote'' of Some (VMap v) \<Rightarrow>
              TrimSpace (case str_at v ''link'' of None \<Rightarrow> [] | Some l \<Rightarrow> l) \<noteq> []
            | _ \<Rightarrow> False)
         else True)"

definition unresolved_keys :: "string list" where
  "unresolved_keys =
     [''_atproto_reply_root'', ''_atproto_reply_parent'', ''_atproto_subject'',
      ''_atproto_quote_subject'', ''_atproto_contact'', ''_atproto_list'',
      ''_atproto_about_did'', ''_atproto_repost_subject'']"

definition unresolved_at :: "msg \<Rightarrow> string \<Rightarrow> string option" where
  "unresolved_at m key =
     (case map_of m key of None \<Rightarrow> None
      | Some raw \<Rightarrow> (if TrimSpace (Sprint raw) \<noteq> [] then Some (key @ ''='' @ Sprint raw) else None))"

definition UnresolvedATProtoRefs :: "msg \<Rightarrow> string list" where
  "UnresolvedATProtoRefs m = List.map_filter (unresolved_at m) unresolved_keys"

section \<open>Rich text: no panic, text kept, mentions unique\<close>

lemma slice_Some:
  "0 \<le> a \<Longrightarrow> a \<le> b \<Longrightarrow> b \<le> int (length s) \<Longrightarrow> slice s a b = Some (take (nat (b - a)) (drop (nat a) s))"
  by (simp add: slice_def)

lemma slice_extend:
  assumes "0 \<le> a" "a \<le> b" "b \<le> int (length s)"
  shows "take (nat a) s @ take (nat (b - a)) (drop (nat a) s) = take (nat b) s"
proof -
  have "nat b = nat a + nat (b - a)" using assms by simp
  then show ?thesis by (simp add: take_add)
qed

lemma rewrite_loop_total:
  "0 \<le> prev \<Longrightarrow> prev \<le> int (length text) \<Longrightarrow>
   \<exists>p o' a. rewrite_loop text fs prev out acc = Some (p, o', a) \<and> prev \<le> p \<and> p \<le> int (length text)"
proof (induction fs arbitrary: prev out acc)
  case (Cons f fs)
  show ?case
  proof (cases "tf_start f < prev \<or> tf_start f < 0 \<or> tf_end f < tf_start f \<or> int (length text) < tf_end f")
    case True
    with Cons show ?thesis by simp
  next
    case False
    then have "0 \<le> tf_end f" "tf_end f \<le> int (length text)" "prev \<le> tf_end f" by auto
    note b = this
    from Cons.IH [OF b(1,2)] have "\<exists>p o' a. rewrite_loop text fs (tf_end f) out' acc' = Some (p, o', a)
        \<and> prev \<le> p \<and> p \<le> int (length text)" for out' acc'
      using b(3) order_trans by meson
    with False Cons.prems show ?thesis by (simp add: slice_Some)
  qed
qed simp

definition no_links :: "RichtextFacet \<Rightarrow> bool" where
  "no_links f \<longleftrightarrow> (\<forall>fo \<in> set (Features f). case fo of None \<Rightarrow> True | Some e \<Rightarrow> FLink e = None)"

lemma rewriteFeatures_plain:
  "\<forall>fo \<in> set fs. case fo of None \<Rightarrow> True | Some e \<Rightarrow> FLink e = None \<Longrightarrow> rewriteFeatures seg fs = seg"
  by (induction fs) (auto split: option.splits)

lemma rewrite_loop_plain:
  "\<forall>f \<in> set fs. no_links (tf_facet f) \<Longrightarrow> 0 \<le> prev \<Longrightarrow> prev \<le> int (length text) \<Longrightarrow>
   rewrite_loop text fs prev (take (nat prev) text) acc = Some (p, o', a) \<Longrightarrow> o' = take (nat p) text"
proof (induction fs arbitrary: prev acc)
  case (Cons f fs)
  show ?case
  proof (cases "tf_start f < prev \<or> tf_start f < 0 \<or> tf_end f < tf_start f \<or> int (length text) < tf_end f")
    case True
    with Cons show ?thesis by simp
  next
    case False
    then have b: "0 \<le> tf_end f" "tf_end f \<le> int (length text)" "prev \<le> tf_start f" "0 \<le> tf_start f"
      "tf_start f \<le> tf_end f" "tf_start f \<le> int (length text)" by auto
    have seg: "rewriteFacetSegment s (tf_facet f) = s" for s
      using Cons.prems(1) by (simp add: rewriteFacetSegment_def no_links_def rewriteFeatures_plain)
    have "take (nat prev) text @ take (nat (tf_start f - prev)) (drop (nat prev) text) @
          take (nat (tf_end f - tf_start f)) (drop (nat (tf_start f)) text) = take (nat (tf_end f)) text"
      using slice_extend [OF Cons.prems(2) b(3,6)] slice_extend [OF b(4,5,2)] by (metis append.assoc)
    then show ?thesis
      using Cons.IH [of "tf_end f"] Cons.prems False b by (simp add: slice_Some seg)
  qed
qed simp

definition mentions_inv :: "msg list \<times> string list \<Rightarrow> bool" where
  "mentions_inv acc \<longleftrightarrow>
     distinct (map mention_key (fst acc)) \<and> set (map mention_key (fst acc)) \<subseteq> set (snd acc) \<and>
     (\<forall>m \<in> set (fst acc). TrimSpace (asString (map_of m ''link'')) \<noteq> [])"

lemma appendUniqueMention_inv:
  "mentions_inv acc \<Longrightarrow> mentions_inv (appendUniqueMention (fst acc) (snd acc) m)"
  by (auto simp: mentions_inv_def appendUniqueMention_def Let_def)

lemma appendFeatures_inv: "mentions_inv acc \<Longrightarrow> mentions_inv (appendFeatures seg fs acc)"
  by (induction seg fs acc rule: appendFeatures.induct)
    (auto split: option.splits intro: appendUniqueMention_inv)

lemma append_tags_inv: "mentions_inv acc \<Longrightarrow> mentions_inv (append_tags ts acc)"
  by (induction ts acc rule: append_tags.induct)
    (auto simp: Let_def intro: appendUniqueMention_inv)

lemma rewrite_loop_inv:
  "rewrite_loop text fs prev out acc = Some (p, o', a) \<Longrightarrow> mentions_inv acc \<Longrightarrow> mentions_inv a"
proof (induction "text" fs prev out acc rule: rewrite_loop.induct)
  case (2 tx f fs prev out acc)
  have "mentions_inv (appendFacetMentions (fst acc) (snd acc) seg (tf_facet f))" for seg
    unfolding appendFacetMentions_def using "2.prems"(2) by (simp add: appendFeatures_inv)
  with "2" show ?case by (auto split: if_splits option.splits)
qed simp

lemma rewriteRichText_spec:
  "\<exists>out ms. rewriteRichText text facets tags = Some (out, ms) \<and> distinct (map mention_key ms) \<and>
     (\<forall>m \<in> set ms. TrimSpace (asString (map_of m ''link'')) \<noteq> []) \<and>
     ((\<forall>f. Some f \<in> set facets \<longrightarrow> no_links f) \<longrightarrow> out = text)"
proof -
  obtain p o' a where l: "rewrite_loop text (ranged_facets facets) 0 [] ([], []) = Some (p, o', a)"
    and p: "0 \<le> p" "p \<le> int (length text)"
    using rewrite_loop_total [of 0 "text" "ranged_facets facets" "[]" "([], [])"] by auto
  let ?ms = "fst (append_tags tags a)"
  have "mentions_inv a" using rewrite_loop_inv [OF l] by (simp add: mentions_inv_def)
  then have inv: "mentions_inv (append_tags tags a)" by (rule append_tags_inv)
  have r: "rewriteRichText text facets tags = Some (o' @ drop (nat p) text, ?ms)"
    using l p by (simp add: rewriteRichText_def slice_def)
  have "o' @ drop (nat p) text = text" if nl: "\<forall>f. Some f \<in> set facets \<longrightarrow> no_links f"
  proof -
    have "\<forall>f \<in> set (ranged_facets facets). no_links (tf_facet f)"
      using nl by (auto simp: ranged_facets_def map_filter_def split: option.splits)
    from rewrite_loop_plain [OF this, of 0 "text" "([], [])" p o' a] l
    show ?thesis by (simp add: append_take_drop_id)
  qed
  with r inv show ?thesis by (auto simp: mentions_inv_def)
qed

section \<open>Placeholders\<close>

definition wf_mapped :: "msg \<Rightarrow> bool" where
  "wf_mapped m \<longleftrightarrow>
     (\<forall>k v. map_of m k = Some v \<longrightarrow> HasPrefix k ''_atproto_'' \<longrightarrow> k \<in> set unresolved_keys \<and> (\<exists>s. v = VStr s))"

lemma wf_mapped_gput:
  assumes "wf_mapped m" and "HasPrefix k ''_atproto_'' \<Longrightarrow> k \<in> set unresolved_keys \<and> (\<exists>s. v = VStr s)"
  shows "wf_mapped (gput k v m)"
  using assms by (auto simp: wf_mapped_def gm_simps)

lemma wf_mapped_gdel: "wf_mapped m \<Longrightarrow> wf_mapped (gdel k m)"
  by (auto simp: wf_mapped_def gm_simps)

lemma wf_mapped_Nil [simp]: "wf_mapped []"
  by (simp add: wf_mapped_def)

lemma wf_mapped_Cons:
  assumes "wf_mapped m" and "HasPrefix k ''_atproto_'' \<Longrightarrow> k \<in> set unresolved_keys \<and> (\<exists>s. v = VStr s)"
  shows "wf_mapped ((k, v) # m)"
  using assms by (auto simp: wf_mapped_def)

lemmas wf_mapped_intros = wf_mapped_gput wf_mapped_gdel wf_mapped_Cons wf_mapped_Nil

lemma MapRecord_wf:
  assumes "MapRecord jp cid_ok t did raw = Inr m"
  shows "wf_mapped m"
proof -
  have post: "wf_mapped m" if "mapPost cid_ok j = Inr m" for j m
    using that
    by (auto simp: mapPost_def Let_def unresolved_keys_def HasPrefix_def
             split: option.splits if_splits prod.splits intro!: wf_mapped_intros)
  have prof: "wf_mapped m" if "mapProfile cid_ok did j = Inr m" for j m
    using that
    by (auto simp: mapProfile_def Let_def unresolved_keys_def HasPrefix_def
             split: option.splits intro!: wf_mapped_intros)
  have rest: "wf_mapped m" if "f j = Inr m" and
    "f \<in> {mapLike, mapRepost, mapFollow, mapBlock, mapList, mapListItem, mapThreadgate}" for f j m
    using that
    by (auto simp: mapLike_def mapRepost_def mapFollow_def mapBlock_def mapList_def mapListItem_def
              mapThreadgate_def unresolved_keys_def HasPrefix_def
             split: option.splits intro!: wf_mapped_intros)
  show ?thesis
    using assms post prof rest
    by (auto simp: MapRecord_def with_json_def split: if_splits option.splits)
qed


text \<open>Whether a placeholder's value is a string that the look-up answers.\<close>

definition answers :: "(string \<Rightarrow> string) \<Rightarrow> val option \<Rightarrow> bool" where
  "answers lookup v = (case v of Some (VStr ref) \<Rightarrow> lookup ref \<noteq> [] | _ \<Rightarrow> False)"

lemma answers_simps [simp]:
  "\<not> answers l None" "answers l (Some (VStr r)) \<longleftrightarrow> l r \<noteq> []"
  by (simp_all add: answers_def)

definition lookup_for :: "string \<Rightarrow> (string \<Rightarrow> string) \<Rightarrow> (string \<Rightarrow> string) \<Rightarrow> string \<Rightarrow> string" where
  "lookup_for key lookupURI lookupDID =
     (if key = ''_atproto_contact'' \<or> key = ''_atproto_about_did'' then lookupDID else lookupURI)"

definition settle :: "string \<Rightarrow> (string \<Rightarrow> string) \<Rightarrow> string \<Rightarrow> val option \<Rightarrow> val option" where
  "settle key lookup k v = (if k = key \<and> answers lookup v then None else v)"

lemma answers_at: "answers l (map_of m k) \<longleftrightarrow> (\<exists>r. str_at m k = Some r \<and> l r \<noteq> [])"
  by (auto simp: answers_def str_at_def split: option.splits val.splits)

lemma str_at_None: "str_at m k = None \<Longrightarrow> \<not> answers l (map_of m k)"
  by (simp add: answers_at)

lemma settle_other: "k \<noteq> key \<Longrightarrow> settle key l k v = v"
  by (simp add: settle_def)

lemma settle_same: "settle key l key v = (if answers l v then None else v)"
  by (simp add: settle_def)

lemma replace_key_at:
  "k \<noteq> target \<Longrightarrow> map_of (replace_key key target lookup m) k = settle key lookup k (map_of m k)"
  by (auto simp: replace_key_def settle_def answers_at gm_simps split: option.splits val.splits)

lemma add_tangle_at: "k \<noteq> ''tangles'' \<Longrightarrow> map_of (add_tangle r m) k = map_of m k"
  by (auto simp: add_tangle_def gm_simps Let_def split: option.splits)

lemma replace_parent_at:
  assumes "k \<noteq> ''branch''" "k \<noteq> ''tangles''"
  shows "map_of (replace_parent lookup m) k = settle ''_atproto_reply_parent'' lookup k (map_of m k)"
proof (cases "str_at m ''_atproto_reply_parent''")
  case (Some r)
  with assms show ?thesis
    by (cases "k = ''_atproto_reply_parent''"; cases "lookup r = []") (simp_all add: replace_parent_def settle_def answers_at gm_simps add_tangle_at Let_def)
next
  case None
  then show ?thesis by (cases "k = ''_atproto_reply_parent''") (simp_all add: replace_parent_def settle_def answers_at gm_simps add_tangle_at Let_def)
qed

lemma replace_subject_at:
  assumes "k \<noteq> ''vote''"
  shows "map_of (replace_subject lookup m) k = settle ''_atproto_subject'' lookup k (map_of m k)"
proof (cases "str_at m ''_atproto_subject''")
  case (Some r)
  with assms show ?thesis
    by (cases "k = ''_atproto_subject''"; cases "lookup r = []") (simp_all add: replace_subject_def settle_def answers_at gm_simps Let_def split: option.split val.split)
next
  case None
  then show ?thesis by (cases "k = ''_atproto_subject''") (simp_all add: replace_subject_def settle_def answers_at gm_simps Let_def split: option.split val.split)
qed

lemma replace_quote_at:
  assumes "k \<noteq> ''mentions''" "k \<noteq> ''text''"
  shows "map_of (replace_quote lookup m) k = settle ''_atproto_quote_subject'' lookup k (map_of m k)"
proof (cases "str_at m ''_atproto_quote_subject''")
  case (Some r)
  with assms show ?thesis
    by (cases "k = ''_atproto_quote_subject''"; cases "lookup r = []") (simp_all add: replace_quote_def settle_def answers_at gm_simps Let_def)
next
  case None
  then show ?thesis by (cases "k = ''_atproto_quote_subject''") (simp_all add: replace_quote_def settle_def answers_at gm_simps Let_def)
qed

lemma resolve_mentions_at: "k \<noteq> ''mentions'' \<Longrightarrow> map_of (resolve_mentions lookup m) k = map_of m k"
  by (auto simp: resolve_mentions_def gm_simps Let_def)

lemmas replace_at = replace_key_at replace_parent_at replace_subject_at replace_quote_at
  resolve_mentions_at

definition written_keys :: "string list" where
  "written_keys = [''root'', ''list'', ''branch'', ''tangles'', ''vote'', ''mentions'', ''text'',
     ''contact'', ''about'', ''repost'']"

lemma Replace_at:
  assumes "k \<notin> set written_keys"
  shows "map_of (ReplaceATProtoRefs m lookupURI lookupDID) k =
    (settle ''_atproto_repost_subject'' lookupURI k (settle ''_atproto_about_did'' lookupDID k
      (settle ''_atproto_contact'' lookupDID k (settle ''_atproto_quote_subject'' lookupURI k
      (settle ''_atproto_subject'' lookupURI k (settle ''_atproto_reply_parent'' lookupURI k
      (settle ''_atproto_list'' lookupURI k (settle ''_atproto_reply_root'' lookupURI k (map_of m k)))))))))"
  using assms by (simp add: ReplaceATProtoRefs_def Let_def replace_at written_keys_def)

lemma placeholder_not_written: "HasPrefix k ''_atproto_'' \<Longrightarrow> k \<notin> set written_keys"
  by (auto simp: HasPrefix_def written_keys_def)

lemma Replace_placeholder:
  assumes "k \<in> set unresolved_keys"
  shows "map_of (ReplaceATProtoRefs m lookupURI lookupDID) k =
    (if answers (lookup_for k lookupURI lookupDID) (map_of m k) then None else map_of m k)"
proof -
  have nw: "k \<notin> set written_keys" using assms by (auto simp: unresolved_keys_def written_keys_def)
  show ?thesis
    using assms unfolding Replace_at [OF nw]
    by (simp only: unresolved_keys_def list.set insert_iff empty_iff)
       (elim disjE; simp add: settle_other settle_same lookup_for_def)
qed

lemma Replace_plain:
  assumes "k \<notin> set unresolved_keys" "k \<notin> set written_keys"
  shows "map_of (ReplaceATProtoRefs m lookupURI lookupDID) k = map_of m k"
  using assms unfolding Replace_at [OF assms(2)] unresolved_keys_def
  by (simp add: settle_other)


lemma Replace_wf: "wf_mapped m \<Longrightarrow> wf_mapped (ReplaceATProtoRefs m lookupURI lookupDID)"
  unfolding wf_mapped_def
  by (metis Replace_placeholder Replace_plain option.distinct(1) placeholder_not_written)

lemma unresolved_at_str:
  "map_of m k = Some (VStr s) \<Longrightarrow> unresolved_at m k = (if TrimSpace s \<noteq> [] then Some (k @ ''='' @ s) else None)"
  by (simp add: unresolved_at_def)

lemma map_filter_cong: "\<forall>x \<in> set xs. f x = g x \<Longrightarrow> List.map_filter f xs = List.map_filter g xs"
  by (induction xs) (auto simp: List.map_filter_def)

lemma map_filter_Nil: "List.map_filter f xs = [] \<longleftrightarrow> (\<forall>x \<in> set xs. f x = None)"
  by (auto simp: List.map_filter_def filter_empty_conv)

lemma Replace_unresolved:
  "UnresolvedATProtoRefs (ReplaceATProtoRefs m lookupURI lookupDID) =
     List.map_filter (\<lambda>k. if answers (lookup_for k lookupURI lookupDID) (map_of m k) then None else unresolved_at m k)
       unresolved_keys"
  unfolding UnresolvedATProtoRefs_def
  by (rule map_filter_cong) (simp add: unresolved_at_def Replace_placeholder)

lemma Sanitize_at:
  "map_of (SanitizeForPublish m) k = (if HasPrefix k ''_atproto_'' then None else map_of m k)"
  unfolding SanitizeForPublish_def by (induction m) auto

lemma Sanitize_drops_blank:
  assumes "wf_mapped m" and "UnresolvedATProtoRefs m = []"
    and "map_of m k = Some v" and "map_of (SanitizeForPublish m) k = None"
  shows "\<exists>s. v = VStr s \<and> TrimSpace s = []"
proof -
  from assms(3,4) have "HasPrefix k ''_atproto_''" by (simp add: Sanitize_at split: if_splits)
  with assms(1,3) obtain s where k: "k \<in> set unresolved_keys" "v = VStr s" by (auto simp: wf_mapped_def)
  with assms(2) have "unresolved_at m k = None" by (simp add: UnresolvedATProtoRefs_def map_filter_Nil)
  with k assms(3) show ?thesis by (simp add: unresolved_at_str split: if_splits)
qed

section \<open>Where resolved references go\<close>

definition targets :: "(string \<times> string) list" where
  "targets = [(''_atproto_reply_root'', ''root''), (''_atproto_list'', ''list''),
     (''_atproto_reply_parent'', ''branch''), (''_atproto_contact'', ''contact''),
     (''_atproto_about_did'', ''about''), (''_atproto_repost_subject'', ''repost'')]"

definition target_value :: "(string \<Rightarrow> string) \<Rightarrow> val option \<Rightarrow> val option \<Rightarrow> val option" where
  "target_value lookup v old = (case v of Some (VStr r) \<Rightarrow> if lookup r \<noteq> [] then Some (VStr (lookup r)) else old | _ \<Rightarrow> old)"

lemma replace_key_target:
  "key \<noteq> target \<Longrightarrow> map_of (replace_key key target lookup m) target = target_value lookup (map_of m key) (map_of m target)"
  by (auto simp: replace_key_def str_at_def target_value_def gm_simps split: option.splits val.splits)

lemma replace_parent_target:
  "map_of (replace_parent lookup m) ''branch'' =
     target_value lookup (map_of m ''_atproto_reply_parent'') (map_of m ''branch'')"
proof (cases "map_of m ''_atproto_reply_parent''")
  case (Some v)
  then show ?thesis
    by (cases v) (simp_all add: replace_parent_def str_at_def target_value_def gm_simps add_tangle_at Let_def)
qed (simp add: replace_parent_def str_at_def target_value_def)

lemma Replace_target:
  assumes "(key, target) \<in> set targets"
  shows "map_of (ReplaceATProtoRefs m lookupURI lookupDID) target =
     target_value (lookup_for key lookupURI lookupDID) (map_of m key) (map_of m target)"
  using assms unfolding ReplaceATProtoRefs_def Let_def
    by (simp only: targets_def list.set insert_iff empty_iff prod.inject)
       (elim disjE conjE; simp add: replace_at replace_key_target replace_parent_target settle_other lookup_for_def)

definition vote_value :: "(string \<Rightarrow> string) \<Rightarrow> string option \<Rightarrow> val option \<Rightarrow> val option" where
  "vote_value lookup subj old =
     (case subj of None \<Rightarrow> old
      | Some r \<Rightarrow> if lookup r = [] then old
                 else (case old of Some (VMap v) \<Rightarrow> Some (VMap (gput ''link'' (VStr (lookup r)) v)) | _ \<Rightarrow> old))"

lemma replace_subject_vote:
  "map_of (replace_subject lookup m) ''vote'' =
     vote_value lookup (str_at m ''_atproto_subject'') (map_of m ''vote'')"
  by (simp add: replace_subject_def vote_value_def gm_simps Let_def split: option.split val.split)

lemma Replace_vote:
  "map_of (ReplaceATProtoRefs m lookupURI lookupDID) ''vote'' =
     vote_value lookupURI (str_at m ''_atproto_subject'') (map_of m ''vote'')"
proof -
  let ?n = "replace_parent lookupURI (replace_key ''_atproto_list'' ''list'' lookupURI
              (replace_key ''_atproto_reply_root'' ''root'' lookupURI m))"
  have "str_at ?n ''_atproto_subject'' = str_at m ''_atproto_subject''"
    by (simp add: str_at_def replace_at settle_other)
  then show ?thesis
    unfolding ReplaceATProtoRefs_def Let_def
    by (simp add: replace_at settle_other replace_subject_vote)
qed

section \<open>Which mapped records are ready\<close>

lemma MapRecord_like:
  assumes "MapRecord jp cid_ok RecordTypeLike did raw = Inr m"
  obtains u where "m = [(''type'', VStr ''vote''),
     (''vote'', VMap [(''value'', VInt 1), (''expression'', VStr ''Like'')]), (''_atproto_subject'', VStr u)]"
  using assms that
  by (auto simp: MapRecord_def with_json_def record_type_defs mapLike_def split: option.splits)

lemma MapRecord_contact:
  assumes "MapRecord jp cid_ok t did raw = Inr m" and "t = RecordTypeFollow \<or> t = RecordTypeBlock"
  obtains u b where "m = [(''type'', VStr ''contact''), (''following'', VBool b), (''blocking'', VBool (\<not> b)),
     (''_atproto_contact'', VStr u)]" and "b \<longleftrightarrow> t = RecordTypeFollow"
  using assms(2)
proof
  assume t: "t = RecordTypeFollow"
  with assms(1) show thesis
    using that [of True]
    by (auto simp: MapRecord_def with_json_def record_type_defs mapFollow_def split: option.splits)
next
  assume t: "t = RecordTypeBlock"
  with assms(1) show thesis
    using that [of False]
    by (auto simp: MapRecord_def with_json_def record_type_defs mapBlock_def split: option.splits)
qed

lemma MapRecord_other:
  assumes "MapRecord jp cid_ok t did raw = Inr m" 
    and "t \<noteq> RecordTypeLike" "t \<noteq> RecordTypeFollow" "t \<noteq> RecordTypeBlock"
  shows "str_at m ''type'' \<noteq> Some ''vote'' \<and> str_at m ''type'' \<noteq> Some ''contact''"
  using assms
  apply (simp add: MapRecord_def with_json_def split: if_splits option.splits)
       apply (simp_all add: mapPost_def mapRepost_def mapProfile_def mapList_def mapListItem_def
         mapThreadgate_def Let_def str_at_def gm_simps split: option.splits prod.splits if_splits)
           apply (auto simp: gm_simps)
  done

lemma ready_iff_resolved:
  assumes "MapRecord jp cid_ok t did raw = Inr m"
  shows "ReadyForPublish (ReplaceATProtoRefs m lookupURI lookupDID) \<longleftrightarrow>
     (t = RecordTypeLike \<longrightarrow> TrimSpace (lookupURI (the (str_at m ''_atproto_subject''))) \<noteq> []) \<and>
     (t = RecordTypeFollow \<or> t = RecordTypeBlock \<longrightarrow> TrimSpace (lookupDID (the (str_at m ''_atproto_contact''))) \<noteq> [])"
proof -
  have ty: "map_of (ReplaceATProtoRefs m lookupURI lookupDID) ''type'' = map_of m ''type''"
    by (simp add: Replace_plain unresolved_keys_def written_keys_def)
  then have type_of: "str_at (ReplaceATProtoRefs m lookupURI lookupDID) ''type'' =
      (case map_of m ''type'' of Some (VStr s) \<Rightarrow> Some s | _ \<Rightarrow> None)"
    by (simp add: str_at_def)
  have tg: "map_of (ReplaceATProtoRefs m lookupURI lookupDID) ''contact'' =
     target_value lookupDID (map_of m ''_atproto_contact'') (map_of m ''contact'')"
    using Replace_target [of "''_atproto_contact''" "''contact''"] by (simp add: targets_def lookup_for_def)
  consider "t = RecordTypeLike" | "t = RecordTypeFollow \<or> t = RecordTypeBlock"
    | "t \<noteq> RecordTypeLike" "t \<noteq> RecordTypeFollow" "t \<noteq> RecordTypeBlock" by blast
  then show ?thesis
  proof cases
    case 1
    with assms obtain u where "m = [(''type'', VStr ''vote''),
     (''vote'', VMap [(''value'', VInt 1), (''expression'', VStr ''Like'')]), (''_atproto_subject'', VStr u)]"
      using MapRecord_like by metis
    then have "map_of m ''type'' = Some (VStr ''vote'')" "str_at m ''_atproto_subject'' = Some u"
      "map_of m ''vote'' = Some (VMap [(''value'', VInt 1), (''expression'', VStr ''Like'')])"
      by (simp_all add: str_at_def)
    then show ?thesis using 1
      by (simp add: ReadyForPublish_def type_of vote_value_def Replace_vote gm_simps record_type_defs Let_def)
  next
    case 2
    with assms obtain u b where "m = [(''type'', VStr ''contact''), (''following'', VBool b), (''blocking'', VBool (\<not> b)),
     (''_atproto_contact'', VStr u)]" using MapRecord_contact by metis
    then have "map_of m ''type'' = Some (VStr ''contact'')" "map_of m ''_atproto_contact'' = Some (VStr u)"
      "map_of m ''contact'' = None"
      by simp_all
    moreover have "t \<noteq> RecordTypeLike" using 2 by (auto simp: record_type_defs)
    ultimately show ?thesis using 2 tg
      by (simp add: ReadyForPublish_def ty str_at_def target_value_def Let_def)
  next
    case 3
    with MapRecord_other [OF assms] show ?thesis
      by (auto simp: ReadyForPublish_def type_of str_at_def [of m] Let_def split: option.splits val.splits)
  qed
qed

section \<open>Replacing twice\<close>

lemma gdel_absent: "map_of m k = None \<Longrightarrow> gdel k m = m"
  by (induction m) (auto simp: gdel_def split: if_splits)

lemma gput_present: "map_of m k = Some v \<Longrightarrow> gput k v m = m"
  by (induction m) (auto split: if_splits)

lemma replace_key_stable: "\<not> answers l (map_of m key) \<Longrightarrow> replace_key key target l m = m"
  by (auto simp: replace_key_def answers_at split: option.splits)

lemma replace_parent_stable: "\<not> answers l (map_of m ''_atproto_reply_parent'') \<Longrightarrow> replace_parent l m = m"
  by (auto simp: replace_parent_def answers_at Let_def split: option.splits)

lemma replace_subject_stable: "\<not> answers l (map_of m ''_atproto_subject'') \<Longrightarrow> replace_subject l m = m"
  by (auto simp: replace_subject_def answers_at Let_def split: option.splits)

lemma replace_quote_stable: "\<not> answers l (map_of m ''_atproto_quote_subject'') \<Longrightarrow> replace_quote l m = m"
  by (auto simp: replace_quote_def answers_at Let_def split: option.splits)

lemma resolve_mention_fixed:
  assumes "\<forall>d. \<not> HasPrefix (lookupDID d) ''did:''" and "resolve_mention lookupDID x = Some y"
  shows "resolve_mention lookupDID y = Some y"
  using assms by (auto simp: resolve_mention_def Let_def gm_simps split: if_splits)

lemma map_filter_fixed: "\<forall>x \<in> set xs. \<forall>y. f x = Some y \<longrightarrow> f y = Some y \<Longrightarrow>
   List.map_filter f (List.map_filter f xs) = List.map_filter f xs"
proof (induction xs)
  case (Cons x xs)
  then show ?case by (cases "f x") (simp_all add: List.map_filter_simps)
qed (simp add: List.map_filter_simps)

lemma resolve_mentions_idem:
  assumes "\<forall>d. \<not> HasPrefix (lookupDID d) ''did:''"
  shows "resolve_mentions lookupDID (resolve_mentions lookupDID m) = resolve_mentions lookupDID m"
proof -
  have "List.map_filter (resolve_mention lookupDID) (List.map_filter (resolve_mention lookupDID) xs) =
    List.map_filter (resolve_mention lookupDID) xs" for xs
    by (rule map_filter_fixed) (use resolve_mention_fixed [OF assms] in blast)
  then show ?thesis
    by (simp add: resolve_mentions_def Let_def gm_simps normalizedMentions_def gdel_absent gput_present
          List.map_filter_simps split: if_splits)
qed

lemma Replace_idem:
  assumes "\<forall>d. \<not> HasPrefix (lookupDID d) ''did:''"
  shows "ReplaceATProtoRefs (ReplaceATProtoRefs m lookupURI lookupDID) lookupURI lookupDID =
         ReplaceATProtoRefs m lookupURI lookupDID"
proof -
  let ?r = "ReplaceATProtoRefs m lookupURI lookupDID"
  have na: "\<not> answers (lookup_for k lookupURI lookupDID) (map_of ?r k)" if "k \<in> set unresolved_keys" for k
    using Replace_placeholder [OF that, of m lookupURI lookupDID] by simp
  have ment: "resolve_mentions lookupDID ?r = ?r"
    unfolding ReplaceATProtoRefs_def Let_def by (rule resolve_mentions_idem [OF assms])
  have keys: "\<not> answers lookupURI (map_of ?r k)" if "k \<in> {''_atproto_reply_root'', ''_atproto_list'',
      ''_atproto_reply_parent'', ''_atproto_subject'', ''_atproto_quote_subject'', ''_atproto_repost_subject''}" for k
    using that by (simp only: insert_iff empty_iff)
      (elim disjE; use na [of k] in \<open>simp add: unresolved_keys_def lookup_for_def\<close>)
  have dids: "\<not> answers lookupDID (map_of ?r k)" if "k \<in> {''_atproto_contact'', ''_atproto_about_did''}" for k
    using that by (simp only: insert_iff empty_iff)
      (elim disjE; use na [of k] in \<open>simp add: unresolved_keys_def lookup_for_def\<close>)
  show ?thesis
    unfolding ReplaceATProtoRefs_def [of ?r] Let_def
    by (simp add: replace_key_stable replace_parent_stable replace_subject_stable replace_quote_stable keys dids ment)
qed

end
