(* ===== verification/MapperProps.thy ===== *)
theory MapperProps
  imports Mapper
begin

text \<open>
  The properties of the mapper: rich text, reference replacement, readiness for publishing,
  and the record that crashes it.
\<close>

section \<open>Properties\<close>

text \<open>rewriting rich text never slices out of range, whatever the facets say; the mentions it
  returns are distinct and have a link; and text without link facets comes back unchanged.\<close>

theorem rich_text_total:
  "\<exists>out ms. rewriteRichText text facets tags = Some (out, ms) \<and> distinct (map mention_key ms) \<and>
     (\<forall>m \<in> set ms. TrimSpace (asString (map_of m ''link'')) \<noteq> []) \<and>
     ((\<forall>f. Some f \<in> set facets \<longrightarrow> no_links f) \<longrightarrow> out = text)"
  by (rule rewriteRichText_spec)

text \<open>C7: after a replacement pass the unresolved references are exactly those that were unresolved
  before and whose look-up does not answer, in the same order.\<close>

theorem replacement_leaves_unanswered:
  "UnresolvedATProtoRefs (ReplaceATProtoRefs m lookupURI lookupDID) =
     List.map_filter (\<lambda>k. if answers (lookup_for k lookupURI lookupDID) (map_of m k) then None else unresolved_at m k)
       unresolved_keys"
  by (rule Replace_unresolved)


text \<open>C9: replacing references twice with the same look-ups is replacing them once, provided feed
  look-ups do not answer with DIDs.\<close>

theorem replacement_idempotent:
  assumes "\<forall>d. \<not> HasPrefix (lookupDID d) ''did:''"
  shows "ReplaceATProtoRefs (ReplaceATProtoRefs m lookupURI lookupDID) lookupURI lookupDID =
         ReplaceATProtoRefs m lookupURI lookupDID"
  using assms by (rule Replace_idem)

text \<open>C6: a mapped record is ready to publish exactly when the reference its type requires has been
  resolved: the liked post for a like, the contact for a follow or a block, nothing otherwise.\<close>

theorem mapped_ready_iff_resolved:
  assumes "MapRecord jp cid_ok t did raw = Inr m"
  shows "ReadyForPublish (ReplaceATProtoRefs m lookupURI lookupDID) \<longleftrightarrow>
     (t = RecordTypeLike \<longrightarrow> TrimSpace (lookupURI (the (str_at m ''_atproto_subject''))) \<noteq> []) \<and>
     (t = RecordTypeFollow \<or> t = RecordTypeBlock \<longrightarrow> TrimSpace (lookupDID (the (str_at m ''_atproto_contact''))) \<noteq> [])"
  using assms by (rule ready_iff_resolved)


lemma no_subject_members:
  assumes "\<forall>p \<in> set ms. field_is ''subject'' (fst p) \<longrightarrow> snd p = JNull" and "LSubject l = None"
    and "dec_members field_like ms l = Some l'"
  shows "LSubject l' = None"
  using assms
proof (induction ms arbitrary: l)
  case (Cons p ms)
  obtain k j where p: "p = (k, j)" by (cases p)
  obtain l1 where l1: "field_like k j l = Some l1" using Cons.prems p by (auto split: option.splits)
  have "LSubject l1 = None" using l1 Cons.prems p by (auto simp: field_like_def split: if_splits)
  with Cons l1 p show ?case by auto
qed simp

text \<open>a like or repost whose subject is missing or null crashes the mapper.\<close>

theorem missing_subject_panics:
  assumes "jp raw = Some (JObj ms)" and "\<forall>p \<in> set ms. field_is ''subject'' (fst p) \<longrightarrow> snd p = JNull"
    and "dec_FeedLike (JObj ms) \<noteq> None" and "t = RecordTypeLike \<or> t = RecordTypeRepost"
  shows "MapRecord jp cid_ok t did raw = Inl Panic"
proof -
  from assms(3) obtain l where l: "dec_FeedLike (JObj ms) = Some l" by auto
  then have "LSubject l = None"
    using no_subject_members [OF assms(2), of "\<lparr>LType = [], LSubject = None, LCreatedAt = []\<rparr>" l]
    by (simp add: dec_FeedLike_def)
  with l assms(1,4) show ?thesis
    by (auto simp: MapRecord_def with_json_def record_type_defs mapLike_def mapRepost_def)
qed

section \<open>Applications\<close>

definition demo_follow :: msg where
  "demo_follow = [(''type'', VStr ''contact''), (''following'', VBool True), (''blocking'', VBool False),
     (''_atproto_contact'', VStr ''did:b'')]"

lemma demo_follow_mapped:
  "MapRecord (\<lambda>_. Some (JObj [(''subject'', JStr ''did:b'')])) (\<lambda>_. True) RecordTypeFollow ''did:a'' [] = Inr demo_follow"
  by code_simp

theorem rich_text_total_witness:
  "\<exists>ms. rewriteRichText ''hi @bob''
     [Some \<lparr>Index = Some \<lparr>ByteStart = 3, ByteEnd = 700\<rparr>, Features = [Some \<lparr>FLink = None, FMention = Some ''did:plc:b'', FTag = None\<rparr>]\<rparr>]
     [''news''] = Some (''hi @bob'', ms)"
  using rich_text_total [of "''hi @bob''"
      "[Some \<lparr>Index = Some \<lparr>ByteStart = 3, ByteEnd = 700\<rparr>, Features = [Some \<lparr>FLink = None, FMention = Some ''did:plc:b'', FTag = None\<rparr>]\<rparr>]"
      "[''news'']"]
  by (auto simp: no_links_def)


theorem replacement_idempotent_witness:
  "ReplaceATProtoRefs (ReplaceATProtoRefs demo_follow (\<lambda>_. []) (\<lambda>_. ''@b'')) (\<lambda>_. []) (\<lambda>_. ''@b'') =
   ReplaceATProtoRefs demo_follow (\<lambda>_. []) (\<lambda>_. ''@b'')"
  using replacement_idempotent [of "\<lambda>_. ''@b''" demo_follow "\<lambda>_. []"] by (simp add: HasPrefix_def)

lemma trim_b: "TrimSpace ''@b'' = ''@b''"
  by (simp add: TrimSpace_solid solid_def space_runes_def)

theorem mapped_ready_iff_resolved_witness:
  "ReadyForPublish (ReplaceATProtoRefs demo_follow (\<lambda>_. []) (\<lambda>_. ''@b'')) \<and>
   \<not> ReadyForPublish (ReplaceATProtoRefs demo_follow (\<lambda>_. []) (\<lambda>_. []))"
  using mapped_ready_iff_resolved [OF demo_follow_mapped, of "\<lambda>_. []" "\<lambda>_. ''@b''"]
    mapped_ready_iff_resolved [OF demo_follow_mapped, of "\<lambda>_. []" "\<lambda>_. []"]
  by (simp add: trim_b record_type_defs)




theorem missing_subject_panics_witness:
  "MapRecord (\<lambda>_. Some (JObj [(''createdAt'', JStr ''x'')])) (\<lambda>_. True) RecordTypeLike ''did:a'' [] = Inl Panic"
proof (rule missing_subject_panics [where ms = "[(''createdAt'', JStr ''x'')]"])
  show "\<forall>p \<in> set [(''createdAt'', JStr ''x'')]. field_is ''subject'' (fst p) \<longrightarrow> snd p = JNull" by code_simp
  show "dec_FeedLike (JObj [(''createdAt'', JStr ''x'')]) \<noteq> None" by code_simp
qed simp_all

end
