(* ===== verification/MessageStore.thy ===== *)
theory MessageStore
  imports Go_Value "HOL-Library.Product_Lexorder"
begin

text \<open>
  \<open>internal/db\<close>: the \<open>messages\<close> table and the queries the bridge runs on it
  (\<open>messages.go\<close>, \<open>message_query.go\<close>, \<open>message_cursor.go\<close>). The table is a map from
  \<open>at_uri\<close> (its primary key) to rows, in insertion order. Times are nanoseconds; the driver
  stores them as UTC text whose byte order is the order of time. A \<open>NULL\<close> text column reads
  back as the empty string, so rows hold strings.
\<close>

section \<open>Rows\<close>

record Message =
  ATURI :: string
  ATCID :: string
  SSBMsgRef :: string
  ATDID :: string
  Type :: string
  MessageState :: string
  RawATJson :: string
  RawSSBJson :: string
  PublishedAt :: "int option"
  PublishError :: string
  PublishAttempts :: int
  LastPublishAttemptAt :: "int option"
  DeferReason :: string
  DeferAttempts :: int
  LastDeferAttemptAt :: "int option"
  DeletedAt :: "int option"
  DeletedSeq :: "int option"
  DeletedReason :: string
  RootATURI :: string
  ParentATURI :: string
  CreatedAt :: int

text \<open>The zero \<open>time.Time\<close> (year 1) and the zero \<open>Message\<close>.\<close>

definition zero_time :: int where "zero_time = - 62135596800 * 10 ^ 9"

definition zero_Message :: Message where
  "zero_Message = \<lparr>ATURI = [], ATCID = [], SSBMsgRef = [], ATDID = [], Type = [], MessageState = [],
     RawATJson = [], RawSSBJson = [], PublishedAt = None, PublishError = [], PublishAttempts = 0,
     LastPublishAttemptAt = None, DeferReason = [], DeferAttempts = 0, LastDeferAttemptAt = None,
     DeletedAt = None, DeletedSeq = None, DeletedReason = [], RootATURI = [], ParentATURI = [],
     CreatedAt = zero_time\<rparr>"

definition MessageStatePending :: string where "MessageStatePending = ''pending''"
definition MessageStatePublished :: string where "MessageStatePublished = ''published''"
definition MessageStateFailed :: string where "MessageStateFailed = ''failed''"
definition MessageStateDeferred :: string where "MessageStateDeferred = ''deferred''"
definition MessageStateDeleted :: string where "MessageStateDeleted = ''deleted''"

lemmas state_defs = MessageStatePending_def MessageStatePublished_def MessageStateFailed_def
  MessageStateDeferred_def MessageStateDeleted_def

type_synonym table = "(string, Message) gmap"

section \<open>Writing\<close>

definition trunc_ms :: "int \<Rightarrow> int" where
  "trunc_ms t = (t div 1000000) * 1000000"

definition normalize_Message :: "int \<Rightarrow> Message \<Rightarrow> Message" where
  "normalize_Message now m =
     (let m = (if TrimSpace (MessageState m) = [] then m\<lparr>MessageState := MessageStatePending\<rparr> else m)
      in m\<lparr>CreatedAt := trunc_ms (if CreatedAt m = zero_time then now else CreatedAt m)\<rparr>)"

text \<open>\<open>ON CONFLICT(at_uri) DO UPDATE\<close>: every column is overwritten, the two counters add up,
  and \<open>created_at\<close> keeps its first value.\<close>

definition upsert_row :: "Message \<Rightarrow> Message \<Rightarrow> Message" where
  "upsert_row old new =
     new\<lparr>PublishAttempts := PublishAttempts old + PublishAttempts new,
         DeferAttempts := DeferAttempts old + DeferAttempts new,
         CreatedAt := CreatedAt old\<rparr>"

definition AddMessage :: "int \<Rightarrow> Message \<Rightarrow> table \<Rightarrow> table" where
  "AddMessage now msg t =
     (let new = normalize_Message now msg
      in gput (ATURI new) (case map_of t (ATURI new) of None \<Rightarrow> new | Some old \<Rightarrow> upsert_row old new) t)"

definition ResetMessageForRetry :: "string \<Rightarrow> table \<Rightarrow> table" where
  "ResetMessageForRetry atURI t =
     (case map_of t atURI of None \<Rightarrow> t
      | Some m \<Rightarrow> gput atURI (m\<lparr>MessageState := MessageStatePending, PublishError := [], PublishAttempts := 0,
                              LastPublishAttemptAt := None, DeferReason := [], DeferAttempts := 0,
                              LastDeferAttemptAt := None\<rparr>) t)"

section \<open>Reading\<close>

definition GetMessage :: "string \<Rightarrow> table \<Rightarrow> Message option" where
  "GetMessage atURI t = map_of t atURI"

definition rows :: "table \<Rightarrow> Message list" where
  "rows t = map snd t"

text \<open>\<open>COALESCE\<close> of nullable times, and \<open>TRIM\<close>, which strips blanks only.\<close>

definition coalesce :: "int option \<Rightarrow> int \<Rightarrow> int" where
  "coalesce t d = (case t of None \<Rightarrow> d | Some x \<Rightarrow> x)"

definition sql_trim :: "string \<Rightarrow> string" where
  "sql_trim s = rev (dropWhile (\<lambda>c. c = CHR '' '') (rev (dropWhile (\<lambda>c. c = CHR '' '') s)))"

definition DefaultMessageLimit :: int where "DefaultMessageLimit = 50"
definition DefaultPublishedLimit :: int where "DefaultPublishedLimit = 20"

definition limit_or :: "int \<Rightarrow> int \<Rightarrow> nat" where
  "limit_or limit dflt = nat (if limit \<le> 0 then dflt else limit)"

definition GetMessageBySSBRef :: "string \<Rightarrow> table \<Rightarrow> Message option" where
  "GetMessageBySSBRef ref t =
     (case rev (sort_key (\<lambda>m. (coalesce (PublishedAt m) (CreatedAt m), CreatedAt m, ATURI m))
             (filter (\<lambda>m. SSBMsgRef m = TrimSpace ref) (rows t)))
      of [] \<Rightarrow> None | m # _ \<Rightarrow> Some m)"

definition GetRecentMessages :: "int \<Rightarrow> table \<Rightarrow> Message list" where
  "GetRecentMessages limit t =
     take (limit_or limit DefaultMessageLimit) (sort_key (\<lambda>m. - CreatedAt m) (rows t))"

definition is_published :: "Message \<Rightarrow> bool" where
  "is_published m \<longleftrightarrow> MessageState m = MessageStatePublished \<and> sql_trim (SSBMsgRef m) \<noteq> []"

definition newest_published :: "Message list \<Rightarrow> Message list" where
  "newest_published ms =
     rev (sort_key (\<lambda>m. (coalesce (PublishedAt m) (CreatedAt m), CreatedAt m, ATURI m)) ms)"

definition ListRecentPublishedMessagesByDID :: "string \<Rightarrow> int \<Rightarrow> table \<Rightarrow> Message list" where
  "ListRecentPublishedMessagesByDID atDID limit t =
     (let atDID = TrimSpace atDID
      in if atDID = [] then []
         else take (limit_or limit DefaultPublishedLimit)
                (newest_published (filter (\<lambda>m. ATDID m = atDID \<and> is_published m) (rows t))))"

definition ListPublishedMessagesGlobal :: "int \<Rightarrow> table \<Rightarrow> Message list" where
  "ListPublishedMessagesGlobal limit t =
     take (limit_or limit DefaultMessageLimit) (newest_published (filter is_published (rows t)))"

definition count_state :: "string \<Rightarrow> table \<Rightarrow> nat" where
  "count_state s t = length (filter (\<lambda>m. MessageState m = s) (rows t))"

definition CountPublishedMessages :: "table \<Rightarrow> nat" where
  "CountPublishedMessages t = length (filter (\<lambda>m. SSBMsgRef m \<noteq> []) (rows t))"
definition CountPublishFailures :: "table \<Rightarrow> nat" where
  "CountPublishFailures t = count_state MessageStateFailed t"
definition CountDeferredMessages :: "table \<Rightarrow> nat" where
  "CountDeferredMessages t = count_state MessageStateDeferred t"
definition CountDeletedMessages :: "table \<Rightarrow> nat" where
  "CountDeletedMessages t = count_state MessageStateDeleted t"

definition retryable :: "int \<Rightarrow> Message \<Rightarrow> bool" where
  "retryable maxAttempts m \<longleftrightarrow>
     MessageState m = MessageStateFailed \<and> SSBMsgRef m = [] \<and> PublishAttempts m < maxAttempts"

definition CountExhaustedMessages :: "int \<Rightarrow> table \<Rightarrow> nat" where
  "CountExhaustedMessages maxAttempts t =
     (let maxAttempts = (if maxAttempts \<le> 0 then 8 else maxAttempts)
      in length (filter (\<lambda>m. MessageState m = MessageStateFailed \<and> SSBMsgRef m = [] \<and>
                             maxAttempts \<le> PublishAttempts m) (rows t)))"

definition GetPublishFailures :: "int \<Rightarrow> table \<Rightarrow> Message list" where
  "GetPublishFailures limit t =
     take (limit_or limit DefaultMessageLimit)
       (sort_key (\<lambda>m. - coalesce (LastPublishAttemptAt m) (coalesce (LastDeferAttemptAt m) (CreatedAt m)))
         (filter (\<lambda>m. MessageState m = MessageStateFailed \<or> MessageState m = MessageStateDeferred) (rows t)))"

definition GetRetryCandidates :: "int \<Rightarrow> string \<Rightarrow> int \<Rightarrow> table \<Rightarrow> Message list" where
  "GetRetryCandidates limit atDID maxAttempts t =
     (let maxAttempts = (if maxAttempts \<le> 0 then 8 else maxAttempts)
      in take (limit_or limit DefaultMessageLimit)
           (sort_key (\<lambda>m. coalesce (LastPublishAttemptAt m) (CreatedAt m))
             (filter (\<lambda>m. retryable maxAttempts m \<and> (TrimSpace atDID \<noteq> [] \<longrightarrow> ATDID m = TrimSpace atDID))
               (rows t))))"

text \<open>
  The dependency a deferred row waits for, as the join condition of
  \<open>GetDeferredCandidates\<close> cuts it out: from the first \<open>at://\<close> up to the next semicolon. When
  there is no \<open>at://\<close>, \<open>INSTR\<close> is 0 and \<open>SUBSTR(x, 0, n)\<close> is the first \<open>n - 1\<close> characters.
\<close>

definition is_cont :: "char \<Rightarrow> bool" where
  "is_cont c \<longleftrightarrow> 128 \<le> (of_char c :: nat) \<and> (of_char c :: nat) < 192"

fun butlast_rune :: "string \<Rightarrow> string" where
  "butlast_rune s = (let r = dropWhile is_cont (rev s) in rev (tl r))"

definition first_dependency :: "string \<Rightarrow> string" where
  "first_dependency reason =
     (case from_sub ''at://'' reason of
        Some rest \<Rightarrow> fst (split_first (CHR '';'') rest)
      | None \<Rightarrow> butlast_rune (fst (split_first (CHR '';'') reason)))"

definition waits_on_deferred :: "table \<Rightarrow> Message \<Rightarrow> bool" where
  "waits_on_deferred t m =
     (case map_of t (first_dependency (DeferReason m)) of None \<Rightarrow> False
      | Some dep \<Rightarrow> MessageState dep = MessageStateDeferred)"

definition GetDeferredCandidates :: "int \<Rightarrow> table \<Rightarrow> Message list" where
  "GetDeferredCandidates limit t =
     take (limit_or limit DefaultMessageLimit)
       (sort_key (\<lambda>m. (if waits_on_deferred t m then (1::nat) else 0, coalesce (LastDeferAttemptAt m) (CreatedAt m)))
         (filter (\<lambda>m. MessageState m = MessageStateDeferred) (rows t)))"

definition GetExpiredDeferredMessages :: "int \<Rightarrow> int \<Rightarrow> int \<Rightarrow> table \<Rightarrow> Message list" where
  "GetExpiredDeferredMessages now maxAge limit t =
     take (limit_or limit DefaultMessageLimit)
       (sort_key (\<lambda>m. coalesce (LastDeferAttemptAt m) (CreatedAt m))
         (filter (\<lambda>m. MessageState m = MessageStateDeferred \<and>
                      coalesce (LastDeferAttemptAt m) (CreatedAt m) < now - maxAge) (rows t)))"

definition GetLatestDeferredReason :: "table \<Rightarrow> string option" where
  "GetLatestDeferredReason t =
     (case sort_key (\<lambda>m. - coalesce (LastDeferAttemptAt m) (CreatedAt m))
             (filter (\<lambda>m. MessageState m = MessageStateDeferred \<and> DeferReason m \<noteq> []) (rows t))
      of [] \<Rightarrow> None
       | m # _ \<Rightarrow> (if TrimSpace (DeferReason m) = [] then None else Some (DeferReason m)))"

definition ListThread :: "string \<Rightarrow> table \<Rightarrow> Message list" where
  "ListThread rootURI t =
     (let rootURI = TrimSpace rootURI
      in if rootURI = [] then []
         else sort_key CreatedAt (filter (\<lambda>m. RootATURI m = rootURI \<or> ATURI m = rootURI) (rows t)))"

section \<open>Stores with an upsert\<close>

text \<open>
  What a table with a primary key and \<open>INSERT ... ON CONFLICT DO UPDATE\<close> promises: a write
  touches its own key only, and merges with the row that was there.
\<close>

locale upsert_store =
  fixes key :: "'r \<Rightarrow> 'k"
    and fresh :: "'r \<Rightarrow> 'r"
    and merge :: "'r \<Rightarrow> 'r \<Rightarrow> 'r"
    and ins :: "'r \<Rightarrow> 't \<Rightarrow> 't"
    and get :: "'t \<Rightarrow> 'k \<Rightarrow> 'r option"
  assumes get_ins: "get (ins r t) k =
    (if k = key r then Some (case get t k of None \<Rightarrow> fresh r | Some old \<Rightarrow> merge old r) else get t k)"
begin

lemma get_ins_other: "k \<noteq> key r \<Longrightarrow> get (ins r t) k = get t k"
  by (simp add: get_ins)

lemma ins_keeps: "get t k \<noteq> None \<Longrightarrow> get (ins r t) k \<noteq> None"
  by (simp add: get_ins)

lemma ins_commute: "key r \<noteq> key s \<Longrightarrow> get (ins r (ins s t)) = get (ins s (ins r t))"
  by (rule ext) (simp add: get_ins)

lemma fold_keeps: "get t k \<noteq> None \<Longrightarrow> get (fold ins rs t) k \<noteq> None"
  by (induction rs arbitrary: t) (simp_all add: ins_keeps del: not_None_eq)

text \<open>A property of rows that insertion and merging keep holds of every row ever after.\<close>

lemma fold_rows:
  assumes "\<And>r. r \<in> set rs \<Longrightarrow> P (fresh r)"
    and "\<And>old r. r \<in> set rs \<Longrightarrow> P old \<Longrightarrow> P (merge old r)"
    and "\<And>k r. get t k = Some r \<Longrightarrow> P r"
    and "get (fold ins rs t) k = Some r"
  shows "P r"
  using assms
proof (induction rs arbitrary: t)
  case (Cons a rs)
  have "P r'" if "get (ins a t) k' = Some r'" for k' r'
    using that Cons.prems(1,2,3) by (cases "get t k'") (auto simp: get_ins split: if_splits)
  with Cons show ?case by auto
qed simp

end


lemma normalize_Message_simps [simp]:
  "ATURI (normalize_Message now m) = ATURI m" "ATCID (normalize_Message now m) = ATCID m"
  "SSBMsgRef (normalize_Message now m) = SSBMsgRef m" "ATDID (normalize_Message now m) = ATDID m"
  "PublishAttempts (normalize_Message now m) = PublishAttempts m"
  "DeferAttempts (normalize_Message now m) = DeferAttempts m"
  "PublishedAt (normalize_Message now m) = PublishedAt m"
  "DeferReason (normalize_Message now m) = DeferReason m"
  "LastDeferAttemptAt (normalize_Message now m) = LastDeferAttemptAt m"
  "LastPublishAttemptAt (normalize_Message now m) = LastPublishAttemptAt m"
  "RawSSBJson (normalize_Message now m) = RawSSBJson m"
  "RawATJson (normalize_Message now m) = RawATJson m"
  "Type (normalize_Message now m) = Type m"
  "PublishError (normalize_Message now m) = PublishError m"
  "DeletedAt (normalize_Message now m) = DeletedAt m"
  "RootATURI (normalize_Message now m) = RootATURI m"
  by (simp_all add: normalize_Message_def Let_def)

lemma normalize_state:
  "MessageState (normalize_Message now m) =
     (if TrimSpace (MessageState m) = [] then MessageStatePending else MessageState m)"
  by (simp add: normalize_Message_def Let_def)

lemma upsert_row_simps [simp]:
  "ATURI (upsert_row old new) = ATURI new" "ATCID (upsert_row old new) = ATCID new"
  "SSBMsgRef (upsert_row old new) = SSBMsgRef new" "MessageState (upsert_row old new) = MessageState new"
  "PublishedAt (upsert_row old new) = PublishedAt new" "DeferReason (upsert_row old new) = DeferReason new"
  "LastDeferAttemptAt (upsert_row old new) = LastDeferAttemptAt new"
  "LastPublishAttemptAt (upsert_row old new) = LastPublishAttemptAt new"
  "PublishAttempts (upsert_row old new) = PublishAttempts old + PublishAttempts new"
  "DeferAttempts (upsert_row old new) = DeferAttempts old + DeferAttempts new"
  "CreatedAt (upsert_row old new) = CreatedAt old"
  "ATDID (upsert_row old new) = ATDID new" "RawSSBJson (upsert_row old new) = RawSSBJson new"
  "RawATJson (upsert_row old new) = RawATJson new" "Type (upsert_row old new) = Type new"
  "PublishError (upsert_row old new) = PublishError new"
  "DeletedAt (upsert_row old new) = DeletedAt new" "RootATURI (upsert_row old new) = RootATURI new"
  by (simp_all add: upsert_row_def)

interpretation ms: upsert_store ATURI "normalize_Message now"
    "\<lambda>old r. upsert_row old (normalize_Message now r)" "AddMessage now" map_of for now
  by unfold_locales (simp add: AddMessage_def Let_def gm_simps)

section \<open>Tables keep their key\<close>

definition table_ok :: "table \<Rightarrow> bool" where
  "table_ok t \<longleftrightarrow> distinct (map fst t) \<and> (\<forall>p \<in> set t. ATURI (snd p) = fst p)"

lemma table_ok_get: "table_ok t \<Longrightarrow> map_of t k = Some m \<Longrightarrow> ATURI m = k"
  by (force simp: table_ok_def dest: map_of_SomeD)

lemma set_gput: "distinct (map fst t) \<Longrightarrow> set (gput k v t) = insert (k, v) {p \<in> set t. fst p \<noteq> k}"
proof (induction t)
  case (Cons p t)
  then show ?case by (cases p) force
qed simp

lemma table_ok_gput: "table_ok t \<Longrightarrow> ATURI v = k \<Longrightarrow> table_ok (gput k v t)"
  by (auto simp: table_ok_def distinct_gput set_gput)

lemma table_ok_AddMessage: "table_ok t \<Longrightarrow> table_ok (AddMessage now m t)"
  unfolding AddMessage_def Let_def by (rule table_ok_gput) (simp_all split: option.split)

lemma table_ok_Reset: "table_ok t \<Longrightarrow> table_ok (ResetMessageForRetry u t)"
  unfolding ResetMessageForRetry_def
  by (auto split: option.split intro!: table_ok_gput dest: table_ok_get)

lemma rows_iff: "table_ok t \<Longrightarrow> m \<in> set (rows t) \<longleftrightarrow> map_of t (ATURI m) = Some m"
  unfolding rows_def table_ok_def
  by (auto simp: image_iff) (metis map_of_eq_Some_iff snd_conv fst_conv surj_pair)+

section \<open>Candidate selection\<close>

text \<open>
  The shape all selection queries share: filter, order, cut. What is selected matches, comes
  in order, and nothing that matches and was left out sorts before something selected.
\<close>

definition select :: "nat \<Rightarrow> ('a \<Rightarrow> 'k::linorder) \<Rightarrow> ('a \<Rightarrow> bool) \<Rightarrow> 'a list \<Rightarrow> 'a list" where
  "select n key P xs = take n (sort_key key (filter P xs))"

lemma select_sound: "x \<in> set (select n key P xs) \<Longrightarrow> x \<in> set xs \<and> P x"
  unfolding select_def by (auto dest: in_set_takeD)

lemma select_sorted: "sorted (map key (select n key P xs))"
  unfolding select_def by (metis sorted_sort_key sorted_wrt_take take_map)

lemma select_length: "length (select n key P xs) = min n (length (filter P xs))"
  unfolding select_def by simp

lemma select_first:
  assumes "x \<in> set (select n key P xs)" and "y \<in> set xs" and "P y" and "y \<notin> set (select n key P xs)"
  shows "key x \<le> key y"
proof -
  let ?s = "sort_key key (filter P xs)"
  have "y \<in> set ?s" using assms(2,3) by simp
  then have "y \<in> set (drop n ?s)"
    using assms(4) unfolding select_def by (metis UnE append_take_drop_id set_append)
  moreover have "sorted (map key (take n ?s @ drop n ?s))" by (simp add: sorted_sort_key)
  ultimately show ?thesis
    using assms(1) unfolding select_def by (simp only: map_append sorted_append) auto
qed

lemma select_all:
  assumes "length (filter P xs) \<le> n"
  shows "set (select n key P xs) = {x \<in> set xs. P x}"
  using assms unfolding select_def by simp

lemma select_distinct: "distinct xs \<Longrightarrow> distinct (select n key P xs)"
  unfolding select_def by (simp add: distinct_take)

lemma GetRetryCandidates_select:
  "GetRetryCandidates limit did mx t =
     select (limit_or limit DefaultMessageLimit) (\<lambda>m. coalesce (LastPublishAttemptAt m) (CreatedAt m))
       (\<lambda>m. retryable (if mx \<le> 0 then 8 else mx) m \<and> (TrimSpace did \<noteq> [] \<longrightarrow> ATDID m = TrimSpace did)) (rows t)"
  by (simp add: GetRetryCandidates_def select_def Let_def)

lemma GetDeferredCandidates_select:
  "GetDeferredCandidates limit t =
     select (limit_or limit DefaultMessageLimit)
       (\<lambda>m. (if waits_on_deferred t m then (1::nat) else 0, coalesce (LastDeferAttemptAt m) (CreatedAt m)))
       (\<lambda>m. MessageState m = MessageStateDeferred) (rows t)"
  by (simp add: GetDeferredCandidates_def select_def)

lemma GetExpired_select:
  "GetExpiredDeferredMessages now maxAge limit t =
     select (limit_or limit DefaultMessageLimit) (\<lambda>m. coalesce (LastDeferAttemptAt m) (CreatedAt m))
       (\<lambda>m. MessageState m = MessageStateDeferred \<and>
            coalesce (LastDeferAttemptAt m) (CreatedAt m) < now - maxAge) (rows t)"
  by (simp add: GetExpiredDeferredMessages_def select_def)

lemma distinct_rows:
  assumes "table_ok t"
  shows "distinct (rows t)"
proof -
  have "map ATURI (rows t) = map fst t" using assms by (simp add: rows_def table_ok_def)
  with assms have "distinct (map ATURI (rows t))" by (simp add: table_ok_def)
  then show ?thesis by (simp add: distinct_map)
qed

end
