(* ===== verification/Processor.thy ===== *)
theory Processor
  imports Mapper MessageStore
begin

text \<open>
  \<open>internal/bridge\<close>: the processor (\<open>processor.go\<close>, \<open>processor_lifecycle.go\<close>) and the
  dependency resolver (\<open>dependencies.go\<close>). A run is sequential: the state is passed from
  call to call. What the processor gets through Go interfaces is in the environment: clock,
  database faults, JSON text, publisher, blob bridge, record fetcher, feed resolver and the
  rate-limiter decision. \<open>tick\<close> counts database writes and publish calls; clock readings and
  faults are functions of it, so they may change from one effect to the next.
\<close>

section \<open>State, environment, errors\<close>

record BridgedAccount =
  AccDID :: string
  SSBFeedID :: string
  AccCreatedAt :: int
  Active :: bool

record FetchedRecord =
  F_ATDID :: string
  F_ATURI :: string
  F_ATCID :: string
  F_Collection :: string
  F_RecordJSON :: string

text \<open>\<open>dependencyScope\<close>: shared by a top-level record and all records it pulls in.\<close>

record dependencyScope =
  rootDID :: string
  rootURI :: string
  visitedRecords :: "string list"
  fetchedRecords :: nat

record pstate =
  messages :: table
  accounts :: "(string, BridgedAccount) gmap"
  bridge_state :: "(string, string) gmap"
  sent :: "(string \<times> msg) list"
  tick :: nat
  scope :: dependencyScope
  inflight :: "string list"
  rateLimiters :: "(string, int list) gmap"
  lastActivity :: "(string, int) gmap"

record env =
  now_at :: "nat \<Rightarrow> int"
  write_fault :: "nat \<Rightarrow> bool"
  read_fault :: "nat \<Rightarrow> string \<Rightarrow> bool"
  account_fault :: "nat \<Rightarrow> string \<Rightarrow> bool"
  query_fault :: "nat \<Rightarrow> bool"
  parse_json :: "string \<Rightarrow> json option"
  json_error :: "string \<Rightarrow> string"
  show_json :: "msg \<Rightarrow> string"
  go_quote :: "string \<Rightarrow> string"
  valid_cid :: "string \<Rightarrow> bool"
  publisher :: "((string \<times> msg) list \<Rightarrow> string \<Rightarrow> msg \<Rightarrow> string + string) option"
  blobBridge :: "(nat \<Rightarrow> string \<Rightarrow> string \<Rightarrow> msg \<Rightarrow> string \<Rightarrow> msg \<times> string option) option"
  fetcher :: "(nat \<Rightarrow> string \<Rightarrow> string + FetchedRecord) option"
  feedResolver :: "(nat \<Rightarrow> string \<Rightarrow> string + string) option"
  maxMessagesPerMinute :: int
  limiter_allow :: "int \<Rightarrow> int list \<Rightarrow> int \<Rightarrow> bool"

text \<open>
  \<open>Panicked\<close> and \<open>Deadlock\<close> are no Go errors: a panic unwinds every caller and a goroutine
  that waits for its own in-flight call never returns.
\<close>

datatype proc_error =
    DBFault | MapFailed map_error | MissingVote | DeleteUnsupported string
  | ParseCommitFailed | RecordBytesFailed | EmptyURI | DepthExceeded string | FetchLimitExceeded
  | FetchFailed string | UnsupportedCollection string | PublishFailed string | DecodeFailed
  | NoPublisher | Panicked | Deadlock

definition fatal :: "proc_error option \<Rightarrow> bool" where
  "fatal e \<longleftrightarrow> e = Some Panicked \<or> e = Some Deadlock"

definition supportedCollections :: "string list" where
  "supportedCollections =
     [RecordTypePost, RecordTypeLike, RecordTypeRepost, RecordTypeFollow, RecordTypeBlock,
      RecordTypeProfile, RecordTypeList, RecordTypeListItem, RecordTypeThreadgate]"

definition isSupportedCollection :: "string \<Rightarrow> bool" where
  "isSupportedCollection collection \<longleftrightarrow> collection \<in> set supportedCollections"

definition collectionFromPath :: "string \<Rightarrow> string option" where
  "collectionFromPath path =
     (case split_first (CHR ''/'') path of
        (_, None) \<Rightarrow> None
      | (c, Some _) \<Rightarrow> (if c = [] then None else Some c))"

definition MaxDependencyDepth :: nat where "MaxDependencyDepth = 16"
definition maxDependencyRecords :: nat where "maxDependencyRecords = 256"

section \<open>Database and publisher\<close>

definition db_get :: "env \<Rightarrow> string \<Rightarrow> pstate \<Rightarrow> proc_error + Message option" where
  "db_get env uri st =
     (if read_fault env (tick st) uri then Inl DBFault else Inr (GetMessage uri (messages st)))"

definition db_add :: "env \<Rightarrow> Message \<Rightarrow> pstate \<Rightarrow> proc_error option \<times> pstate" where
  "db_add env m st =
     (if write_fault env (tick st) then (Some DBFault, st\<lparr>tick := Suc (tick st)\<rparr>)
      else (None, st\<lparr>messages := AddMessage (now_at env (tick st)) m (messages st), tick := Suc (tick st)\<rparr>))"

definition SetBridgeState :: "env \<Rightarrow> string \<Rightarrow> string \<Rightarrow> pstate \<Rightarrow> proc_error option \<times> pstate" where
  "SetBridgeState env k v st =
     (if write_fault env (tick st) then (Some DBFault, st\<lparr>tick := Suc (tick st)\<rparr>)
      else (None, st\<lparr>bridge_state := gput k v (bridge_state st), tick := Suc (tick st)\<rparr>))"

definition db_account :: "env \<Rightarrow> string \<Rightarrow> pstate \<Rightarrow> proc_error + BridgedAccount option" where
  "db_account env did st =
     (if account_fault env (tick st) did then Inl DBFault else Inr (map_of (accounts st) did))"

definition Publish ::
  "((string \<times> msg) list \<Rightarrow> string \<Rightarrow> msg \<Rightarrow> string + string) \<Rightarrow> string \<Rightarrow> msg \<Rightarrow> pstate \<Rightarrow> (string + string) \<times> pstate" where
  "Publish p did content st =
     (p (sent st) did content, st\<lparr>sent := sent st @ [(did, content)], tick := Suc (tick st)\<rparr>)"

section \<open>References\<close>

definition resolveMessageReference :: "env \<Rightarrow> pstate \<Rightarrow> string \<Rightarrow> string" where
  "resolveMessageReference env st uri =
     (case db_get env uri st of Inl _ \<Rightarrow> [] | Inr None \<Rightarrow> []
      | Inr (Some m) \<Rightarrow> TrimSpace (SSBMsgRef m))"

definition lookupFeed :: "(nat \<Rightarrow> string \<Rightarrow> string + string) \<Rightarrow> pstate \<Rightarrow> string \<Rightarrow> string + string" where
  "lookupFeed r st did =
     (let did = TrimSpace did
      in if did = [] then Inl ''dependency did is empty'' else r (tick st) did)"

definition resolveFeedReference :: "env \<Rightarrow> pstate \<Rightarrow> string \<Rightarrow> string" where
  "resolveFeedReference env st did =
     (case db_account env did st of Inl _ \<Rightarrow> []
      | Inr acc \<Rightarrow>
         (case acc of
            Some a \<Rightarrow> (if Active a \<and> TrimSpace (SSBFeedID a) \<noteq> [] then SSBFeedID a
                      else (case feedResolver env of None \<Rightarrow> []
                            | Some r \<Rightarrow> (case lookupFeed r st did of Inl _ \<Rightarrow> [] | Inr ref \<Rightarrow> ref)))
          | None \<Rightarrow> (case feedResolver env of None \<Rightarrow> []
                     | Some r \<Rightarrow> (case lookupFeed r st did of Inl _ \<Rightarrow> [] | Inr ref \<Rightarrow> ref))))"

definition resolveMappedRefs :: "env \<Rightarrow> pstate \<Rightarrow> msg \<Rightarrow> msg" where
  "resolveMappedRefs env st mapped =
     ReplaceATProtoRefs mapped (resolveMessageReference env st) (resolveFeedReference env st)"

definition dependency_keys :: "string list" where
  "dependency_keys = [''_atproto_reply_root'', ''_atproto_reply_parent'', ''_atproto_subject'',
                      ''_atproto_quote_subject'', ''_atproto_contact'']"

definition unresolvedDependencies :: "msg \<Rightarrow> (string \<times> string) list" where
  "unresolvedDependencies mapped =
     List.map_filter (\<lambda>key. case map_of mapped key of None \<Rightarrow> None
       | Some raw \<Rightarrow> (let value = TrimSpace (Sprint raw) in if value = [] then None else Some (key, value)))
       dependency_keys"

definition hydrated_keys :: "string list" where
  "hydrated_keys = [''_atproto_subject'', ''_atproto_quote_subject'', ''_atproto_reply_root'', ''_atproto_reply_parent'']"

type_synonym op = "pstate \<Rightarrow> proc_error option \<times> pstate"

text \<open>\<open>hydrateRecordDependencies\<close>: errors of the resolver are dropped.\<close>

fun hydrate_loop :: "(string \<Rightarrow> op) \<Rightarrow> (string \<times> string) list \<Rightarrow> op" where
  "hydrate_loop ensure [] st = (None, st)"
| "hydrate_loop ensure ((k, v) # deps) st =
     (if k \<in> set hydrated_keys then
        (case ensure v st of (r, st') \<Rightarrow> if fatal r then (r, st') else hydrate_loop ensure deps st')
      else hydrate_loop ensure deps st)"

definition hydrateRecordDependencies :: "env \<Rightarrow> (string \<Rightarrow> op) \<Rightarrow> msg \<Rightarrow> op" where
  "hydrateRecordDependencies env ensure mapped st =
     (case fetcher env of None \<Rightarrow> (None, st)
      | Some _ \<Rightarrow> hydrate_loop ensure (unresolvedDependencies mapped) st)"

section \<open>Mapping\<close>

definition map_error_of :: "map_error \<Rightarrow> proc_error" where
  "map_error_of e = (case e of Panic \<Rightarrow> Panicked | _ \<Rightarrow> MapFailed e)"

definition mapRecord_env :: "env \<Rightarrow> string \<Rightarrow> string \<Rightarrow> string \<Rightarrow> proc_error + msg" where
  "mapRecord_env env did coll raw =
     (case MapRecord (parse_json env) (valid_cid env) coll did raw of
        Inl e \<Rightarrow> Inl (map_error_of e) | Inr m \<Rightarrow> Inr m)"

definition mapDeleteRecord :: "env \<Rightarrow> string \<Rightarrow> string \<Rightarrow> string \<Rightarrow> proc_error + msg" where
  "mapDeleteRecord env did coll raw =
     (case mapRecord_env env did coll raw of Inl e \<Rightarrow> Inl e
      | Inr mapped \<Rightarrow>
         (if coll = RecordTypeLike then
            (case map_of mapped ''vote'' of
               Some (VMap vote) \<Rightarrow>
                 Inr (gput ''vote'' (VMap (gput ''expression'' (VStr ''Like'') (gput ''value'' (VInt 0) vote))) mapped)
             | _ \<Rightarrow> Inl MissingVote)
          else if coll = RecordTypeFollow \<or> coll = RecordTypeBlock then
            Inr (gput ''blocking'' (VBool False) (gput ''following'' (VBool False) mapped))
          else Inl (DeleteUnsupported coll)))"

definition mapMappedRecord ::
  "env \<Rightarrow> (string \<Rightarrow> op) \<Rightarrow> string \<Rightarrow> string \<Rightarrow> string \<Rightarrow> bool \<Rightarrow> pstate \<Rightarrow> (proc_error + msg) \<times> pstate" where
  "mapMappedRecord env ensure did coll raw deleted st =
     (case (if deleted then mapDeleteRecord env did coll raw else mapRecord_env env did coll raw) of
        Inl e \<Rightarrow> (Inl e, st)
      | Inr mapped \<Rightarrow>
         (let mapped = resolveMappedRefs env st mapped
          in case hydrateRecordDependencies env ensure mapped st of
               (Some e, st') \<Rightarrow> (Inl e, st')
             | (None, st') \<Rightarrow> (Inr (resolveMappedRefs env st' mapped), st')))"

definition tryBlobBridge :: "env \<Rightarrow> pstate \<Rightarrow> string \<Rightarrow> string \<Rightarrow> msg \<Rightarrow> string \<Rightarrow> msg \<times> string option" where
  "tryBlobBridge env st did coll mapped raw =
     (case blobBridge env of None \<Rightarrow> (mapped, None) | Some b \<Rightarrow> b (tick st) did coll mapped raw)"

section \<open>Message life cycle\<close>

definition annotateBlobFallback :: "string \<Rightarrow> string option \<Rightarrow> string" where
  "annotateBlobFallback current blobErr =
     (case blobErr of None \<Rightarrow> current
      | Some e \<Rightarrow> (if TrimSpace current = [] then ''blob_fallback='' @ e
                  else current @ ''; '' @ ''blob_fallback='' @ e))"

definition markDeferred :: "Message \<Rightarrow> string \<Rightarrow> int \<Rightarrow> Message" where
  "markDeferred m reason at =
     m\<lparr>MessageState := MessageStateDeferred, DeferReason := reason, DeferAttempts := 1, LastDeferAttemptAt := Some at\<rparr>"

definition markPublishAttempt :: "Message \<Rightarrow> int \<Rightarrow> Message" where
  "markPublishAttempt m at = m\<lparr>PublishAttempts := 1, LastPublishAttemptAt := Some at\<rparr>"

definition markPublishFailed :: "Message \<Rightarrow> string \<Rightarrow> Message" where
  "markPublishFailed m err = m\<lparr>MessageState := MessageStateFailed, PublishError := err\<rparr>"

definition markPublished :: "Message \<Rightarrow> string \<Rightarrow> int \<Rightarrow> Message" where
  "markPublished m ref at = m\<lparr>MessageState := MessageStatePublished, SSBMsgRef := ref, PublishedAt := Some at\<rparr>"

definition missing_required :: string where
  "missing_required = ''missing_required_fields_after_sanitize''"

definition with_blob :: "Message \<Rightarrow> string option \<Rightarrow> Message" where
  "with_blob m blobErr =
     (case blobErr of None \<Rightarrow> m | Some _ \<Rightarrow> m\<lparr>PublishError := annotateBlobFallback (PublishError m) blobErr\<rparr>)"

datatype lifecycle = LDeferred | LPending | LFailed string | LPublished string

definition applyMappedMessageLifecycle ::
  "env \<Rightarrow> Message \<Rightarrow> msg \<Rightarrow> string option \<Rightarrow> bool \<Rightarrow> pstate \<Rightarrow> lifecycle \<times> Message \<times> pstate" where
  "applyMappedMessageLifecycle env m mapped blobErr sanitize st =
     (let unresolved = UnresolvedATProtoRefs mapped
      in if unresolved \<noteq> [] then
           (LDeferred, with_blob (markDeferred m (Join '';'' unresolved) (now_at env (tick st))) blobErr, st)
         else case publisher env of
           None \<Rightarrow> (LPending, with_blob (m\<lparr>MessageState := MessageStatePending\<rparr>) blobErr, st)
         | Some p \<Rightarrow>
            (let mapped = (if sanitize then SanitizeForPublish mapped else mapped)
             in if sanitize \<and> \<not> ReadyForPublish mapped then
                  (LDeferred, markDeferred m missing_required (now_at env (tick st)), st)
                else
                  let m = (if sanitize then m\<lparr>RawSSBJson := show_json env mapped\<rparr> else m);
                      m = (markPublishAttempt m (now_at env (tick st)))\<lparr>DeferReason := []\<rparr>
                  in case Publish p (ATDID m) mapped st of
                       (Inl err, st') \<Rightarrow> (LFailed err, with_blob (markPublishFailed m err) blobErr, st')
                     | (Inr ref, st') \<Rightarrow>
                         (let m = markPublished m ref (now_at env (tick st'))
                          in (LPublished ref,
                              (case blobErr of None \<Rightarrow> m | Some _ \<Rightarrow> m\<lparr>PublishError := annotateBlobFallback [] blobErr\<rparr>),
                              st'))))"

section \<open>Processing one record\<close>

definition already_bridged :: "Message option \<Rightarrow> string \<Rightarrow> bool" where
  "already_bridged existing cid =
     (case existing of None \<Rightarrow> False
      | Some m \<Rightarrow> TrimSpace (SSBMsgRef m) \<noteq> [] \<and> TrimSpace (ATCID m) \<noteq> [] \<and> TrimSpace (ATCID m) = TrimSpace cid)"

definition new_row :: "env \<Rightarrow> string \<Rightarrow> string \<Rightarrow> string \<Rightarrow> string \<Rightarrow> string \<Rightarrow> msg \<Rightarrow> Message" where
  "new_row env did uri cid coll raw mapped =
     zero_Message\<lparr>ATURI := uri, ATCID := cid, ATDID := did, Type := coll,
       MessageState := MessageStatePending, RawATJson := raw, RawSSBJson := show_json env mapped,
       RootATURI := (case str_at mapped ''_atproto_reply_root'' of None \<Rightarrow> [] | Some r \<Rightarrow> r),
       ParentATURI := (case str_at mapped ''_atproto_reply_parent'' of None \<Rightarrow> [] | Some r \<Rightarrow> r)\<rparr>"

definition process_body ::
  "env \<Rightarrow> (string \<Rightarrow> op) \<Rightarrow> string \<Rightarrow> string \<Rightarrow> string \<Rightarrow> string \<Rightarrow> string \<Rightarrow> op" where
  "process_body env ensure did uri cid coll raw st =
     (case db_get env uri st of Inl e \<Rightarrow> (Some e, st)
      | Inr existing \<Rightarrow>
         (if already_bridged existing cid then (None, st)
          else case mapMappedRecord env ensure did coll raw False st of
            (Inl e, st') \<Rightarrow> (Some e, st')
          | (Inr mapped, st') \<Rightarrow>
             (case tryBlobBridge env st' did coll mapped raw of
                (mapped, blobErr) \<Rightarrow>
                  (case applyMappedMessageLifecycle env (new_row env did uri cid coll raw mapped) mapped blobErr True st' of
                     (outcome, m, st'') \<Rightarrow> db_add env m st''))))"

section \<open>Dependencies\<close>

definition begin_visit :: "string \<Rightarrow> pstate \<Rightarrow> pstate" where
  "begin_visit uri st =
     st\<lparr>scope := (scope st)\<lparr>visitedRecords := uri # visitedRecords (scope st)\<rparr>,
        inflight := uri # inflight st\<rparr>"

definition finish_call :: "string \<Rightarrow> proc_error option \<times> pstate \<Rightarrow> proc_error option \<times> pstate" where
  "finish_call uri r = (fst r, (snd r)\<lparr>inflight := removeAll uri (inflight (snd r))\<rparr>)"

definition noteDependencyFetch :: op where
  "noteDependencyFetch st =
     (if maxDependencyRecords \<le> fetchedRecords (scope st) then (Some FetchLimitExceeded, st)
      else (None, st\<lparr>scope := (scope st)\<lparr>fetchedRecords := Suc (fetchedRecords (scope st))\<rparr>\<rparr>))"

definition fetch_and_process ::
  "env \<Rightarrow> (string \<Rightarrow> string \<Rightarrow> string \<Rightarrow> string \<Rightarrow> string \<Rightarrow> op) \<Rightarrow> string \<Rightarrow> op" where
  "fetch_and_process env process uri st =
     (case noteDependencyFetch st of
        (Some e, st') \<Rightarrow> (Some e, st')
      | (None, st') \<Rightarrow>
         (case fetcher env of None \<Rightarrow> (Some (FetchFailed ''no fetcher''), st')
          | Some f \<Rightarrow>
             (case f (tick st') uri of
                Inl e \<Rightarrow> (Some (FetchFailed e), st')
              | Inr r \<Rightarrow>
                 (if \<not> isSupportedCollection (F_Collection r) then (Some (UnsupportedCollection (F_Collection r)), st')
                  else process (F_ATDID r) (F_ATURI r) (F_ATCID r) (F_Collection r) (F_RecordJSON r) st'))))"

text \<open>What \<open>EnsureRecord\<close> does between \<open>acquire\<close> and \<open>finish\<close>.\<close>

definition ensure_body ::
  "env \<Rightarrow> (string \<Rightarrow> string \<Rightarrow> string \<Rightarrow> string \<Rightarrow> string \<Rightarrow> op) \<Rightarrow> string \<Rightarrow> op" where
  "ensure_body env process uri st =
     (case db_get env uri st of Inl e \<Rightarrow> (Some e, st)
      | Inr found \<Rightarrow>
         (case found of
            Some m \<Rightarrow>
              (if TrimSpace (SSBMsgRef m) \<noteq> [] then (None, st)
               else if (MessageState m = MessageStateDeferred \<or> MessageState m = MessageStatePending)
                       \<and> TrimSpace (RawATJson m) \<noteq> [] \<and> isSupportedCollection (Type m)
                 then process (ATDID m) (ATURI m) (ATCID m) (Type m) (RawATJson m) st
               else if MessageState m = MessageStateFailed then (None, st)
               else fetch_and_process env process uri st)
          | None \<Rightarrow> fetch_and_process env process uri st))"


text \<open>
  The first argument is the depth left below \<open>MaxDependencyDepth\<close>; the frame of a call at
  depth \<open>d\<close> has \<open>MaxDependencyDepth - d\<close> left.
\<close>

fun EnsureRecord :: "nat \<Rightarrow> env \<Rightarrow> string \<Rightarrow> op" where
  "EnsureRecord 0 env u st =
     (let uri = TrimSpace u
      in if uri = [] then (Some EmptyURI, st) else (Some (DepthExceeded uri), st))"
| "EnsureRecord (Suc left) env u st =
     (let uri = TrimSpace u
      in if uri = [] then (Some EmptyURI, st)
         else if uri \<in> set (visitedRecords (scope st)) then (None, st)
         else if uri \<in> set (inflight st) then (Some Deadlock, begin_visit uri st)
         else finish_call uri
                (ensure_body env (process_body env (EnsureRecord left env)) uri (begin_visit uri st)))"

definition ensureDependencyContext :: "string \<Rightarrow> string \<Rightarrow> pstate \<Rightarrow> pstate" where
  "ensureDependencyContext did uri st =
     st\<lparr>scope := \<lparr>rootDID = TrimSpace did, rootURI = TrimSpace uri,
                  visitedRecords = (if TrimSpace uri = [] then [] else [TrimSpace uri]), fetchedRecords = 0\<rparr>\<rparr>"

definition ProcessRecord :: "env \<Rightarrow> string \<Rightarrow> string \<Rightarrow> string \<Rightarrow> string \<Rightarrow> string \<Rightarrow> op" where
  "ProcessRecord env did uri cid coll raw st =
     process_body env (EnsureRecord MaxDependencyDepth env) did uri cid coll raw (ensureDependencyContext did uri st)"

section \<open>Deleted records\<close>

text \<open>A delete event has no dependency frame: each dependency gets a scope of its own.\<close>

definition ensure_unscoped :: "env \<Rightarrow> string \<Rightarrow> op" where
  "ensure_unscoped env u st =
     EnsureRecord MaxDependencyDepth env u (ensureDependencyContext [] [] st)"

definition delete_marker :: string where "delete_marker = ''\"op\":\"delete\"''"

definition deleted_cid :: "Message option \<Rightarrow> string \<Rightarrow> int \<Rightarrow> string" where
  "deleted_cid existing cid seqno =
     (if TrimSpace cid \<noteq> [] then cid
      else case existing of
        Some m \<Rightarrow> (if TrimSpace (ATCID m) \<noteq> [] then ATCID m else ''deleted-seq-'' @ show_int seqno)
      | None \<Rightarrow> ''deleted-seq-'' @ show_int seqno)"

definition deleted_raw :: "env \<Rightarrow> Message option \<Rightarrow> string \<Rightarrow> string \<Rightarrow> int \<Rightarrow> string" where
  "deleted_raw env existing uri rawRecord seqno =
     (if rawRecord \<noteq> [] then rawRecord
      else case existing of
        Some m \<Rightarrow> (if TrimSpace (RawATJson m) \<noteq> [] then RawATJson m
                  else ''{'' @ delete_marker @ '',\"at_uri\":'' @ go_quote env uri @ '',\"seq\":'' @ show_int seqno @ ''}'')
      | None \<Rightarrow> ''{'' @ delete_marker @ '',\"at_uri\":'' @ go_quote env uri @ '',\"seq\":'' @ show_int seqno @ ''}'')"

definition deleted_row :: "env \<Rightarrow> Message option \<Rightarrow> string \<Rightarrow> string \<Rightarrow> string \<Rightarrow> string \<Rightarrow> string \<Rightarrow> int \<Rightarrow> int \<Rightarrow> Message" where
  "deleted_row env existing did uri cid coll rawRecord seqno now =
     zero_Message\<lparr>ATURI := uri, ATCID := deleted_cid existing cid seqno, ATDID := did, Type := coll,
       MessageState := MessageStateDeleted, RawATJson := deleted_raw env existing uri rawRecord seqno,
       RawSSBJson := (case existing of None \<Rightarrow> [] | Some m \<Rightarrow> RawSSBJson m),
       DeletedAt := Some now, DeletedSeq := Some seqno,
       DeletedReason := ''atproto_delete seq='' @ show_int seqno\<rparr>"

definition ProcessDeletedRecord :: "env \<Rightarrow> string \<Rightarrow> string \<Rightarrow> string \<Rightarrow> string \<Rightarrow> string \<Rightarrow> int \<Rightarrow> op" where
  "ProcessDeletedRecord env did uri cid coll rawRecord seqno st =
     (case db_get env uri st of Inl e \<Rightarrow> (Some e, st)
      | Inr existing \<Rightarrow>
         (let m = deleted_row env existing did uri cid coll rawRecord seqno (now_at env (tick st))
          in if coll = RecordTypeProfile \<or> coll = RecordTypePost \<or> TrimSpace (RawATJson m) = []
                \<or> Contains (RawATJson m) delete_marker
             then db_add env m st
             else case mapMappedRecord env (ensure_unscoped env) did coll (RawATJson m) True st of
                 (Inl e, st') \<Rightarrow> (Some e, st')
               | (Inr mapped, st') \<Rightarrow>
                   (case applyMappedMessageLifecycle env (m\<lparr>RawSSBJson := show_json env mapped\<rparr>) mapped None True st' of
                      (outcome, m, st'') \<Rightarrow> db_add env m st'')))"

record RecordEvent =
  Ev_DID :: string
  Ev_Collection :: string
  Ev_ATURI :: string
  Ev_ATCID :: string
  Ev_Action :: string
  Ev_Seq :: "int option"
  Ev_RecordJSON :: string

definition HandleRecordEvent :: "env \<Rightarrow> RecordEvent \<Rightarrow> op" where
  "HandleRecordEvent env e st =
     (if Ev_Action e = ''delete''
      then ProcessDeletedRecord env (Ev_DID e) (Ev_ATURI e) (Ev_ATCID e) (Ev_Collection e) (Ev_RecordJSON e)
             (case Ev_Seq e of None \<Rightarrow> 0 | Some n \<Rightarrow> n) st
      else ProcessRecord env (Ev_DID e) (Ev_ATURI e) (Ev_ATCID e) (Ev_Collection e) (Ev_RecordJSON e) st)"

section \<open>Rate limiting and commits\<close>

definition getRateLimiter :: "env \<Rightarrow> string \<Rightarrow> pstate \<Rightarrow> int list option \<times> pstate" where
  "getRateLimiter env did st =
     (if maxMessagesPerMinute env \<le> 0 then (None, st)
      else let now = now_at env (tick st)
           in case map_of (rateLimiters st) did of
                Some lim \<Rightarrow> (Some lim, st\<lparr>lastActivity := gput did now (lastActivity st)\<rparr>)
              | None \<Rightarrow> (Some [], st\<lparr>rateLimiters := gput did [] (rateLimiters st),
                                     lastActivity := gput did now (lastActivity st)\<rparr>))"

definition Allow :: "env \<Rightarrow> string \<Rightarrow> int list \<Rightarrow> pstate \<Rightarrow> bool \<times> pstate" where
  "Allow env did lim st =
     (let now = now_at env (tick st)
      in (limiter_allow env (maxMessagesPerMinute env) lim now,
          st\<lparr>rateLimiters := gput did (lim @ [now]) (rateLimiters st)\<rparr>))"

definition cleanupStaleRateLimiters :: "env \<Rightarrow> int \<Rightarrow> pstate \<Rightarrow> pstate" where
  "cleanupStaleRateLimiters env idleTimeout st =
     (let now = now_at env (tick st);
          stale = map fst (filter (\<lambda>p. now - snd p > idleTimeout) (lastActivity st))
      in st\<lparr>rateLimiters := fold gdel stale (rateLimiters st), lastActivity := fold gdel stale (lastActivity st)\<rparr>)"

record RepoOp =
  Action :: string
  Path :: string
  Cid :: "string option"

text \<open>
  \<open>Records\<close> stands for \<open>firehose.ParseCommit\<close>, \<open>GetRecordBytes\<close> and \<open>cborToJSON\<close>: \<open>None\<close>
  when the commit does not parse, else the JSON text of the record at a path, if there is one.
\<close>

record Commit =
  Repo :: string
  Seq :: int
  Ops :: "RepoOp list"
  Records :: "(string \<Rightarrow> string option) option"

definition processOp :: "env \<Rightarrow> (string \<Rightarrow> string option) \<Rightarrow> string \<Rightarrow> string \<Rightarrow> string \<Rightarrow> op" where
  "processOp env rr did path cid st =
     (case collectionFromPath path of None \<Rightarrow> (None, st)
      | Some coll \<Rightarrow>
         (if \<not> isSupportedCollection coll then (None, st)
          else case rr path of None \<Rightarrow> (Some RecordBytesFailed, st)
           | Some raw \<Rightarrow> ProcessRecord env did (''at://'' @ did @ ''/'' @ path) cid coll raw st))"

definition processDeleteOp :: "env \<Rightarrow> string \<Rightarrow> string \<Rightarrow> int \<Rightarrow> op" where
  "processDeleteOp env did path seqno st =
     (case collectionFromPath path of None \<Rightarrow> (None, st)
      | Some coll \<Rightarrow>
         (if \<not> isSupportedCollection coll then (None, st)
          else ProcessDeletedRecord env did (''at://'' @ did @ ''/'' @ path) [] coll [] seqno st))"

text \<open>The loop over the operations; a commit that does not parse ends it with an error.\<close>

fun commit_ops :: "env \<Rightarrow> Commit \<Rightarrow> RepoOp list \<Rightarrow> op" where
  "commit_ops env evt [] st = (None, st)"
| "commit_ops env evt (oper # ops) st =
     (if Action oper = ''create'' \<or> Action oper = ''update'' then
        (case Cid oper of None \<Rightarrow> commit_ops env evt ops st
         | Some cid \<Rightarrow>
            (case Records evt of None \<Rightarrow> (Some ParseCommitFailed, st)
             | Some rr \<Rightarrow>
                (case processOp env rr (Repo evt) (Path oper) cid st of
                   (r, st') \<Rightarrow> if fatal r then (r, st') else commit_ops env evt ops st')))
      else if Action oper = ''delete'' then
        (case processDeleteOp env (Repo evt) (Path oper) (Seq evt) st of
           (r, st') \<Rightarrow> if fatal r then (r, st') else commit_ops env evt ops st')
      else commit_ops env evt ops st)"

definition commit_work :: "env \<Rightarrow> Commit \<Rightarrow> op" where
  "commit_work env evt st =
     (case commit_ops env evt (Ops evt) st of
        (Some e, st') \<Rightarrow> (Some e, st')
      | (None, st') \<Rightarrow>
         (if Seq evt > 0 then (None, snd (SetBridgeState env ''firehose_seq'' (show_int (Seq evt)) st'))
          else (None, st')))"

definition HandleCommit :: "env \<Rightarrow> Commit option \<Rightarrow> op" where
  "HandleCommit env ev st =
     (case ev of None \<Rightarrow> (None, st)
      | Some evt \<Rightarrow>
         (if Repo evt = [] then (None, st)
          else case db_account env (Repo evt) st of
            Inl e \<Rightarrow> (Some e, st)
          | Inr None \<Rightarrow> (None, st)
          | Inr (Some acc) \<Rightarrow>
             (if \<not> Active acc then (None, st)
              else case getRateLimiter env (Repo evt) st of
                (None, st') \<Rightarrow> commit_work env evt st'
              | (Some lim, st') \<Rightarrow>
                 (case Allow env (Repo evt) lim st' of
                    (ok, st'') \<Rightarrow> if ok then commit_work env evt st'' else (None, st'')))))"


section \<open>Deferred records\<close>

definition parseDeferReasonURIs :: "string \<Rightarrow> string list" where
  "parseDeferReasonURIs reason =
     (if reason = [] then [] else List.map_filter (from_sub ''at://'') (split_on (CHR '';'') reason))"

definition deferred_update :: "env \<Rightarrow> Message \<Rightarrow> msg \<Rightarrow> int \<Rightarrow> Message" where
  "deferred_update env m mapped now =
     zero_Message\<lparr>ATURI := ATURI m, ATCID := ATCID m, ATDID := ATDID m, Type := Type m,
       MessageState := MessageStateDeferred, RawATJson := RawATJson m, RawSSBJson := show_json env mapped,
       DeferAttempts := 1, LastDeferAttemptAt := Some now,
       DeletedAt := DeletedAt m, DeletedSeq := DeletedSeq m, DeletedReason := DeletedReason m\<rparr>"

definition lifecycle_state :: "lifecycle \<Rightarrow> string" where
  "lifecycle_state l = (case l of LDeferred \<Rightarrow> MessageStateDeferred | LPending \<Rightarrow> MessageStatePending
     | LFailed _ \<Rightarrow> MessageStateFailed | LPublished _ \<Rightarrow> MessageStatePublished)"

definition resolveDeferredMessage :: "env \<Rightarrow> Message \<Rightarrow> pstate \<Rightarrow> string \<times> proc_error option \<times> pstate" where
  "resolveDeferredMessage env m st0 =
     (let st = ensureDependencyContext (ATDID m) (ATURI m) st0
      in case mapMappedRecord env (EnsureRecord MaxDependencyDepth env) (ATDID m) (Type m) (RawATJson m)
                (DeletedAt m \<noteq> None) st of
           (Inl e, st') \<Rightarrow> (MessageStateFailed, Some e, st')
         | (Inr mapped, st') \<Rightarrow>
            (case (if DeletedAt m = None then tryBlobBridge env st' (ATDID m) (Type m) mapped (RawATJson m)
                   else (mapped, None)) of
               (mapped, blobErr) \<Rightarrow>
                 (case applyMappedMessageLifecycle env (deferred_update env m mapped (now_at env (tick st')))
                         mapped blobErr True st' of
                    (outcome, update, st'') \<Rightarrow>
                      (case db_add env update st'' of
                         (Some e, st3) \<Rightarrow> (lifecycle_state outcome, Some e, st3)
                       | (None, st3) \<Rightarrow>
                          (lifecycle_state outcome,
                           (case outcome of LFailed err \<Rightarrow> Some (PublishFailed err) | _ \<Rightarrow> None), st3)))))"

record ResolveResult =
  Selected :: nat
  Attempted :: nat
  Published :: nat
  Deferred :: nat
  Failed :: nat

definition depIndex :: "Message list \<Rightarrow> string \<Rightarrow> nat list" where
  "depIndex cands uri =
     concat (map (\<lambda>i. map (\<lambda>_. i) (filter (\<lambda>u. u = uri) (parseDeferReasonURIs (DeferReason (cands ! i)))))
               [0..<length cands])"

definition tally :: "string \<Rightarrow> proc_error option \<Rightarrow> ResolveResult \<Rightarrow> ResolveResult" where
  "tally outcome err res =
     (if err \<noteq> None then res\<lparr>Failed := Suc (Failed res)\<rparr>
      else if outcome = MessageStatePublished then res\<lparr>Published := Suc (Published res)\<rparr>
      else if outcome = MessageStateDeferred then res\<lparr>Deferred := Suc (Deferred res)\<rparr>
      else res\<lparr>Failed := Suc (Failed res)\<rparr>)"

text \<open>
  The recursive closure \<open>resolveAt\<close> with its call stack made explicit: the indices still to
  visit, first one first. A publish pushes the candidates that wait for the published record.
\<close>

definition left_to_do :: "nat \<Rightarrow> nat list \<Rightarrow> nat" where
  "left_to_do n dn = length (filter (\<lambda>j. j \<notin> set dn) [0..<n])"

lemma left_to_do_less:
  assumes "i \<notin> set dn" and "i < n"
  shows "left_to_do n (i # dn) < left_to_do n dn"
proof -
  have "filter (\<lambda>j. j \<notin> set (i # dn)) [0..<n] = filter (\<lambda>j. j \<noteq> i) (filter (\<lambda>j. j \<notin> set dn) [0..<n])"
    by (induction n) auto
  moreover have "i \<in> set (filter (\<lambda>j. j \<notin> set dn) [0..<n])" using assms by simp
  ultimately show ?thesis
    unfolding left_to_do_def by (simp only:) (rule length_filter_less, assumption, simp)
qed

function resolve_run ::
  "env \<Rightarrow> Message list \<Rightarrow> nat list \<Rightarrow> nat list \<Rightarrow> ResolveResult \<Rightarrow> pstate
   \<Rightarrow> proc_error option \<times> ResolveResult \<times> nat list \<times> pstate" where
  "resolve_run env cands [] dn res st = (None, res, dn, st)"
| "resolve_run env cands (i # todo) dn res st =
     (if i \<in> set dn \<or> length cands \<le> i then resolve_run env cands todo dn res st
      else case resolveDeferredMessage env (cands ! i) st of
        (outcome, err, st') \<Rightarrow>
          (if fatal err then (err, res, i # dn, st')
           else resolve_run env cands
                  ((if err = None \<and> outcome = MessageStatePublished then depIndex cands (ATURI (cands ! i)) else []) @ todo)
                  (i # dn) (tally outcome err (res\<lparr>Attempted := Suc (Attempted res)\<rparr>)) st'))"
  by pat_completeness auto
termination
  by (relation "measures [\<lambda>(env, cands, todo, dn, res, st). left_to_do (length cands) dn,
                          \<lambda>(env, cands, todo, dn, res, st). length todo]")
     (auto simp: not_le intro: left_to_do_less)

declare resolve_run.simps [simp del]

definition ResolveDeferredMessages :: "env \<Rightarrow> int \<Rightarrow> pstate \<Rightarrow> (proc_error + ResolveResult) \<times> pstate" where
  "ResolveDeferredMessages env limit st =
     (let limit = (if limit \<le> 0 then 100 else limit)
      in if query_fault env (tick st) then (Inl DBFault, st)
         else let cands = GetDeferredCandidates limit (messages st)
              in case resolve_run env cands [0..<length cands] []
                        \<lparr>Selected = length cands, Attempted = 0, Published = 0, Deferred = 0, Failed = 0\<rparr> st of
                   (Some e, _, _, st') \<Rightarrow> (Inl e, st')
                 | (None, res, _, st') \<Rightarrow> (Inr res, st'))"

section \<open>Expiry\<close>

record ExpireResult =
  Exp_Selected :: nat
  Exp_Expired :: nat
  Exp_Failed :: nat

definition expire_row :: "Message \<Rightarrow> Message" where
  "expire_row m = m\<lparr>MessageState := MessageStateFailed, PublishError := ''deferred_ttl_expired''\<rparr>"

fun expire_loop :: "env \<Rightarrow> Message list \<Rightarrow> ExpireResult \<Rightarrow> pstate \<Rightarrow> ExpireResult \<times> pstate" where
  "expire_loop env [] res st = (res, st)"
| "expire_loop env (m # ms) res st =
     (case db_add env (expire_row m) st of
        (Some _, st') \<Rightarrow> expire_loop env ms (res\<lparr>Exp_Failed := Suc (Exp_Failed res)\<rparr>) st'
      | (None, st') \<Rightarrow> expire_loop env ms (res\<lparr>Exp_Expired := Suc (Exp_Expired res)\<rparr>) st')"

definition ExpireDeferredMessages :: "env \<Rightarrow> int \<Rightarrow> int \<Rightarrow> pstate \<Rightarrow> (proc_error + ExpireResult) \<times> pstate" where
  "ExpireDeferredMessages env maxAge limit st =
     (let limit = (if limit \<le> 0 then 500 else limit)
      in if query_fault env (tick st) then (Inl DBFault, st)
         else let cands = GetExpiredDeferredMessages (now_at env (tick st)) maxAge limit (messages st)
              in case expire_loop env cands \<lparr>Exp_Selected = length cands, Exp_Expired = 0, Exp_Failed = 0\<rparr> st of
                   (res, st') \<Rightarrow> (Inr res, st'))"

section \<open>Retries\<close>

definition second :: int where "second = 10 ^ 9"
definition minute :: int where "minute = 60 * 10 ^ 9"

fun backoff_loop :: "nat \<Rightarrow> int \<Rightarrow> int" where
  "backoff_loop 0 b = (if b > 10 * minute then 10 * minute else b)"
| "backoff_loop (Suc n) b = (if b \<ge> 10 * minute then 10 * minute else backoff_loop n (b * 2))"

definition retryBackoff :: "int \<Rightarrow> int \<Rightarrow> int" where
  "retryBackoff base attempts =
     (let base = (if base \<le> 0 then 5 * second else base)
      in if attempts \<le> 1 then base else backoff_loop (nat (attempts - 1)) base)"

definition retryDue :: "Message \<Rightarrow> int \<Rightarrow> int \<Rightarrow> bool" where
  "retryDue m now baseBackoff =
     (if PublishAttempts m \<le> 0 then True
      else let lastAttempt = (case LastPublishAttemptAt m of None \<Rightarrow> CreatedAt m | Some t \<Rightarrow> t)
           in \<not> now < lastAttempt + retryBackoff baseBackoff (PublishAttempts m))"

text \<open>\<open>json.Unmarshal\<close> of stored text into a \<open>map[string]interface{}\<close>.\<close>

definition decode_map :: "env \<Rightarrow> string \<Rightarrow> msg option" where
  "decode_map env raw =
     (case parse_json env raw of
        Some (JObj ms) \<Rightarrow> (case json_val (JObj ms) of VMap m \<Rightarrow> Some m | _ \<Rightarrow> None)
      | Some JNull \<Rightarrow> Some []
      | _ \<Rightarrow> None)"

definition retry_update :: "Message \<Rightarrow> int \<Rightarrow> Message" where
  "retry_update m now =
     markPublishAttempt
       (zero_Message\<lparr>ATURI := ATURI m, ATCID := ATCID m, ATDID := ATDID m, Type := Type m,
          MessageState := MessageStateFailed, RawATJson := RawATJson m, RawSSBJson := RawSSBJson m,
          DeletedAt := DeletedAt m, DeletedSeq := DeletedSeq m, DeletedReason := DeletedReason m\<rparr>) now"

definition retryMessage ::
  "env \<Rightarrow> ((string \<times> msg) list \<Rightarrow> string \<Rightarrow> msg \<Rightarrow> string + string) \<Rightarrow> Message \<Rightarrow> op" where
  "retryMessage env p m st =
     (let update = retry_update m (now_at env (tick st))
      in case decode_map env (RawSSBJson m) of
           None \<Rightarrow>
             (case db_add env (update\<lparr>PublishError := ''retry decode mapped payload: '' @ json_error env (RawSSBJson m)\<rparr>) st of
                (Some e, st') \<Rightarrow> (Some e, st') | (None, st') \<Rightarrow> (Some DecodeFailed, st'))
         | Some mapped \<Rightarrow>
             (case Publish p (ATDID m) mapped st of
                (Inl err, st') \<Rightarrow>
                  (case db_add env (markPublishFailed update err) st' of
                     (Some e, st'') \<Rightarrow> (Some e, st'') | (None, st'') \<Rightarrow> (Some (PublishFailed err), st''))
              | (Inr ref, st') \<Rightarrow>
                  db_add env ((markPublished update ref (now_at env (tick st')))\<lparr>PublishError := []\<rparr>) st'))"

record RetryConfig =
  Limit :: int
  Cfg_ATDID :: string
  MaxAttempts :: int
  BaseBackoff :: int

fun retry_loop ::
  "env \<Rightarrow> ((string \<times> msg) list \<Rightarrow> string \<Rightarrow> msg \<Rightarrow> string + string) \<Rightarrow> int \<Rightarrow> int \<Rightarrow> Message list
   \<Rightarrow> ResolveResult \<Rightarrow> pstate \<Rightarrow> ResolveResult \<times> pstate" where
  "retry_loop env p now base [] res st = (res, st)"
| "retry_loop env p now base (m # ms) res st =
     (if \<not> retryDue m now base then retry_loop env p now base ms (res\<lparr>Deferred := Suc (Deferred res)\<rparr>) st
      else case retryMessage env p m st of
        (Some _, st') \<Rightarrow> retry_loop env p now base ms
            (res\<lparr>Attempted := Suc (Attempted res), Failed := Suc (Failed res)\<rparr>) st'
      | (None, st') \<Rightarrow> retry_loop env p now base ms
            (res\<lparr>Attempted := Suc (Attempted res), Published := Suc (Published res)\<rparr>) st')"

definition RetryFailedMessages :: "env \<Rightarrow> RetryConfig \<Rightarrow> pstate \<Rightarrow> (proc_error + ResolveResult) \<times> pstate" where
  "RetryFailedMessages env cfg st =
     (case publisher env of None \<Rightarrow> (Inl NoPublisher, st)
      | Some p \<Rightarrow>
         (let limit = (if Limit cfg \<le> 0 then 100 else Limit cfg);
              maxAttempts = (if MaxAttempts cfg \<le> 0 then 8 else MaxAttempts cfg);
              base = (if BaseBackoff cfg \<le> 0 then 5 * second else BaseBackoff cfg)
          in if query_fault env (tick st) then (Inl DBFault, st)
             else let cands = GetRetryCandidates limit (Cfg_ATDID cfg) maxAttempts (messages st)
                  in case retry_loop env p (now_at env (tick st)) base cands
                            \<lparr>Selected = length cands, Attempted = 0, Published = 0, Deferred = 0, Failed = 0\<rparr> st of
                       (res, st') \<Rightarrow> (Inr res, st')))"

end
