(* ===== verification/ProcessorLaws.thy ===== *)
theory ProcessorLaws
  imports Processor
begin

text \<open>
  What every operation of the processor preserves. The interface is the locale
  \<open>processor_steps\<close>: a reflexive and transitive relation on states that the primitive
  effects respect (a database write of a well-formed row, a publish call with clean content,
  the cursor, the limiter and scope bookkeeping) is respected by every operation, nested
  dependency processing included. It is interpreted with the publish log and with the
  message table.
\<close>

section \<open>Rows and contents the life cycle produces\<close>

definition known_states :: "string list" where
  "known_states = [MessageStatePending, MessageStatePublished, MessageStateFailed, MessageStateDeferred, MessageStateDeleted]"

definition row_ok :: "Message \<Rightarrow> bool" where
  "row_ok m \<longleftrightarrow>
     MessageState m \<in> set known_states \<and> 0 \<le> PublishAttempts m \<and> 0 \<le> DeferAttempts m \<and>
     (SSBMsgRef m \<noteq> [] \<longrightarrow> MessageState m = MessageStatePublished) \<and>
     (MessageState m = MessageStatePublished \<longrightarrow> PublishedAt m \<noteq> None \<and> 1 \<le> PublishAttempts m \<and> DeferReason m = []) \<and>
     (MessageState m = MessageStateDeferred \<longrightarrow> DeferReason m \<noteq> [] \<and> 1 \<le> DeferAttempts m \<and> LastDeferAttemptAt m \<noteq> None)"

definition clean :: "msg \<Rightarrow> bool" where
  "clean c \<longleftrightarrow> (\<forall>k \<in> fst ` set c. \<not> HasPrefix k ''_atproto_'') \<and> ReadyForPublish c"

definition blank_row :: "Message \<Rightarrow> bool" where
  "blank_row m \<longleftrightarrow> SSBMsgRef m = [] \<and> PublishAttempts m = 0 \<and> 0 \<le> DeferAttempts m"

lemma clean_Sanitize: "ReadyForPublish (SanitizeForPublish m) \<Longrightarrow> clean (SanitizeForPublish m)"
  by (auto simp: clean_def SanitizeForPublish_def)

lemma with_blob_simps [simp]:
  "MessageState (with_blob m b) = MessageState m" "SSBMsgRef (with_blob m b) = SSBMsgRef m"
  "PublishAttempts (with_blob m b) = PublishAttempts m" "DeferAttempts (with_blob m b) = DeferAttempts m"
  "PublishedAt (with_blob m b) = PublishedAt m" "DeferReason (with_blob m b) = DeferReason m"
  "LastDeferAttemptAt (with_blob m b) = LastDeferAttemptAt m" "ATURI (with_blob m b) = ATURI m"
  "LastPublishAttemptAt (with_blob m b) = LastPublishAttemptAt m" "ATCID (with_blob m b) = ATCID m"
  by (simp_all add: with_blob_def split: option.split)

lemma Join_not_Nil: "xs \<noteq> [] \<Longrightarrow> \<forall>x \<in> set xs. x \<noteq> [] \<Longrightarrow> Join sep xs \<noteq> []"
  by (cases xs; cases "tl xs") auto

lemma unresolved_not_Nil: "x \<in> set (UnresolvedATProtoRefs m) \<Longrightarrow> x \<noteq> []"
  by (auto simp: UnresolvedATProtoRefs_def List.map_filter_def unresolved_at_def split: option.splits if_splits)

lemmas mark_defs = markDeferred_def markPublishAttempt_def markPublishFailed_def markPublished_def

text \<open>The cases of the life cycle, for the callers (all of which sanitize).\<close>

lemma lifecycle_cases:
  assumes "applyMappedMessageLifecycle env m mapped blobErr True st = (out, m', st')"
  obtains (unresolved) "UnresolvedATProtoRefs mapped \<noteq> []" "out = LDeferred" "st' = st"
      "m' = with_blob (markDeferred m (Join '';'' (UnresolvedATProtoRefs mapped)) (now_at env (tick st))) blobErr"
  | (pending) "UnresolvedATProtoRefs mapped = []" "publisher env = None" "out = LPending" "st' = st"
      "m' = with_blob (m\<lparr>MessageState := MessageStatePending\<rparr>) blobErr"
  | (incomplete) p where "UnresolvedATProtoRefs mapped = []" "publisher env = Some p" "out = LDeferred" "st' = st"
      "\<not> ReadyForPublish (SanitizeForPublish mapped)"
      "m' = markDeferred m missing_required (now_at env (tick st))"
  | (failed) p err where "UnresolvedATProtoRefs mapped = []" "publisher env = Some p" "out = LFailed err"
      "ReadyForPublish (SanitizeForPublish mapped)"
      "p (sent st) (ATDID m) (SanitizeForPublish mapped) = Inl err"
      "st' = snd (Publish p (ATDID m) (SanitizeForPublish mapped) st)"
      "m' = with_blob (markPublishFailed ((markPublishAttempt (m\<lparr>RawSSBJson := show_json env (SanitizeForPublish mapped)\<rparr>)
              (now_at env (tick st)))\<lparr>DeferReason := []\<rparr>) err) blobErr"
  | (published) p ref where "UnresolvedATProtoRefs mapped = []" "publisher env = Some p" "out = LPublished ref"
      "ReadyForPublish (SanitizeForPublish mapped)"
      "p (sent st) (ATDID m) (SanitizeForPublish mapped) = Inr ref"
      "st' = snd (Publish p (ATDID m) (SanitizeForPublish mapped) st)"
      "MessageState m' = MessageStatePublished" "SSBMsgRef m' = ref" "PublishedAt m' \<noteq> None"
      "PublishAttempts m' = 1" "DeferAttempts m' = DeferAttempts m" "DeferReason m' = []"
      "ATURI m' = ATURI m" "ATCID m' = ATCID m" "ATDID m' = ATDID m"
      "RawSSBJson m' = show_json env (SanitizeForPublish mapped)"
proof (cases "UnresolvedATProtoRefs mapped = []")
  case False
  with assms show thesis by (intro unresolved) (auto simp: applyMappedMessageLifecycle_def Let_def)
next
  case un: True
  show thesis
  proof (cases "publisher env")
    case None
    with un assms show thesis by (intro pending) (auto simp: applyMappedMessageLifecycle_def Let_def)
  next
    case (Some p)
    show thesis
    proof (cases "ReadyForPublish (SanitizeForPublish mapped)")
      case False
      with un Some assms show thesis by (intro incomplete) (auto simp: applyMappedMessageLifecycle_def Let_def)
    next
      case ready: True
      show thesis
      proof (cases "p (sent st) (ATDID m) (SanitizeForPublish mapped)")
        case (Inl err)
        with un Some ready assms show thesis
          by (intro failed [of p err]) (auto simp: applyMappedMessageLifecycle_def Let_def Publish_def mark_defs)
      next
        case (Inr ref)
        with un Some ready assms show thesis
          by (intro published [of p ref])
            (auto simp: applyMappedMessageLifecycle_def Let_def Publish_def mark_defs split: option.splits)
      qed
    qed
  qed
qed

lemma lifecycle_row_ok:
  assumes "applyMappedMessageLifecycle env m mapped blobErr True st = (out, m', st')" and "blank_row m"
  shows "row_ok m'"
  using assms(1)
proof (cases rule: lifecycle_cases)
  case unresolved
  then show ?thesis
    using assms(2) Join_not_Nil [of "UnresolvedATProtoRefs mapped" "'';''"] unresolved_not_Nil
    by (auto simp: row_ok_def blank_row_def mark_defs known_states_def state_defs)
next
  case pending
  then show ?thesis using assms(2) by (auto simp: row_ok_def blank_row_def known_states_def state_defs)
next
  case incomplete
  then show ?thesis using assms(2)
    by (auto simp: row_ok_def blank_row_def mark_defs known_states_def state_defs missing_required_def)
next
  case failed
  then show ?thesis using assms(2) by (auto simp: row_ok_def blank_row_def mark_defs known_states_def state_defs)
next
  case published
  then show ?thesis using assms(2) by (auto simp: row_ok_def blank_row_def known_states_def state_defs)
qed

section \<open>What every processor step preserves\<close>

locale processor_steps =
  fixes env :: env and R :: "pstate \<Rightarrow> pstate \<Rightarrow> bool"
  assumes R_refl: "R st st"
    and R_trans: "R s1 s2 \<Longrightarrow> R s2 s3 \<Longrightarrow> R s1 s3"
    and R_scope: "R st (st\<lparr>scope := sc, inflight := fl\<rparr>)"
    and R_add: "row_ok m \<Longrightarrow> R st (snd (db_add env m st))"
    and R_publish: "publisher env = Some p \<Longrightarrow> clean content \<Longrightarrow> R st (snd (Publish p did content st))"
    and R_cursor: "R st (snd (SetBridgeState env k v st))"
    and R_limits: "R st (st\<lparr>rateLimiters := l, lastActivity := a\<rparr>)"
begin

lemma R_scope1: "R st (st\<lparr>scope := sc\<rparr>)"
  using R_scope [where st = st and sc = sc and fl = "inflight st"] by simp

lemma R_inflight: "R st (st\<lparr>inflight := fl\<rparr>)"
  using R_scope [where st = st and sc = "scope st" and fl = fl] by simp

lemma lifecycle_R:
  assumes "applyMappedMessageLifecycle env m mapped blobErr True st = (out, m', st')"
  shows "R st st'"
  using assms
proof (cases rule: lifecycle_cases)
  case (failed p err)
  then show ?thesis by (simp add: R_publish clean_Sanitize)
next
  case (published p ref)
  then show ?thesis by (simp add: R_publish clean_Sanitize)
qed (auto intro: R_refl)

lemma hydrate_loop_R:
  assumes "\<forall>v st. R st (snd (ensure v st))"
  shows "R st (snd (hydrate_loop ensure deps st))"
proof (induction deps arbitrary: st)
  case (Cons d deps)
  obtain k v where d: "d = (k, v)" by (cases d)
  obtain r st' where e: "ensure v st = (r, st')" by fastforce
  have "R st st'" using assms e by (metis snd_conv)
  then show ?case using Cons.IH R_trans by (auto simp: d e)
qed (simp add: R_refl)

lemma mapMapped_R:
  assumes "\<forall>v st. R st (snd (ensure v st))"
  shows "R st (snd (mapMappedRecord env ensure did coll raw deleted st))"
proof -
  have h: "R st (snd (hydrateRecordDependencies env ensure m st))" for m
    unfolding hydrateRecordDependencies_def using hydrate_loop_R [OF assms] R_refl by (simp split: option.split)
  show ?thesis
    unfolding mapMappedRecord_def Let_def
    using h R_refl by (auto split: sum.splits prod.splits option.splits) (metis snd_conv)+
qed

lemma process_body_R:
  assumes "\<forall>v st. R st (snd (ensure v st))"
  shows "R st (snd (process_body env ensure did uri cid coll raw st))"
proof (cases "db_get env uri st")
  case (Inr existing)
  show ?thesis
  proof (cases "already_bridged existing cid")
    case False
    obtain r st1 where m: "mapMappedRecord env ensure did coll raw False st = (r, st1)" by fastforce
    then have s1: "R st st1" using mapMapped_R [OF assms, of st did coll raw False] by simp
    show ?thesis
    proof (cases r)
      case (Inr mapped)
      obtain mapped' b where t: "tryBlobBridge env st1 did coll mapped raw = (mapped', b)" by fastforce
      obtain out m' st2 where l: "applyMappedMessageLifecycle env (new_row env did uri cid coll raw mapped') mapped' b True st1
          = (out, m', st2)" by (metis prod_cases3)
      have "row_ok m'"
        by (rule lifecycle_row_ok [OF l]) (simp add: blank_row_def new_row_def zero_Message_def)
      then have "R st (snd (db_add env m' st2))"
        using R_trans [OF s1 R_trans [OF lifecycle_R [OF l] R_add]] by blast
      then show ?thesis using \<open>db_get env uri st = Inr existing\<close> False m Inr t l by (simp add: process_body_def)
    qed (use s1 Inr False m in \<open>simp add: process_body_def\<close>)
  qed (use Inr R_refl in \<open>simp add: process_body_def\<close>)
qed (simp add: process_body_def R_refl)

lemma ensure_body_R:
  assumes "\<forall>did uri cid coll raw st. R st (snd (process did uri cid coll raw st))"
  shows "R st (snd (ensure_body env process uri st))"
proof -
  have f: "R st (snd (fetch_and_process env process uri st))" for st
    unfolding fetch_and_process_def noteDependencyFetch_def
    by (auto split: option.splits sum.splits intro: R_scope1 R_refl R_trans [OF R_scope1 assms [rule_format]])
  show ?thesis
    unfolding ensure_body_def using f R_refl assms
    by (auto split: sum.splits option.splits)
qed

lemma EnsureRecord_R: "R st (snd (EnsureRecord n env u st))"
proof (induction n arbitrary: u st)
  case 0
  show ?case by (simp add: Let_def R_refl)
next
  case (Suc n)
  have b: "R st (begin_visit uri st)" for uri
    unfolding begin_visit_def by (rule R_scope)
  have f: "R st (snd (finish_call uri r))" if "R st (snd r)" for uri r
    unfolding finish_call_def using R_trans [OF that R_inflight] by simp
  have "R st (snd (ensure_body env (process_body env (EnsureRecord n env)) uri (begin_visit uri st)))" for uri
    by (rule R_trans [OF b ensure_body_R]) (simp add: process_body_R Suc.IH)
  then show ?case using b f R_refl by (simp add: Let_def)
qed

lemma ProcessRecord_R: "R st (snd (ProcessRecord env did uri cid coll raw st))"
  unfolding ProcessRecord_def ensureDependencyContext_def
  by (rule R_trans [OF R_scope1 process_body_R]) (simp add: EnsureRecord_R)

lemma ensure_unscoped_R: "R st (snd (ensure_unscoped env u st))"
  unfolding ensure_unscoped_def ensureDependencyContext_def by (rule R_trans [OF R_scope1 EnsureRecord_R])

lemma ProcessDeletedRecord_R: "R st (snd (ProcessDeletedRecord env did uri cid coll raw seqno st))"
proof (cases "db_get env uri st")
  case (Inr existing)
  define m where "m = deleted_row env existing did uri cid coll raw seqno (now_at env (tick st))"
  have row: "row_ok m"
    by (simp add: m_def row_ok_def deleted_row_def zero_Message_def known_states_def state_defs)
  obtain r st1 where mm: "mapMappedRecord env (ensure_unscoped env) did coll (RawATJson m) True st = (r, st1)" by fastforce
  then have s1: "R st st1" using mapMapped_R [of "ensure_unscoped env" st did coll "RawATJson m" True] ensure_unscoped_R by simp
  have "R st (snd (db_add env m' st2))"
    if l: "applyMappedMessageLifecycle env (m\<lparr>RawSSBJson := x\<rparr>) mapped None True st1 = (out, m', st2)" for x mapped out m' st2
    using R_trans [OF s1 R_trans [OF lifecycle_R [OF l] R_add]] lifecycle_row_ok [OF l]
    by (simp add: blank_row_def m_def deleted_row_def zero_Message_def)
  then show ?thesis
    using Inr R_add [OF row] s1 mm
    by (auto simp: ProcessDeletedRecord_def Let_def simp flip: m_def split: sum.splits prod.splits)
qed (simp add: ProcessDeletedRecord_def R_refl)

lemma HandleRecordEvent_R: "R st (snd (HandleRecordEvent env e st))"
  unfolding HandleRecordEvent_def using ProcessRecord_R ProcessDeletedRecord_R by simp

lemma commit_ops_R: "R st (snd (commit_ops env evt ops st))"
proof (induction ops arbitrary: st)
  case (Cons oper ops)
  have p: "R st (snd (processOp env rr did path cid st))" for rr did path cid
    unfolding processOp_def using R_refl ProcessRecord_R by (simp split: option.split)
  have d: "R st (snd (processDeleteOp env did path n st))" for did path n
    unfolding processDeleteOp_def using R_refl ProcessDeletedRecord_R by (simp split: option.split)
  have k: "R st (snd (commit_ops env evt ops (snd q)))" if "R st (snd q)" for q
    using that Cons.IH R_trans by auto
  show ?case using Cons.IH p d R_refl
    by (auto simp: case_prod_unfold intro: k split: option.split)
qed (simp add: R_refl)

lemma HandleCommit_R: "R st (snd (HandleCommit env ev st))"
proof -
  have c: "R st (snd (commit_work env evt st))" for evt st
    unfolding commit_work_def using commit_ops_R [of st evt "Ops evt"] R_cursor
    by (auto split: prod.splits option.splits intro: R_trans)
  have a: "R st (snd (Allow env did lim st))" for did lim st
    unfolding Allow_def Let_def using R_limits [where st = st and a = "lastActivity st"] by simp
  have g: "R st (snd (getRateLimiter env did st))" for did st
    unfolding getRateLimiter_def Let_def
    using R_refl R_limits R_limits [where st = st and l = "rateLimiters st"] by (simp split: option.split)
  have "R st (snd (commit_work env evt s))" if "getRateLimiter env did st = (None, s)" for evt did s
    using R_trans [OF _ c] g [of st did] that by simp
  moreover have "R st (snd (commit_work env evt s'))" "R st s'"
    if "getRateLimiter env did st = (Some lim, s)" "Allow env did lim s = (ok, s')" for evt did lim s ok s'
    using R_trans [OF R_trans [OF g a] c] R_trans [OF g a] that by (metis snd_conv)+
  ultimately show ?thesis
    unfolding HandleCommit_def using R_refl by (auto split: option.splits sum.splits prod.splits)
qed

lemma resolveDeferredMessage_R: "R st (snd (snd (resolveDeferredMessage env m st)))"
proof -
  let ?st = "ensureDependencyContext (ATDID m) (ATURI m) st"
  obtain r st1 where mm: "mapMappedRecord env (EnsureRecord MaxDependencyDepth env) (ATDID m) (Type m) (RawATJson m)
      (DeletedAt m \<noteq> None) ?st = (r, st1)" by fastforce
  have "R st ?st" unfolding ensureDependencyContext_def by (rule R_scope1)
  moreover have "R ?st st1" using mapMapped_R [of "EnsureRecord MaxDependencyDepth env" ?st "ATDID m" "Type m" "RawATJson m" "DeletedAt m \<noteq> None"] EnsureRecord_R mm by simp
  ultimately have s1: "R st st1" by (rule R_trans)
  have "R st (snd (db_add env m' st2))"
    if l: "applyMappedMessageLifecycle env (deferred_update env m mapped t) mapped b True st1 = (out, m', st2)" for mapped t b out m' st2
    using R_trans [OF s1 R_trans [OF lifecycle_R [OF l] R_add]] lifecycle_row_ok [OF l]
    by (simp add: blank_row_def deferred_update_def zero_Message_def)
  then show ?thesis
    using mm s1 unfolding resolveDeferredMessage_def Let_def
    by (auto split: sum.splits prod.splits option.splits) (metis snd_conv)+
qed

lemma resolve_run_R: "e = env \<Longrightarrow> R st (snd (snd (snd (resolve_run e cands todo dn res st))))"
proof (induction e cands todo dn res st rule: resolve_run.induct)
  case (1 e cands dn res st)
  show ?case by (simp add: resolve_run.simps R_refl)
next
  case (2 e cands i todo dn res st)
  obtain outcome err st' where rd: "resolveDeferredMessage e (cands ! i) st = (outcome, err, st')"
    by (metis prod_cases3)
  have "R st st'" using resolveDeferredMessage_R [of st "cands ! i"] rd "2.prems" by simp
  then show ?case
    using 2 rd by (auto simp: resolve_run.simps(2) intro: R_trans)
qed

lemma ResolveDeferredMessages_R: "R st (snd (ResolveDeferredMessages env limit st))"
proof -
  have "R st s" if "resolve_run env cands todo dn res st = (e, res', dn', s)" for cands todo dn res e res' dn' s
    using resolve_run_R [OF refl, of st cands todo dn res] that by simp
  then show ?thesis
    unfolding ResolveDeferredMessages_def Let_def
    by (auto simp: R_refl split: prod.splits option.splits)
qed

end


text \<open>Retries publish what is stored, whatever it is.\<close>

locale processor_retries = processor_steps +
  assumes R_publish_any: "publisher env = Some p \<Longrightarrow> R st (snd (Publish p did content st))"
begin

lemma retryMessage_R:
  assumes "publisher env = Some p"
  shows "R st (snd (retryMessage env p m st))"
proof -
  have rows: "row_ok (retry_update m t\<lparr>PublishError := e\<rparr>)" "row_ok (markPublishFailed (retry_update m t) e)"
    "row_ok ((markPublished (retry_update m t) ref t')\<lparr>PublishError := []\<rparr>)" for t e ref t'
    by (auto simp: row_ok_def retry_update_def mark_defs zero_Message_def known_states_def state_defs)
  have p: "R st st'" if "Publish p d c st = (r, st')" for d c r st'
    using R_publish_any [OF assms, of st d c] that by simp
  have a: "R st st'" if "row_ok m'" "db_add env m' st = (r, st')" for m' st r st'
    using R_add [OF that(1), of st] that(2) by simp
  show ?thesis
  proof (cases "decode_map env (RawSSBJson m)")
    case None
    then show ?thesis using a [OF rows(1)]
      by (auto simp: retryMessage_def Let_def split: prod.splits option.splits)
  next
    case (Some c)
    obtain r st1 where pub: "Publish p (ATDID m) c st = (r, st1)" by fastforce
    show ?thesis
    proof (cases r)
      case (Inl err)
      then show ?thesis using Some pub R_trans [OF p [OF pub] a [OF rows(2)]]
        by (auto simp: retryMessage_def Let_def split: prod.splits option.splits)
    next
      case (Inr ref)
      then show ?thesis using Some pub R_trans [OF p [OF pub] R_add [OF rows(3)]]
        by (auto simp: retryMessage_def Let_def)
    qed
  qed
qed

lemma retry_loop_R:
  "publisher env = Some p \<Longrightarrow> R st (snd (retry_loop env p now base ms res st))"
proof (induction ms arbitrary: res st)
  case (Cons m ms)
  obtain r st' where r: "retryMessage env p m st = (r, st')" by fastforce
  then have "R st st'" using retryMessage_R [OF Cons.prems, of st m] by simp
  then show ?case using Cons.IH [OF Cons.prems] r R_trans by (auto split: option.split)
qed (simp add: R_refl)

lemma RetryFailedMessages_R: "R st (snd (RetryFailedMessages env cfg st))"
proof (cases "publisher env")
  case (Some p)
  have "R st s" if "retry_loop env p now base ms res st = (r, s)" for now base ms res r s
    using retry_loop_R [OF Some, of st now base ms res] that by simp
  with Some show ?thesis
    by (auto simp: RetryFailedMessages_def Let_def R_refl split: prod.split)
qed (simp add: RetryFailedMessages_def R_refl)

end

context processor_steps
begin

lemma expire_loop_R:
  "\<forall>m \<in> set ms. row_ok m \<and> MessageState m = MessageStateDeferred \<Longrightarrow> R st (snd (expire_loop env ms res st))"
proof (induction ms arbitrary: res st)
  case (Cons m ms)
  have "row_ok (expire_row m)"
    using Cons.prems by (auto simp: row_ok_def expire_row_def known_states_def state_defs)
  then have "R st (snd (db_add env (expire_row m) st))" by (rule R_add)
  moreover obtain r st' where "db_add env (expire_row m) st = (r, st')" by fastforce
  ultimately show ?case using Cons R_trans by (auto split: option.split)
qed (simp add: R_refl)

end

section \<open>What was published\<close>

definition publishes_clean :: "pstate \<Rightarrow> pstate \<Rightarrow> bool" where
  "publishes_clean st st' \<longleftrightarrow> (\<exists>new. sent st' = sent st @ new \<and> (\<forall>p \<in> set new. clean (snd p)))"

lemma db_add_other [simp]:
  "sent (snd (db_add env m st)) = sent st" "accounts (snd (db_add env m st)) = accounts st"
  "scope (snd (db_add env m st)) = scope st" "inflight (snd (db_add env m st)) = inflight st"
  "bridge_state (snd (db_add env m st)) = bridge_state st"
  by (simp_all add: db_add_def)

lemma SetBridgeState_other [simp]:
  "sent (snd (SetBridgeState env k v st)) = sent st" "accounts (snd (SetBridgeState env k v st)) = accounts st"
  "messages (snd (SetBridgeState env k v st)) = messages st"
  by (simp_all add: SetBridgeState_def)

lemma Publish_other [simp]:
  "messages (snd (Publish p d c st)) = messages st" "accounts (snd (Publish p d c st)) = accounts st"
  "scope (snd (Publish p d c st)) = scope st" "inflight (snd (Publish p d c st)) = inflight st"
  "sent (snd (Publish p d c st)) = sent st @ [(d, c)]"
  by (simp_all add: Publish_def)

interpretation cl: processor_steps env publishes_clean for env
proof unfold_locales
  show "publishes_clean s1 s3" if "publishes_clean s1 s2" "publishes_clean s2 s3" for s1 s2 s3
  proof -
    obtain a b where "sent s2 = sent s1 @ a" "\<forall>p \<in> set a. clean (snd p)"
      "sent s3 = sent s2 @ b" "\<forall>p \<in> set b. clean (snd p)"
      using \<open>publishes_clean s1 s2\<close> \<open>publishes_clean s2 s3\<close> by (auto simp: publishes_clean_def)
    then have "sent s3 = sent s1 @ (a @ b) \<and> (\<forall>p \<in> set (a @ b). clean (snd p))" by auto
    then show ?thesis unfolding publishes_clean_def by blast
  qed
qed (auto simp: publishes_clean_def)

section \<open>What is stored\<close>

definition store_ok :: "pstate \<Rightarrow> bool" where
  "store_ok st \<longleftrightarrow> table_ok (messages st) \<and> (\<forall>u m. map_of (messages st) u = Some m \<longrightarrow> row_ok m)"

definition grows :: "pstate \<Rightarrow> pstate \<Rightarrow> bool" where
  "grows st st' \<longleftrightarrow> (store_ok st \<longrightarrow> store_ok st') \<and> accounts st' = accounts st \<and>
     (\<exists>new. sent st' = sent st @ new) \<and>
     (\<forall>u m. map_of (messages st) u = Some m \<longrightarrow>
        (\<exists>m'. map_of (messages st') u = Some m' \<and> CreatedAt m' = CreatedAt m \<and>
              PublishAttempts m \<le> PublishAttempts m' \<and> DeferAttempts m \<le> DeferAttempts m'))"

lemma known_not_blank: "s \<in> set known_states \<Longrightarrow> TrimSpace s = s"
  by (simp only: known_states_def list.set insert_iff empty_iff)
     (elim disjE; simp add: state_defs TrimSpace_solid solid_def space_runes_def)

lemma row_ok_state: "row_ok m \<Longrightarrow> MessageState (normalize_Message now m) = MessageState m"
proof -
  assume "row_ok m"
  then have k: "MessageState m \<in> set known_states" by (simp add: row_ok_def)
  then have "MessageState m \<noteq> []" by (auto simp: known_states_def state_defs)
  with k show ?thesis by (simp add: normalize_state known_not_blank)
qed

lemma row_ok_normalize: "row_ok m \<Longrightarrow> row_ok (normalize_Message now m)"
  using row_ok_state [of m now] by (simp add: row_ok_def)

lemma row_ok_upsert: "row_ok old \<Longrightarrow> row_ok new \<Longrightarrow> row_ok (upsert_row old new)"
  by (auto simp: row_ok_def)

lemma grows_add:
  assumes "row_ok m"
  shows "grows st (snd (db_add env m st))"
proof -
  have "store_ok (snd (db_add env m st))" if "store_ok st"
    using that assms unfolding store_ok_def db_add_def
    by (auto simp: table_ok_AddMessage ms.get_ins row_ok_normalize row_ok_upsert
             split: if_splits option.splits)
  moreover have "\<exists>m'. map_of (messages (snd (db_add env m st))) u = Some m' \<and> CreatedAt m' = CreatedAt r \<and>
      PublishAttempts r \<le> PublishAttempts m' \<and> DeferAttempts r \<le> DeferAttempts m'"
    if "map_of (messages st) u = Some r" for u r
    using that assms by (cases "u = ATURI m") (auto simp: db_add_def ms.get_ins row_ok_def)
  ultimately show ?thesis by (simp add: grows_def)
qed

lemma grows_trans: "grows a b \<Longrightarrow> grows b c \<Longrightarrow> grows a c"
proof -
  assume a: "grows a b" and b: "grows b c"
  have "\<exists>m'. map_of (messages c) u = Some m' \<and> CreatedAt m' = CreatedAt m \<and>
      PublishAttempts m \<le> PublishAttempts m' \<and> DeferAttempts m \<le> DeferAttempts m'"
    if "map_of (messages a) u = Some m" for u m
  proof -
    from a that obtain m1 where m1: "map_of (messages b) u = Some m1" "CreatedAt m1 = CreatedAt m"
      "PublishAttempts m \<le> PublishAttempts m1" "DeferAttempts m \<le> DeferAttempts m1"
      unfolding grows_def by blast
    from b m1(1) obtain m2 where "map_of (messages c) u = Some m2" "CreatedAt m2 = CreatedAt m1"
      "PublishAttempts m1 \<le> PublishAttempts m2" "DeferAttempts m1 \<le> DeferAttempts m2"
      unfolding grows_def by blast
    with m1 show ?thesis by auto
  qed
  moreover have "\<exists>new. sent c = sent a @ new" using a b by (auto simp: grows_def)
  ultimately show ?thesis using a b by (simp add: grows_def)
qed

interpretation gr: processor_retries env grows for env
proof unfold_locales
  show "grows s1 s3" if "grows s1 s2" "grows s2 s3" for s1 s2 s3
    using that by (rule grows_trans)
  show "row_ok m \<Longrightarrow> grows st (snd (db_add env m st))" for m st
    by (rule grows_add)
qed (auto simp: grows_def store_ok_def)

section \<open>Dependency scopes: no deadlock, bounded work\<close>

definition scoped :: "pstate \<Rightarrow> bool" where
  "scoped st \<longleftrightarrow> set (inflight st) \<subseteq> set (visitedRecords (scope st)) \<and>
     fetchedRecords (scope st) \<le> maxDependencyRecords \<and> distinct (visitedRecords (scope st))"

definition visits :: "pstate \<Rightarrow> nat" where "visits st = length (visitedRecords (scope st))"

text \<open>A call that keeps the scope well-formed, ends its own in-flight calls, never waits for
  itself, and publishes at most \<open>n\<close> messages besides one per newly visited record.\<close>

definition bounded_call :: "nat \<Rightarrow> pstate \<Rightarrow> proc_error option \<times> pstate \<Rightarrow> bool" where
  "bounded_call n st r \<longleftrightarrow> (scoped st \<longrightarrow>
     scoped (snd r) \<and> fst r \<noteq> Some Deadlock \<and> inflight (snd r) = inflight st \<and>
     set (visitedRecords (scope st)) \<subseteq> set (visitedRecords (scope (snd r))) \<and>
     length (sent (snd r)) + visits st \<le> length (sent st) + visits (snd r) + n \<and> visits st \<le> visits (snd r))"

lemma bounded_refl: "e \<noteq> Some Deadlock \<Longrightarrow> bounded_call n st (e, st)"
  by (simp add: bounded_call_def)

lemma bounded_trans:
  assumes "bounded_call a st r" and "bounded_call b (snd r) r'"
  shows "bounded_call (a + b) st r'"
  using assms unfolding bounded_call_def by (auto intro: order_trans)

lemma bounded_mono: "bounded_call a st r \<Longrightarrow> a \<le> b \<Longrightarrow> bounded_call b st r"
  unfolding bounded_call_def by auto

lemma bounded_add: "bounded_call 0 st (db_add env m st)"
  by (simp add: bounded_call_def scoped_def visits_def) (simp add: db_add_def)

lemma bounded_lifecycle:
  assumes "applyMappedMessageLifecycle env m mapped b True st = (out, m', st')"
  shows "bounded_call (Suc 0) st (None, st')"
  using assms by (cases rule: lifecycle_cases) (auto simp: bounded_call_def scoped_def visits_def)

lemma bounded_hydrate:
  assumes "\<forall>v st. bounded_call 0 st (ensure v st)"
  shows "bounded_call 0 st (hydrate_loop ensure deps st)"
proof (induction deps arbitrary: st)
  case (Cons d deps)
  obtain k v where d: "d = (k, v)" by (cases d)
  obtain r st' where e: "ensure v st = (r, st')" by fastforce
  have "bounded_call 0 st (r, st')" using assms e by metis
  then show ?case using Cons.IH bounded_trans [of 0 st "(r, st')" 0] by (auto simp: d e)
qed (simp add: bounded_refl)

lemma bounded_mapMapped:
  assumes "\<forall>v st. bounded_call 0 st (ensure v st)"
    and "mapMappedRecord env ensure did coll raw deleted st = (r, st')"
  shows "bounded_call 0 st ((case r of Inl e \<Rightarrow> Some e | Inr _ \<Rightarrow> None), st')"
proof -
  have h: "bounded_call 0 st (hydrateRecordDependencies env ensure m st)" for m
    unfolding hydrateRecordDependencies_def using bounded_hydrate [OF assms(1)] bounded_refl by (simp split: option.split)
  have nd: "mapRecord_env env did coll raw \<noteq> Inl Deadlock" "mapDeleteRecord env did coll raw \<noteq> Inl Deadlock"
    by (auto simp: mapRecord_env_def mapDeleteRecord_def map_error_of_def split: sum.splits map_error.splits
         option.splits val.splits if_splits)
  show ?thesis
  proof (cases "if deleted then mapDeleteRecord env did coll raw else mapRecord_env env did coll raw")
    case (Inl e)
    with nd assms(2) show ?thesis by (auto simp: mapMappedRecord_def intro: bounded_refl split: if_splits)
  next
    case (Inr m)
    let ?m = "resolveMappedRefs env st m"
    obtain e st1 where hy: "hydrateRecordDependencies env ensure ?m st = (e, st1)" by fastforce
    with Inr assms(2) have "st' = st1" "(case r of Inl e \<Rightarrow> Some e | Inr _ \<Rightarrow> None) = e"
      by (auto simp: mapMappedRecord_def Let_def split: option.splits)
    then show ?thesis using h [of ?m] hy by simp
  qed
qed

lemma bounded_process_body:
  assumes "\<forall>v st. bounded_call 0 st (ensure v st)"
  shows "bounded_call (Suc 0) st (process_body env ensure did uri cid coll raw st)"
proof (cases "db_get env uri st")
  case (Inl e)
  then show ?thesis by (auto simp: process_body_def db_get_def intro!: bounded_refl split: if_splits)
next
  case existing: (Inr existing)
  show ?thesis
  proof (cases "already_bridged existing cid")
    case True
    with existing show ?thesis by (simp add: process_body_def bounded_refl)
  next
    case False
    obtain r st1 where m: "mapMappedRecord env ensure did coll raw False st = (r, st1)" by fastforce
    note b1 = bounded_mapMapped [OF assms m]
    show ?thesis
    proof (cases r)
      case (Inl e)
      with existing False m bounded_mono [OF b1, of "Suc 0"] show ?thesis by (simp add: process_body_def)
    next
      case (Inr mapped)
      obtain mapped' b where t: "tryBlobBridge env st1 did coll mapped raw = (mapped', b)" by fastforce
      obtain out m' st2 where l: "applyMappedMessageLifecycle env (new_row env did uri cid coll raw mapped') mapped' b True st1
          = (out, m', st2)" by (metis prod_cases3)
      have "bounded_call (Suc 0) st (None, st2)"
        using bounded_trans [OF b1, of "Suc 0" "(None, st2)"] bounded_lifecycle [OF l] Inr by simp
      then have "bounded_call (Suc 0) st (db_add env m' st2)"
        using bounded_trans [of "Suc 0" st "(None, st2)" 0] bounded_add [of st2] by simp
      then show ?thesis using existing False m Inr t l by (simp add: process_body_def)
    qed
  qed
qed

lemma bounded_ensure_body:
  assumes "\<forall>did uri cid coll raw st. bounded_call (Suc 0) st (process did uri cid coll raw st)"
  shows "bounded_call (Suc 0) st (ensure_body env process uri st)"
proof -
  have f: "bounded_call (Suc 0) st (fetch_and_process env process uri st)"
  proof (cases "maxDependencyRecords \<le> fetchedRecords (scope st)")
    case True
    then show ?thesis by (simp add: fetch_and_process_def noteDependencyFetch_def bounded_refl)
  next
    case False
    let ?st = "st\<lparr>scope := (scope st)\<lparr>fetchedRecords := Suc (fetchedRecords (scope st))\<rparr>\<rparr>"
    have n: "bounded_call 0 st (e, ?st)" if "e \<noteq> Some Deadlock" for e
      using False that by (simp add: bounded_call_def scoped_def visits_def)
    have "bounded_call (Suc 0) ?st (process did u c co r ?st)" for did u c co r using assms by blast
    then have "bounded_call (Suc 0) st (process did u c co r ?st)" for did u c co r
      using bounded_trans [OF n [of None], of "Suc 0"] by simp
    moreover have "bounded_call (Suc 0) st (e, ?st)" if "e \<noteq> Some Deadlock" for e
      using bounded_mono [OF n [OF that], of "Suc 0"] by simp
    ultimately show ?thesis using False
      by (simp add: fetch_and_process_def noteDependencyFetch_def split: option.split sum.split)
  qed
  have "Inl Deadlock \<noteq> db_get env uri st" by (simp add: db_get_def)
  then show ?thesis
    unfolding ensure_body_def using f assms
    by (auto simp: bounded_refl split: sum.splits option.splits)
qed

lemma bounded_EnsureRecord: "bounded_call 0 st (EnsureRecord n env u st)"
proof (induction n arbitrary: u st)
  case 0
  show ?case by (auto simp: Let_def bounded_refl)
next
  case (Suc n)
  define uri where "uri = TrimSpace u"
  consider (skip) "uri = [] \<or> uri \<in> set (visitedRecords (scope st))"
    | (dead) "uri \<noteq> []" "uri \<notin> set (visitedRecords (scope st))" "uri \<in> set (inflight st)"
    | (go) "uri \<noteq> []" "uri \<notin> set (visitedRecords (scope st))" "uri \<notin> set (inflight st)" by blast
  then show ?case
  proof cases
    case skip
    then show ?thesis by (auto simp: Let_def bounded_refl simp flip: uri_def)
  next
    case dead
    then show ?thesis by (auto simp: bounded_call_def scoped_def)
  next
    case go
    have "bounded_call (Suc 0) (begin_visit uri st) (ensure_body env (process_body env (EnsureRecord n env)) uri (begin_visit uri st))"
      by (rule bounded_ensure_body) (simp add: bounded_process_body Suc.IH)
    with go show ?thesis
      by (auto simp: bounded_call_def scoped_def visits_def begin_visit_def finish_call_def Let_def simp flip: uri_def)
  qed
qed


section \<open>What one processed record leaves behind\<close>

lemma lifecycle_identity:
  assumes "applyMappedMessageLifecycle env m mapped b True st = (out, m', st')"
  shows "ATURI m' = ATURI m" and "ATCID m' = ATCID m" and "MessageState m' = lifecycle_state out"
    and "SSBMsgRef m = [] \<Longrightarrow> SSBMsgRef m' = (case out of LPublished r \<Rightarrow> r | _ \<Rightarrow> [])"
    and "messages st' = messages st"
  using assms by (cases rule: lifecycle_cases; auto simp: mark_defs lifecycle_state_def)+

lemma process_body_ok:
  assumes "process_body env ensure did uri cid coll raw st = (None, st')"
  obtains (duplicate) m where "map_of (messages st) uri = Some m" "already_bridged (Some m) cid" "st' = st"
  | (stored) mm st1 mapped b out m st2 where
      "mapMappedRecord env ensure did coll raw False st = (Inr mm, st1)"
      "tryBlobBridge env st1 did coll mm raw = (mapped, b)"
      "applyMappedMessageLifecycle env (new_row env did uri cid coll raw mapped) mapped b True st1 = (out, m, st2)"
      "db_add env m st2 = (None, st')"
proof -
  obtain existing where g: "db_get env uri st = Inr existing"
    using assms by (cases "db_get env uri st") (auto simp: process_body_def)
  show thesis
  proof (cases "already_bridged existing cid")
    case True
    then obtain m where m: "existing = Some m" by (cases existing) (auto simp: already_bridged_def)
    with g have "map_of (messages st) uri = Some m" by (simp add: db_get_def GetMessage_def split: if_splits)
    moreover have "st' = st" using assms g True by (simp add: process_body_def)
    ultimately show thesis using duplicate True m by blast
  next
    case False
    obtain r st1 where mm: "mapMappedRecord env ensure did coll raw False st = (r, st1)" by fastforce
    then obtain mapped0 where r: "r = Inr mapped0" using assms g False by (cases r) (auto simp: process_body_def)
    obtain mapped b where t: "tryBlobBridge env st1 did coll mapped0 raw = (mapped, b)" by fastforce
    obtain out m st2 where l: "applyMappedMessageLifecycle env (new_row env did uri cid coll raw mapped) mapped b True st1
        = (out, m, st2)" by (metis prod_cases3)
    show thesis
      using stored [of mapped0 st1 mapped b out m st2] mm r t l assms g False by (simp add: process_body_def)
  qed
qed

lemma db_add_ok:
  assumes "db_add env m st = (None, st')"
  shows "\<exists>old. map_of (messages st') (ATURI m) =
     Some (case old of None \<Rightarrow> normalize_Message (now_at env (tick st)) m
           | Some o' \<Rightarrow> upsert_row o' (normalize_Message (now_at env (tick st)) m))"
  using assms by (auto simp: db_add_def ms.get_ins split: if_splits)

lemma process_body_dedupe:
  assumes "process_body env ensure did uri cid coll raw st = (None, st')"
    and "map_of (messages st') uri = Some m" and "MessageState m = MessageStatePublished"
    and "\<forall>p h d c ref. publisher env = Some p \<longrightarrow> p h d c = Inr ref \<longrightarrow> TrimSpace ref \<noteq> []"
    and "TrimSpace cid \<noteq> []"
  shows "already_bridged (Some m) cid"
  using assms(1)
proof (cases rule: process_body_ok)
  case (duplicate m')
  with assms(2) show ?thesis by simp
next
  case (stored mm st1 mapped b out m' st2)
  note id = lifecycle_identity [OF stored(3)]
  have u: "ATURI m' = uri" "ATCID m' = cid" "SSBMsgRef m' = (case out of LPublished r \<Rightarrow> r | _ \<Rightarrow> [])"
    using id by (simp_all add: new_row_def zero_Message_def)
  have "row_ok m'" by (rule lifecycle_row_ok [OF stored(3)]) (simp add: blank_row_def new_row_def zero_Message_def)
  then have st: "MessageState (normalize_Message t m') = lifecycle_state out" for t
    using row_ok_state id(3) by simp
  from db_add_ok [OF stored(4)] u(1) assms(2) have m: "MessageState m = lifecycle_state out"
    "SSBMsgRef m = SSBMsgRef m'" "ATCID m = cid"
    using st u by (auto split: option.splits)
  with assms(3) obtain ref where out: "out = LPublished ref"
    by (cases out) (auto simp: lifecycle_state_def state_defs)
  from stored(3) have "TrimSpace ref \<noteq> []"
    by (cases rule: lifecycle_cases) (use out assms(4) in auto)
  with out u m assms(5) show ?thesis by (simp add: already_bridged_def)
qed

section \<open>Deferred resolution: every candidate exactly once\<close>

definition tallied :: "ResolveResult \<Rightarrow> bool" where
  "tallied res \<longleftrightarrow> Published res + Deferred res + Failed res = Attempted res"

lemma tally_tallied: "tallied res \<Longrightarrow> tallied (tally out err (res\<lparr>Attempted := Suc (Attempted res)\<rparr>))"
  by (simp add: tallied_def tally_def)

lemma tally_simps [simp]: "Attempted (tally out err res) = Attempted res" "Selected (tally out err res) = Selected res"
  by (simp_all add: tally_def)

lemma resolve_run_counts:
  assumes "resolve_run env cands todo dn res st = (None, res', dn', st')"
    and "tallied res" and "distinct dn" and "set dn \<subseteq> {..<length cands}"
  shows "tallied res' \<and> distinct dn' \<and> set dn' \<subseteq> {..<length cands} \<and> set dn \<subseteq> set dn' \<and>
     (\<forall>i \<in> set todo. i < length cands \<longrightarrow> i \<in> set dn') \<and>
     Attempted res' + length dn = Attempted res + length dn' \<and> Selected res' = Selected res"
  using assms
proof (induction env cands todo dn res st rule: resolve_run.induct)
  case (1 env cands dn res st)
  then show ?case by (simp add: resolve_run.simps)
next
  case (2 env cands i todo dn res st)
  obtain outcome err st1 where rd: "resolveDeferredMessage env (cands ! i) st = (outcome, err, st1)"
    by (metis prod_cases3)
  show ?case
  proof (cases "i \<in> set dn \<or> length cands \<le> i")
    case True
    with 2 have "tallied res' \<and> distinct dn' \<and> set dn' \<subseteq> {..<length cands} \<and> set dn \<subseteq> set dn' \<and>
     (\<forall>i \<in> set todo. i < length cands \<longrightarrow> i \<in> set dn') \<and>
     Attempted res' + length dn = Attempted res + length dn' \<and> Selected res' = Selected res"
      by (auto simp: resolve_run.simps(2))
    with True show ?thesis by auto
  next
    case False
    with "2.prems"(1) rd have nf: "\<not> fatal err"
      by (auto simp: resolve_run.simps(2) fatal_def split: if_splits)
    let ?todo = "(if err = None \<and> outcome = MessageStatePublished then depIndex cands (ATURI (cands ! i)) else []) @ todo"
    have "resolve_run env cands ?todo (i # dn) (tally outcome err (res\<lparr>Attempted := Suc (Attempted res)\<rparr>)) st1 =
        (None, res', dn', st')"
      using "2.prems"(1) False rd nf by (simp add: resolve_run.simps(2))
    from "2.IH"(2) [OF False rd [symmetric] refl nf this] False "2.prems" tally_tallied
    show ?thesis by auto
  qed
qed

lemma ResolveDeferredMessages_tally:
  assumes "ResolveDeferredMessages env limit st = (Inr res, st')"
  shows "Attempted res = Selected res \<and> Published res + Deferred res + Failed res = Attempted res"
proof -
  let ?l = "if limit \<le> 0 then 100 else limit"
  define cands where "cands = GetDeferredCandidates ?l (messages st)"
  define z where "z = \<lparr>Selected = length cands, Attempted = 0, Published = 0, Deferred = 0, Failed = 0\<rparr>"
  obtain e res' dn st1 where run: "resolve_run env cands [0..<length cands] [] z st = (e, res', dn, st1)"
    by (metis prod_cases4)
  with assms have e: "e = None" "res' = res"
    by (auto simp: ResolveDeferredMessages_def Let_def cands_def z_def split: if_splits option.splits)
  from resolve_run_counts [OF run [unfolded e]] have c: "tallied res" "distinct dn" "set dn \<subseteq> {..<length cands}"
    "\<forall>i \<in> set [0..<length cands]. i < length cands \<longrightarrow> i \<in> set dn" "Attempted res = length dn" "Selected res = length cands"
    by (simp_all add: z_def tallied_def)
  then have "set dn = {..<length cands}" by auto
  with c(2) have "length dn = length cands" by (metis card_lessThan distinct_card)
  with c show ?thesis by (simp add: tallied_def)
qed

section \<open>Expiry and retries\<close>

lemma expire_loop_counts:
  "expire_loop env ms res st = (res', st') \<Longrightarrow>
   Exp_Expired res' + Exp_Failed res' = Exp_Expired res + Exp_Failed res + length ms \<and> Exp_Selected res' = Exp_Selected res"
proof (induction ms arbitrary: res st)
  case (Cons m ms)
  obtain r st1 where "db_add env (expire_row m) st = (r, st1)" by fastforce
  with Cons show ?case by (cases r) auto
qed simp

lemma retry_loop_counts:
  "retry_loop env p now base ms res st = (res', st') \<Longrightarrow>
   Attempted res' + Deferred res' = Attempted res + Deferred res + length ms \<and>
   Published res' + Failed res' + Attempted res = Published res + Failed res + Attempted res' \<and> Selected res' = Selected res"
proof (induction ms arbitrary: res st)
  case (Cons m ms)
  obtain r st1 where r: "retryMessage env p m st = (r, st1)" by fastforce
  show ?case
  proof (cases "retryDue m now base")
    case True
    with Cons.prems r Cons.IH show ?thesis by (cases r) fastforce+
  next
    case False
    with Cons.prems Cons.IH show ?thesis by fastforce
  qed
qed simp

lemma RetryFailedMessages_tally:
  assumes "RetryFailedMessages env cfg st = (Inr res, st')"
  shows "Attempted res + Deferred res = Selected res \<and> Published res + Failed res = Attempted res"
proof -
  obtain p where "publisher env = Some p" using assms by (cases "publisher env") (auto simp: RetryFailedMessages_def)
  with assms obtain now base cands where
    "retry_loop env p now base cands \<lparr>Selected = length cands, Attempted = 0, Published = 0, Deferred = 0, Failed = 0\<rparr> st = (res, st')"
    by (auto simp: RetryFailedMessages_def Let_def split: if_splits prod.splits)
  from retry_loop_counts [OF this] show ?thesis by simp
qed

lemma ExpireDeferredMessages_counts:
  assumes "ExpireDeferredMessages env maxAge limit st = (Inr res, st')"
  shows "Exp_Expired res + Exp_Failed res = Exp_Selected res"
proof -
  from assms obtain cands where
    "expire_loop env cands \<lparr>Exp_Selected = length cands, Exp_Expired = 0, Exp_Failed = 0\<rparr> st = (res, st')"
    by (auto simp: ExpireDeferredMessages_def Let_def split: if_splits prod.splits)
  from expire_loop_counts [OF this] show ?thesis by simp
qed

section \<open>Backoff\<close>

lemma backoff_loop_closed: "0 < b \<Longrightarrow> backoff_loop n b = min (b * 2 ^ n) (10 * minute)"
proof (induction n arbitrary: b)
  case (Suc n)
  have "(1::int) \<le> 2 ^ Suc n" by (rule one_le_power) simp
  then have "b * 1 \<le> b * 2 ^ Suc n" using Suc.prems by (intro mult_left_mono) simp_all
  then have "10 * minute \<le> b \<Longrightarrow> 10 * minute \<le> b * 2 ^ Suc n" by simp
  then show ?case using Suc by (auto simp: mult.assoc min_def)
qed (auto simp: min_def)

lemma retryBackoff_closed:
  "retryBackoff base attempts =
     (let b = (if base \<le> 0 then 5 * second else base)
      in if attempts \<le> 1 then b else min (b * 2 ^ nat (attempts - 1)) (10 * minute))"
  by (simp add: retryBackoff_def Let_def backoff_loop_closed second_def)

lemma retryBackoff_mono:
  assumes "base \<le> 10 * minute" and "a \<le> b"
  shows "retryBackoff base a \<le> retryBackoff base b"
proof -
  define c where "c = (if base \<le> 0 then 5 * second else base)"
  have c: "0 < c" "c \<le> 10 * minute" using assms(1) by (auto simp: c_def second_def minute_def)
  have p: "c * 2 ^ m \<le> c * 2 ^ n" if "m \<le> n" for m n :: nat
    using c that by (intro mult_left_mono power_increasing) simp_all
  have "c \<le> c * 2 ^ n" for n :: nat using p [of 0 n] by simp
  then have "c \<le> min (c * 2 ^ n) (10 * minute)" for n :: nat using c by simp
  moreover have "min (c * 2 ^ nat (a - 1)) (10 * minute) \<le> min (c * 2 ^ nat (b - 1)) (10 * minute)"
    using p [of "nat (a - 1)" "nat (b - 1)"] assms(2) by (intro min.mono) auto
  ultimately show ?thesis using assms(2) by (auto simp: retryBackoff_closed Let_def simp flip: c_def)
qed

text \<open>The intermediate products of the loop stay far below the int64 range.\<close>

lemma backoff_no_overflow: "0 < b \<Longrightarrow> b < 10 * minute \<Longrightarrow> b * 2 < 2 ^ 63"
  by (simp add: minute_def)

section \<open>Defer reasons\<close>

lemma from_sub_append: "from_sub p a = Some t \<Longrightarrow> from_sub p (a @ b) = Some (t @ b)"
proof (induction a)
  case (Cons x a)
  show ?case
  proof (cases "HasPrefix (x # a) p")
    case True
    then obtain u where u: "x # a = p @ u" by (auto simp: HasPrefix_iff)
    then have "HasPrefix (x # a @ b) p" by (metis HasPrefix_append append.assoc append_Cons)
    moreover have "t = x # a" using True Cons.prems by simp
    ultimately show ?thesis by simp
  next
    case False
    with Cons have f: "from_sub p a = Some t" by simp
    have "\<not> HasPrefix (x # a @ b) p"
    proof
      assume "HasPrefix (x # a @ b) p"
      then obtain u where u: "x # a @ b = p @ u" by (auto simp: HasPrefix_iff)
      obtain q where "a = q @ t" "HasPrefix t p" using from_sub_Some [OF f] by blast
      then have "length p \<le> length (x # a)" by (auto simp: HasPrefix_iff)
      with u have "take (length p) (x # a) = p"
        by (metis append_Cons append_eq_conv_conj take_append take_eq_Nil diff_is_0_eq append_Nil2 take_0)
      with False show False by (simp add: HasPrefix_def)
    qed
    with f Cons.IH show ?thesis by simp
  qed
qed (cases b; auto simp: HasPrefix_def split: if_splits)

lemma HasPrefix_cut:
  assumes "HasPrefix (a @ c # rest) p" and "c \<notin> set p"
  shows "HasPrefix a p"
proof (cases "length p \<le> length a")
  case True
  with assms show ?thesis by (simp add: HasPrefix_def)
next
  case False
  then have "c \<in> set (take (length p) (a @ c # rest))" by (simp add: take_Cons' not_le)
  with assms show ?thesis by (simp add: HasPrefix_def)
qed

lemma from_sub_skip:
  assumes "c \<notin> set p" and "p \<noteq> []"
  shows "from_sub p a = None \<Longrightarrow> from_sub p (a @ c # rest) = from_sub p rest"
proof (induction a)
  case Nil
  have "\<not> HasPrefix (c # rest) p" using HasPrefix_cut [of "[]" c rest p] assms by (auto simp: HasPrefix_def)
  then show ?case by simp
next
  case (Cons x a)
  then have "\<not> HasPrefix (x # a) p" "from_sub p a = None" by (auto split: if_splits)
  with Cons.IH HasPrefix_cut [of "x # a" c rest p] assms(1) show ?case by auto
qed

text \<open>The Go parser and the SQL expression of the candidate query agree on the first dependency.\<close>

lemma first_dependency_map_filter:
  "List.map_filter (from_sub ''at://'') (split_on (CHR '';'') reason) = u # us \<Longrightarrow>
   \<exists>w. from_sub ''at://'' reason = Some w \<and> fst (split_first (CHR '';'') w) = u"
proof (induction "length reason" arbitrary: reason rule: less_induct)
  case less
  obtain a b where sp: "split_first (CHR '';'') reason = (a, b)" by fastforce
  show ?case
  proof (cases b)
    case None
    have "split_on (CHR '';'') reason = [reason]"
      using split_first_None [of "CHR '';''" reason] sp None by (simp add: split_on_single)
    with less.prems have f: "from_sub ''at://'' reason = Some u"
      by (cases "from_sub ''at://'' reason") (auto simp: List.map_filter_simps)
    have "CHR '';'' \<notin> set u"
      using split_first_None [of "CHR '';''" reason] sp None from_sub_Some [OF f] by auto
    then have "fst (split_first (CHR '';'') u) = u" by (induction u) (auto split: prod.splits)
    with f show ?thesis by simp
  next
    case (Some rest)
    with sp split_first_Some have r: "reason = a @ CHR '';'' # rest" "CHR '';'' \<notin> set a" by auto
    then have so: "split_on (CHR '';'') reason = a # split_on (CHR '';'') rest" by (simp add: split_on_append)
    show ?thesis
    proof (cases "from_sub ''at://'' a")
      case None
      with so less.prems have "List.map_filter (from_sub ''at://'') (split_on (CHR '';'') rest) = u # us"
        by (simp add: List.map_filter_simps)
      with less.hyps [of rest] r have "\<exists>w. from_sub ''at://'' rest = Some w \<and> fst (split_first (CHR '';'') w) = u" by simp
      moreover have "from_sub ''at://'' reason = from_sub ''at://'' rest"
        using None from_sub_skip [of "CHR '';''" "''at://''" a rest] r by simp
      ultimately show ?thesis by simp
    next
      case (Some t)
      with so less.prems have "t = u" by (simp add: List.map_filter_simps)
      moreover have "from_sub ''at://'' reason = Some (t @ CHR '';'' # rest)"
        using from_sub_append [OF Some] r by simp
      moreover have "CHR '';'' \<notin> set t" using from_sub_Some [OF Some] r by auto
      ultimately show ?thesis by (simp add: split_first_append)
    qed
  qed
qed


lemma first_dependency_parse:
  assumes "parseDeferReasonURIs reason = u # us"
  shows "first_dependency reason = u"
proof -
  have "List.map_filter (from_sub ''at://'') (split_on (CHR '';'') reason) = u # us"
    using assms by (simp add: parseDeferReasonURIs_def split: if_splits)
  from first_dependency_map_filter [OF this] show ?thesis by (auto simp: first_dependency_def)
qed

lemma from_sub_prefix: "HasPrefix s p \<Longrightarrow> from_sub p s = Some s"
  by (cases s) (auto simp: HasPrefix_def)

text \<open>A defer reason lists \<open>key=uri\<close> pairs; parsing it gives the URIs back.\<close>

lemma parse_defer_reason:
  assumes "\<forall>p \<in> set deps. HasPrefix (snd p) ''at://'' \<and> CHR '';'' \<notin> set (fst p) \<and> CHR '';'' \<notin> set (snd p) \<and>
             from_sub ''at://'' (fst p @ ''='') = None \<and> CHR ''/'' \<notin> set (fst p)"
  shows "parseDeferReasonURIs (Join '';'' (map (\<lambda>p. fst p @ ''='' @ snd p) deps)) = map snd deps"
proof (cases "deps = []")
  case False
  let ?parts = "map (\<lambda>p. fst p @ ''='' @ snd p) deps"
  have f: "from_sub ''at://'' (fst p @ ''='' @ snd p) = Some (snd p)" if "p \<in> set deps" for p
  proof -
    have "from_sub ''at://'' (fst p) = None"
    proof (cases "from_sub ''at://'' (fst p)")
      case (Some t)
      from from_sub_append [OF this, of "''=''"] assms that show ?thesis by auto
    qed
    then have "from_sub ''at://'' (fst p @ CHR ''='' # snd p) = from_sub ''at://'' (snd p)"
      by (intro from_sub_skip) simp_all
    then show ?thesis using assms that by (simp add: from_sub_prefix)
  qed
  have "split_on (CHR '';'') (Join '';'' ?parts) = ?parts"
    using assms False by (intro split_on_Join) auto
  moreover have "Join '';'' ?parts \<noteq> []" using False by (intro Join_not_Nil) auto
  moreover have "List.map_filter (from_sub ''at://'') ?parts = map snd deps"
    using f by (induction deps) (auto simp: List.map_filter_simps)
  ultimately show ?thesis by (simp add: parseDeferReasonURIs_def)
qed (simp add: parseDeferReasonURIs_def)

end
