(* ===== verification/ProcessorProps.thy ===== *)
theory ProcessorProps
  imports ProcessorLaws
begin

text \<open>
  The properties of the processor: what it publishes and stores, that it terminates without
  waiting for itself, deduplication, the bookkeeping of its background runs, retry delays,
  defer reasons, and what undoing a record means. Each one with hypotheses is followed, at
  the end, by an application to a small concrete run.
\<close>

section \<open>Properties\<close>

text \<open>C1: whatever a firehose commit, a record event or a deferred-resolution run does, dependency
  processing included, the publish log only grows, and every message it adds carries no
  \<open>_atproto_\<close> placeholder and has the fields its type requires.\<close>

theorem processor_publishes_clean:
  "publishes_clean st (snd (HandleCommit env ev st)) \<and>
   publishes_clean st (snd (HandleRecordEvent env e st)) \<and>
   publishes_clean st (snd (ResolveDeferredMessages env limit st))"
  by (simp add: cl.HandleCommit_R cl.HandleRecordEvent_R cl.ResolveDeferredMessages_R)


lemma expired_rows:
  assumes "store_ok st" and "m \<in> set (GetExpiredDeferredMessages now maxAge limit (messages st))"
  shows "row_ok m \<and> MessageState m = MessageStateDeferred"
proof -
  from assms(2) have r: "m \<in> set (rows (messages st))" "MessageState m = MessageStateDeferred"
    unfolding GetExpired_select by (auto dest: select_sound)
  with assms(1) have "map_of (messages st) (ATURI m) = Some m" by (simp add: rows_iff store_ok_def)
  with assms(1) r show ?thesis by (auto simp: store_ok_def)
qed

text \<open>expiring deferred messages keeps a consistent store consistent, loses no row, and counts
  every selected message as expired or failed.\<close>

theorem expire_keeps_store:
  assumes "store_ok st" and "ExpireDeferredMessages env maxAge limit st = (r, st')"
  shows "grows st st' \<and> (\<forall>res. r = Inr res \<longrightarrow> Exp_Expired res + Exp_Failed res = Exp_Selected res)"
proof -
  let ?l = "if limit \<le> 0 then 500 else limit"
  let ?c = "GetExpiredDeferredMessages (now_at env (tick st)) maxAge ?l (messages st)"
  have "grows st (snd (expire_loop env ?c res st))" for res
    by (rule gr.expire_loop_R) (use expired_rows [OF assms(1)] in blast)
  then have "grows st st'"
    using assms(2) gr.R_refl by (auto simp: ExpireDeferredMessages_def Let_def split: if_splits prod.splits) (metis snd_conv)+
  with assms(2) ExpireDeferredMessages_counts show ?thesis by blast
qed


text \<open>C4: a record that was processed and published is not published again: processing the same
  revision a second time changes neither the table nor the publish log.\<close>

theorem ProcessRecord_idempotent:
  assumes "ProcessRecord env did uri cid coll raw st = (None, st')"
    and "map_of (messages st') uri = Some m" and "MessageState m = MessageStatePublished"
    and "\<forall>p h d c ref. publisher env = Some p \<longrightarrow> p h d c = Inr ref \<longrightarrow> TrimSpace ref \<noteq> []"
    and "TrimSpace cid \<noteq> []"
    and "ProcessRecord env did uri cid coll' raw' st' = (r, st'')"
  shows "messages st'' = messages st' \<and> sent st'' = sent st'"
proof -
  have b: "already_bridged (Some m) cid"
    using process_body_dedupe [OF assms(1) [unfolded ProcessRecord_def] assms(2,3,4,5)] .
  show ?thesis using assms(2,6) b
    by (auto simp: ProcessRecord_def process_body_def db_get_def GetMessage_def ensureDependencyContext_def split: if_splits)
qed

text \<open>C5: when a record is processed and its row ends up published for the first time, the stored
  SSB JSON is the content that was sent, that content was the last publish call, made for the
  author, and the stored reference is what the publisher returned.\<close>

theorem ProcessRecord_publish_recorded:
  assumes "ProcessRecord env did uri cid coll raw st = (None, st')"
    and "map_of (messages st') uri = Some m" and "MessageState m = MessageStatePublished"
    and "\<not> already_bridged (map_of (messages st) uri) cid"
  shows "\<exists>p pre c. publisher env = Some p \<and> sent st' = pre @ [(did, c)] \<and> p pre did c = Inr (SSBMsgRef m) \<and>
     RawSSBJson m = show_json env c \<and> clean c \<and> ATCID m = cid"
  using assms(1) unfolding ProcessRecord_def
proof (cases rule: process_body_ok)
  case (duplicate m')
  with assms(4) show ?thesis by (simp add: ensureDependencyContext_def)
next
  case (stored mm st1 mapped b out m' st2)
  note id = lifecycle_identity [OF stored(3)]
  have "row_ok m'" by (rule lifecycle_row_ok [OF stored(3)]) (simp add: blank_row_def new_row_def zero_Message_def)
  then have ns: "MessageState (normalize_Message t m') = lifecycle_state out" for t
    using row_ok_state id(3) by simp
  have "ATURI m' = uri" using id by (simp add: new_row_def zero_Message_def)
  with db_add_ok [OF stored(4)] assms(2) have m: "MessageState m = lifecycle_state out"
    "SSBMsgRef m = SSBMsgRef m'" "RawSSBJson m = RawSSBJson m'" "ATCID m = ATCID m'"
    using ns by (auto split: option.splits)
  with assms(3) have out: "lifecycle_state out = MessageStatePublished" by simp
  have st': "sent st' = sent st2" using stored(4) db_add_other(1) [of env m' st2] by simp
  from stored(3) show ?thesis
  proof (cases rule: lifecycle_cases)
    case (published p ref)
    then show ?thesis using m st'
      by (auto simp: new_row_def zero_Message_def clean_Sanitize)
  qed (use out in \<open>auto simp: lifecycle_state_def state_defs\<close>)
qed

text \<open>a deferred-resolution run that returns attempted every selected candidate exactly once,
  and each attempt is counted as published, deferred or failed.\<close>

theorem ResolveDeferredMessages_counts:
  assumes "ResolveDeferredMessages env limit st = (Inr res, st')"
  shows "Attempted res = Selected res \<and> Published res + Deferred res + Failed res = Attempted res"
  using assms by (rule ResolveDeferredMessages_tally)

text \<open>a retry run counts every selected message as attempted or not yet due, and every attempt
  as published or failed.\<close>

theorem RetryFailedMessages_counts:
  assumes "RetryFailedMessages env cfg st = (Inr res, st')"
  shows "Attempted res + Deferred res = Selected res \<and> Published res + Failed res = Attempted res"
  using assms by (rule RetryFailedMessages_tally)

text \<open>the retry delay doubles with each attempt and is capped at ten minutes.\<close>

theorem retryBackoff_value:
  "retryBackoff base attempts =
     (let b = (if base \<le> 0 then 5 * second else base)
      in if attempts \<le> 1 then b else min (b * 2 ^ nat (attempts - 1)) (10 * minute))"
  by (rule retryBackoff_closed)

lemma key_no_uri: "k \<in> set unresolved_keys \<Longrightarrow> from_sub ''at://'' (k @ ''='') = None \<and> CHR '';'' \<notin> set k \<and> CHR ''/'' \<notin> set k"
  by (simp only: unresolved_keys_def list.set insert_iff empty_iff) (elim disjE; simp add: HasPrefix_def)

text \<open>the reason stored with a deferred record lists its unresolved references, and parsing it
  gives their AT URIs back, in order.\<close>

theorem defer_reason_round_trip:
  assumes "\<forall>p \<in> set deps. fst p \<in> set unresolved_keys \<and> HasPrefix (snd p) ''at://'' \<and> CHR '';'' \<notin> set (snd p)"
  shows "parseDeferReasonURIs (Join '';'' (map (\<lambda>p. fst p @ ''='' @ snd p) deps)) = map snd deps"
  by (rule parse_defer_reason) (use assms key_no_uri in auto)

text \<open>the candidate query's SQL expression picks the first URI that the Go parser finds.\<close>

theorem candidate_query_dependency:
  assumes "parseDeferReasonURIs reason = u # us"
  shows "first_dependency reason = u"
  using assms by (rule first_dependency_parse)

text \<open>undoing a like keeps its subject and sets the vote value to 0; undoing a follow or a block
  keeps the contact and clears both flags; no other record type can be undone.\<close>

theorem mapDeleteRecord_undo:
  assumes "mapDeleteRecord env did coll raw = Inr d"
  shows "\<exists>m u. mapRecord_env env did coll raw = Inr m \<and>
     (coll = RecordTypeLike \<and> str_at m ''_atproto_subject'' = Some u \<and>
        d = [(''type'', VStr ''vote''), (''vote'', VMap [(''value'', VInt 0), (''expression'', VStr ''Like'')]),
             (''_atproto_subject'', VStr u)] \<or>
      (coll = RecordTypeFollow \<or> coll = RecordTypeBlock) \<and> str_at m ''_atproto_contact'' = Some u \<and>
        d = [(''type'', VStr ''contact''), (''following'', VBool False), (''blocking'', VBool False),
             (''_atproto_contact'', VStr u)])"
proof -
  from assms obtain m where m: "mapRecord_env env did coll raw = Inr m"
    by (cases "mapRecord_env env did coll raw") (auto simp: mapDeleteRecord_def)
  then have mr: "MapRecord (parse_json env) (valid_cid env) coll did raw = Inr m"
    by (simp add: mapRecord_env_def split: sum.splits)
  consider "coll = RecordTypeLike" | "coll = RecordTypeFollow \<or> coll = RecordTypeBlock"
    using assms m by (auto simp: mapDeleteRecord_def split: if_splits)
  then show ?thesis
  proof cases
    case 1
    with mr obtain u where mu: "m = [(''type'', VStr ''vote''),
       (''vote'', VMap [(''value'', VInt 1), (''expression'', VStr ''Like'')]), (''_atproto_subject'', VStr u)]"
      using MapRecord_like by metis
    have "d = [(''type'', VStr ''vote''), (''vote'', VMap [(''value'', VInt 0), (''expression'', VStr ''Like'')]),
             (''_atproto_subject'', VStr u)]" "str_at m ''_atproto_subject'' = Some u"
      using assms m mu 1 by (simp_all add: mapDeleteRecord_def gm_simps)
    with m 1 show ?thesis by blast
  next
    case 2
    with mr obtain u b where mu: "m = [(''type'', VStr ''contact''), (''following'', VBool b),
       (''blocking'', VBool (\<not> b)), (''_atproto_contact'', VStr u)]" using MapRecord_contact by metis
    have "coll \<noteq> RecordTypeLike" using 2 by (auto simp: record_type_defs)
    then have "d = [(''type'', VStr ''contact''), (''following'', VBool False), (''blocking'', VBool False),
             (''_atproto_contact'', VStr u)]" "str_at m ''_atproto_contact'' = Some u"
      using assms m mu 2 by (auto simp: mapDeleteRecord_def gm_simps)
    with m 2 show ?thesis by blast
  qed
qed

text \<open>a retry sends the stored SSB JSON as it is: placeholders of a message that was stored
  unresolved are published with it.\<close>

theorem retry_publishes_stored:
  assumes "decode_map env (RawSSBJson m) = Some c"
  shows "sent (snd (retryMessage env p m st)) = sent st @ [(ATDID m, c)]"
proof -
  obtain r st1 where pub: "Publish p (ATDID m) c st = (r, st1)" by fastforce
  then have s1: "sent st1 = sent st @ [(ATDID m, c)]" using Publish_other(5) [of p "ATDID m" c st] by simp
  have a: "sent st2 = sent st1" if "db_add env m' st1 = (e, st2)" for m' e st2
    using db_add_other(1) [of env m' st1] that by simp
  show ?thesis
    using assms pub s1 a by (cases r) (auto simp: retryMessage_def Let_def split: prod.splits option.splits)
qed

text \<open>expiring a deferred message adds its own attempt counters to itself: both are doubled.\<close>

theorem expire_doubles_attempts:
  assumes "map_of (messages st) (ATURI m) = Some m" and "\<not> write_fault env (tick st)"
  shows "\<exists>m'. map_of (messages (snd (db_add env (expire_row m) st))) (ATURI m) = Some m' \<and>
     DeferAttempts m' = 2 * DeferAttempts m \<and> PublishAttempts m' = 2 * PublishAttempts m"
  using assms by (simp add: db_add_def ms.get_ins expire_row_def)

section \<open>A small environment\<close>

text \<open>One clock tick per effect, no faults, a publisher that always answers; every JSON text
  reads as the same document.\<close>

definition demo_env :: env where
  "demo_env = \<lparr>now_at = int, write_fault = (\<lambda>_. False), read_fault = (\<lambda>_ _. False),
     account_fault = (\<lambda>_ _. False), query_fault = (\<lambda>_. False),
     parse_json = (\<lambda>_. Some (JObj [(''text'', JStr ''hi''), (''subject'', JStr ''did:b'')])), json_error = (\<lambda>_. []),
     show_json = (\<lambda>_. ''{}''), go_quote = (\<lambda>s. s), valid_cid = (\<lambda>_. True),
     publisher = Some (\<lambda>_ _ _. Inr ''%m''), blobBridge = None, fetcher = None, feedResolver = None,
     maxMessagesPerMinute = 0, limiter_allow = (\<lambda>_ _ _. True)\<rparr>"

definition demo_row :: Message where
  "demo_row = zero_Message\<lparr>ATURI := ''at://a/l/1'', ATDID := ''a'', Type := ''t'', MessageState := ''deferred'',
     DeferReason := ''x'', DeferAttempts := 1, LastDeferAttemptAt := Some 0, CreatedAt := 0\<rparr>"

definition demo_state :: pstate where
  "demo_state = \<lparr>messages = [(''at://a/l/1'', demo_row)], accounts = [], bridge_state = [], sent = [], tick = 0,
     scope = \<lparr>rootDID = [], rootURI = [], visitedRecords = [], fetchedRecords = 0\<rparr>,
     inflight = [], rateLimiters = [], lastActivity = []\<rparr>"

definition demo_run :: "pstate \<Rightarrow> proc_error option \<times> pstate" where
  "demo_run st = ProcessRecord demo_env ''a'' ''at://a/p/1'' ''c'' ''app.bsky.feed.post'' ''{}'' st"

definition demo_after :: pstate where "demo_after = snd (demo_run demo_state)"

lemma demo_run_facts:
  "fst (demo_run demo_state) = None \<and>
   map_option MessageState (map_of (messages demo_after) ''at://a/p/1'') = Some MessageStatePublished"
  by code_simp

lemma demo_run_eq: "ProcessRecord demo_env ''a'' ''at://a/p/1'' ''c'' ''app.bsky.feed.post'' ''{}'' demo_state = (None, demo_after)"
  using demo_run_facts by (simp add: demo_run_def demo_after_def prod_eq_iff)

lemma demo_store_ok: "store_ok demo_state"
  by (simp add: store_ok_def demo_state_def table_ok_def demo_row_def row_ok_def zero_Message_def known_states_def state_defs)

lemma demo_trim: "TrimSpace ''c'' = ''c''" "TrimSpace ''%m'' = ''%m''" "TrimSpace ''at://a/p/1'' = ''at://a/p/1''"
  by (simp_all add: TrimSpace_solid solid_def space_runes_def)

theorem expire_keeps_store_witness:
  "grows demo_state (snd (ExpireDeferredMessages demo_env (- 5) 1 demo_state))"
  using expire_keeps_store [OF demo_store_ok, of demo_env "- 5" 1
      "fst (ExpireDeferredMessages demo_env (- 5) 1 demo_state)" "snd (ExpireDeferredMessages demo_env (- 5) 1 demo_state)"]
  by simp


theorem ProcessRecord_idempotent_witness:
  "messages (snd (demo_run demo_after)) = messages demo_after \<and> sent (snd (demo_run demo_after)) = sent demo_after"
proof -
  obtain m where m: "map_of (messages demo_after) ''at://a/p/1'' = Some m" "MessageState m = MessageStatePublished"
    using demo_run_facts by auto
  have "\<forall>p h d c ref. publisher demo_env = Some p \<longrightarrow> p h d c = Inr ref \<longrightarrow> TrimSpace ref \<noteq> []"
    by (auto simp: demo_env_def demo_trim)
  from ProcessRecord_idempotent [OF demo_run_eq m this, of "''app.bsky.feed.post''" "''{}''"
      "fst (demo_run demo_after)" "snd (demo_run demo_after)"]
  show ?thesis by (simp add: demo_run_def demo_trim)
qed

theorem ProcessRecord_publish_recorded_witness:
  "\<exists>pre c. sent demo_after = pre @ [(''a'', c)] \<and> clean c"
proof -
  obtain m where m: "map_of (messages demo_after) ''at://a/p/1'' = Some m" "MessageState m = MessageStatePublished"
    using demo_run_facts by auto
  have "\<not> already_bridged (map_of (messages demo_state) ''at://a/p/1'') ''c''"
    by (simp add: demo_state_def already_bridged_def)
  from ProcessRecord_publish_recorded [OF demo_run_eq m this] show ?thesis by blast
qed

theorem ResolveDeferredMessages_counts_witness:
  "fst (ResolveDeferredMessages demo_env 5 demo_state) =
     Inr \<lparr>Selected = 1, Attempted = 1, Published = 0, Deferred = 0, Failed = 1\<rparr> \<and>
   Attempted (\<lparr>Selected = 1, Attempted = 1, Published = 0, Deferred = 0, Failed = 1\<rparr>) =
     Selected (\<lparr>Selected = 1, Attempted = 1, Published = 0, Deferred = 0, Failed = 1\<rparr>)"
proof -
  have e: "fst (ResolveDeferredMessages demo_env 5 demo_state) =
     Inr \<lparr>Selected = 1, Attempted = 1, Published = 0, Deferred = 0, Failed = 1\<rparr>"
    by code_simp
  then have "ResolveDeferredMessages demo_env 5 demo_state =
     (Inr \<lparr>Selected = 1, Attempted = 1, Published = 0, Deferred = 0, Failed = 1\<rparr>,
      snd (ResolveDeferredMessages demo_env 5 demo_state))"
    by (simp add: prod_eq_iff)
  from ResolveDeferredMessages_counts [OF this] e show ?thesis by simp
qed

definition demo_failed :: pstate where
  "demo_failed = demo_state\<lparr>messages := [(''at://a/l/1'', demo_row\<lparr>MessageState := ''failed''\<rparr>)]\<rparr>"

definition demo_cfg :: RetryConfig where
  "demo_cfg = \<lparr>Limit = 1, Cfg_ATDID = [], MaxAttempts = 1, BaseBackoff = 1\<rparr>"

theorem RetryFailedMessages_counts_witness:
  "\<exists>res. fst (RetryFailedMessages demo_env demo_cfg demo_failed) = Inr res \<and> Published res = 1 \<and>
     Attempted res + Deferred res = Selected res"
proof -
  let ?r = "RetryFailedMessages demo_env demo_cfg demo_failed"
  have e: "fst ?r = Inr \<lparr>Selected = 1, Attempted = 1, Published = 1, Deferred = 0, Failed = 0\<rparr>"
    by code_simp
  then have "?r = (Inr \<lparr>Selected = 1, Attempted = 1, Published = 1, Deferred = 0, Failed = 0\<rparr>, snd ?r)"
    by (simp add: prod_eq_iff)
  from RetryFailedMessages_counts [OF this] e show ?thesis by auto
qed

theorem defer_reason_round_trip_witness:
  "parseDeferReasonURIs ''_atproto_subject=at://a;_atproto_list=at://b'' = [''at://a'', ''at://b'']"
  using defer_reason_round_trip [of "[(''_atproto_subject'', ''at://a''), (''_atproto_list'', ''at://b'')]"]
  by (simp add: unresolved_keys_def HasPrefix_def)

theorem candidate_query_dependency_witness:
  "first_dependency ''k=at://a;l=at://b'' = ''at://a''"
  using candidate_query_dependency [of "''k=at://a;l=at://b''" "''at://a''" "[''at://b'']"]
  by (simp add: parseDeferReasonURIs_def List.map_filter_simps HasPrefix_def)

theorem mapDeleteRecord_undo_witness:
  "\<exists>u. mapDeleteRecord demo_env ''a'' RecordTypeFollow [] =
     Inr [(''type'', VStr ''contact''), (''following'', VBool False), (''blocking'', VBool False), (''_atproto_contact'', VStr u)]"
proof -
  have "is_ok (mapDeleteRecord demo_env ''a'' RecordTypeFollow [])" by code_simp
  then obtain d where d: "mapDeleteRecord demo_env ''a'' RecordTypeFollow [] = Inr d"
    by (auto simp: is_ok_def split: sum.splits)
  from mapDeleteRecord_undo [OF this] d show ?thesis by (auto simp: record_type_defs)
qed

theorem retry_publishes_stored_witness:
  "sent (snd (retryMessage demo_env (\<lambda>_ _ _. Inr ''%m'') demo_row demo_state)) =
     [(''a'', [(''text'', VStr ''hi''), (''subject'', VStr ''did:b'')])]"
proof -
  have "decode_map demo_env (RawSSBJson demo_row) = Some [(''text'', VStr ''hi''), (''subject'', VStr ''did:b'')]"
    by (simp add: decode_map_def demo_env_def)
  from retry_publishes_stored [OF this] show ?thesis by (simp add: demo_state_def demo_row_def zero_Message_def)
qed

theorem expire_doubles_attempts_witness:
  "\<exists>m'. map_of (messages (snd (db_add demo_env (expire_row demo_row) demo_state))) ''at://a/l/1'' = Some m' \<and>
     DeferAttempts m' = 2"
  using expire_doubles_attempts [of demo_state demo_row demo_env]
  by (auto simp: demo_state_def demo_env_def demo_row_def zero_Message_def)

end
