(* ===== verification/MessagePaging.thy ===== *)
theory MessagePaging
  imports MessageStore
begin

text \<open>
  The paged message list of the admin UI (\<open>message_query.go\<close>, \<open>message_cursor.go\<close>,
  \<open>ListMessages\<close> and \<open>ListMessagesPage\<close>). A cursor names a position in the order by creation
  time and URI; its text form (JSON in base64) is written and read by the arguments
  \<open>enc\<close> and \<open>dec\<close>.
\<close>

section \<open>Queries\<close>

record MessageListQuery =
  Search :: string
  QType :: string
  State :: string
  Sort :: string
  QLimit :: int
  QATDID :: string
  HasIssue :: bool
  Cursor :: string
  Direction :: string

definition DefaultPageLimit :: int where "DefaultPageLimit = 100"
definition MaxPageLimit :: int where "MaxPageLimit = 500"

definition normalizeMessageLimit :: "int \<Rightarrow> int" where
  "normalizeMessageLimit limit =
     (if limit \<le> 0 then DefaultPageLimit else if limit > MaxPageLimit then MaxPageLimit else limit)"

definition normalizeMessageState :: "string \<Rightarrow> string" where
  "normalizeMessageState s =
     (if TrimSpace s \<in> set [[], MessageStatePending, MessageStatePublished, MessageStateFailed,
                            MessageStateDeferred, MessageStateDeleted]
      then TrimSpace s else [])"

definition normalizeMessageDirection :: "string \<Rightarrow> string" where
  "normalizeMessageDirection d = (if TrimSpace d = ''prev'' then ''prev'' else ''next'')"

definition normalizeMessageSort :: "string \<Rightarrow> string" where
  "normalizeMessageSort s =
     (if s \<in> set [''oldest'', ''attempts_desc'', ''attempts_asc'', ''type_asc'', ''type_desc'', ''state_asc'', ''state_desc'']
      then s else ''newest'')"

definition NormalizeMessageListQuery :: "MessageListQuery \<Rightarrow> MessageListQuery" where
  "NormalizeMessageListQuery q =
     q\<lparr>Search := TrimSpace (Search q), QType := TrimSpace (QType q),
       State := normalizeMessageState (TrimSpace (State q)),
       Sort := normalizeMessageSort (TrimSpace (Sort q)),
       QLimit := normalizeMessageLimit (QLimit q), QATDID := TrimSpace (QATDID q),
       Direction := normalizeMessageDirection (Direction q)\<rparr>"

text \<open>SQLite's \<open>LIKE\<close>: ASCII letters match in either case, \<open>%\<close> any text, \<open>_\<close> one character.\<close>

definition lower :: "char \<Rightarrow> char" where
  "lower c = (if 65 \<le> (of_char c :: nat) \<and> (of_char c :: nat) \<le> 90 then char_of (of_char c + 32 :: nat) else c)"

function like :: "string \<Rightarrow> string \<Rightarrow> bool" where
  "like [] s \<longleftrightarrow> s = []"
| "like (p # ps) s \<longleftrightarrow>
     (if p = CHR ''%'' then like ps s \<or> (if s = [] then False else like (p # ps) (tl s))
      else s \<noteq> [] \<and> (if p = CHR ''_'' then like ps (dropWhile is_cont (tl s))
                      else lower p = lower (hd s) \<and> like ps (tl s)))"
  by pat_completeness auto
termination
  by (relation "measures [\<lambda>(p, s). length p, \<lambda>(p, s). length s]") (auto simp: neq_Nil_conv)

declare like.simps [simp del]

definition list_filter :: "MessageListQuery \<Rightarrow> Message \<Rightarrow> bool" where
  "list_filter q m \<longleftrightarrow>
     (Search q \<noteq> [] \<longrightarrow>
        (\<exists>f \<in> set [ATURI, ATDID, SSBMsgRef, PublishError, DeferReason, DeletedReason]. like (''%'' @ Search q @ ''%'') (f m))) \<and>
     (QType q \<noteq> [] \<longrightarrow> Type m = QType q) \<and>
     (State q \<noteq> [] \<longrightarrow> MessageState m = State q) \<and>
     (QATDID q \<noteq> [] \<longrightarrow> ATDID m = QATDID q) \<and>
     (HasIssue q \<longrightarrow> sql_trim (PublishError m) \<noteq> [] \<or> sql_trim (DeferReason m) \<noteq> [] \<or> sql_trim (DeletedReason m) \<noteq> [])"

definition position :: "Message \<Rightarrow> int \<times> string" where
  "position m = (CreatedAt m, ATURI m)"

definition by_position :: "bool \<Rightarrow> Message list \<Rightarrow> Message list" where
  "by_position desc ms = (if desc then rev (sort_key position ms) else sort_key position ms)"

definition attempts :: "Message \<Rightarrow> int" where
  "attempts m = PublishAttempts m + DeferAttempts m"

definition messageOrder :: "string \<Rightarrow> Message list \<Rightarrow> Message list" where
  "messageOrder so ms =
     (if so = ''oldest'' then by_position False ms
      else if so = ''attempts_desc'' then rev (sort_key (\<lambda>m. (attempts m, position m)) ms)
      else if so = ''attempts_asc'' then sort_key attempts (by_position True ms)
      else if so = ''type_asc'' then sort_key Type (by_position True ms)
      else if so = ''type_desc'' then rev (sort_key (\<lambda>m. (Type m, position m)) ms)
      else if so = ''state_asc'' then sort_key MessageState (by_position True ms)
      else if so = ''state_desc'' then rev (sort_key (\<lambda>m. (MessageState m, position m)) ms)
      else by_position True ms)"

definition supportsMessageKeysetSort :: "string \<Rightarrow> bool" where
  "supportsMessageKeysetSort so \<longleftrightarrow> so = ''newest'' \<or> so = ''oldest''"

definition ListMessages :: "MessageListQuery \<Rightarrow> table \<Rightarrow> Message list" where
  "ListMessages q0 t =
     (let q = NormalizeMessageListQuery q0
      in take (nat (QLimit q)) (messageOrder (Sort q) (filter (list_filter q) (rows t))))"

section \<open>Cursors\<close>

definition encodeMessageListCursor :: "(int \<times> string \<Rightarrow> string) \<Rightarrow> int \<times> string \<Rightarrow> string" where
  "encodeMessageListCursor enc c =
     (if fst c = zero_time \<or> TrimSpace (snd c) = [] then [] else enc c)"

definition decodeMessageListCursor :: "(string \<Rightarrow> (int \<times> string) option) \<Rightarrow> string \<Rightarrow> (int \<times> string) option" where
  "decodeMessageListCursor dec s =
     (if TrimSpace s = [] then None
      else case dec (TrimSpace s) of None \<Rightarrow> None
        | Some c \<Rightarrow> (if TrimSpace (snd c) = [] then None else Some (fst c, TrimSpace (snd c))))"

text \<open>The keyset condition, and whether the query runs backwards.\<close>

definition messageKeysetClause :: "string \<Rightarrow> string \<Rightarrow> int \<times> string \<Rightarrow> (Message \<Rightarrow> bool) \<times> bool" where
  "messageKeysetClause so direction c =
     (let desc = (so \<noteq> ''oldest'')
      in if direction = ''prev'' \<and> desc then (\<lambda>m. c < position m, True)
         else if direction = ''prev'' then (\<lambda>m. position m < c, True)
         else if desc then (\<lambda>m. position m < c, False)
         else (\<lambda>m. c < position m, False))"

definition messageKeysetOrder :: "string \<Rightarrow> bool \<Rightarrow> Message list \<Rightarrow> Message list" where
  "messageKeysetOrder so reverse ms = by_position ((so \<noteq> ''oldest'') \<noteq> reverse) ms"

record MessagePage =
  Messages :: "Message list"
  HasNext :: bool
  HasPrev :: bool
  NextCursor :: string
  PrevCursor :: string

definition keyset_page ::
  "(int \<times> string \<Rightarrow> string) \<Rightarrow> MessageListQuery \<Rightarrow> (int \<times> string) option \<Rightarrow> table \<Rightarrow> MessagePage" where
  "keyset_page enc q cursor t =
     (let base = filter (list_filter q) (rows t);
          (chosen, reverse) = (case cursor of None \<Rightarrow> (base, False)
             | Some c \<Rightarrow> (case messageKeysetClause (Sort q) (Direction q) c of (P, r) \<Rightarrow> (filter P base, r)));
          found = take (nat (QLimit q + 1)) (messageKeysetOrder (Sort q) reverse chosen);
          hasMore = int (length found) > QLimit q;
          cut = (if hasMore then take (nat (QLimit q)) found else found);
          shown = (if reverse then rev cut else cut);
          hasPrev = (if Direction q = ''prev'' then hasMore else cursor \<noteq> None);
          hasNext = (if Direction q = ''prev'' then cursor \<noteq> None else hasMore)
      in \<lparr>Messages = shown, HasNext = hasNext, HasPrev = hasPrev,
          NextCursor = (if shown \<noteq> [] \<and> hasNext then encodeMessageListCursor enc (position (last shown)) else []),
          PrevCursor = (if shown \<noteq> [] \<and> hasPrev then encodeMessageListCursor enc (position (hd shown)) else [])\<rparr>)"

definition ListMessagesPage ::
  "(int \<times> string \<Rightarrow> string) \<Rightarrow> (string \<Rightarrow> (int \<times> string) option) \<Rightarrow> MessageListQuery \<Rightarrow> table \<Rightarrow> MessagePage" where
  "ListMessagesPage enc dec q0 t =
     (let q = NormalizeMessageListQuery q0
      in if \<not> supportsMessageKeysetSort (Sort q) then
           (let legacy = ListMessages (q\<lparr>QLimit := QLimit q + 1, Cursor := [], Direction := []\<rparr>) t;
                hasNext = int (length legacy) > QLimit q;
                shown = (if hasNext then take (nat (QLimit q)) legacy else legacy)
            in \<lparr>Messages = shown, HasNext = hasNext, HasPrev = False,
                NextCursor = (if hasNext \<and> shown \<noteq> [] then encodeMessageListCursor enc (position (last shown)) else []),
                PrevCursor = []\<rparr>)
         else keyset_page enc q (if TrimSpace (Cursor q) = [] then None else decodeMessageListCursor dec (Cursor q)) t)"


section \<open>Walking the pages\<close>


text \<open>The whole listing that the pages cut up.\<close>

definition listing :: "MessageListQuery \<Rightarrow> table \<Rightarrow> Message list" where
  "listing q t = by_position (Sort q \<noteq> ''oldest'') (filter (list_filter q) (rows t))"




text \<open>Asking for one row more than the page holds tells whether there is a further page.\<close>

lemma cut_page:
  assumes "0 \<le> n"
  shows "int (min l (nat (n + 1))) > n \<longleftrightarrow> int l > n"
    and "take (nat n) (take (nat (n + 1)) xs) = take (nat n) xs"
    and "\<not> int (length xs) > n \<Longrightarrow> take (nat (n + 1)) xs = take (nat n) xs"
  using assms by (auto simp: min_def)


lemma keyset_page_None:
  assumes "0 \<le> QLimit q" and "Direction q \<noteq> ''prev''"
  shows "Messages (keyset_page enc q None t) = take (nat (QLimit q)) (listing q t)"
    and "HasNext (keyset_page enc q None t) \<longleftrightarrow> int (length (listing q t)) > QLimit q"
  using assms(2) by (simp_all add: keyset_page_def Let_def cut_page [OF assms(1)] listing_def messageKeysetOrder_def del: take_take)




lemma list_filter_Cursor [simp]: "list_filter (q\<lparr>Cursor := x\<rparr>) = list_filter q"
  by (rule ext) (simp add: list_filter_def)

lemma listing_Cursor [simp]: "listing (q\<lparr>Cursor := x\<rparr>) t = listing q t"
  by (simp add: listing_def)

lemma keyset_page_Cursor [simp]: "keyset_page enc (q\<lparr>Cursor := x\<rparr>) c t = keyset_page enc q c t"
proof -
  have e: "Sort (q\<lparr>Cursor := x\<rparr>) = Sort q" "Direction (q\<lparr>Cursor := x\<rparr>) = Direction q"
    "QLimit (q\<lparr>Cursor := x\<rparr>) = QLimit q" by simp_all
  show ?thesis unfolding keyset_page_def list_filter_Cursor e ..
qed

lemma QLimit_pos: "1 \<le> QLimit (NormalizeMessageListQuery q)"
  by (simp add: NormalizeMessageListQuery_def normalizeMessageLimit_def DefaultPageLimit_def MaxPageLimit_def)








section \<open>Properties\<close>


text \<open>the first page is the beginning of the listing.\<close>

theorem first_page_starts:
  assumes "supportsMessageKeysetSort (Sort (NormalizeMessageListQuery q))"
    and "Direction (NormalizeMessageListQuery q) \<noteq> ''prev''" and "TrimSpace (Cursor q) = []"
  shows "Messages (ListMessagesPage enc dec q t) =
     take (nat (QLimit (NormalizeMessageListQuery q))) (listing (NormalizeMessageListQuery q) t)"
proof -
  have "Cursor (NormalizeMessageListQuery q) = Cursor q" by (simp add: NormalizeMessageListQuery_def)
  then show ?thesis
    using assms keyset_page_None(1) [of "NormalizeMessageListQuery q" enc t] QLimit_pos [of q]
    by (simp add: ListMessagesPage_def Let_def)
qed

text \<open>under a sort order without cursors, a request for pages of the maximal size never
  announces a further page, however many rows there are.\<close>

theorem legacy_page_never_continues:
  assumes "\<not> supportsMessageKeysetSort (Sort (NormalizeMessageListQuery q))" and "QLimit q \<ge> MaxPageLimit"
  shows "\<not> HasNext (ListMessagesPage enc dec q t)"
proof -
  let ?q = "NormalizeMessageListQuery q"
  have l: "QLimit ?q = MaxPageLimit"
    using assms(2) by (simp add: NormalizeMessageListQuery_def normalizeMessageLimit_def MaxPageLimit_def)
  then have "length (ListMessages (?q\<lparr>QLimit := QLimit ?q + 1, Cursor := [], Direction := []\<rparr>) t) \<le> nat MaxPageLimit"
    by (simp add: ListMessages_def Let_def NormalizeMessageListQuery_def normalizeMessageLimit_def MaxPageLimit_def)
  with assms(1) l show ?thesis by (simp add: ListMessagesPage_def Let_def MaxPageLimit_def)
qed

text \<open>the rows offered for a retry have failed, carry no reference and have attempts left; they
  come oldest attempt first; and a row that qualifies but was cut off is not older than any
  row that was offered.\<close>

theorem retry_candidates_fair:
  assumes "x \<in> set (GetRetryCandidates limit did mx t)"
  shows "MessageState x = MessageStateFailed \<and> SSBMsgRef x = [] \<and>
     PublishAttempts x < (if mx \<le> 0 then 8 else mx) \<and> x \<in> set (rows t) \<and>
     sorted (map (\<lambda>m. coalesce (LastPublishAttemptAt m) (CreatedAt m)) (GetRetryCandidates limit did mx t)) \<and>
     (\<forall>y \<in> set (rows t). retryable (if mx \<le> 0 then 8 else mx) y \<and> (TrimSpace did \<noteq> [] \<longrightarrow> ATDID y = TrimSpace did) \<and>
        y \<notin> set (GetRetryCandidates limit did mx t) \<longrightarrow>
        coalesce (LastPublishAttemptAt x) (CreatedAt x) \<le> coalesce (LastPublishAttemptAt y) (CreatedAt y))"
  using assms select_sound [OF assms [unfolded GetRetryCandidates_select]]
    select_first [OF assms [unfolded GetRetryCandidates_select]]
  unfolding GetRetryCandidates_select
  by (simp add: select_sorted retryable_def)

text \<open>writing rows one after the other accumulates the attempt counters of each URI and keeps
  the creation time of its first row.\<close>

theorem writes_accumulate:
  assumes "map_of t u = Some m"
  shows "\<exists>m'. map_of (fold (AddMessage now) ms t) u = Some m' \<and> CreatedAt m' = CreatedAt m \<and>
     PublishAttempts m' = PublishAttempts m + sum_list (map PublishAttempts (filter (\<lambda>r. ATURI r = u) ms)) \<and>
     DeferAttempts m' = DeferAttempts m + sum_list (map DeferAttempts (filter (\<lambda>r. ATURI r = u) ms))"
  using assms
proof (induction ms arbitrary: t m)
  case (Cons r ms)
  show ?case
  proof (cases "ATURI r = u")
    case True
    then have "map_of (AddMessage now r t) u = Some (upsert_row m (normalize_Message now r))"
      using Cons.prems by (simp add: ms.get_ins)
    from Cons.IH [OF this] True show ?thesis by (auto simp: algebra_simps)
  next
    case False
    then have "map_of (AddMessage now r t) u = Some m" using Cons.prems by (simp add: ms.get_ins)
    from Cons.IH [OF this] False show ?thesis by simp
  qed
qed simp


section \<open>Applications\<close>

definition demo_table :: table where
  "demo_table = [(''a'', zero_Message\<lparr>ATURI := ''a'', CreatedAt := 1, MessageState := ''failed''\<rparr>),
                 (''b'', zero_Message\<lparr>ATURI := ''b'', CreatedAt := 2\<rparr>)]"

definition demo_query :: MessageListQuery where
  "demo_query = \<lparr>Search = [], QType = [], State = [], Sort = ''oldest'', QLimit = 1, QATDID = [], HasIssue = False,
     Cursor = [], Direction = ''next''\<rparr>"

definition demo_enc :: "int \<times> string \<Rightarrow> string" where "demo_enc c = ''<'' @ snd c @ ''>''"

definition demo_dec :: "string \<Rightarrow> (int \<times> string) option" where
  "demo_dec s = (if s = ''<a>'' then Some (1, ''a'') else if s = ''<b>'' then Some (2, ''b'') else None)"

lemma demo_trims: "TrimSpace ''a'' = ''a''" "TrimSpace ''b'' = ''b''" "TrimSpace ''<a>'' = ''<a>''"
  "TrimSpace ''<b>'' = ''<b>''" "TrimSpace ''oldest'' = ''oldest''" "TrimSpace ''next'' = ''next''"
  "TrimSpace ''type_asc'' = ''type_asc''"
  by (simp_all add: TrimSpace_solid solid_def space_runes_def)

lemma demo_query_norm: "NormalizeMessageListQuery demo_query = demo_query"
  by (simp add: NormalizeMessageListQuery_def demo_query_def demo_trims normalizeMessageState_def
      normalizeMessageSort_def normalizeMessageLimit_def normalizeMessageDirection_def MaxPageLimit_def)


theorem first_page_starts_witness:
  "Messages (ListMessagesPage demo_enc demo_dec demo_query demo_table) = take 1 (listing demo_query demo_table)"
  using first_page_starts [of demo_query demo_enc demo_dec demo_table]
  unfolding demo_query_norm by (simp add: demo_query_def supportsMessageKeysetSort_def)


theorem legacy_page_never_continues_witness:
  "\<not> HasNext (ListMessagesPage demo_enc demo_dec (demo_query\<lparr>Sort := ''type_asc'', QLimit := 500\<rparr>) demo_table)"
  using legacy_page_never_continues [of "demo_query\<lparr>Sort := ''type_asc'', QLimit := 500\<rparr>" demo_enc demo_dec demo_table]
  by (simp add: NormalizeMessageListQuery_def demo_query_def demo_trims normalizeMessageSort_def
      supportsMessageKeysetSort_def MaxPageLimit_def)

theorem retry_candidates_fair_witness:
  "\<exists>x \<in> set (GetRetryCandidates 0 [] 0 demo_table). MessageState x = MessageStateFailed \<and> PublishAttempts x < 8"
proof -
  let ?x = "zero_Message\<lparr>ATURI := ''a'', CreatedAt := 1, MessageState := ''failed''\<rparr>"
  have "?x \<in> set (GetRetryCandidates 0 [] 0 demo_table)" by code_simp
  then show ?thesis using retry_candidates_fair [of ?x 0 "[]" 0 demo_table] by (intro bexI [of _ ?x]) auto
qed

theorem writes_accumulate_witness:
  "\<exists>m'. map_of (fold (AddMessage 7) [zero_Message\<lparr>ATURI := ''a'', PublishAttempts := 1\<rparr>, zero_Message\<lparr>ATURI := ''a'', PublishAttempts := 1\<rparr>]
      demo_table) ''a'' = Some m' \<and> PublishAttempts m' = 2 \<and> CreatedAt m' = 1"
  using writes_accumulate [of demo_table "''a''" _ 7
      "[zero_Message\<lparr>ATURI := ''a'', PublishAttempts := 1\<rparr>, zero_Message\<lparr>ATURI := ''a'', PublishAttempts := 1\<rparr>]"]
  by (auto simp: demo_table_def zero_Message_def)

end
