(* ===== verification/Tid.thy ===== *)
theory Tid
  imports Go_Prelude "HOL-Library.List_Lexorder" "HOL-Library.Char_ord"
begin

text \<open>
  \<open>pkg/atproto/syntax/tid.go\<close>: timestamp identifiers, thirteen base-32 digits in an alphabet
  whose byte order is its digit order, and the clock that hands them out. int64 and uint64
  are 64-bit words.
\<close>

unbundle bit_operations_syntax

definition Base32SortAlphabet :: string where
  "Base32SortAlphabet = ''234567abcdefghijklmnopqrstuvwxyz''"

text \<open>\<open>tidRegex\<close>: a first character among the first sixteen, then twelve of the alphabet.\<close>

definition tidRegex :: "string \<Rightarrow> bool" where
  "tidRegex s \<longleftrightarrow> length s = 13 \<and> hd s \<in> set (take 16 Base32SortAlphabet) \<and>
     list_all (\<lambda>c. c \<in> set Base32SortAlphabet) (tl s)"

datatype tid_error = TidEmpty | TidLength | TidSyntax

definition ParseTID :: "string \<Rightarrow> tid_error + string" where
  "ParseTID raw =
     (if raw = [] then Inl TidEmpty
      else if length raw \<noteq> 13 then Inl TidLength
      else if \<not> tidRegex raw then Inl TidSyntax
      else Inr raw)"

text \<open>The loop that fills the buffer from its last position to its first.\<close>

fun tid_digits :: "nat \<Rightarrow> 64 word \<Rightarrow> string" where
  "tid_digits 0 v = []"
| "tid_digits (Suc n) v = tid_digits n (drop_bit 5 v) @ [Base32SortAlphabet ! unat (v AND 0x1F)]"

definition NewTIDFromInteger :: "64 word \<Rightarrow> string" where
  "NewTIDFromInteger v = tid_digits 13 (0x7FFFFFFFFFFFFFFF AND v)"

definition NewTID :: "64 word \<Rightarrow> 64 word \<Rightarrow> string" where
  "NewTID unixMicros clockID =
     NewTIDFromInteger (push_bit 10 (unixMicros AND 0x1FFFFFFFFFFFFF) OR (clockID AND 0x3FF))"

fun IndexByte :: "string \<Rightarrow> char \<Rightarrow> nat option" where
  "IndexByte [] c = None"
| "IndexByte (x # xs) c = (if x = c then Some 0 else map_option Suc (IndexByte xs c))"

fun tid_value :: "string \<Rightarrow> 64 word \<Rightarrow> 64 word option" where
  "tid_value [] v = Some v"
| "tid_value (c # cs) v =
     (case IndexByte Base32SortAlphabet c of None \<Rightarrow> None
      | Some i \<Rightarrow> tid_value cs (push_bit 5 v OR (of_nat i AND 0x1F)))"

definition Integer :: "string \<Rightarrow> 64 word" where
  "Integer t = (if length t \<noteq> 13 then 0 else case tid_value t 0 of None \<Rightarrow> 0 | Some v \<Rightarrow> v)"

definition TimeMicros :: "string \<Rightarrow> 64 word" where
  "TimeMicros t = drop_bit 10 (Integer t) AND 0x1FFFFFFFFFFFFFFF"

definition TIDClockID :: "string \<Rightarrow> 64 word" where
  "TIDClockID t = Integer t AND 0x3FF"

record TIDClock =
  ClockID :: "64 word"
  lastUnixMicro :: "64 word"

definition NewTIDClock :: "64 word \<Rightarrow> TIDClock" where
  "NewTIDClock clockID = \<lparr>ClockID = clockID, lastUnixMicro = 0\<rparr>"

definition ClockFromTID :: "string \<Rightarrow> TIDClock" where
  "ClockFromTID t =
     \<lparr>ClockID = TIDClockID t, lastUnixMicro = drop_bit 10 (Integer t) AND 0x1FFFFFFFFFFFFFFF\<rparr>"

text \<open>\<open>Next\<close>, with the clock reading as an argument; the comparison is of int64 values.\<close>

definition Next :: "64 word \<Rightarrow> TIDClock \<Rightarrow> string \<times> TIDClock" where
  "Next now c =
     (let now = (if sint now \<le> sint (lastUnixMicro c) then lastUnixMicro c + 1 else now)
      in (NewTID now (ClockID c), c\<lparr>lastUnixMicro := now\<rparr>))"

section \<open>Digits\<close>

lemma alphabet_length [simp]: "length Base32SortAlphabet = 32"
  by (simp add: Base32SortAlphabet_def)

lemma IndexByte_nth: "distinct xs \<Longrightarrow> i < length xs \<Longrightarrow> IndexByte xs (xs ! i) = Some i"
proof (induction xs arbitrary: i)
  case (Cons x xs)
  then show ?case by (cases i) auto
qed simp

lemma alphabet_distinct: "distinct Base32SortAlphabet"
  by (simp add: Base32SortAlphabet_def)

lemma alphabet_sorted: "i < j \<Longrightarrow> j < 32 \<Longrightarrow> Base32SortAlphabet ! i < Base32SortAlphabet ! j"
proof -
  assume a: "i < j" "j < 32"
  have "sorted_wrt (<) Base32SortAlphabet" by (simp add: Base32SortAlphabet_def less_char_def)
  then show ?thesis using a by (simp add: sorted_wrt_nth_less)
qed

lemma low_digit: "unat (v AND 0x1F :: 64 word) = unat v mod 32"
proof -
  have "(0x1F :: 64 word) = mask 5" by (simp add: mask_eq_exp_minus_1)
  then have "v AND 0x1F = take_bit 5 v" by (simp add: take_bit_eq_mask)
  then have "unat (v AND 0x1F) = take_bit 5 (unat v)" by (simp only: unsigned_take_bit_eq)
  then show ?thesis by (simp add: take_bit_eq_mod)
qed

lemma shift_digit: "unat (drop_bit 5 v :: 64 word) = unat v div 32"
  by (simp only: unat_drop_bit_eq) (simp add: drop_bit_eq_div)

text \<open>The digits of a natural number, most significant first.\<close>

fun digits32 :: "nat \<Rightarrow> nat \<Rightarrow> nat list" where
  "digits32 0 n = []"
| "digits32 (Suc k) n = digits32 k (n div 32) @ [n mod 32]"

lemma tid_digits_nat: "tid_digits k v = map (\<lambda>d. Base32SortAlphabet ! d) (digits32 k (unat v))"
  by (induction k arbitrary: v) (simp_all add: low_digit shift_digit)

lemma digits32_bound: "d \<in> set (digits32 k n) \<Longrightarrow> d < 32"
  by (induction k arbitrary: n) auto

lemma length_digits32 [simp]: "length (digits32 k n) = k"
  by (induction k arbitrary: n) auto

lemma digits32_value: "foldl (\<lambda>a d. a * 32 + d) 0 (digits32 k n) = n mod 32 ^ k"
proof (induction k arbitrary: n)
  case (Suc k)
  have "n mod (32 * 32 ^ k) = 32 * (n div 32 mod 32 ^ k) + n mod 32"
    by (rule mod_mult2_eq)
  then show ?case using Suc by simp
qed simp

lemma foldl32_acc: "foldl (\<lambda>a d. a * 32 + d) (x::nat) ds = x * 32 ^ length ds + foldl (\<lambda>a d. a * 32 + d) 0 ds"
proof (induction ds arbitrary: x)
  case (Cons d ds)
  show ?case using Cons [of "x * 32 + d"] Cons [of d] by (simp add: algebra_simps)
qed simp


text \<open>Reading the digits back: the accumulator shifts and the new digit fills the low bits.\<close>

lemma or_low: 
  assumes "unat (v :: 64 word) < 2 ^ 59" and "d < 32"
  shows "unat (push_bit 5 v OR (of_nat d AND 0x1F)) = unat v * 32 + d"
proof -
  have d: "of_nat d AND 0x1F = (of_nat d :: 64 word)"
  proof (rule word_unat_eq_iff [THEN iffD2])
    show "unat (of_nat d AND 0x1F :: 64 word) = unat (of_nat d :: 64 word)"
      using assms(2) by (simp only: low_digit) (simp add: unat_of_nat)
  qed
  have v: "push_bit 5 v = v * 32" by (simp add: push_bit_eq_mult)
  have "push_bit 5 v AND (of_nat d :: 64 word) = 0"
  proof (rule bit_eqI)
    fix n
    show "bit (push_bit 5 v AND (of_nat d :: 64 word)) n = bit (0 :: 64 word) n"
    proof (cases "n < 5")
      case True
      then show ?thesis by (simp add: bit_and_iff bit_push_bit_iff)
    next
      case False
      have "(2::nat) ^ 5 \<le> 2 ^ n" using False by (intro power_increasing) simp_all
      then have "d < 2 ^ n" using assms(2) by simp
      then have "\<not> bit d n" by (simp add: bit_iff_odd)
      then show ?thesis by (simp add: bit_and_iff bit_of_nat_iff)
    qed
  qed
  then have "push_bit 5 v OR (of_nat d :: 64 word) = v * 32 + of_nat d"
    unfolding v by (simp add: disjunctive_add_eq_or)
  then have "push_bit 5 v OR (of_nat d AND 0x1F) = v * 32 + of_nat d" by (simp only: d)
  moreover have "unat (v * 32) = unat v * 32" using assms(1) by (subst unat_mult_lem [THEN iffD1]) simp_all
  moreover have "unat (of_nat d :: 64 word) = d" using assms(2) by (simp add: unat_of_nat)
  ultimately show ?thesis using assms by (simp add: unat_add_lem [THEN iffD1])
qed


lemma tid_value_digits:
  "\<forall>d \<in> set ds. d < 32 \<Longrightarrow> foldl (\<lambda>a d. a * 32 + d) (unat v) ds < 2 ^ 64 \<Longrightarrow>
   \<exists>w. tid_value (map (\<lambda>d. Base32SortAlphabet ! d) ds) v = Some w \<and> unat w = foldl (\<lambda>a d. a * 32 + d) (unat v) ds"
proof (induction ds arbitrary: v)
  case (Cons d ds)
  have i: "IndexByte Base32SortAlphabet (Base32SortAlphabet ! d) = Some d"
    using Cons.prems(1) by (simp add: IndexByte_nth alphabet_distinct)
  let ?w = "push_bit 5 v OR (of_nat d AND 0x1F)"
  have "(unat v * 32 + d) * 1 \<le> (unat v * 32 + d) * 32 ^ length ds" by (intro mult_left_mono) simp_all
  also have "\<dots> \<le> foldl (\<lambda>a d. a * 32 + d) (unat v * 32 + d) ds" by (subst foldl32_acc) simp
  also have "\<dots> < 2 ^ 64" using Cons.prems(2) by simp
  finally have "unat v < 2 ^ 59" by simp
  then have w: "unat ?w = unat v * 32 + d" using Cons.prems(1) by (intro or_low) simp_all
  have "\<exists>w'. tid_value (map (\<lambda>d. Base32SortAlphabet ! d) ds) ?w = Some w' \<and> unat w' = foldl (\<lambda>a d. a * 32 + d) (unat ?w) ds"
    using Cons.prems w by (intro Cons.IH) simp_all
  then show ?case using i w by simp
qed simp

lemma mask63: "unat (0x7FFFFFFFFFFFFFFF AND v :: 64 word) = unat v mod 2 ^ 63"
proof -
  have "(0x7FFFFFFFFFFFFFFF :: 64 word) = mask 63" by (simp add: mask_eq_exp_minus_1)
  then have "0x7FFFFFFFFFFFFFFF AND v = take_bit 63 v" by (simp add: take_bit_eq_mask and.commute)
  then have "unat (0x7FFFFFFFFFFFFFFF AND v) = take_bit 63 (unat v)" by (simp only: unsigned_take_bit_eq)
  then show ?thesis by (simp add: take_bit_eq_mod)
qed

lemma length_tid_digits [simp]: "length (tid_digits k v) = k"
  by (simp add: tid_digits_nat)

lemma Integer_NewTIDFromInteger: "unat (Integer (NewTIDFromInteger v)) = unat v mod 2 ^ 63"
proof -
  let ?w = "0x7FFFFFFFFFFFFFFF AND v"
  have b: "unat ?w < 2 ^ 63" unfolding mask63 by simp
  have val: "foldl (\<lambda>a d. a * 32 + d) 0 (digits32 13 (unat ?w)) = unat ?w"
    using b by (simp only: digits32_value) simp
  have "\<exists>w. tid_value (tid_digits 13 ?w) 0 = Some w \<and> unat w = unat ?w"
    using tid_value_digits [of "digits32 13 (unat ?w)" 0] digits32_bound b val
    by (simp only: tid_digits_nat unat_0) auto
  then show ?thesis by (auto simp: Integer_def NewTIDFromInteger_def mask63)
qed

section \<open>Order\<close>

lemma lex_append: "length xs = length ys \<Longrightarrow> (xs :: string) < ys \<Longrightarrow> xs @ a < ys @ b"
proof (induction xs arbitrary: ys)
  case (Cons x xs)
  then obtain y ys' where "ys = y # ys'" by (cases ys) auto
  with Cons show ?case by auto
qed simp

lemma lex_last: "(c :: char) < d \<Longrightarrow> xs @ [c] < xs @ [d]"
  by (induction xs) auto

lemma digits32_order:
  "m < n \<Longrightarrow> n < 32 ^ k \<Longrightarrow>
   map (\<lambda>d. Base32SortAlphabet ! d) (digits32 k m) < map (\<lambda>d. Base32SortAlphabet ! d) (digits32 k n)"
proof (induction k arbitrary: m n)
  case (Suc k)
  show ?case
  proof (cases "m div 32 = n div 32")
    case True
    have "m mod 32 < n mod 32" using Suc.prems(1) True by (metis div_mult_mod_eq add_less_cancel_left)
    then have "Base32SortAlphabet ! (m mod 32) < Base32SortAlphabet ! (n mod 32)" by (intro alphabet_sorted) simp_all
    with True show ?thesis by (simp add: lex_last)
  next
    case False
    then have "m div 32 < n div 32" using Suc.prems(1) by (meson div_le_mono le_neq_implies_less less_imp_le)
    moreover have "n div 32 < 32 ^ k" using Suc.prems(2) by (simp add: less_mult_imp_div_less mult.commute)
    ultimately show ?thesis using Suc.IH by (simp add: lex_append)
  qed
qed simp

lemma NewTIDFromInteger_less:
  assumes "unat a < unat b" and "unat b < 2 ^ 63"
  shows "NewTIDFromInteger a < NewTIDFromInteger b"
  using assms unfolding NewTIDFromInteger_def tid_digits_nat mask63
  by (intro digits32_order) simp_all

section \<open>Syntax\<close>

lemma digits32_first: "hd (digits32 (Suc k) n) = n div 32 ^ k mod 32"
proof (induction k arbitrary: n)
  case (Suc k)
  have "digits32 (Suc (Suc k)) n = digits32 (Suc k) (n div 32) @ [n mod 32]" by simp
  moreover have "digits32 (Suc k) (n div 32) \<noteq> []" by simp
  ultimately have "hd (digits32 (Suc (Suc k)) n) = hd (digits32 (Suc k) (n div 32))" by (metis hd_append2)
  then show ?case using Suc [of "n div 32"] by (simp only: div_mult2_eq power_Suc)
qed simp

lemma NewTIDFromInteger_valid: "tidRegex (NewTIDFromInteger v)"
proof -
  let ?n = "unat v mod 2 ^ 63"
  let ?f = "\<lambda>d. Base32SortAlphabet ! d"
  have t: "NewTIDFromInteger v = map ?f (digits32 13 ?n)"
    by (simp only: NewTIDFromInteger_def tid_digits_nat mask63)
  have ne: "digits32 13 ?n \<noteq> []" using length_digits32 [of 13 ?n] by (metis list.size(3) zero_neq_numeral)
  have "?n div 32 ^ 12 < 8" by (rule less_mult_imp_div_less) (rule less_le_trans [OF mod_less_divisor], simp_all)
  then have "hd (digits32 13 ?n) < 16" using digits32_first [of 12 ?n] by simp
  then have "?f (hd (digits32 13 ?n)) \<in> set (take 16 Base32SortAlphabet)"
    by (metis alphabet_length in_set_conv_nth length_take min.absorb2 numeral_le_iff nth_take semiring_norm(68,71,69))
  then have h: "hd (NewTIDFromInteger v) \<in> set (take 16 Base32SortAlphabet)" using t ne by (simp add: list.map_sel)
  have "\<forall>c \<in> set (NewTIDFromInteger v). c \<in> set Base32SortAlphabet"
    using digits32_bound [of _ 13 ?n] by (auto simp only: t set_map alphabet_length intro!: nth_mem)
  then have "list_all (\<lambda>c. c \<in> set Base32SortAlphabet) (tl (NewTIDFromInteger v))"
    by (auto simp: list_all_iff dest: list.set_sel(2) [rotated]) (metis list.set_sel(2) list.sel(2))
  with h show ?thesis unfolding tidRegex_def using t by simp
qed

section \<open>Time stamps and the clock\<close>

lemma and_mask_unat: "unat (x AND mask k :: 64 word) = unat x mod 2 ^ k"
proof -
  have "x AND mask k = take_bit k x" by (simp add: take_bit_eq_mask)
  then have "unat (x AND mask k) = take_bit k (unat x)" by (simp only: unsigned_take_bit_eq)
  then show ?thesis by (simp add: take_bit_eq_mod)
qed

definition tid_int :: "64 word \<Rightarrow> 64 word \<Rightarrow> 64 word" where
  "tid_int um c = push_bit 10 (um AND 0x1FFFFFFFFFFFFF) OR (c AND 0x3FF)"

lemma tid_int_nat: "unat (tid_int um c) = (unat um mod 2 ^ 53) * 1024 + unat c mod 1024"
proof -
  have m: "(0x1FFFFFFFFFFFFF :: 64 word) = mask 53" "(0x3FF :: 64 word) = mask 10"
    by (simp_all add: mask_eq_exp_minus_1)
  let ?a = "um AND 0x1FFFFFFFFFFFFF" and ?b = "c AND 0x3FF"
  have a: "unat ?a = unat um mod 2 ^ 53" unfolding m by (rule and_mask_unat)
  have b: "unat ?b = unat c mod 1024" unfolding m by (simp add: and_mask_unat)
  have "push_bit 10 ?a AND ?b = 0"
    by (rule bit_eqI) (auto simp: m bit_simps)
  then have "tid_int um c = push_bit 10 ?a + ?b" by (simp add: tid_int_def disjunctive_add_eq_or)
  moreover have "push_bit 10 ?a = ?a * 1024" by (simp add: push_bit_eq_mult)
  moreover have "unat (?a * 1024) = unat ?a * 1024"
  proof -
    have "unat ?a < 2 ^ 53" unfolding a by simp
    then have "unat ?a * unat (1024 :: 64 word) < 2 ^ LENGTH(64)" by simp
    then have "unat (?a * 1024) = unat ?a * unat (1024 :: 64 word)" by (rule unat_mult_lem [THEN iffD1])
    then show ?thesis by simp
  qed
  moreover have "unat ?a * 1024 + unat ?b < 2 ^ 64"
  proof -
    have "unat ?a < 2 ^ 53" unfolding a by simp
    moreover have "unat ?b < 1024" unfolding b by simp
    ultimately show ?thesis by simp
  qed
  ultimately have "unat (tid_int um c) = unat ?a * 1024 + unat ?b"
    using unat_add_lem [THEN iffD1, of "?a * 1024" ?b] by simp
  then show ?thesis unfolding a b .
qed

lemma NewTID_int: "NewTID um c = NewTIDFromInteger (tid_int um c)"
  by (simp add: NewTID_def tid_int_def)

lemma tid_int_bound: "unat (tid_int um c) < 2 ^ 63"
proof -
  have "unat um mod 2 ^ 53 < 2 ^ 53" "unat c mod 1024 < 1024" by simp_all
  then show ?thesis unfolding tid_int_nat by simp
qed


lemma NewTID_time:
  assumes "unat um < 2 ^ 53"
  shows "TimeMicros (NewTID um c) = um"
proof (rule word_unat_eq_iff [THEN iffD2])
  have i: "unat (Integer (NewTID um c)) = unat um * 1024 + unat c mod 1024"
    using assms tid_int_bound [of um c] by (simp add: NewTID_int Integer_NewTIDFromInteger tid_int_nat)
  have m: "(0x1FFFFFFFFFFFFFFF :: 64 word) = mask 61" by (simp add: mask_eq_exp_minus_1)
  have d: "unat (drop_bit 10 (Integer (NewTID um c))) = unat um"
    unfolding unat_drop_bit_eq i by (simp add: drop_bit_eq_div)
  show "unat (TimeMicros (NewTID um c)) = unat um"
    unfolding TimeMicros_def m and_mask_unat d using assms by simp
qed

lemma NewTID_clock: "unat (TIDClockID (NewTID um c)) = unat c mod 1024"
proof -
  have m: "(0x3FF :: 64 word) = mask 10" by (simp add: mask_eq_exp_minus_1)
  have "unat (Integer (NewTID um c)) = unat (tid_int um c)"
    using tid_int_bound [of um c] by (simp add: NewTID_int Integer_NewTIDFromInteger)
  then show ?thesis unfolding TIDClockID_def m and_mask_unat by (simp add: tid_int_nat mod_mult_self3)
qed

lemma NewTID_less:
  assumes "unat a < unat b" and "unat b < 2 ^ 53"
  shows "NewTID a c < NewTID b d"
proof -
  have "unat (tid_int a c) < unat (tid_int b d)"
  proof -
    have "unat a * 1024 + unat c mod 1024 < unat a * 1024 + 1024" by simp
    also have "\<dots> \<le> unat b * 1024" using assms(1) by simp
    finally show ?thesis using assms unfolding tid_int_nat by simp
  qed
  then show ?thesis unfolding NewTID_int using NewTIDFromInteger_less tid_int_bound by blast
qed

lemma sint_small: "unat (x :: 64 word) < 2 ^ 63 \<Longrightarrow> sint x = int (unat x)"
proof -
  assume a: "unat x < 2 ^ 63"
  have u: "uint x = int (unat x)" by simp
  have "int (unat x) < int (2 ^ 63)" using a by (simp only: of_nat_less_iff)
  then have "uint x < 2 ^ 63" unfolding u by simp
  moreover have "- (2 ^ 63) \<le> uint x" by (rule order_trans [of _ 0]) simp_all
  ultimately have "signed_take_bit 63 (uint x) = uint x" by (intro signed_take_bit_int_eq_self)
  then show ?thesis by (simp add: sint_uint)
qed

lemma Next_facts:
  assumes "unat now < 2 ^ 53 - 1" and "unat (lastUnixMicro c) < 2 ^ 53 - 1"
  obtains um where "Next now c = (NewTID um (ClockID c), c\<lparr>lastUnixMicro := um\<rparr>)"
    and "unat (lastUnixMicro c) < unat um" and "unat um < 2 ^ 53"
    and "unat um \<le> max (unat now) (Suc (unat (lastUnixMicro c)))"
proof (cases "sint now \<le> sint (lastUnixMicro c)")
  case True
  have "unat (lastUnixMicro c + 1) = unat (lastUnixMicro c) + 1"
    using assms(2) unat_add_lem [THEN iffD1, of "lastUnixMicro c" 1] by simp
  with True assms show thesis by (intro that [of "lastUnixMicro c + 1"]) (simp_all add: Next_def Let_def)
next
  case False
  then have "int (unat (lastUnixMicro c)) < int (unat now)"
    using assms sint_small [of now] sint_small [of "lastUnixMicro c"] by simp
  then have "unat (lastUnixMicro c) < unat now" by (simp only: of_nat_less_iff)
  with False assms show thesis by (intro that [of now]) (simp_all add: Next_def Let_def)
qed

text \<open>A run of the clock: one reading of the wall clock per identifier.\<close>

fun issue :: "64 word list \<Rightarrow> TIDClock \<Rightarrow> string list" where
  "issue [] c = []"
| "issue (now # nows) c = (case Next now c of (t, c') \<Rightarrow> t # issue nows c')"

lemma issue_increasing:
  assumes "\<forall>now \<in> set nows. unat now \<le> B" and "unat (lastUnixMicro c) \<le> B" and "B + length nows < 2 ^ 53"
  shows "sorted_wrt (<) (issue nows c) \<and> (\<forall>t \<in> set (issue nows c). \<exists>um. t = NewTID um (ClockID c) \<and>
           unat (lastUnixMicro c) < unat um \<and> unat um < 2 ^ 53)"
  using assms
proof (induction nows arbitrary: c B)
  case (Cons now nows)
  obtain um where um: "Next now c = (NewTID um (ClockID c), c\<lparr>lastUnixMicro := um\<rparr>)"
    "unat (lastUnixMicro c) < unat um" "unat um < 2 ^ 53" "unat um \<le> max (unat now) (Suc (unat (lastUnixMicro c)))"
    using Next_facts [of now c] Cons.prems by auto
  have "unat um \<le> Suc B" using um(4) Cons.prems by auto
  moreover have "\<forall>n \<in> set nows. unat n \<le> Suc B" using Cons.prems(1) by auto
  ultimately have ih: "sorted_wrt (<) (issue nows (c\<lparr>lastUnixMicro := um\<rparr>)) \<and>
      (\<forall>t \<in> set (issue nows (c\<lparr>lastUnixMicro := um\<rparr>)). \<exists>um'. t = NewTID um' (ClockID c) \<and> unat um < unat um' \<and> unat um' < 2 ^ 53)"
    using Cons.IH [of "Suc B" "c\<lparr>lastUnixMicro := um\<rparr>"] Cons.prems(3) by simp
  have "NewTID um (ClockID c) < t" if t: "t \<in> set (issue nows (c\<lparr>lastUnixMicro := um\<rparr>))" for t
  proof -
    from ih t obtain um' where "t = NewTID um' (ClockID c)" "unat um < unat um'" "unat um' < 2 ^ 53" by blast
    then show ?thesis using NewTID_less by simp
  qed
  moreover have "\<exists>um'. t = NewTID um' (ClockID c) \<and> unat (lastUnixMicro c) < unat um' \<and> unat um' < 2 ^ 53"
    if t: "t \<in> set (issue nows (c\<lparr>lastUnixMicro := um\<rparr>))" for t
    using ih t less_trans [OF um(2)] by blast
  ultimately show ?case using um ih by auto
qed simp

section \<open>Properties\<close>

text \<open>every generated identifier is well-formed and reads back as the 63-bit integer it was
  made from.\<close>

theorem tid_integer_round_trip:
  "is_ok (ParseTID (NewTIDFromInteger v)) \<and> Integer (NewTIDFromInteger v) = v AND 0x7FFFFFFFFFFFFFFF"
proof
  have v: "tidRegex (NewTIDFromInteger v)" by (rule NewTIDFromInteger_valid)
  then have "NewTIDFromInteger v \<noteq> []" by (auto simp: tidRegex_def)
  with v show "is_ok (ParseTID (NewTIDFromInteger v))" by (simp add: ParseTID_def tidRegex_def)
  have "unat (Integer (NewTIDFromInteger v)) = unat (v AND 0x7FFFFFFFFFFFFFFF)"
    unfolding Integer_NewTIDFromInteger by (simp only: and.commute [of v] mask63)
  then show "Integer (NewTIDFromInteger v) = v AND 0x7FFFFFFFFFFFFFFF" by (rule word_unat_eq_iff [THEN iffD2])
qed

text \<open>the time stamp and the clock identifier can be read back from an identifier.\<close>

theorem tid_fields_round_trip:
  assumes "unat um < 2 ^ 53" and "unat c < 1024"
  shows "TimeMicros (NewTID um c) = um \<and> TIDClockID (NewTID um c) = c"
  using NewTID_time [OF assms(1)] NewTID_clock [of um c] assms(2) by (simp add: word_unat_eq_iff)

text \<open>identifiers sort, as strings, by their time stamps.\<close>

theorem tid_order:
  assumes "unat a < unat b" and "unat b < 2 ^ 53"
  shows "NewTID a c < NewTID b d"
  using assms by (rule NewTID_less)

text \<open>a clock issues strictly increasing identifiers whatever the wall clock reads, backwards
  jumps included, as long as its time stamps stay below the 53-bit range.\<close>

theorem clock_monotone:
  assumes "\<forall>now \<in> set nows. unat now \<le> B" and "unat (lastUnixMicro c) \<le> B" and "B + length nows < 2 ^ 53"
  shows "sorted_wrt (<) (issue nows c)"
  using issue_increasing [OF assms] by blast

text \<open>a clock restored from an identifier issues only later identifiers.\<close>

theorem restored_clock_continues:
  assumes "unat um < 2 ^ 53 - 1" and "unat now < 2 ^ 53 - 1"
  shows "NewTID um d < fst (Next now (ClockFromTID (NewTID um d)))"
proof -
  have l: "lastUnixMicro (ClockFromTID (NewTID um d)) = um"
    using NewTID_time [of um d] assms(1) by (simp add: ClockFromTID_def TimeMicros_def)
  obtain um' where "fst (Next now (ClockFromTID (NewTID um d))) = NewTID um' (ClockID (ClockFromTID (NewTID um d)))"
    "unat um < unat um'" "unat um' < 2 ^ 53"
    using Next_facts [of now "ClockFromTID (NewTID um d)"] assms l by (metis fst_conv)
  then show ?thesis by (simp add: NewTID_less)
qed

section \<open>Applications\<close>

theorem tid_fields_round_trip_witness: "TimeMicros (NewTID 5 3) = 5 \<and> TIDClockID (NewTID 5 3) = 3"
  using tid_fields_round_trip [of 5 3] by simp

theorem tid_order_witness: "NewTID 5 9 < NewTID 6 3"
  using tid_order [of 5 6 9 3] by simp

theorem clock_monotone_witness: "sorted_wrt (<) (issue [7, 7, 3] (NewTIDClock 1))"
  using clock_monotone [of "[7, 7, 3]" 10 "NewTIDClock 1"] by (simp add: NewTIDClock_def)

theorem restored_clock_continues_witness: "NewTID 5 1 < fst (Next 2 (ClockFromTID (NewTID 5 1)))"
  using restored_clock_continues [of 5 2 1] by simp

end
