(* ===== verification/PacketCodec.thy ===== *)
theory PacketCodec
  imports Go_Prelude
begin

text \<open>
  \<open>internal/ssb/muxrpc/codec/codec.go\<close> and \<open>muxrpc/packer.go\<close>: nine-byte headers (flag,
  length, request number, big-endian) and bodies; the incremental decoder, the blocking
  reader on a byte stream, the encoder and the writer, and the packer that combines decoder
  and reader. A connection's input is the list of bytes it still has to deliver.
\<close>

unbundle bit_operations_syntax

section \<open>Big-endian words\<close>

definition PutUint32 :: "32 word \<Rightarrow> bytes" where
  "PutUint32 w = [ucast (drop_bit 24 w), ucast (drop_bit 16 w), ucast (drop_bit 8 w), ucast w]"

definition Uint32 :: "bytes \<Rightarrow> 32 word" where
  "Uint32 b = push_bit 24 (ucast (b ! 0)) OR push_bit 16 (ucast (b ! 1)) OR push_bit 8 (ucast (b ! 2)) OR ucast (b ! 3)"

lemma Uint32_PutUint32 [simp]: "Uint32 (PutUint32 w) = w"
proof (rule bit_eqI)
  fix n
  show "bit (Uint32 (PutUint32 w)) n = bit w n"
  proof -
    consider "n < 8" | "8 \<le> n" "n < 16" | "16 \<le> n" "n < 24" | "24 \<le> n" "n < 32" | "32 \<le> n" by linarith
    then show ?thesis
      by cases (auto simp: Uint32_def PutUint32_def bit_simps dest: bit_imp_le_length)
  qed
qed

lemma length_PutUint32 [simp]: "length (PutUint32 w) = 4"
  by (simp add: PutUint32_def)

section \<open>Packets\<close>

definition HeaderSize :: nat where "HeaderSize = 9"
definition maxBufferSize :: nat where "maxBufferSize = 2 ^ 18"

record Packet =
  Flag :: byte
  Req :: "32 word"
  Body :: bytes

record Header =
  HFlag :: byte
  HLen :: "32 word"
  HReq :: "32 word"

definition FlagString :: byte where "FlagString = 1"
definition FlagJSON :: byte where "FlagJSON = 2"
definition FlagEndErr :: byte where "FlagEndErr = 4"
definition FlagStream :: byte where "FlagStream = 8"

definition FlagSet :: "byte \<Rightarrow> byte \<Rightarrow> byte" where "FlagSet f g = f OR g"
definition FlagClear :: "byte \<Rightarrow> byte \<Rightarrow> byte" where "FlagClear f g = f AND NOT g"
definition FlagGet :: "byte \<Rightarrow> byte \<Rightarrow> bool" where "FlagGet f g \<longleftrightarrow> f AND g = g"

datatype codec_error =
  NeedInput | EOF | CodecPanic | BodyTooLarge nat | HeaderReadFailed | BodyReadFailed

definition parse_header :: "bytes \<Rightarrow> Header" where
  "parse_header b = \<lparr>HFlag = b ! 0, HLen = Uint32 (take 4 (drop 1 b)), HReq = Uint32 (take 4 (drop 5 b))\<rparr>"

definition end_header :: "Header \<Rightarrow> bool" where
  "end_header h \<longleftrightarrow> HFlag h = 0 \<and> HLen h = 0 \<and> HReq h = 0"

text \<open>
  \<open>Decoder.NextPacket\<close> on the buffered bytes. Lengths are compared as uint32, so the sum of
  header size and body length may wrap; the slice expression then panics.
\<close>

definition NextPacket :: "bytes \<Rightarrow> (codec_error + Packet) \<times> bytes" where
  "NextPacket buffer =
     (if length buffer < HeaderSize then (Inl NeedInput, buffer)
      else let hdr = parse_header buffer; upto = 9 + HLen hdr
           in if end_header hdr then (Inl EOF, drop HeaderSize buffer)
              else if (of_nat (length buffer) :: 32 word) < upto then (Inl NeedInput, buffer)
              else if unat upto < HeaderSize \<or> length buffer < unat upto then (Inl CodecPanic, buffer)
              else (Inr \<lparr>Flag = HFlag hdr, Req = HReq hdr, Body = take (unat upto - HeaderSize) (drop HeaderSize buffer)\<rparr>,
                    drop (unat upto) buffer))"

definition EncodePacket :: "Packet \<Rightarrow> codec_error + bytes" where
  "EncodePacket p =
     (if length (Body p) > maxBufferSize then Inl (BodyTooLarge (length (Body p)))
      else Inr (Flag p # PutUint32 (of_nat (length (Body p))) @ PutUint32 (Req p) @ Body p))"

text \<open>\<open>Writer.WritePacket\<close> writes the same bytes, header first; \<open>Close\<close> writes nine zero bytes.\<close>

definition WritePacket :: "bytes \<Rightarrow> Packet \<Rightarrow> codec_error option \<times> bytes" where
  "WritePacket written p =
     (if length (Body p) > maxBufferSize then (Some (BodyTooLarge (length (Body p))), written)
      else (None, (written @ (Flag p # PutUint32 (of_nat (length (Body p))) @ PutUint32 (Req p))) @ Body p))"

definition close_frame :: bytes where "close_frame = replicate 9 0"

definition ReadHeader :: "bytes \<Rightarrow> (codec_error + Header) \<times> bytes" where
  "ReadHeader s =
     (if s = [] then (Inl EOF, [])
      else if length s < HeaderSize then (Inl HeaderReadFailed, [])
      else if end_header (parse_header s) then (Inl EOF, drop HeaderSize s)
      else (Inr (parse_header s), drop HeaderSize s))"

definition ReadPacket :: "bytes \<Rightarrow> (codec_error + Packet) \<times> bytes" where
  "ReadPacket s =
     (case ReadHeader s of (Inl e, s') \<Rightarrow> (Inl e, s')
      | (Inr hdr, s') \<Rightarrow>
         (let n = unat (HLen hdr)
          in if n \<le> length s' then (Inr \<lparr>Flag = HFlag hdr, Req = HReq hdr, Body = take n s'\<rparr>, drop n s')
             else if s' = [] then (Inl EOF, []) else (Inl BodyReadFailed, [])))"

section \<open>The packer\<close>

record Packer =
  decoder :: bytes
  stream :: bytes
  pending :: "Packet option"

definition AddRawData :: "bytes \<Rightarrow> Packer \<Rightarrow> Packer" where
  "AddRawData b k = k\<lparr>decoder := decoder k @ b\<rparr>"

definition header_of :: "Packet \<Rightarrow> Header" where
  "header_of p = \<lparr>HFlag = Flag p, HLen = of_nat (length (Body p)), HReq = Req p\<rparr>"

definition PackerNextHeader :: "Packer \<Rightarrow> (codec_error + Header) \<times> Packer" where
  "PackerNextHeader k =
     (case pending k of Some p \<Rightarrow> (Inr (header_of p), k)
      | None \<Rightarrow>
         (case NextPacket (decoder k) of
            (Inr p, b) \<Rightarrow> (Inr (header_of p), k\<lparr>decoder := b, pending := Some p\<rparr>)
          | (Inl CodecPanic, b) \<Rightarrow> (Inl CodecPanic, k)
          | (Inl _, b) \<Rightarrow> (case ReadHeader (stream k) of (r, s) \<Rightarrow> (r, k\<lparr>decoder := b, stream := s\<rparr>))))"

definition PackerNextPacket :: "Packer \<Rightarrow> (codec_error + Packet) \<times> Packer" where
  "PackerNextPacket k =
     (case pending k of Some p \<Rightarrow> (Inr p, k\<lparr>pending := None\<rparr>)
      | None \<Rightarrow>
         (case NextPacket (decoder k) of
            (Inr p, b) \<Rightarrow> (Inr p, k\<lparr>decoder := b\<rparr>)
          | (Inl NeedInput, b) \<Rightarrow> (case ReadPacket (stream k) of (r, s) \<Rightarrow> (r, k\<lparr>stream := s\<rparr>))
          | (Inl e, b) \<Rightarrow> (Inl e, k\<lparr>decoder := b\<rparr>)))"

section \<open>Round trips\<close>

text \<open>What can be sent: a body the encoder accepts, and not the packet that means goodbye.\<close>

definition sendable :: "Packet \<Rightarrow> bool" where
  "sendable p \<longleftrightarrow> length (Body p) \<le> maxBufferSize \<and> \<not> (Flag p = 0 \<and> Body p = [] \<and> Req p = 0)"

definition frame :: "Packet \<Rightarrow> bytes" where
  "frame p = Flag p # PutUint32 (of_nat (length (Body p))) @ PutUint32 (Req p) @ Body p"

lemma EncodePacket_frame: "sendable p \<Longrightarrow> EncodePacket p = Inr (frame p)"
  by (simp add: EncodePacket_def sendable_def frame_def)

lemma length_frame: "length (frame p) = HeaderSize + length (Body p)"
  by (simp add: frame_def HeaderSize_def)

lemma frame_not_Nil: "frame p \<noteq> []"
  by (simp add: frame_def)

lemma unat_small: "k < 2 ^ 32 \<Longrightarrow> unat (of_nat k :: 32 word) = k"
  by (simp add: unat_of_nat)

lemma small_len: "sendable p \<Longrightarrow> unat (of_nat (length (Body p)) :: 32 word) = length (Body p)"
  by (simp add: sendable_def maxBufferSize_def unat_of_nat)

lemma parse_header_frame: "parse_header (frame p @ rest) = header_of p"
  by (simp add: parse_header_def frame_def header_of_def PutUint32_def Uint32_PutUint32 [unfolded PutUint32_def])

lemma drop_frame: "drop HeaderSize (frame p @ rest) = Body p @ rest"
  by (simp add: frame_def HeaderSize_def PutUint32_def)

lemma not_end: "sendable p \<Longrightarrow> \<not> end_header (header_of p)"
  using small_len [of p] by (auto simp: sendable_def end_header_def header_of_def)

lemma ReadPacket_frame:
  assumes "sendable p"
  shows "ReadPacket (frame p @ rest) = (Inr p, rest)"
proof -
  have "ReadHeader (frame p @ rest) = (Inr (header_of p), Body p @ rest)"
    using assms by (simp add: ReadHeader_def parse_header_frame drop_frame not_end length_frame frame_not_Nil del: drop_append)
  then show ?thesis
    using small_len [OF assms] by (simp add: ReadPacket_def header_of_def Let_def)
qed

interpretation pkt: framed_codec "\<lambda>(_ :: unit) p. (frame p, ())"
    "\<lambda>_ s. case ReadPacket s of (Inr p, r) \<Rightarrow> Some (p, r, ()) | _ \<Rightarrow> None" sendable
  by unfold_locales (auto simp: ReadPacket_frame)

lemma NextPacket_frame:
  assumes "sendable p" and "length (frame p @ rest) < 2 ^ 32"
  shows "NextPacket (frame p @ rest) = (Inr p, rest)"
proof -
  let ?b = "frame p @ rest"
  have up: "unat (9 + HLen (header_of p)) = 9 + length (Body p)"
    using small_len [OF assms(1)] assms(1)
    by (simp add: header_of_def sendable_def maxBufferSize_def unat_word_ariths)
  have len: "unat (of_nat (length ?b) :: 32 word) = length ?b" using assms(2) by (rule unat_small)
  have "\<not> (of_nat (length ?b) :: 32 word) < 9 + HLen (header_of p)"
    unfolding word_less_nat_alt up len by (simp add: length_frame HeaderSize_def)
  then have "\<not> (of_nat (length (frame p)) + of_nat (length rest) :: 32 word) < 9 + HLen (header_of p)" by simp
  moreover have "drop (9 + length (Body p)) ?b = rest"
    using drop_frame [of p rest] by (metis HeaderSize_def add.commute append_eq_conv_conj drop_drop)
  ultimately show ?thesis
    using assms(1) up
    by (simp add: NextPacket_def Let_def parse_header_frame not_end drop_frame length_frame del: drop_append)
       (simp add: HeaderSize_def header_of_def)
qed

lemma NextPacket_partial:
  assumes "sendable p" and "b = take n (frame p)" and "n < length (frame p)"
  shows "NextPacket b = (Inl NeedInput, b)"
proof (cases "n < HeaderSize")
  case True
  with assms show ?thesis by (simp add: NextPacket_def)
next
  case False
  have lenb: "length b = n" using assms by simp
  have ph: "parse_header b = header_of p"
  proof -
    have "take HeaderSize b = take HeaderSize (frame p)" using assms(2) False by (simp add: min_def)
    moreover have "parse_header x = parse_header (take HeaderSize x)" if "HeaderSize \<le> length x" for x
      using that by (simp add: parse_header_def HeaderSize_def take_drop min_def)
    ultimately have "parse_header b = parse_header (frame p)"
      using False lenb length_frame [of p] assms(3) by (metis le_add1 not_less)
    then show ?thesis using parse_header_frame [of p "[]"] by simp
  qed
  have up: "unat (9 + HLen (header_of p)) = 9 + length (Body p)"
    using small_len [OF assms(1)] assms(1)
    by (simp add: header_of_def sendable_def maxBufferSize_def unat_word_ariths)
  have "n < 2 ^ 32" using assms(1,3) by (simp add: length_frame sendable_def maxBufferSize_def HeaderSize_def)
  then have len: "unat (of_nat n :: 32 word) = n" by (simp add: unat_of_nat)
  have "(of_nat n :: 32 word) < 9 + HLen (header_of p)"
    unfolding word_less_nat_alt up len using assms(3) by (simp add: length_frame HeaderSize_def)
  then show ?thesis
    using False ph not_end [OF assms(1)] lenb by (simp add: NextPacket_def Let_def)
qed


section \<open>Properties\<close>

text \<open>a stream of packets written one after the other is read back as the same packets in order,
  with what follows left in the stream.\<close>

theorem packet_stream_round_trip:
  assumes "\<forall>p \<in> set ps. sendable p"
  shows "\<exists>s. pkt.enc_all () ps = (concat (map frame ps), s) \<and>
     pkt.dec_n (length ps) () (concat (map frame ps) @ rest) = Some (ps, rest, s)"
proof -
  have e: "pkt.enc_all () ps = (concat (map frame ps), ())"
    by (induction ps) auto
  show ?thesis using pkt.dec_enc_all [OF assms e, of rest] e by blast
qed

text \<open>the incremental decoder returns a packet as soon as its frame is complete, and before that
  asks for input without consuming any, however the frame was cut.\<close>

theorem decoder_incremental:
  assumes "sendable p" and "length (frame p @ rest) < 2 ^ 32"
  shows "NextPacket (frame p @ rest) = (Inr p, rest) \<and>
     (\<forall>n < length (frame p). NextPacket (take n (frame p)) = (Inl NeedInput, take n (frame p)))"
  using NextPacket_frame [OF assms] NextPacket_partial [OF assms(1) refl] by simp

text \<open>a header that announces a body of at least \<open>2^32 - 9\<close> bytes makes the decoder panic
  once nine bytes are there.\<close>

theorem decoder_length_wraps:
  assumes "HeaderSize \<le> length b" and "length b < 2 ^ 32" and "2 ^ 32 - 9 \<le> unat (HLen (parse_header b))"
  shows "NextPacket b = (Inl CodecPanic, b)"
proof -
  let ?l = "HLen (parse_header b)"
  have l: "unat ?l < 2 ^ 32" using unsigned_less [of ?l] by simp
  have "unat (9 + ?l) = (9 + unat ?l) mod 2 ^ 32" by (simp add: unat_word_ariths)
  also have "\<dots> = 9 + unat ?l - 2 ^ 32" using assms(3) l by (simp add: mod_if)
  finally have up: "unat (9 + ?l) < 9" using l by simp
  have "\<not> (of_nat (length b) :: 32 word) < 9 + ?l"
    unfolding word_less_nat_alt using up assms(1) unat_small [OF assms(2)] by (simp add: HeaderSize_def)
  moreover have "\<not> end_header (parse_header b)" using assms(3) by (auto simp: end_header_def)
  ultimately show ?thesis using up assms(1) by (simp add: NextPacket_def Let_def HeaderSize_def)
qed

text \<open>asking the packer for a header and then for the packet gives the buffered packet, its header
  first, and leaves the stream alone.\<close>

theorem packer_header_then_packet:
  assumes "pending k = None" and "sendable p" and "length (frame p @ rest) < 2 ^ 32" and "decoder k = frame p @ rest"
    and "PackerNextHeader k = (h, k1)" and "PackerNextPacket k1 = (r, k2)"
  shows "h = Inr (header_of p) \<and> r = Inr p \<and> decoder k2 = rest \<and> stream k2 = stream k"
  using assms(1,4,5,6) NextPacket_frame [OF assms(2,3)]
  by (auto simp: PackerNextHeader_def PackerNextPacket_def)

text \<open>when the decoder has no data, the packer takes the header from the stream and forgets it: the
  next packet is parsed from the body.\<close>

theorem packer_forgets_header:
  assumes "pending k = None" and "sendable p" and "decoder k = []" and "stream k = frame p @ rest"
    and "PackerNextHeader k = (h, k1)" and "PackerNextPacket k1 = (r, k2)"
  shows "h = Inr (header_of p) \<and> (r, stream k2) = ReadPacket (Body p @ rest)"
proof -
  have n: "NextPacket [] = (Inl NeedInput, [])" by (simp add: NextPacket_def HeaderSize_def)
  have rh: "ReadHeader (frame p @ rest) = (Inr (header_of p), Body p @ rest)"
    using assms(2) by (simp add: ReadHeader_def parse_header_frame drop_frame not_end length_frame frame_not_Nil del: drop_append)
  have k1: "h = Inr (header_of p)" "k1 = k\<lparr>decoder := [], stream := Body p @ rest\<rparr>"
    using assms(1,3,4,5) n rh by (simp_all add: PackerNextHeader_def)
  obtain r' s where "ReadPacket (Body p @ rest) = (r', s)" by fastforce
  then show ?thesis using assms(1,6) n k1 by (auto simp: PackerNextPacket_def)
qed

section \<open>Applications\<close>

definition demo_packet :: Packet where "demo_packet = \<lparr>Flag = 2, Req = 1, Body = [7, 8]\<rparr>"

lemma demo_sendable: "sendable demo_packet"
  by (simp add: sendable_def demo_packet_def maxBufferSize_def)

theorem packet_stream_round_trip_witness:
  "pkt.dec_n 2 () (concat (map frame [demo_packet, demo_packet]) @ [5]) = Some ([demo_packet, demo_packet], [5], ())"
  using packet_stream_round_trip [of "[demo_packet, demo_packet]" "[5]"] demo_sendable by (auto simp: numeral_2_eq_2)

theorem decoder_incremental_witness:
  "NextPacket (frame demo_packet @ [5]) = (Inr demo_packet, [5])"
  using decoder_incremental [OF demo_sendable, of "[5]"] by (simp add: length_frame HeaderSize_def demo_packet_def)

theorem decoder_length_wraps_witness:
  "NextPacket [1, 255, 255, 255, 255, 0, 0, 0, 0] = (Inl CodecPanic, [1, 255, 255, 255, 255, 0, 0, 0, 0])"
proof (rule decoder_length_wraps)
  have "Uint32 [255, 255, 255, 255] = 0xFFFFFFFF" by code_simp
  then show "2 ^ 32 - 9 \<le> unat (HLen (parse_header [1, 255, 255, 255, 255, 0, 0, 0, 0]))"
    by (simp add: parse_header_def)
qed (simp_all add: HeaderSize_def)


definition demo_packer :: "bytes \<Rightarrow> bytes \<Rightarrow> Packer" where
  "demo_packer d s = \<lparr>decoder = d, stream = s, pending = None\<rparr>"

theorem packer_header_then_packet_witness:
  "fst (PackerNextPacket (snd (PackerNextHeader (demo_packer (frame demo_packet) [])))) = Inr demo_packet"
  using packer_header_then_packet [of "demo_packer (frame demo_packet) []" demo_packet "[]",
      OF _ demo_sendable _ _ prod.collapse [symmetric] prod.collapse [symmetric]]
  by (simp add: demo_packer_def length_frame HeaderSize_def demo_packet_def)

theorem packer_forgets_header_witness:
  "fst (PackerNextPacket (snd (PackerNextHeader (demo_packer [] (frame demo_packet))))) = Inl HeaderReadFailed"
  using packer_forgets_header [of "demo_packer [] (frame demo_packet)" demo_packet "[]",
      OF _ demo_sendable _ _ prod.collapse [symmetric] prod.collapse [symmetric]]
  by (simp add: demo_packer_def demo_packet_def ReadPacket_def ReadHeader_def HeaderSize_def)

end
