(* ===== verification/Boxstream.thy ===== *)
theory Boxstream
  imports PacketCodec
begin

text \<open>
  \<open>internal/ssb/secretstream/boxstream/boxstream.go\<close>: messages of at most 4096 bytes, each
  sent as an encrypted header (length and tag of the body) and an encrypted body, with a
  nonce that both sides count up. \<open>secretbox\<close> is a library: \<open>seal\<close> and \<open>opn\<close> are arguments.
\<close>

section \<open>Nonces and frames\<close>

text \<open>\<open>incrementNonce\<close> on the reversed bytes: the last byte first, with carry.\<close>

fun inc_rev :: "bytes \<Rightarrow> bytes" where
  "inc_rev [] = []"
| "inc_rev (b # bs) = (if b \<noteq> 0xFF then (b + 1) # bs else 0 # inc_rev bs)"

definition incrementNonce :: "bytes \<Rightarrow> bytes" where
  "incrementNonce n = rev (inc_rev (rev n))"

definition HeaderLength :: nat where "HeaderLength = 34"
definition MaxSegmentSize :: nat where "MaxSegmentSize = 4096"
definition Overhead :: nat where "Overhead = 16"
definition goodbye :: bytes where "goodbye = replicate 18 0"

type_synonym sealer = "bytes \<Rightarrow> bytes \<Rightarrow> bytes \<Rightarrow> bytes"
type_synonym opener = "bytes \<Rightarrow> bytes \<Rightarrow> bytes \<Rightarrow> bytes option"

datatype box_error = SegmentTooLarge | InvalidHeader | MessageTooLarge | DecryptionFailed | BoxEOF

definition PutUint16 :: "nat \<Rightarrow> bytes" where
  "PutUint16 n = [of_nat (n div 256), of_nat n]"

definition Uint16 :: "bytes \<Rightarrow> nat" where
  "Uint16 b = unat (b ! 0) * 256 + unat (b ! 1)"

lemma Uint16_PutUint16: "n < 65536 \<Longrightarrow> Uint16 (PutUint16 n @ r) = n"
  by (simp add: Uint16_def PutUint16_def unat_of_nat)

section \<open>Sending\<close>

definition EncryptMessage :: "sealer \<Rightarrow> bytes \<Rightarrow> bytes \<Rightarrow> bytes \<Rightarrow> (box_error + bytes) \<times> bytes" where
  "EncryptMessage seal secret nonce msg =
     (if length msg > MaxSegmentSize then (Inl SegmentTooLarge, nonce)
      else let headerNonce = nonce; bodyNonce = incrementNonce nonce;
               bodyBox = seal bodyNonce secret msg;
               header = PutUint16 (length msg) @ take Overhead bodyBox;
               headerBox = seal headerNonce secret header
           in (Inr (headerBox @ drop Overhead bodyBox), incrementNonce bodyNonce))"

definition EncryptGoodbye :: "sealer \<Rightarrow> bytes \<Rightarrow> bytes \<Rightarrow> bytes" where
  "EncryptGoodbye seal secret nonce = seal nonce secret goodbye"

text \<open>
  \<open>Boxer\<close>: \<open>wr\<close> is the underlying \<open>io.Writer\<close>, a step on its own state that may report an error;
  the engine has already moved its nonce when it does.
\<close>

type_synonym 'w writer = "bytes \<Rightarrow> 'w \<Rightarrow> box_error option \<times> 'w"

record 'w Boxer =
  b_secret :: bytes
  b_nonce :: bytes
  b_w :: 'w

definition NewBoxer :: "'w \<Rightarrow> bytes \<Rightarrow> bytes \<Rightarrow> 'w Boxer" where
  "NewBoxer w nonce secret = \<lparr>b_secret = secret, b_nonce = nonce, b_w = w\<rparr>"

definition WriteMessage :: "'w writer \<Rightarrow> sealer \<Rightarrow> bytes \<Rightarrow> 'w Boxer \<Rightarrow> box_error option \<times> 'w Boxer" where
  "WriteMessage wr seal msg b =
     (case EncryptMessage seal (b_secret b) (b_nonce b) msg of
        (Inl e, n) \<Rightarrow> (Some e, b\<lparr>b_nonce := n\<rparr>)
      | (Inr out, n) \<Rightarrow> (case wr out (b_w b) of (e, w) \<Rightarrow> (e, b\<lparr>b_nonce := n, b_w := w\<rparr>)))"

definition WriteGoodbye :: "'w writer \<Rightarrow> sealer \<Rightarrow> 'w Boxer \<Rightarrow> box_error option \<times> 'w Boxer" where
  "WriteGoodbye wr seal b =
     (case wr (EncryptGoodbye seal (b_secret b) (b_nonce b)) (b_w b) of (e, w) \<Rightarrow> (e, b\<lparr>b_w := w\<rparr>))"

text \<open>The loop of \<open>Write\<close>: \<open>p\<close> is what is left after \<open>written\<close> bytes.\<close>

function write_loop :: "'w writer \<Rightarrow> sealer \<Rightarrow> bytes \<Rightarrow> nat \<Rightarrow> 'w Boxer \<Rightarrow> (nat \<times> box_error option) \<times> 'w Boxer" where
  "write_loop wr seal p written b =
     (if p = [] then ((written, None), b)
      else let chunk = take MaxSegmentSize p
           in case WriteMessage wr seal chunk b of
                (Some e, b') \<Rightarrow> ((written, Some e), b')
              | (None, b') \<Rightarrow> write_loop wr seal (drop MaxSegmentSize p) (written + length chunk) b')"
  by pat_completeness auto
termination by (relation "measure (\<lambda>(_, _, p, _, _). length p)") (auto simp: MaxSegmentSize_def)

declare write_loop.simps [simp del]

definition Write :: "'w writer \<Rightarrow> sealer \<Rightarrow> bytes \<Rightarrow> 'w Boxer \<Rightarrow> (nat \<times> box_error option) \<times> 'w Boxer" where
  "Write wr seal p b =
     (if length p > MaxSegmentSize then write_loop wr seal p 0 b
      else case WriteMessage wr seal p b of
             (Some e, b') \<Rightarrow> ((0, Some e), b')
           | (None, b') \<Rightarrow> ((length p, None), b'))"

section \<open>Receiving\<close>

record Unboxer =
  u_secret :: bytes
  u_nonce :: bytes
  u_buffer :: bytes

definition AddBoxData :: "bytes \<Rightarrow> Unboxer \<Rightarrow> Unboxer" where
  "AddBoxData p u = u\<lparr>u_buffer := u_buffer u @ p\<rparr>"

text \<open>
  \<open>NextMessage\<close>: \<open>Inr None\<close> is the \<open>nil\<close> message, which means that more data is needed (and
  which an empty body also yields).
\<close>

definition NextMessage :: "opener \<Rightarrow> Unboxer \<Rightarrow> (box_error + bytes option) \<times> Unboxer" where
  "NextMessage opn u =
     (if length (u_buffer u) < HeaderLength then (Inr None, u)
      else case opn (u_nonce u) (u_secret u) (take HeaderLength (u_buffer u)) of
        None \<Rightarrow> (Inl InvalidHeader, u)
      | Some header \<Rightarrow>
         (let u1 = u\<lparr>u_nonce := incrementNonce (u_nonce u)\<rparr>
          in if header = goodbye then (Inr (Some header), u1\<lparr>u_buffer := drop HeaderLength (u_buffer u)\<rparr>)
             else let bodyLen = Uint16 header
                  in if bodyLen > MaxSegmentSize then (Inl MessageTooLarge, u1)
                     else if length (u_buffer u) < HeaderLength + bodyLen then (Inr None, u1)
                     else case opn (u_nonce u1) (u_secret u) (take 16 (drop 2 header) @ take bodyLen (drop HeaderLength (u_buffer u))) of
                        None \<Rightarrow> (Inl DecryptionFailed, u1)
                      | Some body \<Rightarrow>
                         (Inr (if body = [] then None else Some body),
                          u1\<lparr>u_nonce := incrementNonce (u_nonce u1), u_buffer := drop (HeaderLength + bodyLen) (u_buffer u)\<rparr>)))"

text \<open>\<open>ReadMessage\<close> with the chunks that the connection's \<open>Read\<close> returns, one per call.\<close>

fun read_loop :: "opener \<Rightarrow> bytes list \<Rightarrow> Unboxer \<Rightarrow> (box_error + bytes) \<times> bytes list \<times> Unboxer" where
  "read_loop opn [] u = (Inl BoxEOF, [], u)"
| "read_loop opn (c # cs) u =
     (if c = [] then read_loop opn cs u
      else case NextMessage opn (AddBoxData c u) of
        (Inl e, u') \<Rightarrow> (Inl e, cs, u')
      | (Inr (Some m), u') \<Rightarrow> (Inr m, cs, u')
      | (Inr None, u') \<Rightarrow> read_loop opn cs u')"

definition ReadMessage :: "opener \<Rightarrow> bytes list \<Rightarrow> Unboxer \<Rightarrow> (box_error + bytes) \<times> bytes list \<times> Unboxer" where
  "ReadMessage opn chunks u =
     (case NextMessage opn u of
        (Inl e, u') \<Rightarrow> (Inl e, chunks, u')
      | (Inr (Some m), u') \<Rightarrow> (Inr m, chunks, u')
      | (Inr None, u') \<Rightarrow> read_loop opn chunks u')"

text \<open>\<open>Read\<close> into a slice of \<open>n\<close> bytes: what is left of the last message first.\<close>

definition Read :: "opener \<Rightarrow> nat \<Rightarrow> bytes list \<Rightarrow> bytes \<Rightarrow> Unboxer \<Rightarrow>
    (box_error + bytes) \<times> bytes list \<times> bytes \<times> Unboxer" where
  "Read opn n chunks leftover u =
     (if leftover \<noteq> [] then (Inr (take n leftover), chunks, drop n leftover, u)
      else case ReadMessage opn chunks u of
             (Inl e, cs, u') \<Rightarrow> (Inl e, cs, leftover, u')
           | (Inr m, cs, u') \<Rightarrow> (Inr (take n m), cs, drop n m, u'))"

section \<open>Round trip\<close>

text \<open>What the library promises: a box opens to what was sealed, and is 16 bytes longer.\<close>

definition secretbox :: "sealer \<Rightarrow> opener \<Rightarrow> bool" where
  "secretbox seal opn \<longleftrightarrow> (\<forall>n k m. opn n k (seal n k m) = Some m \<and> length (seal n k m) = length m + Overhead)"

definition box_frame :: "sealer \<Rightarrow> bytes \<Rightarrow> bytes \<Rightarrow> bytes \<Rightarrow> bytes" where
  "box_frame seal secret nonce msg =
     seal nonce secret (PutUint16 (length msg) @ take Overhead (seal (incrementNonce nonce) secret msg)) @
     drop Overhead (seal (incrementNonce nonce) secret msg)"

definition box_step :: "bytes \<Rightarrow> bytes" where
  "box_step nonce = incrementNonce (incrementNonce nonce)"

lemma EncryptMessage_frame:
  "length m \<le> MaxSegmentSize \<Longrightarrow> EncryptMessage seal secret nonce m = (Inr (box_frame seal secret nonce m), box_step nonce)"
  by (simp add: EncryptMessage_def box_frame_def box_step_def Let_def)

lemma NextMessage_frame:
  assumes "secretbox seal opn" and "m \<noteq> []" and "length m \<le> MaxSegmentSize"
  shows "NextMessage opn \<lparr>u_secret = k, u_nonce = n, u_buffer = box_frame seal k n m @ rest\<rparr> =
     (Inr (Some m), \<lparr>u_secret = k, u_nonce = box_step n, u_buffer = rest\<rparr>)"
proof -
  let ?bb = "seal (incrementNonce n) k m"
  let ?h = "PutUint16 (length m) @ take Overhead ?bb"
  have lb: "length ?bb = length m + Overhead" and ob: "opn (incrementNonce n) k ?bb = Some m"
    and oh: "opn n k (seal n k ?h) = Some ?h"
    using assms(1) by (auto simp: secretbox_def)
  have lh: "length (seal n k ?h) = HeaderLength"
    using assms(1) lb by (simp add: secretbox_def PutUint16_def HeaderLength_def Overhead_def)
  have f: "box_frame seal k n m @ rest = seal n k ?h @ (drop Overhead ?bb @ rest)" by (simp add: box_frame_def)
  have t: "take HeaderLength (box_frame seal k n m @ rest) = seal n k ?h"
    "drop HeaderLength (box_frame seal k n m @ rest) = drop Overhead ?bb @ rest"
    unfolding f using lh by simp_all
  have u: "Uint16 ?h = length m" using assms(3) by (intro Uint16_PutUint16) (simp add: MaxSegmentSize_def)
  have g: "?h \<noteq> goodbye"
  proof
    assume "?h = goodbye"
    then have "Uint16 ?h = 0" by (simp add: Uint16_def goodbye_def)
    with u assms(2) show False by simp
  qed
  have h2: "take 16 (drop 2 ?h) = take Overhead ?bb" by (simp add: PutUint16_def Overhead_def)
  have body: "take Overhead ?bb @ take (length m) (drop Overhead ?bb @ rest) = ?bb" using lb by simp
  have d: "drop (HeaderLength + length m) (box_frame seal k n m @ rest) = rest"
    using t(2) lb by (metis add.commute append_eq_conv_conj drop_drop length_drop add_diff_cancel_right')
  have len: "\<not> length (box_frame seal k n m @ rest) < HeaderLength + length m"
    unfolding f using lh lb by simp
  show ?thesis
    unfolding NextMessage_def Let_def
    using t u g oh h2 body ob d len assms(2,3) by (simp add: box_step_def)
qed

interpretation bx: framed_codec "\<lambda>n m. (box_frame seal k n m, box_step n)"
    "\<lambda>n b. case NextMessage opn \<lparr>u_secret = k, u_nonce = n, u_buffer = b\<rparr> of
       (Inr (Some m), u) \<Rightarrow> Some (m, u_buffer u, u_nonce u) | _ \<Rightarrow> None"
    "\<lambda>m. secretbox seal opn \<and> m \<noteq> [] \<and> length m \<le> MaxSegmentSize" for seal opn k
  by unfold_locales (auto simp: NextMessage_frame)


section \<open>Draining a buffer\<close>

lemma NextMessage_shrinks:
  "NextMessage opn u = (Inr (Some m), u') \<Longrightarrow> length (u_buffer u') < length (u_buffer u)"
  by (auto simp: NextMessage_def HeaderLength_def Let_def split: if_splits option.splits)

text \<open>The messages that repeated \<open>NextMessage\<close> calls take from the buffer.\<close>

function drain :: "opener \<Rightarrow> Unboxer \<Rightarrow> bytes list \<times> Unboxer" where
  "drain opn u =
     (case NextMessage opn u of
        (Inr (Some m), u') \<Rightarrow> (case drain opn u' of (ms, u'') \<Rightarrow> (m # ms, u''))
      | (_, u') \<Rightarrow> ([], u'))"
  by pat_completeness auto
termination
  by (relation "measure (\<lambda>(_, u). length (u_buffer u))") (auto dest!: NextMessage_shrinks [OF sym])

declare drain.simps [simp del]

lemma NextMessage_secret: "NextMessage opn u = (r, u') \<Longrightarrow> u_secret u' = u_secret u"
  by (auto simp: NextMessage_def Let_def split: if_splits option.splits)

lemma drain_dec_n:
  "bx.dec_n opn k (length ms) n b = Some (ms, [], n') \<Longrightarrow>
   drain opn \<lparr>u_secret = k, u_nonce = n, u_buffer = b\<rparr> = (ms, \<lparr>u_secret = k, u_nonce = n', u_buffer = []\<rparr>)"
proof (induction ms arbitrary: n b)
  case Nil
  then have "b = []" "n' = n" by simp_all
  then show ?case by (simp add: drain.simps NextMessage_def HeaderLength_def)
next
  case (Cons m ms)
  obtain r u where nm: "NextMessage opn \<lparr>u_secret = k, u_nonce = n, u_buffer = b\<rparr> = (r, u)" by fastforce
  have r: "r = Inr (Some m)" and rest: "bx.dec_n opn k (length ms) (u_nonce u) (u_buffer u) = Some (ms, [], n')"
    using Cons.prems nm by (auto split: sum.splits option.splits)
  have u: "u = \<lparr>u_secret = k, u_nonce = u_nonce u, u_buffer = u_buffer u\<rparr>"
    using NextMessage_secret [OF nm] by simp
  have "drain opn u = (ms, \<lparr>u_secret = k, u_nonce = n', u_buffer = []\<rparr>)" using Cons.IH [OF rest] u by metis
  with nm r show ?case by (simp add: drain.simps [of _ "\<lparr>u_secret = k, u_nonce = n, u_buffer = b\<rparr>"])
qed

text \<open>\<open>bytes.Buffer\<close>: a writer that never fails.\<close>

definition buffer_write :: "bytes writer" where "buffer_write out w = (None, w @ out)"

text \<open>The segments that \<open>Write\<close> cuts its argument into.\<close>

function segments :: "bytes \<Rightarrow> bytes list" where
  "segments p = (if p = [] then [] else take MaxSegmentSize p # segments (drop MaxSegmentSize p))"
  by pat_completeness auto
termination by (relation "measure length") (auto simp: MaxSegmentSize_def)

declare segments.simps [simp del]

lemma concat_segments: "concat (segments p) = p"
  by (induction p rule: segments.induct) (subst segments.simps, simp)

lemma segments_fit: "m \<in> set (segments p) \<Longrightarrow> m \<noteq> [] \<and> length m \<le> MaxSegmentSize"
proof (induction p rule: segments.induct)
  case (1 p)
  from "1.prems" have "p \<noteq> [] \<and> (m = take MaxSegmentSize p \<or> m \<in> set (segments (drop MaxSegmentSize p)))"
    by (subst (asm) segments.simps) (auto split: if_splits)
  with "1.IH" show ?case by (auto simp: MaxSegmentSize_def)
qed

lemma WriteMessage_buffer:
  "length m \<le> MaxSegmentSize \<Longrightarrow> WriteMessage buffer_write seal m b =
   (None, b\<lparr>b_nonce := box_step (b_nonce b), b_w := b_w b @ box_frame seal (b_secret b) (b_nonce b) m\<rparr>)"
  by (simp add: WriteMessage_def EncryptMessage_frame buffer_write_def)

lemma write_loop_buffer:
  "bx.enc_all seal (b_secret b) (b_nonce b) (segments p) = (f, n') \<Longrightarrow>
   write_loop buffer_write seal p w b = ((w + length p, None), b\<lparr>b_nonce := n', b_w := b_w b @ f\<rparr>)"
proof (induction p arbitrary: w b f rule: segments.induct)
  case (1 p)
  show ?case
  proof (cases "p = []")
    case True
    with "1.prems" show ?thesis by (simp add: write_loop.simps segments.simps)
  next
    case False
    define b1 where "b1 = b\<lparr>b_nonce := box_step (b_nonce b), b_w := b_w b @ box_frame seal (b_secret b) (b_nonce b) (take MaxSegmentSize p)\<rparr>"
    obtain g where g: "bx.enc_all seal (b_secret b1) (b_nonce b1) (segments (drop MaxSegmentSize p)) = (g, n')"
      and f: "f = box_frame seal (b_secret b) (b_nonce b) (take MaxSegmentSize p) @ g"
      using "1.prems" False by (subst (asm) segments.simps) (auto simp: b1_def split: prod.splits)
    have w: "WriteMessage buffer_write seal (take MaxSegmentSize p) b = (None, b1)"
      by (simp add: WriteMessage_buffer b1_def)
    show ?thesis
      using "1.IH" [OF False g] False w f
      by (subst write_loop.simps) (simp add: b1_def min_def)
  qed
qed

lemma Write_buffer:
  assumes "p \<noteq> []" and "bx.enc_all seal (b_secret b) (b_nonce b) (segments p) = (f, n')"
  shows "Write buffer_write seal p b = ((length p, None), b\<lparr>b_nonce := n', b_w := b_w b @ f\<rparr>)"
proof (cases "length p > MaxSegmentSize")
  case True
  then show ?thesis using write_loop_buffer [OF assms(2), of 0] by (simp add: Write_def)
next
  case False
  then have "segments p = [p]" using assms(1) by (simp add: segments.simps)
  with False assms(2) show ?thesis by (auto simp: Write_def WriteMessage_buffer)
qed

lemma Write_drain:
  assumes "secretbox seal opn" and "p \<noteq> []"
    and "Write buffer_write seal p (NewBoxer [] nonce secret) = (res, b)"
  shows "res = (length p, None) \<and>
    drain opn \<lparr>u_secret = secret, u_nonce = nonce, u_buffer = b_w b\<rparr> =
      (segments p, \<lparr>u_secret = secret, u_nonce = b_nonce b, u_buffer = []\<rparr>) \<and>
    concat (segments p) = p"
proof -
  obtain f n' where e: "bx.enc_all seal secret nonce (segments p) = (f, n')" by fastforce
  have w: "Write buffer_write seal p (NewBoxer [] nonce secret) = ((length p, None), \<lparr>b_secret = secret, b_nonce = n', b_w = f\<rparr>)"
    using Write_buffer [of p seal "NewBoxer [] nonce secret" f n'] assms(2) e by (simp add: NewBoxer_def)
  have "bx.dec_n opn secret (length (segments p)) nonce (f @ []) = Some (segments p, [], n')"
    using assms(1) segments_fit by (intro bx.dec_enc_all [OF _ e]) blast
  from drain_dec_n [OF this [unfolded append_Nil2]] show ?thesis
    using assms(3) w by (auto simp: concat_segments)
qed

text \<open>a byte string written to the box stream is cut into segments of at most 4096 bytes, all
  of it is reported as written, and a receiver that starts with the same key and nonce and has
  the whole ciphertext in its buffer takes out exactly those segments in order, whose
  concatenation is what was written; both sides end with the same nonce.
\<close>

theorem boxstream_round_trip:
  assumes "secretbox seal opn" and "p \<noteq> []"
    and "Write buffer_write seal p (NewBoxer [] nonce secret) = (res, b)"
  shows "res = (length p, None) \<and>
    drain opn \<lparr>u_secret = secret, u_nonce = nonce, u_buffer = b_w b\<rparr> =
      (segments p, \<lparr>u_secret = secret, u_nonce = b_nonce b, u_buffer = []\<rparr>) \<and>
    concat (segments p) = p"
  using assms by (rule Write_drain)

section \<open>Bodies that arrive in parts\<close>

lemma box_frame_length:
  "secretbox seal opn \<Longrightarrow> length (box_frame seal k n m) = HeaderLength + length m"
  by (simp add: secretbox_def box_frame_def PutUint16_def HeaderLength_def Overhead_def)

lemma NextMessage_partial:
  assumes "secretbox seal opn" and "m \<noteq> []" and "length m \<le> MaxSegmentSize"
    and "HeaderLength \<le> j" and "j < HeaderLength + length m"
  shows "NextMessage opn \<lparr>u_secret = k, u_nonce = n, u_buffer = take j (box_frame seal k n m)\<rparr> =
     (Inr None, \<lparr>u_secret = k, u_nonce = incrementNonce n, u_buffer = take j (box_frame seal k n m)\<rparr>)"
proof -
  let ?h = "PutUint16 (length m) @ take Overhead (seal (incrementNonce n) k m)"
  have oh: "opn n k (seal n k ?h) = Some ?h" using assms(1) by (simp add: secretbox_def)
  have "length (seal n k ?h) = HeaderLength"
    using assms(1) by (simp add: secretbox_def PutUint16_def HeaderLength_def Overhead_def)
  then have t: "take HeaderLength (take j (box_frame seal k n m)) = seal n k ?h"
    using assms(4) by (simp add: box_frame_def min_def)
  have u: "Uint16 ?h = length m" using assms(3) by (intro Uint16_PutUint16) (simp add: MaxSegmentSize_def)
  have g: "?h \<noteq> goodbye" using u assms(2) by (auto simp: Uint16_def goodbye_def)
  have l: "length (take j (box_frame seal k n m)) = j" using box_frame_length [OF assms(1)] assms(5) by simp
  show ?thesis
    unfolding NextMessage_def Let_def using t u g oh l assms(3-5) by simp
qed

lemma read_loop_desynced:
  assumes "opn n' k hdr = None" and "length hdr = HeaderLength" and "concat cs \<noteq> []"
  shows "fst (read_loop opn cs \<lparr>u_secret = k, u_nonce = n', u_buffer = hdr @ pre\<rparr>) = Inl InvalidHeader"
  using assms(3)
proof (induction cs)
  case (Cons c cs)
  have "NextMessage opn \<lparr>u_secret = k, u_nonce = n', u_buffer = hdr @ pre @ c\<rparr> =
    (Inl InvalidHeader, \<lparr>u_secret = k, u_nonce = n', u_buffer = hdr @ pre @ c\<rparr>)"
    using assms(1,2) by (simp add: NextMessage_def)
  then show ?case using Cons by (simp add: AddBoxData_def)
qed simp

lemma read_loop_full_segment:
  assumes "secretbox seal opn" and "length m = MaxSegmentSize"
    and "opn (incrementNonce n) k (take HeaderLength (box_frame seal k n m)) = None"
  shows "pre @ concat cs = box_frame seal k n m @ rest \<Longrightarrow> length pre < HeaderLength \<Longrightarrow>
    \<forall>c \<in> set cs. length c \<le> MaxSegmentSize \<Longrightarrow>
    fst (read_loop opn cs \<lparr>u_secret = k, u_nonce = n, u_buffer = pre\<rparr>) = Inl InvalidHeader"
proof (induction cs arbitrary: pre)
  case Nil
  then show ?case using arg_cong [OF Nil(1), of length] box_frame_length [OF assms(1)] by simp
next
  case (Cons c cs)
  let ?f = "box_frame seal k n m"
  note lf = box_frame_length [OF assms(1), of k n m]
  consider "c = []" | "c \<noteq> []" "length (pre @ c) < HeaderLength" | "c \<noteq> []" "HeaderLength \<le> length (pre @ c)"
    by fastforce
  then show ?case
  proof cases
    case 1
    then show ?thesis using Cons by simp
  next
    case 2
    then have "NextMessage opn \<lparr>u_secret = k, u_nonce = n, u_buffer = pre @ c\<rparr> =
        (Inr None, \<lparr>u_secret = k, u_nonce = n, u_buffer = pre @ c\<rparr>)"
      by (simp add: NextMessage_def)
    then show ?thesis using Cons.IH [of "pre @ c"] Cons.prems 2 by (simp add: AddBoxData_def)
  next
    case 3
    let ?j = "length (pre @ c)"
    have j: "?j < HeaderLength + length m" using Cons.prems(2,3) assms(2) by simp
    have "pre @ c = take ?j (?f @ rest)"
      using Cons.prems(1) by (metis append_eq_conv_conj append.assoc concat.simps(2))
    then have pc: "pre @ c = take ?j ?f" using j lf by simp
    have m0: "m \<noteq> []" using assms(2) by (auto simp: MaxSegmentSize_def)
    have nm: "NextMessage opn \<lparr>u_secret = k, u_nonce = n, u_buffer = pre @ c\<rparr> =
        (Inr None, \<lparr>u_secret = k, u_nonce = incrementNonce n, u_buffer = pre @ c\<rparr>)"
      using NextMessage_partial [OF assms(1) _ _ 3(2) j, of k n] m0 assms(2)
      unfolding pc [symmetric] by simp
    have split: "pre @ c = take HeaderLength ?f @ drop HeaderLength (pre @ c)"
      using pc 3(2) by (metis append_take_drop_id min.absorb1 take_take)
    have "length (pre @ c) + length (concat cs) = length ?f + length rest"
      using arg_cong [OF Cons.prems(1), of length] by simp
    with j lf have "0 < length (concat cs)" by linarith
    then have "concat cs \<noteq> []" by (metis length_greater_0_conv)
    with read_loop_desynced [where opn = opn and cs = cs and pre = "drop HeaderLength (pre @ c)", OF assms(3)] split lf
    have "fst (read_loop opn cs \<lparr>u_secret = k, u_nonce = incrementNonce n, u_buffer = pre @ c\<rparr>) = Inl InvalidHeader"
      by (metis le_add1 length_take min.absorb2)
    then show ?thesis using nm 3 by (simp add: AddBoxData_def)
  qed
qed

text \<open>a segment of the full 4096 bytes, which is what \<open>Write\<close> sends for every longer argument,
  never arrives through \<open>ReadMessage\<close>. Its frame has 4130 bytes and the loop reads at most 4096
  bytes at a time, so some call of \<open>NextMessage\<close> sees the header without the whole body; that
  call advances the nonce and leaves the header in the buffer, and the next call tries the
  header again under the wrong nonce. However the transport cuts the stream, the result is
  ``invalid header''; the last hypothesis says that the header does not authenticate under the
  following nonce.
\<close>

theorem full_segment_rejected:
  assumes "secretbox seal opn" and "length m = MaxSegmentSize"
    and "concat chunks = box_frame seal secret nonce m @ rest"
    and "\<forall>c \<in> set chunks. length c \<le> MaxSegmentSize"
    and "opn (incrementNonce nonce) secret (take HeaderLength (box_frame seal secret nonce m)) = None"
  shows "fst (ReadMessage opn chunks \<lparr>u_secret = secret, u_nonce = nonce, u_buffer = []\<rparr>) = Inl InvalidHeader"
proof -
  have "NextMessage opn \<lparr>u_secret = secret, u_nonce = nonce, u_buffer = []\<rparr> =
      (Inr None, \<lparr>u_secret = secret, u_nonce = nonce, u_buffer = []\<rparr>)"
    by (simp add: NextMessage_def HeaderLength_def)
  then show ?thesis
    using read_loop_full_segment [OF assms(1,2,5), of "[]" chunks rest] assms(3,4)
    by (simp add: ReadMessage_def HeaderLength_def)
qed

section \<open>Witnesses\<close>

text \<open>A secretbox whose tag is the last byte of the nonce, for the concrete instances.\<close>

definition toy_tag :: "bytes \<Rightarrow> bytes" where "toy_tag n = replicate 15 0 @ [last (0 # n)]"
definition toy_seal :: sealer where "toy_seal n k m = toy_tag n @ m"
definition toy_open :: opener where
  "toy_open n k b = (if take 16 b = toy_tag n then Some (drop 16 b) else None)"

lemma toy_secretbox: "secretbox toy_seal toy_open"
  by (simp add: secretbox_def toy_seal_def toy_open_def toy_tag_def Overhead_def)

theorem boxstream_round_trip_witness:
  "drain toy_open \<lparr>u_secret = [7], u_nonce = [0, 0], u_buffer = b_w (snd (Write buffer_write toy_seal [1, 2, 3] (NewBoxer [] [0, 0] [7])))\<rparr> =
   ([[1, 2, 3]], \<lparr>u_secret = [7], u_nonce = [0, 2], u_buffer = []\<rparr>)"
proof -
  have w: "Write buffer_write toy_seal [1, 2, 3] (NewBoxer [] [0, 0] [7]) =
      ((3, None), snd (Write buffer_write toy_seal [1, 2, 3] (NewBoxer [] [0, 0] [7])))"
    and n: "b_nonce (snd (Write buffer_write toy_seal [1, 2, 3] (NewBoxer [] [0, 0] [7]))) = [0, 2]"
    by code_simp+
  have s: "segments [1, 2, 3] = [[1, 2, 3]]" by code_simp
  show ?thesis
    using boxstream_round_trip [OF toy_secretbox, of "[1, 2, 3]" "[0, 0]" "[7]"] w n s by (metis list.distinct(1))
qed

theorem full_segment_rejected_witness:
  "fst (ReadMessage toy_open
     [take 4096 (box_frame toy_seal [7] [0, 0] (replicate 4096 1)), drop 4096 (box_frame toy_seal [7] [0, 0] (replicate 4096 1))]
     \<lparr>u_secret = [7], u_nonce = [0, 0], u_buffer = []\<rparr>) = Inl InvalidHeader"
  (is "fst (ReadMessage _ [take _ ?f, drop _ ?f] _) = _")
proof -
  have l: "length ?f = 4130" by (simp add: box_frame_length [OF toy_secretbox] HeaderLength_def)
  have t: "take 16 (take HeaderLength ?f) = toy_tag [0, 0]"
    by (simp add: box_frame_def toy_seal_def HeaderLength_def toy_tag_def)
  have "toy_open (incrementNonce [0, 0]) [7] (take HeaderLength ?f) = None"
    unfolding toy_open_def t by (simp add: toy_tag_def incrementNonce_def)
  then show ?thesis
    by (intro full_segment_rejected [OF toy_secretbox, where m = "replicate 4096 1" and rest = "[]"])
      (simp_all add: MaxSegmentSize_def l)
qed

end
