(* ===== verification/Roomstate.thy ===== *)
theory Roomstate
  imports Go_Prelude
begin

text \<open>
  \<open>internal/ssb/roomstate/roomstate.go\<close>, who is in the room, and the two consumers of its event
  channels in \<open>internal/ssb/muxrpc/handlers/room\<close>: \<open>streamAttendants\<close> and \<open>streamEndpoints\<close>, which
  keep a remote client informed. A feed reference stands for its \<open>String()\<close>, under which the code
  keys all its maps; a channel is a number with the buffer of events it holds.
\<close>

section \<open>State\<close>

record PeerInfo =
  ID :: string
  Addr :: string
  Connected :: nat

record AttendantEvent =
  ae_Type :: string
  ae_ID :: string

definition AttendantEventJoined :: string where "AttendantEventJoined = ''joined''"
definition AttendantEventLeft :: string where "AttendantEventLeft = ''left''"
definition AttendantEventResync :: string where "AttendantEventResync = ''resync''"

record TunnelEvent =
  te_Type :: string
  te_Info :: PeerInfo

record Manager =
  peers :: "(string, PeerInfo) gmap"
  attendants :: "(string, PeerInfo) gmap"
  aliases :: "(string, string list) gmap"
  subscribers :: "(nat, AttendantEvent list) gmap"
  tunnelSubs :: "(nat, TunnelEvent list) gmap"
  next_chan :: nat

definition NewManager :: Manager where
  "NewManager = \<lparr>peers = [], attendants = [], aliases = [], subscribers = [], tunnelSubs = [], next_chan = 0\<rparr>"

definition chan_cap :: nat where "chan_cap = 16"

section \<open>Broadcasts\<close>

text \<open>
  A send that does not block: into the buffer while there is room. For attendants an overflow
  empties the buffer and leaves one resync event in it; for endpoints the event is dropped.
\<close>

definition send_attendant :: "AttendantEvent \<Rightarrow> AttendantEvent list \<Rightarrow> AttendantEvent list" where
  "send_attendant e q =
     (if length q < chan_cap then q @ [e] else [\<lparr>ae_Type = AttendantEventResync, ae_ID = ''''\<rparr>])"

definition broadcastAttendantLocked :: "AttendantEvent \<Rightarrow> Manager \<Rightarrow> Manager" where
  "broadcastAttendantLocked e m = m\<lparr>subscribers := map (\<lambda>(ch, q). (ch, send_attendant e q)) (subscribers m)\<rparr>"

definition send_tunnel :: "TunnelEvent \<Rightarrow> TunnelEvent list \<Rightarrow> TunnelEvent list" where
  "send_tunnel e q = (if length q < chan_cap then q @ [e] else q)"

definition broadcastTunnelLocked :: "TunnelEvent \<Rightarrow> Manager \<Rightarrow> Manager" where
  "broadcastTunnelLocked e m = m\<lparr>tunnelSubs := map (\<lambda>(ch, q). (ch, send_tunnel e q)) (tunnelSubs m)\<rparr>"

section \<open>Operations\<close>

definition AddPeer :: "string \<Rightarrow> string \<Rightarrow> nat \<Rightarrow> Manager \<Rightarrow> Manager" where
  "AddPeer i addr now m =
     (let info = \<lparr>ID = i, Addr = addr, Connected = now\<rparr>
      in broadcastTunnelLocked \<lparr>te_Type = ''joined'', te_Info = info\<rparr> (m\<lparr>peers := gput i info (peers m)\<rparr>))"

definition RemovePeer :: "string \<Rightarrow> Manager \<Rightarrow> Manager" where
  "RemovePeer i m =
     (let m' = m\<lparr>peers := gdel i (peers m)\<rparr>
      in case map_of (peers m) i of
           None \<Rightarrow> m'
         | Some info \<Rightarrow> broadcastTunnelLocked \<lparr>te_Type = ''left'', te_Info = info\<rparr> m')"

definition Peers :: "Manager \<Rightarrow> PeerInfo list" where "Peers m = map snd (peers m)"
definition PeerCount :: "Manager \<Rightarrow> nat" where "PeerCount m = length (peers m)"
definition HasPeer :: "string \<Rightarrow> Manager \<Rightarrow> bool" where "HasPeer i m = ghas i (peers m)"

definition AddAttendant :: "string \<Rightarrow> string \<Rightarrow> nat \<Rightarrow> Manager \<Rightarrow> Manager" where
  "AddAttendant i addr now m =
     (let existed = ghas i (attendants m);
          m' = m\<lparr>attendants := gput i \<lparr>ID = i, Addr = addr, Connected = now\<rparr> (attendants m)\<rparr>
      in if existed then m'
         else broadcastAttendantLocked \<lparr>ae_Type = AttendantEventJoined, ae_ID = i\<rparr> m')"

definition RemoveAttendant :: "string \<Rightarrow> Manager \<Rightarrow> Manager" where
  "RemoveAttendant i m =
     (let existed = ghas i (attendants m);
          m' = m\<lparr>attendants := gdel i (attendants m)\<rparr>
      in if existed then broadcastAttendantLocked \<lparr>ae_Type = AttendantEventLeft, ae_ID = i\<rparr> m' else m')"

definition Attendants :: "Manager \<Rightarrow> PeerInfo list" where "Attendants m = map snd (attendants m)"

definition SubscribeAttendants :: "Manager \<Rightarrow> (PeerInfo list \<times> nat) \<times> Manager" where
  "SubscribeAttendants m =
     ((Attendants m, next_chan m),
      m\<lparr>subscribers := gput (next_chan m) [] (subscribers m), next_chan := next_chan m + 1\<rparr>)"

definition cancelAttendants :: "nat \<Rightarrow> Manager \<Rightarrow> Manager" where
  "cancelAttendants ch m = m\<lparr>subscribers := gdel ch (subscribers m)\<rparr>"

definition SubscribeEndpoints :: "Manager \<Rightarrow> (PeerInfo list \<times> nat) \<times> Manager" where
  "SubscribeEndpoints m =
     ((Peers m, next_chan m),
      m\<lparr>tunnelSubs := gput (next_chan m) [] (tunnelSubs m), next_chan := next_chan m + 1\<rparr>)"

definition cancelEndpoints :: "nat \<Rightarrow> Manager \<Rightarrow> Manager" where
  "cancelEndpoints ch m = m\<lparr>tunnelSubs := gdel ch (tunnelSubs m)\<rparr>"

definition RegisterAlias :: "string \<Rightarrow> string \<Rightarrow> Manager \<Rightarrow> Manager" where
  "RegisterAlias alias owner m =
     m\<lparr>aliases := gput alias ((case map_of (aliases m) alias of None \<Rightarrow> [] | Some os \<Rightarrow> os) @ [owner]) (aliases m)\<rparr>"

definition RevokeAlias :: "string \<Rightarrow> Manager \<Rightarrow> Manager" where
  "RevokeAlias alias m = m\<lparr>aliases := gdel alias (aliases m)\<rparr>"

definition ResolveAlias :: "string \<Rightarrow> Manager \<Rightarrow> string list option" where
  "ResolveAlias alias m = map_of (aliases m) alias"

definition ListAliases :: "Manager \<Rightarrow> (string, string list) gmap" where "ListAliases m = aliases m"
definition AliasCount :: "Manager \<Rightarrow> nat" where "AliasCount m = length (aliases m)"

section \<open>The streams to the clients\<close>

text \<open>
  What a stream writes to its sink: the list of ids, or one event. \<open>streamAttendants\<close> leaves the
  bridge's own feed out; on a resync event it reads the current attendants and sends them. One
  step of a stream takes an event off its channel and writes the message; for a resync the
  step is at the moment the attendants are read.
\<close>

datatype sink_msg = StateMsg "string list" | EventMsg string string | EndpointMsg string string string

definition state_msg :: "string \<Rightarrow> PeerInfo list \<Rightarrow> sink_msg" where
  "state_msg bridgeFeed ps = StateMsg (filter (\<lambda>i. i \<noteq> bridgeFeed) (map ID ps))"

definition attendant_msgs :: "string \<Rightarrow> Manager \<Rightarrow> AttendantEvent \<Rightarrow> sink_msg list" where
  "attendant_msgs bridgeFeed m evt =
     (if ae_Type evt = AttendantEventResync then [state_msg bridgeFeed (Attendants m)]
      else if ae_ID evt = bridgeFeed then []
      else [EventMsg (ae_Type evt) (ae_ID evt)])"

definition endpoint_msg :: "TunnelEvent \<Rightarrow> sink_msg" where
  "endpoint_msg evt = EndpointMsg (te_Type evt) (ID (te_Info evt)) (Addr (te_Info evt))"

text \<open>The room as a whole: the manager, and what each stream has written so far.\<close>

record room =
  mgr :: Manager
  astreams :: "(nat, sink_msg list) gmap"
  estreams :: "(nat, sink_msg list) gmap"

datatype room_op =
    OpAddPeer string string nat | OpRemovePeer string
  | OpAddAttendant string string nat | OpRemoveAttendant string
  | OpRegisterAlias string string | OpRevokeAlias string
  | OpAttendants | OpCancelAttendants nat | OpAttendantEvent nat
  | OpEndpoints | OpCancelEndpoints nat | OpEndpointEvent nat

definition room_start :: room where
  "room_start = \<lparr>mgr = NewManager, astreams = [], estreams = []\<rparr>"

definition handleAttendants :: "string \<Rightarrow> room \<Rightarrow> room" where
  "handleAttendants bridgeFeed r =
     (case SubscribeAttendants (mgr r) of ((ps, ch), m) \<Rightarrow>
        r\<lparr>mgr := m, astreams := gput ch [state_msg bridgeFeed ps] (astreams r)\<rparr>)"

definition streamAttendants :: "string \<Rightarrow> nat \<Rightarrow> room \<Rightarrow> room" where
  "streamAttendants bridgeFeed ch r =
     (case (map_of (subscribers (mgr r)) ch, map_of (astreams r) ch) of
        (Some (evt # q), Some sent) \<Rightarrow>
          r\<lparr>mgr := (mgr r)\<lparr>subscribers := gput ch q (subscribers (mgr r))\<rparr>,
            astreams := gput ch (sent @ attendant_msgs bridgeFeed (mgr r) evt) (astreams r)\<rparr>
      | _ \<Rightarrow> r)"

definition handleEndpoints :: "room \<Rightarrow> room" where
  "handleEndpoints r =
     (case SubscribeEndpoints (mgr r) of ((ps, ch), m) \<Rightarrow>
        r\<lparr>mgr := m, estreams := gput ch (map (\<lambda>p. EndpointMsg ''joined'' (ID p) (Addr p)) ps) (estreams r)\<rparr>)"

definition streamEndpoints :: "nat \<Rightarrow> room \<Rightarrow> room" where
  "streamEndpoints ch r =
     (case (map_of (tunnelSubs (mgr r)) ch, map_of (estreams r) ch) of
        (Some (evt # q), Some sent) \<Rightarrow>
          r\<lparr>mgr := (mgr r)\<lparr>tunnelSubs := gput ch q (tunnelSubs (mgr r))\<rparr>,
            estreams := gput ch (sent @ [endpoint_msg evt]) (estreams r)\<rparr>
      | _ \<Rightarrow> r)"

fun room_step :: "string \<Rightarrow> room \<Rightarrow> room_op \<Rightarrow> room" where
  "room_step bf r (OpAddPeer i a t) = r\<lparr>mgr := AddPeer i a t (mgr r)\<rparr>"
| "room_step bf r (OpRemovePeer i) = r\<lparr>mgr := RemovePeer i (mgr r)\<rparr>"
| "room_step bf r (OpAddAttendant i a t) = r\<lparr>mgr := AddAttendant i a t (mgr r)\<rparr>"
| "room_step bf r (OpRemoveAttendant i) = r\<lparr>mgr := RemoveAttendant i (mgr r)\<rparr>"
| "room_step bf r (OpRegisterAlias a ow) = r\<lparr>mgr := RegisterAlias a ow (mgr r)\<rparr>"
| "room_step bf r (OpRevokeAlias a) = r\<lparr>mgr := RevokeAlias a (mgr r)\<rparr>"
| "room_step bf r OpAttendants = handleAttendants bf r"
| "room_step bf r (OpCancelAttendants ch) = r\<lparr>mgr := cancelAttendants ch (mgr r)\<rparr>"
| "room_step bf r (OpAttendantEvent ch) = streamAttendants bf ch r"
| "room_step bf r OpEndpoints = handleEndpoints r"
| "room_step bf r (OpCancelEndpoints ch) = r\<lparr>mgr := cancelEndpoints ch (mgr r)\<rparr>"
| "room_step bf r (OpEndpointEvent ch) = streamEndpoints ch r"

definition room_run :: "string \<Rightarrow> room_op list \<Rightarrow> room" where
  "room_run bf ops = foldl (room_step bf) room_start ops"

text \<open>What a client believes after the messages of its stream.\<close>

fun view_step :: "string set \<Rightarrow> sink_msg \<Rightarrow> string set" where
  "view_step v (StateMsg ids) = set ids"
| "view_step v (EventMsg t i) = (if t = ''joined'' then insert i v else v - {i})"
| "view_step v (EndpointMsg t i a) = (if t = ''joined'' then insert i v else v - {i})"

definition client_view :: "sink_msg list \<Rightarrow> string set" where
  "client_view ms = foldl view_step {} ms"

definition attendant_ids :: "Manager \<Rightarrow> string set" where
  "attendant_ids m = set (map ID (Attendants m))"

definition peer_ids :: "Manager \<Rightarrow> string set" where
  "peer_ids m = set (map ID (Peers m))"

section \<open>The invariant\<close>

text \<open>
  \<open>settle\<close> is what the client will believe of one id once the stream has handled the events in
  its buffer, if the set of attendants stays as it is. The invariant: that is the truth.
\<close>

definition settle_step :: "string \<Rightarrow> bool \<Rightarrow> string \<Rightarrow> bool \<Rightarrow> AttendantEvent \<Rightarrow> bool" where
  "settle_step bf present x b e =
     (if ae_Type e = AttendantEventResync then present
      else if ae_ID e = x \<and> x \<noteq> bf then ae_Type e = AttendantEventJoined else b)"

definition settle :: "string \<Rightarrow> string set \<Rightarrow> string \<Rightarrow> bool \<Rightarrow> AttendantEvent list \<Rightarrow> bool" where
  "settle bf att x b q = foldl (settle_step bf (x \<in> att \<and> x \<noteq> bf) x) b q"

definition stream_ok :: "string \<Rightarrow> string set \<Rightarrow> AttendantEvent list \<Rightarrow> sink_msg list \<Rightarrow> bool" where
  "stream_ok bf att q sent \<longleftrightarrow> length q \<le> chan_cap \<and>
     (\<forall>x. settle bf att x (x \<in> client_view sent) q = (x \<in> att \<and> x \<noteq> bf))"

definition keyed :: "(string, PeerInfo) gmap \<Rightarrow> bool" where
  "keyed ps \<longleftrightarrow> (\<forall>(k, p) \<in> set ps. ID p = k)"

definition room_ok :: "string \<Rightarrow> room \<Rightarrow> bool" where
  "room_ok bf r \<longleftrightarrow> keyed (attendants (mgr r)) \<and>
     (\<forall>ch q. map_of (subscribers (mgr r)) ch = Some q \<longrightarrow>
        (\<exists>sent. map_of (astreams r) ch = Some sent \<and> stream_ok bf (attendant_ids (mgr r)) q sent))"

lemmas event_defs = AttendantEventJoined_def AttendantEventLeft_def AttendantEventResync_def

lemma keyed_ids: "keyed ps \<Longrightarrow> set (map ID (map snd ps)) = set (map fst ps)"
  unfolding keyed_def by force

lemma attendant_ids_iff: "keyed (attendants m) \<Longrightarrow> x \<in> attendant_ids m \<longleftrightarrow> ghas x (attendants m)"
  using keyed_ids [of "attendants m"] by (simp add: attendant_ids_def Attendants_def ghas_iff)

lemma keyed_gput: "keyed ps \<Longrightarrow> ID p = k \<Longrightarrow> keyed (gput k p ps)"
  by (induction ps) (auto simp: keyed_def split: if_splits)

lemma keyed_gdel: "keyed ps \<Longrightarrow> keyed (gdel k ps)"
  by (auto simp: keyed_def gdel_def)

lemma settle_snoc: "settle bf att x b (q @ [e]) = settle_step bf (x \<in> att \<and> x \<noteq> bf) x (settle bf att x b q) e"
  by (simp add: settle_def)

lemma settle_cong: "(x \<in> att \<longleftrightarrow> x \<in> att') \<Longrightarrow> settle bf att x b q = settle bf att' x b q"
  by (simp add: settle_def)

text \<open>A broadcast about one id keeps every stream right when only that id changes.\<close>

lemma stream_ok_send:
  assumes ok: "stream_ok bf att q sent" and i: "i \<in> att' \<longleftrightarrow> t = AttendantEventJoined"
    and t: "t \<noteq> AttendantEventResync" and other: "\<And>x. x \<noteq> i \<Longrightarrow> x \<in> att' \<longleftrightarrow> x \<in> att"
  shows "stream_ok bf att' (send_attendant \<lparr>ae_Type = t, ae_ID = i\<rparr> q) sent"
proof (cases "length q < chan_cap")
  case False
  then show ?thesis
    by (simp add: stream_ok_def send_attendant_def settle_def settle_step_def chan_cap_def)
next
  case True
  have "settle bf att' x (x \<in> client_view sent) (q @ [\<lparr>ae_Type = t, ae_ID = i\<rparr>]) = (x \<in> att' \<and> x \<noteq> bf)" for x
  proof (cases "x = i")
    case True
    then show ?thesis using i t ok other
      by (cases "x = bf") (auto simp: settle_snoc settle_step_def stream_ok_def settle_def)
  next
    case False
    then show ?thesis using ok other [OF False] settle_cong [OF other [OF False], of bf _ q] t
      by (auto simp: settle_snoc settle_step_def stream_ok_def)
  qed
  with True show ?thesis by (simp add: stream_ok_def send_attendant_def)
qed


lemma room_ok_broadcast:
  assumes ok: "room_ok bf r" and k: "keyed (attendants m)" and s: "subscribers m = subscribers (mgr r)"
    and i: "i \<in> attendant_ids m \<longleftrightarrow> t = AttendantEventJoined" and t: "t \<noteq> AttendantEventResync"
    and other: "\<And>x. x \<noteq> i \<Longrightarrow> x \<in> attendant_ids m \<longleftrightarrow> x \<in> attendant_ids (mgr r)"
  shows "room_ok bf (r\<lparr>mgr := broadcastAttendantLocked \<lparr>ae_Type = t, ae_ID = i\<rparr> m\<rparr>)"
proof -
  have q: "map_of (map (\<lambda>(ch, q). (ch, send_attendant e q)) qs) ch = map_option (send_attendant e) (map_of qs ch)" for e qs ch
    by (induction qs) auto
  note send = stream_ok_send [OF _ i t other]
  show ?thesis
    unfolding room_ok_def
  proof (intro conjI allI impI)
    fix ch q assume a: "map_of (subscribers (mgr (r\<lparr>mgr := broadcastAttendantLocked \<lparr>ae_Type = t, ae_ID = i\<rparr> m\<rparr>))) ch = Some q"
    then obtain q0 where q0: "map_of (subscribers (mgr r)) ch = Some q0"
      and qe: "q = send_attendant \<lparr>ae_Type = t, ae_ID = i\<rparr> q0"
      using s by (auto simp: broadcastAttendantLocked_def q)
    then obtain sent where "map_of (astreams r) ch = Some sent" "stream_ok bf (attendant_ids (mgr r)) q0 sent"
      using ok by (auto simp: room_ok_def)
    with send [of bf q0 sent] qe show "\<exists>sent. map_of (astreams (r\<lparr>mgr := broadcastAttendantLocked \<lparr>ae_Type = t, ae_ID = i\<rparr> m\<rparr>)) ch = Some sent \<and>
        stream_ok bf (attendant_ids (mgr (r\<lparr>mgr := broadcastAttendantLocked \<lparr>ae_Type = t, ae_ID = i\<rparr> m\<rparr>))) q sent"
      by (simp add: broadcastAttendantLocked_def attendant_ids_def Attendants_def)
  qed (simp add: k broadcastAttendantLocked_def)
qed

text \<open>An operation that touches neither attendants nor their subscribers.\<close>

lemma room_ok_frame:
  "room_ok bf r \<Longrightarrow> attendants m = attendants (mgr r) \<Longrightarrow> subscribers m = subscribers (mgr r) \<Longrightarrow>
   room_ok bf (r\<lparr>mgr := m\<rparr>)"
  by (simp add: room_ok_def attendant_ids_def Attendants_def)

lemma room_ok_AddAttendant: "room_ok bf r \<Longrightarrow> room_ok bf (r\<lparr>mgr := AddAttendant i a n (mgr r)\<rparr>)"
proof -
  assume ok: "room_ok bf r"
  let ?m = "(mgr r)\<lparr>attendants := gput i \<lparr>ID = i, Addr = a, Connected = n\<rparr> (attendants (mgr r))\<rparr>"
  have k: "keyed (attendants (mgr r))" "keyed (attendants ?m)"
    using ok keyed_gput by (auto simp: room_ok_def)
  note ids = attendant_ids_iff [OF k(1)] attendant_ids_iff [OF k(2)]
  show ?thesis
  proof (cases "ghas i (attendants (mgr r))")
    case True
    then have "attendant_ids ?m = attendant_ids (mgr r)" using ids by (auto simp: gm_simps)
    with True ok k(2) show ?thesis by (auto simp: AddAttendant_def room_ok_def)
  next
    case False
    then show ?thesis
      using room_ok_broadcast [OF ok k(2), of i AttendantEventJoined] ids
      by (simp add: AddAttendant_def gm_simps event_defs)
  qed
qed

lemma room_ok_RemoveAttendant: "room_ok bf r \<Longrightarrow> room_ok bf (r\<lparr>mgr := RemoveAttendant i (mgr r)\<rparr>)"
proof -
  assume ok: "room_ok bf r"
  let ?m = "(mgr r)\<lparr>attendants := gdel i (attendants (mgr r))\<rparr>"
  have k: "keyed (attendants (mgr r))" "keyed (attendants ?m)"
    using ok keyed_gdel by (auto simp: room_ok_def)
  note ids = attendant_ids_iff [OF k(1)] attendant_ids_iff [OF k(2)]
  show ?thesis
  proof (cases "ghas i (attendants (mgr r))")
    case False
    then have "attendant_ids ?m = attendant_ids (mgr r)" using ids by (auto simp: gm_simps)
    with False ok k(2) show ?thesis by (auto simp: RemoveAttendant_def room_ok_def)
  next
    case True
    then show ?thesis
      using room_ok_broadcast [OF ok k(2), of i AttendantEventLeft] ids
      by (simp add: RemoveAttendant_def gm_simps event_defs)
  qed
qed

lemma client_view_snoc: "client_view (ms @ [x]) = view_step (client_view ms) x"
  by (simp add: client_view_def)

lemma view_step_state: "view_step v (state_msg bf ps) = set (map ID ps) - {bf}"
  by (auto simp: state_msg_def)

lemma room_ok_handleAttendants: "room_ok bf r \<Longrightarrow> room_ok bf (handleAttendants bf r)"
  by (auto simp: client_view_def view_step_state room_ok_def handleAttendants_def SubscribeAttendants_def gm_simps stream_ok_def settle_def
      attendant_ids_def Attendants_def)

lemma attendant_msgs_view:
  "x \<in> client_view (sent @ attendant_msgs bf m e) \<longleftrightarrow>
   settle_step bf (x \<in> attendant_ids m \<and> x \<noteq> bf) x (x \<in> client_view sent) e"
  by (auto simp: attendant_msgs_def settle_step_def view_step_state client_view_snoc attendant_ids_def event_defs)

lemma stream_ok_receive:
  "stream_ok bf (attendant_ids m) (e # q) sent \<Longrightarrow>
   stream_ok bf (attendant_ids m) q (sent @ attendant_msgs bf m e)"
  by (simp add: stream_ok_def settle_def attendant_msgs_view)

lemma streamAttendants_cases:
  obtains "streamAttendants bf ch r = r"
  | evt q sent where "map_of (subscribers (mgr r)) ch = Some (evt # q)" "map_of (astreams r) ch = Some sent"
      "streamAttendants bf ch r = r\<lparr>mgr := (mgr r)\<lparr>subscribers := gput ch q (subscribers (mgr r))\<rparr>,
        astreams := gput ch (sent @ attendant_msgs bf (mgr r) evt) (astreams r)\<rparr>"
proof (cases "\<exists>evt q sent. map_of (subscribers (mgr r)) ch = Some (evt # q) \<and> map_of (astreams r) ch = Some sent")
  case True
  then show ?thesis using that(2) by (auto simp: streamAttendants_def)
next
  case False
  then have "streamAttendants bf ch r = r" by (auto simp: streamAttendants_def split: option.splits list.splits)
  then show ?thesis by (rule that(1))
qed

lemma attendant_ids_subscribers: "attendant_ids (m\<lparr>subscribers := q\<rparr>) = attendant_ids m"
  by (simp add: attendant_ids_def Attendants_def)

lemma room_ok_streamAttendants: "room_ok bf r \<Longrightarrow> room_ok bf (streamAttendants bf ch r)"
proof (rule streamAttendants_cases [of bf ch r])
  fix evt q sent
  assume ok: "room_ok bf r" and q: "map_of (subscribers (mgr r)) ch = Some (evt # q)"
    and sent: "map_of (astreams r) ch = Some sent"
    and eq: "streamAttendants bf ch r = r\<lparr>mgr := (mgr r)\<lparr>subscribers := gput ch q (subscribers (mgr r))\<rparr>,
        astreams := gput ch (sent @ attendant_msgs bf (mgr r) evt) (astreams r)\<rparr>"
  have "stream_ok bf (attendant_ids (mgr r)) (evt # q) sent"
    using ok q sent by (metis option.inject room_ok_def)
  then have "stream_ok bf (attendant_ids (mgr r)) q (sent @ attendant_msgs bf (mgr r) evt)"
    by (rule stream_ok_receive)
  with ok show ?thesis unfolding eq by (simp add: room_ok_def gm_simps attendant_ids_subscribers)
qed simp

lemma room_ok_step: "room_ok bf r \<Longrightarrow> room_ok bf (room_step bf r x)"
proof (cases x)
  case (OpCancelAttendants ch)
  assume "room_ok bf r"
  with OpCancelAttendants show ?thesis
    by (auto simp: room_ok_def cancelAttendants_def gm_simps attendant_ids_def Attendants_def)
next
  case OpEndpoints
  assume "room_ok bf r"
  with OpEndpoints show ?thesis
    by (auto simp: room_ok_def handleEndpoints_def SubscribeEndpoints_def attendant_ids_def Attendants_def)
next
  case (OpEndpointEvent ch)
  assume "room_ok bf r"
  with OpEndpointEvent show ?thesis
    by (auto simp: room_ok_def streamEndpoints_def attendant_ids_def Attendants_def split: option.splits list.splits)
qed (auto intro!: room_ok_frame room_ok_AddAttendant room_ok_RemoveAttendant room_ok_handleAttendants
    room_ok_streamAttendants simp: AddPeer_def RemovePeer_def broadcastTunnelLocked_def RegisterAlias_def
    RevokeAlias_def cancelEndpoints_def Let_def split: option.splits)

lemma room_ok_start: "room_ok bf room_start"
  by (simp add: room_ok_def room_start_def NewManager_def keyed_def)

interpretation rs: invariant_machine room_start "room_step bf" "room_ok bf" for bf
  by unfold_locales (simp_all add: room_ok_step room_ok_start)

section \<open>What the clients see\<close>

text \<open>Handling the buffered events, one after the other.\<close>

lemma streamAttendants_drains:
  "map_of (subscribers (mgr r)) ch = Some q \<Longrightarrow> map_of (astreams r) ch = Some sent \<Longrightarrow>
   \<exists>r'. foldl (room_step bf) r (replicate (length q) (OpAttendantEvent ch)) = r' \<and>
     map_of (subscribers (mgr r')) ch = Some [] \<and> attendant_ids (mgr r') = attendant_ids (mgr r)"
proof (induction q arbitrary: r sent)
  case (Cons e q)
  let ?r = "streamAttendants bf ch r"
  have "map_of (subscribers (mgr ?r)) ch = Some q" "attendant_ids (mgr ?r) = attendant_ids (mgr r)"
    "\<exists>s. map_of (astreams ?r) ch = Some s"
    using Cons.prems by (auto simp: streamAttendants_def gm_simps attendant_ids_subscribers)
  with Cons.IH [of ?r] show ?case by auto
qed auto

lemma room_ok_drained:
  "room_ok bf r \<Longrightarrow> map_of (subscribers (mgr r)) ch = Some [] \<Longrightarrow>
   client_view (the (map_of (astreams r) ch)) = attendant_ids (mgr r) - {bf}"
  by (fastforce simp: room_ok_def stream_ok_def settle_def)

text \<open>C12: the room's attendant stream is eventually accurate. After any sequence of joins, leaves,
  subscriptions, cancellations and deliveries, the buffer of a subscriber has at most 16
  events, and once the stream has handled those (and nothing else happens meanwhile) the client
  knows exactly the current attendants other than the bridge, even when events were dropped
  because the buffer was full.
\<close>

theorem attendant_view_converges:
  assumes "map_of (subscribers (mgr (room_run bf ops))) ch = Some q"
  shows "length q \<le> 16 \<and>
    (let r = foldl (room_step bf) (room_run bf ops) (replicate (length q) (OpAttendantEvent ch))
     in client_view (the (map_of (astreams r) ch)) = attendant_ids (mgr (room_run bf ops)) - {bf})"
proof -
  let ?r = "room_run bf ops"
  have ok: "room_ok bf ?r" unfolding room_run_def by (rule rs.run_start)
  then obtain sent where sent: "map_of (astreams ?r) ch = Some sent" and l: "length q \<le> 16"
    using assms ok unfolding room_ok_def stream_ok_def chan_cap_def by metis
  obtain r where r: "foldl (room_step bf) ?r (replicate (length q) (OpAttendantEvent ch)) = r"
    "map_of (subscribers (mgr r)) ch = Some []" "attendant_ids (mgr r) = attendant_ids (mgr ?r)"
    using streamAttendants_drains [OF assms sent] by blast
  have "room_ok bf r" using rs.run_inv [OF ok] r(1) by metis
  from room_ok_drained [OF this r(2)] r l show ?thesis by (simp add: Let_def)
qed

text \<open>Events for the endpoint stream of the concrete runs: peers ``a'', ``aa'', and so on.\<close>

definition join_peers :: "nat \<Rightarrow> room_op list" where
  "join_peers n = map (\<lambda>k. OpAddPeer (replicate (Suc k) (CHR ''a'')) [] 0) [0..<n]"

text \<open>the endpoint stream has no such recovery. When a subscriber's buffer of 16 events is
  full, a peer that joins is never announced to it: after the client has received everything
  that was buffered, the room has a peer that the client does not know of.
\<close>

theorem endpoint_view_diverges:
  "let r = room_run [] (OpEndpoints # join_peers 17 @ replicate 16 (OpEndpointEvent 0))
   in map_of (tunnelSubs (mgr r)) 0 = Some [] \<and>
      replicate 17 (CHR ''a'') \<in> peer_ids (mgr r) - client_view (the (map_of (estreams r) 0))"
  by code_simp

theorem attendant_view_converges_witness:
  "let ops = OpAttendants # map (\<lambda>k. OpAddAttendant (replicate (Suc k) (CHR ''a'')) [] 0) [0..<17] in
   let r = foldl (room_step ''b'') (room_run ''b'' ops) (replicate 1 (OpAttendantEvent 0))
   in client_view (the (map_of (astreams r) 0)) = attendant_ids (mgr (room_run ''b'' ops)) - {''b''}"
proof -
  have "map_of (subscribers (mgr (room_run ''b'' (OpAttendants # map (\<lambda>k. OpAddAttendant (replicate (Suc k) (CHR ''a'')) [] 0) [0..<17])))) 0
     = Some [\<lparr>ae_Type = ''resync'', ae_ID = []\<rparr>]"
    by code_simp
  from attendant_view_converges [OF this] show ?thesis by (simp add: Let_def)
qed

end
