(* ===== verification/Handshake.thy ===== *)
theory Handshake
  imports Boxstream
begin

text \<open>
  \<open>internal/ssb/secretstream/secretstream.go\<close>: the secret handshake as the state machine that the
  code runs, and the box-stream keys it ends with. The primitives (nacl auth and box, curve25519,
  ed25519, SHA-2, the map from Edwards to Montgomery points) are library code and form one
  record argument; what the handshake relies on is \<open>crypto_ok\<close>.
\<close>

unbundle bit_operations_syntax

section \<open>Primitives\<close>

record crypto =
  auth_sum :: "bytes \<Rightarrow> bytes \<Rightarrow> bytes"
  auth_verify :: "bytes \<Rightarrow> bytes \<Rightarrow> bytes \<Rightarrow> bool"
  scalar_mult :: "bytes \<Rightarrow> bytes \<Rightarrow> bytes"
  box_public :: "bytes \<Rightarrow> bytes"
  sha256 :: "bytes \<Rightarrow> bytes"
  sha512 :: "bytes \<Rightarrow> bytes"
  ed_public :: "bytes \<Rightarrow> bytes"
  ed_sign :: "bytes \<Rightarrow> bytes \<Rightarrow> bytes"
  ed_verify :: "bytes \<Rightarrow> bytes \<Rightarrow> bytes \<Rightarrow> bool"
  point_montgomery :: "bytes \<Rightarrow> bytes option"
  box_seal :: sealer
  box_open :: opener

definition zero_nonce :: bytes where "zero_nonce = replicate 24 0"

definition Ed25519PublicToCurve25519 :: "crypto \<Rightarrow> bytes \<Rightarrow> bytes" where
  "Ed25519PublicToCurve25519 c edPub = (case point_montgomery c edPub of None \<Rightarrow> replicate 32 0 | Some p \<Rightarrow> p)"

definition clamp :: "bytes \<Rightarrow> bytes" where
  "clamp s = (let s = s[0 := (s ! 0) AND 248]; s = s[31 := (s ! 31) AND 127] in s[31 := (s ! 31) OR 64])"

definition ed25519PrivateToCurve25519 :: "crypto \<Rightarrow> bytes \<Rightarrow> bytes" where
  "ed25519PrivateToCurve25519 c edPriv = clamp (take 32 (sha512 c (take 32 edPriv)))"

section \<open>State\<close>

record State =
  s_isClient :: bool
  appKey :: bytes
  secHash :: bytes
  localAppMac :: bytes
  remoteAppMac :: bytes
  localExchange :: bytes
  localExchangeS :: bytes
  remoteExchange :: bytes
  local_key :: bytes
  remotePublic :: bytes
  secret1 :: bytes
  secret2 :: bytes
  secret3 :: bytes
  hello :: bytes
  aBob :: bytes
  bAlice :: bytes

definition zeros32 :: bytes where "zeros32 = replicate 32 0"

text \<open>\<open>newState\<close> with the ephemeral secret key that \<open>box.GenerateKey\<close> draws.\<close>

definition newState :: "crypto \<Rightarrow> bytes \<Rightarrow> bytes \<Rightarrow> bytes \<Rightarrow> State" where
  "newState c key loc eph =
     \<lparr>s_isClient = False, appKey = key, secHash = [], localAppMac = zeros32, remoteAppMac = zeros32,
      localExchange = box_public c eph, localExchangeS = eph, remoteExchange = zeros32,
      local_key = loc, remotePublic = zeros32, secret1 = zeros32, secret2 = zeros32, secret3 = zeros32,
      hello = [], aBob = zeros32, bAlice = zeros32\<rparr>"

definition NewClientState :: "crypto \<Rightarrow> bytes \<Rightarrow> bytes \<Rightarrow> bytes \<Rightarrow> bytes \<Rightarrow> State" where
  "NewClientState c key loc eph remote = (newState c key loc eph)\<lparr>s_isClient := True, remotePublic := remote\<rparr>"

definition NewServerState :: "crypto \<Rightarrow> bytes \<Rightarrow> bytes \<Rightarrow> bytes \<Rightarrow> State" where
  "NewServerState c key loc eph = newState c key loc eph"

section \<open>Messages\<close>

definition createChallenge :: "crypto \<Rightarrow> State \<Rightarrow> bytes \<times> State" where
  "createChallenge c s =
     (let mac = auth_sum c (appKey s) (localExchange s)
      in (mac @ localExchange s, s\<lparr>localAppMac := mac\<rparr>))"

definition verifyChallenge :: "crypto \<Rightarrow> bytes \<Rightarrow> State \<Rightarrow> bool \<times> State" where
  "verifyChallenge c ch s =
     (let mac = take 32 ch; remoteEphPubKey = drop 32 ch
      in if \<not> auth_verify c (appKey s) mac remoteEphPubKey then (False, s)
         else let sec = scalar_mult c (localExchangeS s) remoteEphPubKey
              in (True, s\<lparr>remoteExchange := remoteEphPubKey, remoteAppMac := mac, secret1 := sec,
                          secHash := sha256 c sec\<rparr>))"

definition client_sig_msg :: "bytes \<Rightarrow> bytes \<Rightarrow> bytes \<Rightarrow> bytes" where
  "client_sig_msg key pub hash = key @ pub @ hash"

definition createClientAuth :: "crypto \<Rightarrow> State \<Rightarrow> bytes \<times> State" where
  "createClientAuth c s =
     (let ab = scalar_mult c (localExchangeS s) (Ed25519PublicToCurve25519 c (remotePublic s));
          s2 = sha256 c (appKey s @ secret1 s @ ab);
          sig = ed_sign c (local_key s) (client_sig_msg (appKey s) (take 32 (remotePublic s)) (secHash s));
          h = sig @ ed_public c (local_key s)
      in (box_seal c zero_nonce s2 h, s\<lparr>aBob := ab, secret2 := s2, hello := h\<rparr>))"

definition verifyClientAuth :: "crypto \<Rightarrow> bytes \<Rightarrow> State \<Rightarrow> bool \<times> State" where
  "verifyClientAuth c data s =
     (let ab = scalar_mult c (ed25519PrivateToCurve25519 c (local_key s)) (remoteExchange s);
          s2 = sha256 c (appKey s @ secret1 s @ ab);
          s' = s\<lparr>aBob := ab, secret2 := s2\<rparr>
      in case box_open c zero_nonce s2 data of
           None \<Rightarrow> (False, s'\<lparr>hello := []\<rparr>)
         | Some h \<Rightarrow>
            (let sig = take 64 h; public = drop 64 h
             in (ed_verify c (take 32 public)
                   (client_sig_msg (appKey s) (ed_public c (local_key s)) (secHash s)) sig,
                 s'\<lparr>hello := h, remotePublic := take 32 public\<rparr>)))"

definition createServerAccept :: "crypto \<Rightarrow> State \<Rightarrow> bytes \<times> State" where
  "createServerAccept c s =
     (let ba = scalar_mult c (localExchangeS s) (Ed25519PublicToCurve25519 c (remotePublic s));
          s3 = sha256 c (appKey s @ secret1 s @ aBob s @ ba);
          okay = ed_sign c (local_key s) (appKey s @ hello s @ secHash s)
      in (box_seal c zero_nonce s3 okay, s\<lparr>bAlice := ba, secret3 := s3\<rparr>))"

definition verifyServerAccept :: "crypto \<Rightarrow> bytes \<Rightarrow> State \<Rightarrow> bool \<times> State" where
  "verifyServerAccept c boxedOkay s =
     (let ba = scalar_mult c (ed25519PrivateToCurve25519 c (local_key s)) (remoteExchange s);
          s3 = sha256 c (appKey s @ secret1 s @ aBob s @ ba);
          s' = s\<lparr>bAlice := ba, secret3 := s3\<rparr>
      in case box_open c zero_nonce s3 boxedOkay of
           None \<Rightarrow> (False, s')
         | Some sig \<Rightarrow> (ed_verify c (take 32 (remotePublic s)) (appKey s @ hello s @ secHash s) sig, s'))"

definition cleanSecrets :: "crypto \<Rightarrow> State \<Rightarrow> State" where
  "cleanSecrets c s =
     s\<lparr>secHash := replicate (length (secHash s)) 0, aBob := zeros32, bAlice := zeros32,
       secret1 := sha256 c (secret3 s), secret2 := zeros32, secret3 := zeros32, localExchangeS := zeros32\<rparr>"

definition GetBoxstreamEncKeys :: "crypto \<Rightarrow> State \<Rightarrow> bytes \<times> bytes" where
  "GetBoxstreamEncKeys c s = (sha256 c (secret1 s @ take 32 (remotePublic s)), take 24 (remoteAppMac s))"

definition GetBoxstreamDecKeys :: "crypto \<Rightarrow> State \<Rightarrow> bytes \<times> bytes" where
  "GetBoxstreamDecKeys c s = (sha256 c (secret1 s @ ed_public c (local_key s)), take 24 (localAppMac s))"

section \<open>The machine\<close>

datatype shsState = shsInitial | shsWaitingChallenge | shsWaitingClientAuth | shsWaitingServerAccept | shsDone
datatype shs_error = ShsNeedInput | HandshakeFailed | ShsReadFailed | ShsFuel

record HandshakeMachine =
  st :: State
  role :: shsState
  isClient :: bool
  hbuffer :: bytes

definition NewClientHandshake :: "crypto \<Rightarrow> bytes \<Rightarrow> bytes \<Rightarrow> bytes \<Rightarrow> bytes \<Rightarrow> HandshakeMachine" where
  "NewClientHandshake c key loc eph remote =
     \<lparr>st = NewClientState c key loc eph remote, role = shsInitial, isClient = True, hbuffer = []\<rparr>"

definition NewServerHandshake :: "crypto \<Rightarrow> bytes \<Rightarrow> bytes \<Rightarrow> bytes \<Rightarrow> HandshakeMachine" where
  "NewServerHandshake c key loc eph =
     \<lparr>st = NewServerState c key loc eph, role = shsInitial, isClient = False, hbuffer = []\<rparr>"

definition IsDone :: "HandshakeMachine \<Rightarrow> bool" where "IsDone m \<longleftrightarrow> role m = shsDone"

definition ExpectedBytes :: "HandshakeMachine \<Rightarrow> nat" where
  "ExpectedBytes m =
     (if IsDone m then 0
      else if isClient m then
        (case role m of shsWaitingChallenge \<Rightarrow> 64 | shsWaitingServerAccept \<Rightarrow> 80 | _ \<Rightarrow> 0)
      else (case role m of shsInitial \<Rightarrow> 64 | shsWaitingClientAuth \<Rightarrow> 112 | _ \<Rightarrow> 0))"

definition nextClient :: "crypto \<Rightarrow> HandshakeMachine \<Rightarrow> (shs_error + bytes) \<times> HandshakeMachine" where
  "nextClient c m =
     (case role m of
        shsInitial \<Rightarrow>
          (case createChallenge c (st m) of (out, s) \<Rightarrow> (Inr out, m\<lparr>st := s, role := shsWaitingChallenge\<rparr>))
      | shsWaitingChallenge \<Rightarrow>
          (if length (hbuffer m) < 64 then (Inl ShsNeedInput, m)
           else let m' = m\<lparr>hbuffer := drop 64 (hbuffer m)\<rparr>
                in case verifyChallenge c (take 64 (hbuffer m)) (st m) of
                     (False, s) \<Rightarrow> (Inl HandshakeFailed, m'\<lparr>st := s\<rparr>)
                   | (True, s) \<Rightarrow>
                      (case createClientAuth c s of (out, s') \<Rightarrow>
                         (Inr out, m'\<lparr>st := s', role := shsWaitingServerAccept\<rparr>)))
      | shsWaitingServerAccept \<Rightarrow>
          (if length (hbuffer m) < 80 then (Inl ShsNeedInput, m)
           else let m' = m\<lparr>hbuffer := drop 80 (hbuffer m)\<rparr>
                in case verifyServerAccept c (take 80 (hbuffer m)) (st m) of
                     (False, s) \<Rightarrow> (Inl HandshakeFailed, m'\<lparr>st := s\<rparr>)
                   | (True, s) \<Rightarrow> (Inr [], m'\<lparr>st := cleanSecrets c s, role := shsDone\<rparr>))
      | _ \<Rightarrow> (Inr [], m))"

definition nextServer :: "crypto \<Rightarrow> HandshakeMachine \<Rightarrow> (shs_error + bytes) \<times> HandshakeMachine" where
  "nextServer c m =
     (case role m of
        shsInitial \<Rightarrow>
          (if length (hbuffer m) < 64 then (Inl ShsNeedInput, m)
           else let m' = m\<lparr>hbuffer := drop 64 (hbuffer m)\<rparr>
                in case verifyChallenge c (take 64 (hbuffer m)) (st m) of
                     (False, s) \<Rightarrow> (Inl HandshakeFailed, m'\<lparr>st := s\<rparr>)
                   | (True, s) \<Rightarrow>
                      (case createChallenge c s of (out, s') \<Rightarrow>
                         (Inr out, m'\<lparr>st := s', role := shsWaitingClientAuth\<rparr>)))
      | shsWaitingClientAuth \<Rightarrow>
          (if length (hbuffer m) < 112 then (Inl ShsNeedInput, m)
           else let m' = m\<lparr>hbuffer := drop 112 (hbuffer m)\<rparr>
                in case verifyClientAuth c (take 112 (hbuffer m)) (st m) of
                     (False, s) \<Rightarrow> (Inl HandshakeFailed, m'\<lparr>st := s\<rparr>)
                   | (True, s) \<Rightarrow>
                      (case createServerAccept c s of (out, s') \<Rightarrow>
                         (Inr out, m'\<lparr>st := cleanSecrets c s', role := shsDone\<rparr>)))
      | _ \<Rightarrow> (Inr [], m))"

definition Next_shs :: "crypto \<Rightarrow> bytes \<Rightarrow> HandshakeMachine \<Rightarrow> (shs_error + bytes) \<times> HandshakeMachine" where
  "Next_shs c input m =
     (if role m = shsDone then (Inr [], m)
      else let m = m\<lparr>hbuffer := hbuffer m @ input\<rparr>
           in if isClient m then nextClient c m else nextServer c m)"

text \<open>
  The loop of \<open>Client.Handshake\<close> and \<open>Server.Handshake\<close>, on the bytes the peer sends; it gives the
  bytes written to the connection. Each successful round moves the role on, and no role needs
  more than two, so two units of fuel are enough.
\<close>

fun handshake_loop :: "crypto \<Rightarrow> nat \<Rightarrow> bytes \<Rightarrow> HandshakeMachine \<Rightarrow> shs_error option \<times> bytes \<times> bytes \<times> HandshakeMachine" where
  "handshake_loop c fuel input m =
     (if IsDone m then (None, [], input, m)
      else if ExpectedBytes m = 0 then (Some HandshakeFailed, [], input, m)
      else if length input < ExpectedBytes m then (Some ShsReadFailed, [], [], m)
      else case fuel of 0 \<Rightarrow> (Some ShsFuel, [], input, m)
      | Suc fuel' \<Rightarrow>
        (case Next_shs c (take (ExpectedBytes m) input) m of
           (Inl e, m') \<Rightarrow> (Some e, [], drop (ExpectedBytes m) input, m')
         | (Inr out, m') \<Rightarrow>
             (case handshake_loop c fuel' (drop (ExpectedBytes m) input) m' of
                (e, out', rest, m'') \<Rightarrow> (e, out @ out', rest, m''))))"

declare handshake_loop.simps [simp del]

definition ClientHandshake :: "crypto \<Rightarrow> bytes \<Rightarrow> HandshakeMachine \<Rightarrow> shs_error option \<times> bytes \<times> bytes \<times> HandshakeMachine" where
  "ClientHandshake c input m =
     (case Next_shs c [] m of
        (Inl e, m') \<Rightarrow> (Some e, [], input, m')
      | (Inr out, m') \<Rightarrow>
         (case handshake_loop c 2 input m' of (e, out', rest, m'') \<Rightarrow> (e, out @ out', rest, m'')))"

definition ServerHandshake :: "crypto \<Rightarrow> bytes \<Rightarrow> HandshakeMachine \<Rightarrow> shs_error option \<times> bytes \<times> bytes \<times> HandshakeMachine" where
  "ServerHandshake c input m = handshake_loop c 2 input m"

text \<open>What the primitives promise: the laws of their documentation, and the lengths of their results.\<close>

definition crypto_ok :: "crypto \<Rightarrow> bool" where
  "crypto_ok c \<longleftrightarrow>
     (\<forall>k m. auth_verify c k (auth_sum c k m) m \<and> length (auth_sum c k m) = 32) \<and>
     (\<forall>a b. scalar_mult c a (box_public c b) = scalar_mult c b (box_public c a)) \<and>
     (\<forall>a. length (box_public c a) = 32) \<and>
     (\<forall>sk. point_montgomery c (ed_public c sk) = Some (box_public c (ed25519PrivateToCurve25519 c sk))) \<and>
     (\<forall>sk m. ed_verify c (ed_public c sk) m (ed_sign c sk m) \<and> length (ed_sign c sk m) = 64) \<and>
     (\<forall>sk. length (ed_public c sk) = 32) \<and>
     secretbox (box_seal c) (box_open c)"

lemma crypto_facts:
  assumes "crypto_ok c"
  shows "auth_verify c k (auth_sum c k m) m" and "length (auth_sum c k m) = 32"
    and "length (box_public c a) = 32"
    and "Ed25519PublicToCurve25519 c (ed_public c sk) = box_public c (ed25519PrivateToCurve25519 c sk)"
    and "ed_verify c (ed_public c sk) m (ed_sign c sk m)" and "length (ed_sign c sk m) = 64"
    and "length (ed_public c sk) = 32"
    and "box_open c n k (box_seal c n k m) = Some m" and "length (box_seal c n k m) = length m + 16"
  using assms by (auto simp: crypto_ok_def secretbox_def Ed25519PublicToCurve25519_def Overhead_def)

lemma crypto_dh: "crypto_ok c \<Longrightarrow> scalar_mult c a (box_public c b) = scalar_mult c b (box_public c a)"
  by (simp add: crypto_ok_def)


section \<open>An honest run\<close>

lemma handshake_loop_step:
  assumes "\<not> IsDone m" and "ExpectedBytes m = length inp" and "inp \<noteq> []"
    and "Next_shs c inp m = (Inr out, m')" and "handshake_loop c fuel rest m' = (e, out', rest', m'')"
  shows "handshake_loop c (Suc fuel) (inp @ rest) m = (e, out @ out', rest', m'')"
  using assms by (subst handshake_loop.simps) simp

lemma handshake_loop_done: "IsDone m \<Longrightarrow> handshake_loop c fuel input m = (None, [], input, m)"
  by (simp add: handshake_loop.simps)

text \<open>The messages of a run between honest parties, in the order they are sent.\<close>

record honest =
  h_key :: bytes
  h_client :: bytes
  h_client_eph :: bytes
  h_server :: bytes
  h_server_eph :: bytes

definition h_challenge :: "crypto \<Rightarrow> bytes \<Rightarrow> bytes \<Rightarrow> bytes" where
  "h_challenge c key e = auth_sum c key (box_public c e) @ box_public c e"

definition h_sec :: "crypto \<Rightarrow> honest \<Rightarrow> bytes" where
  "h_sec c h = scalar_mult c (h_client_eph h) (box_public c (h_server_eph h))"

definition h_ab :: "crypto \<Rightarrow> honest \<Rightarrow> bytes" where
  "h_ab c h = scalar_mult c (h_client_eph h) (box_public c (ed25519PrivateToCurve25519 c (h_server h)))"

definition h_ba :: "crypto \<Rightarrow> honest \<Rightarrow> bytes" where
  "h_ba c h = scalar_mult c (h_server_eph h) (box_public c (ed25519PrivateToCurve25519 c (h_client h)))"

definition h_hello :: "crypto \<Rightarrow> honest \<Rightarrow> bytes" where
  "h_hello c h =
     ed_sign c (h_client h) (client_sig_msg (h_key h) (ed_public c (h_server h)) (sha256 c (h_sec c h))) @
     ed_public c (h_client h)"

definition h_secret2 :: "crypto \<Rightarrow> honest \<Rightarrow> bytes" where
  "h_secret2 c h = sha256 c (h_key h @ h_sec c h @ h_ab c h)"

definition h_secret3 :: "crypto \<Rightarrow> honest \<Rightarrow> bytes" where
  "h_secret3 c h = sha256 c (h_key h @ h_sec c h @ h_ab c h @ h_ba c h)"

definition h_auth :: "crypto \<Rightarrow> honest \<Rightarrow> bytes" where
  "h_auth c h = box_seal c zero_nonce (h_secret2 c h) (h_hello c h)"

definition h_accept :: "crypto \<Rightarrow> honest \<Rightarrow> bytes" where
  "h_accept c h =
     box_seal c zero_nonce (h_secret3 c h)
       (ed_sign c (h_server h) (h_key h @ h_hello c h @ sha256 c (h_sec c h)))"

lemma h_lengths:
  assumes "crypto_ok c"
  shows "length (h_challenge c key e) = 64" and "length (h_auth c h) = 112" and "length (h_accept c h) = 80"
    and "take 32 (h_challenge c key e) = auth_sum c key (box_public c e)"
    and "drop 32 (h_challenge c key e) = box_public c e"
    and "take 64 (h_hello c h) = ed_sign c (h_client h) (client_sig_msg (h_key h) (ed_public c (h_server h)) (sha256 c (h_sec c h)))"
    and "drop 64 (h_hello c h) = ed_public c (h_client h)"
  by (simp_all add: crypto_facts [OF assms] h_challenge_def h_auth_def h_accept_def h_hello_def)

lemma challenge_round:
  assumes "crypto_ok c"
  shows "verifyChallenge c (h_challenge c (appKey s) e) s =
    (True, s\<lparr>remoteExchange := box_public c e, remoteAppMac := auth_sum c (appKey s) (box_public c e),
       secret1 := scalar_mult c (localExchangeS s) (box_public c e),
       secHash := sha256 c (scalar_mult c (localExchangeS s) (box_public c e))\<rparr>)"
  by (simp add: verifyChallenge_def Let_def h_lengths [OF assms] crypto_facts [OF assms])

text \<open>What each side knows after the challenges, in terms of the other's keys.\<close>

definition knows :: "crypto \<Rightarrow> honest \<Rightarrow> bytes \<Rightarrow> bytes \<Rightarrow> bytes \<Rightarrow> State \<Rightarrow> bool" where
  "knows c h loc eph reph s \<longleftrightarrow>
     appKey s = h_key h \<and> local_key s = loc \<and> localExchangeS s = eph \<and>
     remoteExchange s = box_public c reph \<and> secret1 s = h_sec c h \<and> secHash s = sha256 c (h_sec c h) \<and>
     localAppMac s = auth_sum c (h_key h) (box_public c eph) \<and>
     remoteAppMac s = auth_sum c (h_key h) (box_public c reph)"

lemma createClientAuth_honest:
  assumes "crypto_ok c" and "knows c h (h_client h) (h_client_eph h) (h_server_eph h) s"
    and "remotePublic s = ed_public c (h_server h)"
  shows "createClientAuth c s = (h_auth c h, s\<lparr>aBob := h_ab c h, secret2 := h_secret2 c h, hello := h_hello c h\<rparr>)"
  using assms
  by (simp add: createClientAuth_def knows_def Let_def h_auth_def h_hello_def h_ab_def h_secret2_def crypto_facts [OF assms(1)])

lemma verifyClientAuth_honest:
  assumes "crypto_ok c" and "knows c h (h_server h) (h_server_eph h) (h_client_eph h) s"
  shows "verifyClientAuth c (h_auth c h) s =
    (True, s\<lparr>aBob := h_ab c h, secret2 := h_secret2 c h, hello := h_hello c h, remotePublic := ed_public c (h_client h)\<rparr>)"
proof -
  have ab: "scalar_mult c (ed25519PrivateToCurve25519 c (h_server h)) (box_public c (h_client_eph h)) = h_ab c h"
    unfolding h_ab_def by (rule crypto_dh [OF assms(1)])
  have o: "box_open c zero_nonce (h_secret2 c h) (h_auth c h) = Some (h_hello c h)"
    by (simp add: h_auth_def crypto_facts [OF assms(1)])
  show ?thesis using assms(2) ab o
    by (simp add: verifyClientAuth_def knows_def Let_def h_secret2_def [symmetric] h_lengths [OF assms(1)] crypto_facts [OF assms(1)])
qed

lemma createServerAccept_honest:
  assumes "crypto_ok c" and "knows c h (h_server h) (h_server_eph h) (h_client_eph h) s"
    and "remotePublic s = ed_public c (h_client h)" and "aBob s = h_ab c h" and "hello s = h_hello c h"
  shows "createServerAccept c s = (h_accept c h, s\<lparr>bAlice := h_ba c h, secret3 := h_secret3 c h\<rparr>)"
  using assms
  by (simp add: createServerAccept_def knows_def Let_def h_accept_def h_ba_def h_secret3_def crypto_facts [OF assms(1)])

lemma verifyServerAccept_honest:
  assumes "crypto_ok c" and "knows c h (h_client h) (h_client_eph h) (h_server_eph h) s"
    and "remotePublic s = ed_public c (h_server h)" and "aBob s = h_ab c h" and "hello s = h_hello c h"
  shows "verifyServerAccept c (h_accept c h) s = (True, s\<lparr>bAlice := h_ba c h, secret3 := h_secret3 c h\<rparr>)"
proof -
  have ba: "scalar_mult c (ed25519PrivateToCurve25519 c (h_client h)) (box_public c (h_server_eph h)) = h_ba c h"
    unfolding h_ba_def by (rule crypto_dh [OF assms(1)])
  have o: "box_open c zero_nonce (h_secret3 c h) (h_accept c h) =
      Some (ed_sign c (h_server h) (h_key h @ h_hello c h @ sha256 c (h_sec c h)))"
    by (simp add: h_accept_def crypto_facts [OF assms(1)])
  show ?thesis using assms(2-) ba o
    by (simp add: verifyServerAccept_def knows_def Let_def h_secret3_def [symmetric] crypto_facts [OF assms(1)])
qed

text \<open>The client's machine after its challenge, after the server's, and at the end.\<close>

definition h_client_start :: "crypto \<Rightarrow> honest \<Rightarrow> HandshakeMachine" where
  "h_client_start c h = NewClientHandshake c (h_key h) (h_client h) (h_client_eph h) (ed_public c (h_server h))"

definition h_server_start :: "crypto \<Rightarrow> honest \<Rightarrow> HandshakeMachine" where
  "h_server_start c h = NewServerHandshake c (h_key h) (h_server h) (h_server_eph h)"

lemma client_run:
  assumes ok: "crypto_ok c"
  shows "\<exists>s. ClientHandshake c (h_challenge c (h_key h) (h_server_eph h) @ h_accept c h) (h_client_start c h) =
      (None, h_challenge c (h_key h) (h_client_eph h) @ h_auth c h, [],
       \<lparr>st = cleanSecrets c (s\<lparr>secret3 := h_secret3 c h\<rparr>), role = shsDone, isClient = True, hbuffer = []\<rparr>) \<and>
      knows c h (h_client h) (h_client_eph h) (h_server_eph h) s \<and> remotePublic s = ed_public c (h_server h)"
proof -
  define s0 where "s0 = (NewClientState c (h_key h) (h_client h) (h_client_eph h) (ed_public c (h_server h)))
    \<lparr>localAppMac := auth_sum c (h_key h) (box_public c (h_client_eph h))\<rparr>"
  define s1 where "s1 = s0\<lparr>remoteExchange := box_public c (h_server_eph h),
    remoteAppMac := auth_sum c (h_key h) (box_public c (h_server_eph h)),
    secret1 := h_sec c h, secHash := sha256 c (h_sec c h)\<rparr>"
  define s2 where "s2 = s1\<lparr>aBob := h_ab c h, secret2 := h_secret2 c h, hello := h_hello c h\<rparr>"
  define s3 where "s3 = s2\<lparr>bAlice := h_ba c h, secret3 := h_secret3 c h\<rparr>"
  let ?M = "\<lambda>s r. \<lparr>st = s, role = r, isClient = True, hbuffer = []\<rparr>"
  have k1: "knows c h (h_client h) (h_client_eph h) (h_server_eph h) s1" "remotePublic s1 = ed_public c (h_server h)"
    by (simp_all add: knows_def s1_def s0_def NewClientState_def newState_def)
  have k2: "knows c h (h_client h) (h_client_eph h) (h_server_eph h) s2" "remotePublic s2 = ed_public c (h_server h)"
    using k1 by (simp_all add: knows_def s2_def)
  have k3: "knows c h (h_client h) (h_client_eph h) (h_server_eph h) (s2\<lparr>bAlice := h_ba c h\<rparr>)"
    "remotePublic (s2\<lparr>bAlice := h_ba c h\<rparr>) = ed_public c (h_server h)"
    using k2 by (simp_all add: knows_def)
  have n0: "Next_shs c [] (h_client_start c h) = (Inr (h_challenge c (h_key h) (h_client_eph h)), ?M s0 shsWaitingChallenge)"
    by (simp add: h_client_start_def NewClientHandshake_def Next_shs_def nextClient_def createChallenge_def
        Let_def s0_def NewClientState_def newState_def h_challenge_def)
  have "verifyChallenge c (h_challenge c (h_key h) (h_server_eph h)) s0 = (True, s1)"
    using challenge_round [OF ok, of s0 "h_server_eph h"]
    by (simp add: s1_def h_sec_def) (simp add: s0_def NewClientState_def newState_def)
  then have n1: "Next_shs c (h_challenge c (h_key h) (h_server_eph h)) (?M s0 shsWaitingChallenge) =
      (Inr (h_auth c h), ?M s2 shsWaitingServerAccept)"
    using createClientAuth_honest [OF ok k1]
    by (simp add: Next_shs_def nextClient_def Let_def h_lengths [OF ok] s2_def)
  have "aBob s2 = h_ab c h" "hello s2 = h_hello c h" by (simp_all add: s2_def)
  then have "verifyServerAccept c (h_accept c h) s2 = (True, s3)"
    unfolding s3_def by (rule verifyServerAccept_honest [OF ok k2])
  then have n2: "Next_shs c (h_accept c h) (?M s2 shsWaitingServerAccept) = (Inr [], ?M (cleanSecrets c s3) shsDone)"
    by (simp add: Next_shs_def nextClient_def Let_def h_lengths [OF ok])
  have ne: "h_challenge c (h_key h) (h_server_eph h) \<noteq> []" "h_accept c h \<noteq> []"
    using h_lengths [OF ok] by (metis list.size(3) zero_neq_numeral)+
  have l2: "handshake_loop c 1 (h_accept c h @ []) (?M s2 shsWaitingServerAccept) = (None, [] @ [], [], ?M (cleanSecrets c s3) shsDone)"
    unfolding One_nat_def
    by (rule handshake_loop_step [OF _ _ ne(2) n2]) (simp_all add: IsDone_def ExpectedBytes_def h_lengths [OF ok] handshake_loop_done)
  have "handshake_loop c (Suc 1) (h_challenge c (h_key h) (h_server_eph h) @ h_accept c h @ []) (?M s0 shsWaitingChallenge) =
      (None, h_auth c h @ [] @ [], [], ?M (cleanSecrets c s3) shsDone)"
    by (rule handshake_loop_step [OF _ _ ne(1) n1 l2]) (simp_all add: IsDone_def ExpectedBytes_def h_lengths [OF ok])
  then have "ClientHandshake c (h_challenge c (h_key h) (h_server_eph h) @ h_accept c h) (h_client_start c h) =
      (None, h_challenge c (h_key h) (h_client_eph h) @ h_auth c h, [], ?M (cleanSecrets c s3) shsDone)"
    using n0 by (simp add: ClientHandshake_def numeral_2_eq_2)
  moreover have "s3 = (s2\<lparr>bAlice := h_ba c h\<rparr>)\<lparr>secret3 := h_secret3 c h\<rparr>" by (simp add: s3_def)
  ultimately show ?thesis using k3 by metis
qed


lemma server_run:
  assumes ok: "crypto_ok c"
  shows "\<exists>s. ServerHandshake c (h_challenge c (h_key h) (h_client_eph h) @ h_auth c h) (h_server_start c h) =
      (None, h_challenge c (h_key h) (h_server_eph h) @ h_accept c h, [],
       \<lparr>st = cleanSecrets c (s\<lparr>secret3 := h_secret3 c h\<rparr>), role = shsDone, isClient = False, hbuffer = []\<rparr>) \<and>
      knows c h (h_server h) (h_server_eph h) (h_client_eph h) s \<and> remotePublic s = ed_public c (h_client h)"
proof -
  define s1 where "s1 = (NewServerState c (h_key h) (h_server h) (h_server_eph h))
    \<lparr>remoteExchange := box_public c (h_client_eph h),
     remoteAppMac := auth_sum c (h_key h) (box_public c (h_client_eph h)),
     secret1 := h_sec c h, secHash := sha256 c (h_sec c h)\<rparr>"
  define s2 where "s2 = s1\<lparr>localAppMac := auth_sum c (h_key h) (box_public c (h_server_eph h))\<rparr>"
  define s3 where "s3 = s2\<lparr>aBob := h_ab c h, secret2 := h_secret2 c h, hello := h_hello c h, remotePublic := ed_public c (h_client h)\<rparr>"
  define s4 where "s4 = s3\<lparr>bAlice := h_ba c h, secret3 := h_secret3 c h\<rparr>"
  let ?M = "\<lambda>s r. \<lparr>st = s, role = r, isClient = False, hbuffer = []\<rparr>"
  have k2: "knows c h (h_server h) (h_server_eph h) (h_client_eph h) s2"
    by (simp add: knows_def s2_def s1_def NewServerState_def newState_def)
  then have k3: "knows c h (h_server h) (h_server_eph h) (h_client_eph h) s3" by (simp add: knows_def s3_def)
  then have k4: "knows c h (h_server h) (h_server_eph h) (h_client_eph h) (s3\<lparr>bAlice := h_ba c h\<rparr>)" by (simp add: knows_def)
  have "verifyChallenge c (h_challenge c (h_key h) (h_client_eph h)) (NewServerState c (h_key h) (h_server h) (h_server_eph h)) = (True, s1)"
    using challenge_round [OF ok, of "NewServerState c (h_key h) (h_server h) (h_server_eph h)" "h_client_eph h"]
      crypto_dh [OF ok, of "h_server_eph h" "h_client_eph h"]
    by (simp add: s1_def h_sec_def) (simp add: NewServerState_def newState_def)
  moreover have "createChallenge c s1 = (h_challenge c (h_key h) (h_server_eph h), s2)"
    by (simp add: createChallenge_def Let_def h_challenge_def s2_def) (simp add: s1_def NewServerState_def newState_def)
  ultimately have n1: "Next_shs c (h_challenge c (h_key h) (h_client_eph h)) (h_server_start c h) =
      (Inr (h_challenge c (h_key h) (h_server_eph h)), ?M s2 shsWaitingClientAuth)"
    by (simp add: h_server_start_def NewServerHandshake_def Next_shs_def nextServer_def Let_def h_lengths [OF ok])
  have f: "aBob s3 = h_ab c h" "hello s3 = h_hello c h" "remotePublic s3 = ed_public c (h_client h)" by (simp_all add: s3_def)
  have "verifyClientAuth c (h_auth c h) s2 = (True, s3)"
    unfolding s3_def by (rule verifyClientAuth_honest [OF ok k2])
  moreover have "createServerAccept c s3 = (h_accept c h, s4)"
    unfolding s4_def by (rule createServerAccept_honest [OF ok k3 f(3) f(1,2)])
  ultimately have n2: "Next_shs c (h_auth c h) (?M s2 shsWaitingClientAuth) = (Inr (h_accept c h), ?M (cleanSecrets c s4) shsDone)"
    by (simp add: Next_shs_def nextServer_def Let_def h_lengths [OF ok])
  have ne: "h_challenge c (h_key h) (h_client_eph h) \<noteq> []" "h_auth c h \<noteq> []"
    using h_lengths [OF ok] by (metis list.size(3) zero_neq_numeral)+
  have l2: "handshake_loop c 1 (h_auth c h @ []) (?M s2 shsWaitingClientAuth) = (None, h_accept c h @ [], [], ?M (cleanSecrets c s4) shsDone)"
    unfolding One_nat_def
    by (rule handshake_loop_step [OF _ _ ne(2) n2]) (simp_all add: IsDone_def ExpectedBytes_def h_lengths [OF ok] handshake_loop_done)
  have "handshake_loop c (Suc 1) (h_challenge c (h_key h) (h_client_eph h) @ h_auth c h @ []) (h_server_start c h) =
      (None, h_challenge c (h_key h) (h_server_eph h) @ h_accept c h @ [], [], ?M (cleanSecrets c s4) shsDone)"
    by (rule handshake_loop_step [OF _ _ ne(1) n1 l2])
      (simp_all add: IsDone_def ExpectedBytes_def h_lengths [OF ok] h_server_start_def NewServerHandshake_def)
  then have "ServerHandshake c (h_challenge c (h_key h) (h_client_eph h) @ h_auth c h) (h_server_start c h) =
      (None, h_challenge c (h_key h) (h_server_eph h) @ h_accept c h, [], ?M (cleanSecrets c s4) shsDone)"
    by (simp add: ServerHandshake_def numeral_2_eq_2)
  moreover have "s4 = (s3\<lparr>bAlice := h_ba c h\<rparr>)\<lparr>secret3 := h_secret3 c h\<rparr>" by (simp add: s4_def)
  moreover have "remotePublic (s3\<lparr>bAlice := h_ba c h\<rparr>) = ed_public c (h_client h)" using f by simp
  ultimately show ?thesis using k4 by metis
qed

text \<open>The keys that a finished state holds.\<close>

lemma final_keys:
  assumes "crypto_ok c" and "knows c h loc eph reph s" and "remotePublic s = ed_public c rloc"
  shows "GetBoxstreamEncKeys c (cleanSecrets c (s\<lparr>secret3 := s3\<rparr>)) =
      (sha256 c (sha256 c s3 @ ed_public c rloc), take 24 (auth_sum c (h_key h) (box_public c reph)))"
    and "GetBoxstreamDecKeys c (cleanSecrets c (s\<lparr>secret3 := s3\<rparr>)) =
      (sha256 c (sha256 c s3 @ ed_public c loc), take 24 (auth_sum c (h_key h) (box_public c eph)))"
  using assms(2,3) by (simp_all add: GetBoxstreamEncKeys_def GetBoxstreamDecKeys_def cleanSecrets_def knows_def crypto_facts [OF assms(1)])

lemma honest_run:
  assumes "crypto_ok c"
  shows "\<exists>co so cm sm.
     ClientHandshake c so (NewClientHandshake c key ck ce (ed_public c sk)) = (None, co, [], cm) \<and>
     ServerHandshake c co (NewServerHandshake c key sk se) = (None, so, [], sm) \<and>
     GetBoxstreamEncKeys c (st cm) = GetBoxstreamDecKeys c (st sm) \<and>
     GetBoxstreamDecKeys c (st cm) = GetBoxstreamEncKeys c (st sm) \<and>
     remotePublic (st sm) = ed_public c ck \<and> remotePublic (st cm) = ed_public c sk"
proof -
  define h where "h = \<lparr>h_key = key, h_client = ck, h_client_eph = ce, h_server = sk, h_server_eph = se\<rparr>"
  have start: "h_client_start c h = NewClientHandshake c key ck ce (ed_public c sk)"
    "h_server_start c h = NewServerHandshake c key sk se"
    by (simp_all add: h_client_start_def h_server_start_def h_def)
  obtain s where s: "ClientHandshake c (h_challenge c key se @ h_accept c h) (h_client_start c h) =
      (None, h_challenge c key ce @ h_auth c h, [],
       \<lparr>st = cleanSecrets c (s\<lparr>secret3 := h_secret3 c h\<rparr>), role = shsDone, isClient = True, hbuffer = []\<rparr>)"
    "knows c h ck ce se s" "remotePublic s = ed_public c sk"
    using client_run [OF assms, of h] by (auto simp: h_def)
  obtain t where t: "ServerHandshake c (h_challenge c key ce @ h_auth c h) (h_server_start c h) =
      (None, h_challenge c key se @ h_accept c h, [],
       \<lparr>st = cleanSecrets c (t\<lparr>secret3 := h_secret3 c h\<rparr>), role = shsDone, isClient = False, hbuffer = []\<rparr>)"
    "knows c h sk se ce t" "remotePublic t = ed_public c ck"
    using server_run [OF assms, of h] by (auto simp: h_def)
  show ?thesis
    using s(1) t(1) start final_keys [OF assms s(2,3), of "h_secret3 c h"] final_keys [OF assms t(2,3), of "h_secret3 c h"]
      s(3) t(3)
    by (intro exI [of _ "h_challenge c key ce @ h_auth c h"] exI [of _ "h_challenge c key se @ h_accept c h"] exI conjI)
      (assumption | simp add: cleanSecrets_def)+
qed


text \<open>Waiting for more input keeps what has arrived.\<close>

lemma need_input:
  assumes "Next_shs c a m = (Inl ShsNeedInput, m')"
  shows "m' = m\<lparr>hbuffer := hbuffer m @ a\<rparr> \<and> role m \<noteq> shsDone"
  using assms
  by (auto simp: Next_shs_def nextClient_def nextServer_def Let_def split: if_splits shsState.splits prod.splits bool.splits)

section \<open>Properties\<close>

text \<open>C13: when both parties are honest, use the same application key and the client knows the
  server's public key, each finishes the handshake on what the other writes, reading nothing
  beyond it; the server learns the client's identity, and the keys and nonces with which one side
  encrypts are those with which the other decrypts.\<close>

theorem handshake_agrees:
  assumes "crypto_ok c"
  shows "\<exists>co so cm sm.
     ClientHandshake c so (NewClientHandshake c key ck ce (ed_public c sk)) = (None, co, [], cm) \<and>
     ServerHandshake c co (NewServerHandshake c key sk se) = (None, so, [], sm) \<and>
     GetBoxstreamEncKeys c (st cm) = GetBoxstreamDecKeys c (st sm) \<and>
     GetBoxstreamDecKeys c (st cm) = GetBoxstreamEncKeys c (st sm) \<and>
     remotePublic (st sm) = ed_public c ck \<and> remotePublic (st cm) = ed_public c sk"
  using assms by (rule honest_run)


text \<open>the handshake does not depend on how the transport cuts the peer's bytes: when a call of
  \<open>Next\<close> asks for more input, the next call behaves as one call with all the bytes.\<close>

theorem handshake_incremental:
  assumes "Next_shs c a m = (Inl ShsNeedInput, m')"
  shows "Next_shs c b m' = Next_shs c (a @ b) m"
  using need_input [OF assms] by (simp add: Next_shs_def)

text \<open>C15: a server that finishes has authenticated its peer: the identity it reports has signed the
  application key, the server's own public key and the hash of the shared secret of this session.\<close>

theorem server_authenticates:
  assumes "Next_shs c input m = (Inr out, m')" and "\<not> isClient m" and "role m \<noteq> shsDone" and "role m' = shsDone"
  shows "\<exists>sig. ed_verify c (remotePublic (st m'))
     (client_sig_msg (appKey (st m)) (ed_public c (local_key (st m))) (secHash (st m))) sig \<and>
     box_open c zero_nonce (sha256 c (appKey (st m) @ secret1 (st m) @
         scalar_mult c (ed25519PrivateToCurve25519 c (local_key (st m))) (remoteExchange (st m))))
       (take 112 (hbuffer m @ input)) = Some (hello (st m')) \<and> take 64 (hello (st m')) = sig"
  using assms
  by (auto simp: Next_shs_def nextServer_def verifyClientAuth_def createServerAccept_def createChallenge_def cleanSecrets_def Let_def
      split: if_splits shsState.splits prod.splits bool.splits option.splits)

text \<open>a client that finishes has authenticated the server: the key it dialled has signed the
  application key, the client's hello and the hash of the shared secret.\<close>

theorem client_authenticates:
  assumes "Next_shs c input m = (Inr out, m')" and "isClient m" and "role m \<noteq> shsDone" and "role m' = shsDone"
  shows "remotePublic (st m') = remotePublic (st m) \<and>
     (\<exists>sig. ed_verify c (take 32 (remotePublic (st m))) (appKey (st m) @ hello (st m) @ secHash (st m)) sig)"
  using assms
  by (auto simp: Next_shs_def nextClient_def verifyServerAccept_def createClientAuth_def createChallenge_def cleanSecrets_def Let_def
      split: if_splits shsState.splits prod.splits bool.splits option.splits)


section \<open>Witnesses\<close>

text \<open>Primitives that satisfy the laws: key agreement is addition of padded byte strings.\<close>

definition pad32 :: "bytes \<Rightarrow> bytes" where "pad32 b = take 32 (b @ replicate 32 0)"

definition toy_crypto :: crypto where
  "toy_crypto =
     \<lparr>auth_sum = (\<lambda>k m. pad32 (k @ m)), auth_verify = (\<lambda>k mac m. mac = pad32 (k @ m)),
      scalar_mult = (\<lambda>a p. map2 (+) (pad32 a) p), box_public = pad32, sha256 = pad32, sha512 = (\<lambda>b. b),
      ed_public = (\<lambda>sk. pad32 (clamp (take 32 sk))),
      ed_sign = (\<lambda>sk m. replicate 64 3), ed_verify = (\<lambda>pk m sig. sig = replicate 64 3),
      point_montgomery = Some, box_seal = toy_seal, box_open = toy_open\<rparr>"

lemma map2_add_commute: "map2 (+) xs ys = map2 (+) ys (xs :: bytes)"
  by (induction xs ys rule: list_induct2') (auto simp: add.commute)

lemma length_pad32 [simp]: "length (pad32 b) = 32"
  by (simp add: pad32_def)

lemma toy_crypto_ok: "crypto_ok toy_crypto"
  using toy_secretbox
  by (simp add: crypto_ok_def toy_crypto_def ed25519PrivateToCurve25519_def map2_add_commute)

theorem handshake_agrees_witness:
  "\<exists>co so cm sm.
     ClientHandshake toy_crypto so (NewClientHandshake toy_crypto [1] [2] [3] (ed_public toy_crypto [4])) = (None, co, [], cm) \<and>
     ServerHandshake toy_crypto co (NewServerHandshake toy_crypto [1] [4] [5]) = (None, so, [], sm) \<and>
     GetBoxstreamEncKeys toy_crypto (st cm) = GetBoxstreamDecKeys toy_crypto (st sm)"
  using handshake_agrees [OF toy_crypto_ok, of "[1]" "[2]" "[3]" "[4]" "[5]"] by blast


theorem handshake_incremental_witness:
  "Next_shs toy_crypto [8] (snd (Next_shs toy_crypto [9] (NewServerHandshake toy_crypto [1] [4] [5]))) =
   Next_shs toy_crypto [9, 8] (NewServerHandshake toy_crypto [1] [4] [5])"
proof -
  have "Next_shs toy_crypto [9] (NewServerHandshake toy_crypto [1] [4] [5]) =
    (Inl ShsNeedInput, snd (Next_shs toy_crypto [9] (NewServerHandshake toy_crypto [1] [4] [5])))"
    by (simp add: Next_shs_def nextServer_def NewServerHandshake_def)
  from handshake_incremental [OF this, of "[8]"] show ?thesis by simp
qed

definition toy_server :: HandshakeMachine where
  "toy_server = (NewServerHandshake toy_crypto [1] [4] [5])\<lparr>role := shsWaitingClientAuth\<rparr>"

definition toy_client :: HandshakeMachine where
  "toy_client = (NewClientHandshake toy_crypto [1] [2] [3] [9])\<lparr>role := shsWaitingServerAccept\<rparr>"

lemma toy_server_next:
  "Next_shs toy_crypto (toy_tag zero_nonce @ replicate 64 3 @ replicate 32 9) toy_server =
    (Inr (toy_seal zero_nonce [] (replicate 64 3)), snd (Next_shs toy_crypto (toy_tag zero_nonce @ replicate 64 3 @ replicate 32 9) toy_server)) \<and>
   role (snd (Next_shs toy_crypto (toy_tag zero_nonce @ replicate 64 3 @ replicate 32 9) toy_server)) = shsDone"
  by (simp add: Next_shs_def nextServer_def toy_server_def NewServerHandshake_def verifyClientAuth_def createServerAccept_def
      Let_def toy_crypto_def toy_open_def toy_seal_def toy_tag_def)

theorem server_authenticates_witness:
  "\<exists>sig. ed_verify toy_crypto (remotePublic (st (snd (Next_shs toy_crypto (toy_tag zero_nonce @ replicate 64 3 @ replicate 32 9) toy_server))))
     (client_sig_msg (appKey (st toy_server)) (ed_public toy_crypto (local_key (st toy_server))) (secHash (st toy_server))) sig"
  using server_authenticates [OF conjunct1 [OF toy_server_next] _ _ conjunct2 [OF toy_server_next]]
  by (auto simp: toy_server_def NewServerHandshake_def)

lemma toy_client_next:
  "Next_shs toy_crypto (toy_tag zero_nonce @ replicate 64 3) toy_client =
    (Inr [], snd (Next_shs toy_crypto (toy_tag zero_nonce @ replicate 64 3) toy_client)) \<and>
   role (snd (Next_shs toy_crypto (toy_tag zero_nonce @ replicate 64 3) toy_client)) = shsDone"
  by (simp add: Next_shs_def nextClient_def toy_client_def NewClientHandshake_def verifyServerAccept_def
      Let_def toy_crypto_def toy_open_def toy_seal_def toy_tag_def)

theorem client_authenticates_witness:
  "remotePublic (st (snd (Next_shs toy_crypto (toy_tag zero_nonce @ replicate 64 3) toy_client))) = [9] \<and>
   (\<exists>sig. ed_verify toy_crypto [9] (appKey (st toy_client) @ hello (st toy_client) @ secHash (st toy_client)) sig)"
  using client_authenticates [OF conjunct1 [OF toy_client_next] _ _ conjunct2 [OF toy_client_next]]
  by (auto simp: toy_client_def NewClientHandshake_def NewClientState_def newState_def)

end
