(* ===== verification/Bencode.thy ===== *)
theory Bencode
  imports Go_Prelude "HOL-Library.Multiset" "HOL-Library.List_Lexorder" "HOL-Library.Char_ord"
begin

text \<open>
  \<open>internal/ssb/message/bencode/bencode.go\<close>: the encoder with its own key sort, and the decoder
  over a buffered reader, as a function of the bytes still to come. Go strings and byte slices
  are both \<open>string\<close>; the constructors keep the dynamic type that the type switches look at.
\<close>

section \<open>Values and errors\<close>

datatype bval =
    BInt int
  | BStr string
  | BBytes string
  | BList "bval list"
  | BDict "(string \<times> bval) list"
  | BNil
  | BBool bool
  | BOther

datatype berr = InvalidBencode char | UnexpectedEnd | InvalidInteger | InvalidString | UnsupportedType | BFuel

section \<open>Sorting keys\<close>

text \<open>
  \<open>sortStrings\<close>: the inner loop compares the element at position \<open>i\<close> with each later one and swaps
  them when they are out of order, so the smallest ends up at \<open>i\<close>.
\<close>

fun sort_inner :: "'a::linorder \<Rightarrow> 'a list \<Rightarrow> 'a \<times> 'a list" where
  "sort_inner x [] = (x, [])"
| "sort_inner x (y # ys) =
     (if x > y then (case sort_inner y ys of (m, r) \<Rightarrow> (m, x # r))
      else (case sort_inner x ys of (m, r) \<Rightarrow> (m, y # r)))"

lemma length_sort_inner: "sort_inner x ys = (m, r) \<Longrightarrow> length r = length ys"
  by (induction x ys arbitrary: m r rule: sort_inner.induct) (auto split: if_splits prod.splits)

function sortStrings :: "'a::linorder list \<Rightarrow> 'a list" where
  "sortStrings [] = []"
| "sortStrings (x # xs) = (case sort_inner x xs of (m, r) \<Rightarrow> m # sortStrings r)"
  by pat_completeness auto
termination by (relation "measure length") (auto dest: length_sort_inner [OF sym])

lemma sort_inner_spec:
  "sort_inner x ys = (m, r) \<Longrightarrow> mset (m # r) = mset (x # ys) \<and> (\<forall>z \<in> set (x # ys). m \<le> z)"
proof (induction x ys arbitrary: m r rule: sort_inner.induct)
  case (2 x y ys)
  show ?case
  proof (cases "x > y")
    case True
    then obtain r' where r: "sort_inner y ys = (m, r')" "r = x # r'" using "2.prems" by (auto split: prod.splits)
    from "2.IH"(1) [OF True r(1)] r True show ?thesis by (auto simp: add_mset_commute)
  next
    case False
    then obtain r' where r: "sort_inner x ys = (m, r')" "r = y # r'" using "2.prems" by (auto split: prod.splits)
    from "2.IH"(2) [OF False r(1)] r False show ?thesis by (auto simp: add_mset_commute intro: order_trans)
  qed
qed simp

lemma sortStrings_sort: "sortStrings xs = sort xs"
proof (induction xs rule: sortStrings.induct)
  case (2 x xs)
  obtain m r where mr: "sort_inner x xs = (m, r)" by fastforce
  note spec = sort_inner_spec [OF mr]
  have "set (m # r) = set (x # xs)" using spec by (metis set_mset_mset)
  then have "sort (m # r) = m # sort r" using spec by (auto intro!: insort_is_Cons)
  moreover have "sort (m # r) = sort (x # xs)"
    using spec by (metis mset_sort properties_for_sort sorted_sort)
  ultimately show ?case using 2 [OF mr [symmetric]] mr by simp
qed simp

section \<open>Encoding\<close>

fun collect :: "(berr + string) list \<Rightarrow> berr + string" where
  "collect [] = Inr []"
| "collect (Inl e # rs) = Inl e"
| "collect (Inr s # rs) = (case collect rs of Inl e \<Rightarrow> Inl e | Inr t \<Rightarrow> Inr (s @ t))"

definition enc_string :: "string \<Rightarrow> string" where
  "enc_string s = show_nat (length s) @ '':'' @ s"

definition enc_entry :: "(string \<times> (berr + string)) list \<Rightarrow> string \<Rightarrow> berr + string" where
  "enc_entry m k = (case map_of m k of None \<Rightarrow> Inr [] | Some (Inl e) \<Rightarrow> Inl e | Some (Inr s) \<Rightarrow> Inr (enc_string k @ s))"

definition wrap :: "string \<Rightarrow> berr + string \<Rightarrow> berr + string" where
  "wrap pre r = (case r of Inl e \<Rightarrow> Inl e | Inr s \<Rightarrow> Inr (pre @ s @ ''e''))"

primrec encodeValue :: "bval \<Rightarrow> berr + string" where
  "encodeValue (BInt n) = Inr (''i'' @ show_int n @ ''e'')"
| "encodeValue (BStr s) = Inr (enc_string s)"
| "encodeValue (BBytes s) = Inr (enc_string s)"
| "encodeValue (BList vs) = wrap ''l'' (collect (map encodeValue vs))"
| "encodeValue (BDict m) =
     wrap ''d'' (collect (map (enc_entry (map (map_prod (\<lambda>k. k) encodeValue) m)) (sortStrings (map fst m))))"
| "encodeValue BNil = Inr ''0:''"
| "encodeValue (BBool b) = Inl UnsupportedType"
| "encodeValue BOther = Inl UnsupportedType"

definition Encode :: "bval \<Rightarrow> berr + string" where
  "Encode v = encodeValue v"

section \<open>Decoding\<close>

text \<open>Each step gives its result and the bytes it has not read.\<close>

fun read_int :: "string \<Rightarrow> string \<Rightarrow> (berr + string) \<times> string" where
  "read_int acc [] = (Inl UnexpectedEnd, [])"
| "read_int acc (c # cs) = (if c = CHR ''e'' then (Inr acc, cs) else read_int (acc @ [c]) cs)"

definition decodeInteger :: "string \<Rightarrow> (berr + int) \<times> string" where
  "decodeInteger s =
     (case read_int [] s of
        (Inl e, r) \<Rightarrow> (Inl e, r)
      | (Inr ds, r) \<Rightarrow> (case ParseInt64 ds of None \<Rightarrow> (Inl InvalidInteger, r) | Some n \<Rightarrow> (Inr n, r)))"

fun read_len :: "string \<Rightarrow> string \<Rightarrow> (berr + string) \<times> string" where
  "read_len acc [] = (Inl UnexpectedEnd, [])"
| "read_len acc (c # cs) =
     (if c = CHR '':'' then (Inr acc, cs)
      else if \<not> is_digit c then (Inl InvalidString, cs)
      else read_len (acc @ [c]) cs)"

definition decodeString :: "string \<Rightarrow> (berr + string) \<times> string" where
  "decodeString s =
     (case read_len [] s of
        (Inl e, r) \<Rightarrow> (Inl e, r)
      | (Inr ds, r) \<Rightarrow>
         (case ParseInt64 ds of
            None \<Rightarrow> (Inl InvalidString, r)
          | Some n \<Rightarrow> if length r < nat n then (Inl UnexpectedEnd, []) else (Inr (take (nat n) r), drop (nat n) r)))"

text \<open>
  The first argument bounds the number of nested calls. Every call of \<open>decodeValue\<close> that recurses
  reads a byte, so twice the length of the input is enough (\<open>decode_fuel\<close> below).
\<close>

fun decodeValue :: "nat \<Rightarrow> string \<Rightarrow> (berr + bval) \<times> string"
  and decodeList :: "nat \<Rightarrow> bval list \<Rightarrow> string \<Rightarrow> (berr + bval) \<times> string"
  and decodeDict :: "nat \<Rightarrow> (string \<times> bval) list \<Rightarrow> string \<Rightarrow> (berr + bval) \<times> string"
where
  "decodeValue 0 s = (Inl BFuel, s)"
| "decodeValue (Suc n) [] = (Inr BNil, [])"
| "decodeValue (Suc n) (c # s) =
     (if c = CHR ''i'' then (case decodeInteger s of (Inl e, r) \<Rightarrow> (Inl e, r) | (Inr i, r) \<Rightarrow> (Inr (BInt i), r))
      else if c = CHR ''l'' then decodeList n [] s
      else if c = CHR ''d'' then decodeDict n [] s
      else if is_digit c then (case decodeString (c # s) of (Inl e, r) \<Rightarrow> (Inl e, r) | (Inr t, r) \<Rightarrow> (Inr (BStr t), r))
      else (Inl (InvalidBencode c), s))"
| "decodeList 0 acc s = (Inl BFuel, s)"
| "decodeList (Suc n) acc [] = (Inl UnexpectedEnd, [])"
| "decodeList (Suc n) acc (c # s) =
     (if c = CHR ''e'' then (Inr (BList acc), s)
      else case decodeValue n (c # s) of
             (Inl e, r) \<Rightarrow> (Inl e, r)
           | (Inr v, r) \<Rightarrow> decodeList n (acc @ [v]) r)"
| "decodeDict 0 acc s = (Inl BFuel, s)"
| "decodeDict (Suc n) acc [] = (Inl UnexpectedEnd, [])"
| "decodeDict (Suc n) acc (c # s) =
     (if c = CHR ''e'' then (Inr (BDict acc), s)
      else case decodeString (c # s) of
             (Inl e, r) \<Rightarrow> (Inl e, r)
           | (Inr k, r) \<Rightarrow>
              (case decodeValue n r of
                 (Inl e, r') \<Rightarrow> (Inl e, r')
               | (Inr v, r') \<Rightarrow> decodeDict n (gput k v acc) r'))"

definition DecodeBytes :: "string \<Rightarrow> berr + bval" where
  "DecodeBytes b = fst (decodeValue (2 * length b + 1) b)"

text \<open>Typed access to a dictionary.\<close>

definition GetString :: "(string \<times> bval) list \<Rightarrow> string \<Rightarrow> string option" where
  "GetString d k = (case map_of d k of Some (BStr s) \<Rightarrow> Some s | _ \<Rightarrow> None)"

definition GetInt :: "(string \<times> bval) list \<Rightarrow> string \<Rightarrow> int option" where
  "GetInt d k = (case map_of d k of Some (BInt n) \<Rightarrow> Some n | _ \<Rightarrow> None)"

definition GetList :: "(string \<times> bval) list \<Rightarrow> string \<Rightarrow> bval list option" where
  "GetList d k = (case map_of d k of Some (BList l) \<Rightarrow> Some l | _ \<Rightarrow> None)"

definition GetDict :: "(string \<times> bval) list \<Rightarrow> string \<Rightarrow> (string \<times> bval) list option" where
  "GetDict d k = (case map_of d k of Some (BDict m) \<Rightarrow> Some m | _ \<Rightarrow> None)"

section \<open>The decoder always returns\<close>

lemma read_int_shorter: "read_int acc s = (r, rest) \<Longrightarrow> length rest \<le> length s"
  by (induction acc s rule: read_int.induct) (auto split: if_splits)

lemma read_int_fuel: "fst (read_int acc s) \<noteq> Inl BFuel"
  by (induction acc s rule: read_int.induct) auto

lemma decodeInteger_facts: "decodeInteger s = (r, rest) \<Longrightarrow> length rest \<le> length s \<and> r \<noteq> Inl BFuel"
  using read_int_fuel [of "[]" s]
  by (auto simp: decodeInteger_def dest: read_int_shorter split: prod.splits sum.splits option.splits)

lemma read_len_facts: "read_len acc s = (r, rest) \<Longrightarrow> length rest \<le> length s \<and> (s \<noteq> [] \<longrightarrow> length rest < length s) \<and> r \<noteq> Inl BFuel"
  by (induction acc s rule: read_len.induct) (auto split: if_splits)

lemma decodeString_facts:
  assumes "decodeString s = (r, rest)"
  shows "length rest \<le> length s \<and> (s \<noteq> [] \<longrightarrow> length rest < length s) \<and> r \<noteq> Inl BFuel"
proof -
  obtain ds t where dt: "read_len [] s = (ds, t)" by fastforce
  with assms read_len_facts [OF dt] show ?thesis
    by (auto simp: decodeString_def split: sum.splits option.splits if_splits)
qed

lemma decode_shorter:
  "decodeValue n s = (Inr v, rest) \<Longrightarrow> length rest \<le> length s \<and> (s \<noteq> [] \<longrightarrow> length rest < length s)"
  "decodeList n acc s = (Inr v, rest) \<Longrightarrow> length rest < length s"
  "decodeDict n dacc s = (Inr v, rest) \<Longrightarrow> length rest < length s"
proof (induction n s and n acc s and n dacc s arbitrary: v rest and v rest and v rest
    rule: decodeValue_decodeList_decodeDict.induct)
  case (3 n c s)
  then show ?case
    by (auto split: if_splits prod.splits sum.splits dest!: decodeInteger_facts decodeString_facts)
next
  case (6 n acc c s)
  show ?case
  proof (cases "c = CHR ''e''")
    case False
    with "6.prems" obtain w r where w: "decodeValue n (c # s) = (Inr w, r)" "decodeList n (acc @ [w]) r = (Inr v, rest)"
      by (auto split: prod.splits sum.splits)
    have "length r < length (c # s)" using "6.IH"(1) [OF False w(1)] by simp
    with "6.IH"(2) [OF False w(1) [symmetric] refl w(2)] show ?thesis by simp
  qed (use "6.prems" in simp)
next
  case (9 n acc c s)
  show ?case
  proof (cases "c = CHR ''e''")
    case False
    with "9.prems" obtain k r w r' where w: "decodeString (c # s) = (Inr k, r)" "decodeValue n r = (Inr w, r')"
      "decodeDict n (gput k w acc) r' = (Inr v, rest)"
      by (auto split: prod.splits sum.splits)
    have "length r < length (c # s)" using decodeString_facts [OF w(1)] by simp
    moreover have "length r' \<le> length r" using "9.IH"(1) [OF False w(1) [symmetric] refl w(2)] by simp
    ultimately show ?thesis
      using "9.IH"(2) [OF False w(1) [symmetric] refl w(2) [symmetric] refl w(3)] by simp
  qed (use "9.prems" in simp)
qed simp_all

lemma decode_fuel:
  "2 * length s + 1 \<le> n \<Longrightarrow> fst (decodeValue n s) \<noteq> Inl BFuel"
  "2 * length s + 2 \<le> n \<Longrightarrow> fst (decodeList n acc s) \<noteq> Inl BFuel"
  "2 * length s + 2 \<le> n \<Longrightarrow> fst (decodeDict n dacc s) \<noteq> Inl BFuel"
proof (induction n s and n acc s and n dacc s rule: decodeValue_decodeList_decodeDict.induct)
  case (3 n c s)
  then show ?case
    by (auto split: if_splits prod.splits sum.splits dest!: decodeInteger_facts decodeString_facts)
next
  case (6 n acc c s)
  show ?case
  proof (cases "c = CHR ''e''")
    case False
    obtain r rest where w: "decodeValue n (c # s) = (r, rest)" by fastforce
    have v: "r \<noteq> Inl BFuel" using "6.IH"(1) [OF False] "6.prems" w by simp
    show ?thesis
    proof (cases r)
      case (Inl e)
      with w v False show ?thesis by simp
    next
      case (Inr x)
      have "length rest < length (c # s)" using decode_shorter(1) w Inr by fastforce
      then have "fst (decodeList n (acc @ [x]) rest) \<noteq> Inl BFuel"
        using "6.IH"(2) [OF False w [symmetric] Inr] "6.prems" by simp
      with w Inr False show ?thesis by simp
    qed
  qed simp
next
  case (9 n acc c s)
  show ?case
  proof (cases "c = CHR ''e''")
    case False
    obtain k rest where w: "decodeString (c # s) = (k, rest)" by fastforce
    note kf = decodeString_facts [OF w]
    show ?thesis
    proof (cases k)
      case (Inl e)
      with w kf False show ?thesis by simp
    next
      case (Inr x)
      obtain r rest' where v: "decodeValue n rest = (r, rest')" by fastforce
      have vf: "r \<noteq> Inl BFuel" using "9.IH"(1) [OF False w [symmetric] Inr] kf "9.prems" v by simp
      show ?thesis
      proof (cases r)
        case (Inl e)
        with w v vf \<open>k = Inr x\<close> False show ?thesis by simp
      next
        case (Inr y)
        have "length rest' \<le> length rest" using decode_shorter(1) v Inr by fastforce
        then have "fst (decodeDict n (gput x y acc) rest') \<noteq> Inl BFuel"
          using "9.IH"(2) [OF False w [symmetric] \<open>k = Inr x\<close> v [symmetric] Inr] kf "9.prems" by simp
        with w v \<open>k = Inr x\<close> Inr False show ?thesis by simp
      qed
    qed
  qed simp
qed simp_all


section \<open>Round trip\<close>

text \<open>
  What the decoder makes of an encoded value: byte slices come back as strings, \<open>nil\<close> as the empty
  string, and dictionaries in key order.
\<close>

primrec decoded :: "bval \<Rightarrow> bval" where
  "decoded (BInt n) = BInt n"
| "decoded (BStr s) = BStr s"
| "decoded (BBytes s) = BStr s"
| "decoded (BList vs) = BList (map decoded vs)"
| "decoded (BDict m) =
     BDict (map (\<lambda>k. (k, the (map_of (map (map_prod (\<lambda>k. k) decoded) m) k))) (sortStrings (map fst m)))"
| "decoded BNil = BStr []"
| "decoded (BBool b) = BBool b"
| "decoded BOther = BOther"

text \<open>Values that can be sent: int64 numbers, strings whose length is an int, distinct keys.\<close>

primrec encodable :: "bval \<Rightarrow> bool" where
  "encodable (BInt n) \<longleftrightarrow> - (2 ^ 63) \<le> n \<and> n < 2 ^ 63"
| "encodable (BStr s) \<longleftrightarrow> length s < 2 ^ 63"
| "encodable (BBytes s) \<longleftrightarrow> length s < 2 ^ 63"
| "encodable (BList vs) \<longleftrightarrow> list_all (\<lambda>b. b) (map encodable vs)"
| "encodable (BDict m) \<longleftrightarrow> distinct (map fst m) \<and> list_all (\<lambda>p. length (fst p) < 2 ^ 63 \<and> snd p) (map (map_prod (\<lambda>k. k) encodable) m)"
| "encodable BNil \<longleftrightarrow> True"
| "encodable (BBool b) \<longleftrightarrow> False"
| "encodable BOther \<longleftrightarrow> False"

lemma encodable_list: "encodable (BList vs) \<longleftrightarrow> (\<forall>v \<in> set vs. encodable v)"
  by (simp add: list_all_iff)

lemma encodable_dict: "encodable (BDict m) \<longleftrightarrow> distinct (map fst m) \<and> (\<forall>(k, v) \<in> set m. length k < 2 ^ 63 \<and> encodable v)"
  by (auto simp: list_all_iff)

declare encodable.simps(4,5) [simp del]
declare encodable_list [simp] encodable_dict [simp]

lemma read_len_digits:
  "list_all is_digit ds \<Longrightarrow> read_len acc (ds @ CHR '':'' # r) = (Inr (acc @ ds), r)"
proof (induction ds arbitrary: acc)
  case (Cons d ds)
  then have "d \<noteq> CHR '':''" by (auto simp: is_digit_def)
  with Cons show ?case by simp
qed simp

lemma show_nat_list_all: "list_all is_digit (show_nat n)"
  by (simp add: list_all_iff show_nat_digits)

lemma ParseInt64_show_nat: "n < 2 ^ 63 \<Longrightarrow> ParseInt64 (show_nat n) = Some (int n)"
  using ParseInt64_show_int [of "int n"] by (simp add: show_int_def)

lemma decodeString_enc:
  assumes "length s < 2 ^ 63"
  shows "decodeString (enc_string s @ rest) = (Inr s, rest)"
proof -
  have "read_len [] (enc_string s @ rest) = (Inr (show_nat (length s)), s @ rest)"
    using read_len_digits [OF show_nat_list_all, of "[]" "length s" "s @ rest"] by (simp add: enc_string_def)
  with ParseInt64_show_nat [OF assms] show ?thesis by (simp add: decodeString_def)
qed

lemma read_int_plain: "CHR ''e'' \<notin> set ds \<Longrightarrow> read_int acc (ds @ CHR ''e'' # r) = (Inr (acc @ ds), r)"
  by (induction ds arbitrary: acc) auto

lemma show_int_no_e: "CHR ''e'' \<notin> set (show_int n)"
  using show_nat_digits [of "CHR ''e''"] by (auto simp: show_int_def is_digit_def)

lemma decodeInteger_enc:
  assumes "- (2 ^ 63) \<le> n" and "n < 2 ^ 63"
  shows "decodeInteger (show_int n @ CHR ''e'' # rest) = (Inr n, rest)"
  using read_int_plain [OF show_int_no_e, of "[]" n rest] ParseInt64_show_int [OF assms]
  by (simp add: decodeInteger_def)

lemma enc_string_head: "\<exists>c r. enc_string s = c # r \<and> is_digit c"
proof -
  obtain c r where "show_nat (length s) = c # r" by (cases "show_nat (length s)") auto
  then show ?thesis using show_nat_digits [of c "length s"] by (simp add: enc_string_def)
qed

lemma is_digit_letters: "is_digit c \<Longrightarrow> c \<noteq> CHR ''e'' \<and> c \<noteq> CHR ''i'' \<and> c \<noteq> CHR ''l'' \<and> c \<noteq> CHR ''d''"
  by (auto simp: is_digit_def)

lemma encodeValue_head:
  assumes "encodeValue v = Inr e"
  shows "\<exists>c r. e = c # r \<and> c \<noteq> CHR ''e''"
proof -
  have str: "\<exists>c. (\<exists>r. enc_string s = c # r) \<and> c \<noteq> CHR ''e''" for s using enc_string_head [of s] is_digit_letters by blast
  from assms show ?thesis by (cases v) (auto simp: wrap_def str split: sum.splits)
qed

lemma decodeValue_string:
  assumes "length s < 2 ^ 63"
  shows "decodeValue (Suc n) (enc_string s @ rest) = (Inr (BStr s), rest)"
proof -
  obtain c r where c: "enc_string s = c # r" "is_digit c" using enc_string_head by blast
  then have "decodeString (c # (r @ rest)) = (Inr s, rest)" using decodeString_enc [OF assms, of rest] by simp
  with c is_digit_letters [OF c(2)] show ?thesis by simp
qed

lemma collect_Inr_Cons: "collect (r # rs) = Inr t \<longleftrightarrow> (\<exists>a b. r = Inr a \<and> collect rs = Inr b \<and> t = a @ b)"
  by (cases r) (auto split: sum.splits)

lemma decodeList_enc:
  assumes IH: "\<And>v n e r. v \<in> set vs \<Longrightarrow> encodeValue v = Inr e \<Longrightarrow> 2 * length (e @ r) + 1 \<le> n \<Longrightarrow>
      decodeValue n (e @ r) = (Inr (decoded v), r)"
  shows "collect (map encodeValue vs) = Inr t \<Longrightarrow> 2 * length (t @ CHR ''e'' # rest) + 2 \<le> n \<Longrightarrow>
    decodeList n acc (t @ CHR ''e'' # rest) = (Inr (BList (acc @ map decoded vs)), rest)"
  using IH
proof (induction vs arbitrary: t n acc)
  case Nil
  then show ?case by (cases n) auto
next
  case (Cons v vs)
  obtain a b where ab: "encodeValue v = Inr a" "collect (map encodeValue vs) = Inr b" "t = a @ b"
    using Cons.prems(1) by (auto simp: collect_Inr_Cons)
  obtain c r where c: "a = c # r" "c \<noteq> CHR ''e''" using encodeValue_head [OF ab(1)] by blast
  obtain n' where n: "n = Suc n'" using Cons.prems(2) by (cases n) auto
  have v: "decodeValue n' (a @ (b @ CHR ''e'' # rest)) = (Inr (decoded v), b @ CHR ''e'' # rest)"
    using Cons.prems(2,3) ab n by simp
  have "decodeList n' (acc @ [decoded v]) (b @ CHR ''e'' # rest) = (Inr (BList ((acc @ [decoded v]) @ map decoded vs)), rest)"
    using Cons.prems ab c n by (intro Cons.IH [OF ab(2)]) auto
  with v c ab n show ?case by simp
qed

lemma gput_new: "k \<notin> set (map fst m) \<Longrightarrow> gput k v m = m @ [(k, v)]"
  by (induction m) auto

lemma key_lookup: "k \<in> set (map fst m) \<Longrightarrow> \<exists>v. map_of m k = Some v"
  by (induction m) auto

lemma map_of_tabulate: "k \<in> set ks \<Longrightarrow> map_of (map (\<lambda>k. (k, f k)) ks) k = Some (f k)"
  by (induction ks) auto

lemma map_of_map_prod: "map_of (map (map_prod (\<lambda>k. k) f) m) k = map_option f (map_of m k)"
  by (induction m) auto

lemma decodeDict_enc:
  assumes IH: "\<And>k v n e r. (k, v) \<in> set m \<Longrightarrow> encodeValue v = Inr e \<Longrightarrow> 2 * length (e @ r) + 1 \<le> n \<Longrightarrow>
      decodeValue n (e @ r) = (Inr (decoded v), r)"
    and len: "\<And>k. k \<in> set ks \<Longrightarrow> length k < 2 ^ 63"
  shows "set ks \<subseteq> set (map fst m) \<Longrightarrow> distinct ks \<Longrightarrow> set ks \<inter> set (map fst acc) = {} \<Longrightarrow>
    collect (map (enc_entry (map (map_prod (\<lambda>k. k) encodeValue) m)) ks) = Inr t \<Longrightarrow>
    2 * length (t @ CHR ''e'' # rest) + 2 \<le> n \<Longrightarrow>
    decodeDict n acc (t @ CHR ''e'' # rest) =
      (Inr (BDict (acc @ map (\<lambda>k. (k, the (map_of (map (map_prod (\<lambda>k. k) decoded) m) k))) ks)), rest)"
  using len
proof (induction ks arbitrary: t n acc)
  case Nil
  then show ?case by (cases n) auto
next
  case (Cons k ks)
  have "k \<in> set (map fst m)" using Cons.prems(1) by simp
  from key_lookup [OF this] obtain v where kv: "map_of m k = Some v" ..
  then have mem: "(k, v) \<in> set m" by (rule map_of_SomeD)
  have e: "enc_entry (map (map_prod (\<lambda>k. k) encodeValue) m) k =
      (case encodeValue v of Inl e \<Rightarrow> Inl e | Inr s \<Rightarrow> Inr (enc_string k @ s))"
    using kv by (simp add: enc_entry_def map_of_map_prod)
  obtain a b where ab: "encodeValue v = Inr a" "collect (map (enc_entry (map (map_prod (\<lambda>k. k) encodeValue) m)) ks) = Inr b"
    "t = enc_string k @ a @ b"
    using Cons.prems(4) e by (auto simp: collect_Inr_Cons split: sum.splits)
  obtain c r where c: "enc_string k = c # r" "is_digit c" using enc_string_head by blast
  obtain n' where n: "n = Suc n'" using Cons.prems(5) by (cases n) auto
  have s: "decodeString (c # (r @ a @ b @ CHR ''e'' # rest)) = (Inr k, a @ b @ CHR ''e'' # rest)"
    using decodeString_enc [of k "a @ b @ CHR ''e'' # rest"] Cons.prems(6) [of k] c by simp
  have v: "decodeValue n' (a @ (b @ CHR ''e'' # rest)) = (Inr (decoded v), b @ CHR ''e'' # rest)"
    using Cons.prems(5) ab n c by (intro IH [OF mem ab(1)]) simp
  have g: "gput k (decoded v) acc = acc @ [(k, decoded v)]" using Cons.prems(3) by (intro gput_new) auto
  have "decodeDict n' (acc @ [(k, decoded v)]) (b @ CHR ''e'' # rest) =
      (Inr (BDict ((acc @ [(k, decoded v)]) @ map (\<lambda>k. (k, the (map_of (map (map_prod (\<lambda>k. k) decoded) m) k))) ks)), rest)"
    using Cons.prems ab c n by (intro Cons.IH) auto
  with s v g c ab n kv is_digit_letters [OF c(2)] show ?case by (simp add: map_of_map_prod)
qed

lemma decode_encode:
  "encodable v \<Longrightarrow> encodeValue v = Inr e \<Longrightarrow> 2 * length (e @ rest) + 1 \<le> n \<Longrightarrow>
   decodeValue n (e @ rest) = (Inr (decoded v), rest)"
proof (induction v arbitrary: e rest n)
  case (BInt i)
  then show ?case using decodeInteger_enc [of i rest] by (cases n) auto
next
  case (BStr s)
  then show ?case using decodeValue_string [of s _ rest] by (cases n) auto
next
  case (BBytes s)
  then show ?case using decodeValue_string [of s _ rest] by (cases n) auto
next
  case (BList vs)
  obtain t where t: "collect (map encodeValue vs) = Inr t" "e = ''l'' @ t @ ''e''"
    using BList.prems(2) by (auto simp: wrap_def split: sum.splits)
  obtain n' where n: "n = Suc n'" using BList.prems(3) by (cases n) auto
  have "decodeList n' [] (t @ CHR ''e'' # rest) = (Inr (BList ([] @ map decoded vs)), rest)"
    using BList t n by (intro decodeList_enc [OF _ t(1)]) auto
  with t n show ?case by simp
next
  case (BDict m)
  let ?ks = "sortStrings (map fst m)"
  have ks: "set ?ks = set (map fst m)" "distinct ?ks" using BDict.prems(1) by (simp_all add: sortStrings_sort)
  obtain t where t: "collect (map (enc_entry (map (map_prod (\<lambda>k. k) encodeValue) m)) ?ks) = Inr t" "e = ''d'' @ t @ ''e''"
    using BDict.prems(2) by (auto simp: wrap_def split: sum.splits)
  obtain n' where n: "n = Suc n'" using BDict.prems(3) by (cases n) auto
  have "decodeDict n' [] (t @ CHR ''e'' # rest) =
      (Inr (BDict ([] @ map (\<lambda>k. (k, the (map_of (map (map_prod (\<lambda>k. k) decoded) m) k))) ?ks)), rest)"
  proof (rule decodeDict_enc [OF _ _ _ ks(2) _ t(1)])
    show "decodeValue n (e @ r) = (Inr (decoded v), r)"
      if "(k, v) \<in> set m" "encodeValue v = Inr e" "2 * length (e @ r) + 1 \<le> n" for k v n e r
      using that BDict.prems(1) by (intro BDict.IH [of "(k, v)"]) auto
    show "length k < 2 ^ 63" if "k \<in> set ?ks" for k
      using that ks(1) BDict.prems(1) by auto
  qed (use ks BDict.prems(3) t n in auto)
  with t n show ?case by simp
next
  case BNil
  have "decodeValue n (enc_string [] @ rest) = (Inr (BStr []), rest)"
    using decodeValue_string [of "[]" _ rest] BNil.prems(3) by (cases n) auto
  moreover have "enc_string [] = ''0:''" by code_simp
  moreover have "e = ''0:''" using BNil.prems(2) by simp
  ultimately show ?case by simp
qed auto

lemma collect_all: "(\<And>r. r \<in> set rs \<Longrightarrow> \<exists>s. r = Inr s) \<Longrightarrow> \<exists>t. collect rs = Inr t"
proof (induction rs)
  case (Cons r rs)
  then obtain a b where "r = Inr a" "collect rs = Inr b" by (metis list.set_intros)
  then show ?case by simp
qed simp

lemma encodable_encodes: "encodable v \<Longrightarrow> \<exists>e. encodeValue v = Inr e"
proof (induction v)
  case (BList vs)
  then have "\<exists>t. collect (map encodeValue vs) = Inr t" by (intro collect_all) auto
  then show ?case by (auto simp: wrap_def)
next
  case (BDict m)
  have "\<exists>t. collect (map (enc_entry (map (map_prod (\<lambda>k. k) encodeValue) m)) (sortStrings (map fst m))) = Inr t"
  proof (rule collect_all)
    fix r assume "r \<in> set (map (enc_entry (map (map_prod (\<lambda>k. k) encodeValue) m)) (sortStrings (map fst m)))"
    then obtain k where k: "r = enc_entry (map (map_prod (\<lambda>k. k) encodeValue) m) k" by auto
    show "\<exists>s. r = Inr s"
    proof (cases "map_of m k")
      case (Some v)
      then have mem: "(k, v) \<in> set m" by (rule map_of_SomeD)
      then have "encodable v" using BDict.prems by auto
      then obtain e where "encodeValue v = Inr e" using BDict.IH [OF mem, of v] by auto
      then show ?thesis using Some k by (simp add: enc_entry_def map_of_map_prod)
    qed (simp add: k enc_entry_def map_of_map_prod)
  qed
  then show ?case by (auto simp: wrap_def)
qed auto

lemma DecodeBytes_encode: "encodable v \<Longrightarrow> Encode v = Inr e \<Longrightarrow> DecodeBytes e = Inr (decoded v)"
  using decode_encode [of v e "[]"] by (simp add: DecodeBytes_def Encode_def)

text \<open>The decoder's view of a value is encodable and encodes to the same bytes.\<close>

lemma encodable_decoded: "encodable v \<Longrightarrow> encodable (decoded v)"
proof (induction v)
  case (BDict m)
  let ?ks = "sortStrings (map fst m)"
  have d: "distinct ?ks" "set ?ks = set (map fst m)" using BDict.prems by (simp_all add: sortStrings_sort)
  have "length k < 2 ^ 63 \<and> encodable (the (map_of (map (map_prod (\<lambda>k. k) decoded) m) k))" if "k \<in> set ?ks" for k
  proof -
    have "k \<in> set (map fst m)" using that unfolding d(2) .
    from key_lookup [OF this] obtain v where kv: "map_of m k = Some v" ..
    then have mem: "(k, v) \<in> set m" by (rule map_of_SomeD)
    then have "length k < 2 ^ 63" "encodable v" using BDict.prems by auto
    with BDict.IH [OF mem, of v] kv show ?thesis by (simp add: map_of_map_prod)
  qed
  with d(1) show ?case by (simp add: comp_def)
qed auto

lemma encode_decoded: "encodable v \<Longrightarrow> encodeValue (decoded v) = encodeValue v"
proof (induction v)
  case (BList vs)
  then have "map (encodeValue \<circ> decoded) vs = map encodeValue vs" by auto
  then show ?case by (simp only: encodeValue.simps decoded.simps list.map_comp)
next
  case (BDict m)
  let ?ks = "sortStrings (map fst m)"
  let ?m = "map (\<lambda>k. (k, the (map_of (map (map_prod (\<lambda>k. k) decoded) m) k))) ?ks"
  have d: "distinct ?ks" "set ?ks = set (map fst m)" "sorted ?ks" using BDict.prems by (simp_all add: sortStrings_sort)
  have f: "map fst ?m = ?ks" by (simp add: comp_def)
  have s: "sortStrings ?ks = ?ks" using d(3) by (simp add: sortStrings_sort sorted_sort_id)
  have "enc_entry (map (map_prod (\<lambda>k. k) encodeValue) ?m) k = enc_entry (map (map_prod (\<lambda>k. k) encodeValue) m) k"
    if "k \<in> set ?ks" for k
  proof -
    have "k \<in> set (map fst m)" using that unfolding d(2) .
    from key_lookup [OF this] obtain v where kv: "map_of m k = Some v" ..
    then have mem: "(k, v) \<in> set m" by (rule map_of_SomeD)
    have "map_of ?m k = Some (decoded v)" unfolding map_of_tabulate [OF that] using kv by (simp add: map_of_map_prod)
    moreover have "encodeValue (decoded v) = encodeValue v" using BDict.IH [OF mem, of v] BDict.prems mem by auto
    ultimately show ?thesis using kv unfolding enc_entry_def map_of_map_prod by simp
  qed
  then have "map (enc_entry (map (map_prod (\<lambda>k. k) encodeValue) ?m)) ?ks = map (enc_entry (map (map_prod (\<lambda>k. k) encodeValue) m)) ?ks"
    by (intro map_cong) auto
  then show ?case by (simp only: decoded.simps encodeValue.simps f s)
next
  case BNil
  have "enc_string [] = ''0:''" by code_simp
  then show ?case by simp
qed auto

section \<open>Properties\<close>

text \<open>the decoder always returns: with the fuel that \<open>DecodeBytes\<close> gives it, it ends with a value
  or with one of the code's errors, on every input.\<close>

theorem bencode_decoder_total: "DecodeBytes b \<noteq> Inl BFuel"
  unfolding DecodeBytes_def by (rule decode_fuel(1)) simp

text \<open>encoding and decoding: a value of int64 numbers, strings, byte slices, \<open>nil\<close>, lists and
  dictionaries encodes; the bytes decode, with nothing left over, to the value with byte slices
  read as strings, \<open>nil\<close> as the empty string and keys in order; and that value encodes to the same
  bytes again.\<close>

theorem bencode_round_trip:
  assumes "encodable v"
  shows "\<exists>e. Encode v = Inr e \<and> DecodeBytes e = Inr (decoded v) \<and> Encode (decoded v) = Inr e"
proof -
  obtain e where e: "Encode v = Inr e" using encodable_encodes [OF assms] by (auto simp: Encode_def)
  then show ?thesis
    using DecodeBytes_encode [OF assms] encode_decoded [OF assms] by (auto simp: Encode_def)
qed

text \<open>the encoder's own exchange sort is sorting.\<close>

theorem sortStrings_sorts: "sortStrings (keys :: string list) = sort keys"
  by (rule sortStrings_sort)

theorem bencode_round_trip_witness:
  "\<exists>e. Encode (BDict [(''b'', BNil), (''a'', BList [BInt (-5), BBytes ''x''])]) = Inr e \<and>
     DecodeBytes e = Inr (BDict [(''a'', BList [BInt (-5), BStr ''x'']), (''b'', BStr [])])"
proof -
  have "encodable (BDict [(''b'', BNil), (''a'', BList [BInt (-5), BBytes ''x''])])" by simp
  moreover have "decoded (BDict [(''b'', BNil), (''a'', BList [BInt (-5), BBytes ''x''])]) =
    BDict [(''a'', BList [BInt (-5), BStr ''x'']), (''b'', BStr [])]" by code_simp
  ultimately show ?thesis using bencode_round_trip by metis
qed

end
