(* ===== verification/Bendy.thy ===== *)
theory Bendy
  imports Bencode
begin

text \<open>
  \<open>internal/ssb/bfe/bfe.go\<close>, the binary field encodings (a type byte, a format byte, the data), and
  \<open>internal/ssb/message/bendy/message.go\<close>, BendyButt messages built from them and from bencode. The
  signature scheme and the hash are library code and arguments here.
\<close>

section \<open>Binary field encodings\<close>

datatype bfe_error = InvalidBFE | InvalidFormat

definition TypeFeed :: char where "TypeFeed = CHR 0x00"
definition TypeMessage :: char where "TypeMessage = CHR 0x01"
definition TypeBlob :: char where "TypeBlob = CHR 0x02"
definition TypeSignature :: char where "TypeSignature = CHR 0x04"
definition TypeGeneric :: char where "TypeGeneric = CHR 0x06"

definition FeedFormatCodes :: "(string \<times> char) list" where
  "FeedFormatCodes = [(''ed25519'', CHR 0x00), (''gabbygrove-v1'', CHR 0x01), (''bamboo'', CHR 0x02),
     (''bendybutt-v1'', CHR 0x03), (''buttwoo-v1'', CHR 0x04), (''indexed-v1'', CHR 0x05)]"

definition FeedFormatCodesReverse :: "(char \<times> string) list" where
  "FeedFormatCodesReverse = [(CHR 0x00, ''ed25519''), (CHR 0x01, ''gabbygrove-v1''), (CHR 0x02, ''bamboo''),
     (CHR 0x03, ''bendybutt-v1''), (CHR 0x04, ''buttwoo-v1''), (CHR 0x05, ''indexed-v1'')]"

definition MessageFormatCodes :: "(string \<times> char) list" where
  "MessageFormatCodes = [(''sha256'', CHR 0x00), (''gabbygrove-v1'', CHR 0x01), (''cloaked'', CHR 0x02),
     (''bamboo'', CHR 0x03), (''bendybutt-v1'', CHR 0x04), (''buttwoo-v1'', CHR 0x05), (''indexed-v1'', CHR 0x06)]"

definition MessageFormatCodesReverse :: "(char \<times> string) list" where
  "MessageFormatCodesReverse = [(CHR 0x00, ''sha256''), (CHR 0x01, ''gabbygrove-v1''), (CHR 0x02, ''cloaked''),
     (CHR 0x03, ''bamboo''), (CHR 0x04, ''bendybutt-v1''), (CHR 0x05, ''buttwoo-v1''), (CHR 0x06, ''indexed-v1'')]"

definition GenericFormatCodes :: "(string \<times> char) list" where
  "GenericFormatCodes = [(''string-UTF8'', CHR 0x00), (''boolean'', CHR 0x01), (''nil'', CHR 0x02), (''any-bytes'', CHR 0x03)]"

text \<open>Indexing a Go map gives the zero value for a missing key.\<close>

definition code_of :: "(string \<times> char) list \<Rightarrow> string \<Rightarrow> char" where
  "code_of m k = (case map_of m k of None \<Rightarrow> CHR 0x00 | Some c \<Rightarrow> c)"

definition EncodeFeed :: "string \<Rightarrow> string \<Rightarrow> string" where
  "EncodeFeed algo pubKey =
     (let formatCode = code_of FeedFormatCodes algo;
          formatCode = (if formatCode = CHR 0x00 \<and> algo \<noteq> ''ed25519'' then CHR 0x00 else formatCode)
      in [TypeFeed, formatCode] @ pubKey)"

definition DecodeFeed :: "string \<Rightarrow> bfe_error + string \<times> string" where
  "DecodeFeed b =
     (if length b < 34 then Inl InvalidBFE
      else if b ! 0 \<noteq> TypeFeed then Inl InvalidBFE
      else case map_of FeedFormatCodesReverse (b ! 1) of
             None \<Rightarrow> Inl InvalidFormat
           | Some algo \<Rightarrow> Inr (algo, take 32 (drop 2 b)))"

definition EncodeMessage :: "string \<Rightarrow> string \<Rightarrow> string" where
  "EncodeMessage algo hash =
     (let formatCode = code_of MessageFormatCodes algo;
          formatCode = (if formatCode = CHR 0x00 \<and> algo \<noteq> ''sha256'' then CHR 0x00 else formatCode)
      in [TypeMessage, formatCode] @ hash)"

definition DecodeMessage :: "string \<Rightarrow> bfe_error + string \<times> string" where
  "DecodeMessage b =
     (if length b < 34 then Inl InvalidBFE
      else if b ! 0 \<noteq> TypeMessage then Inl InvalidBFE
      else case map_of MessageFormatCodesReverse (b ! 1) of
             None \<Rightarrow> Inl InvalidFormat
           | Some algo \<Rightarrow> Inr (algo, take 32 (drop 2 b)))"

definition EncodeBlob :: "string \<Rightarrow> string" where
  "EncodeBlob hash = [TypeBlob, CHR 0x00] @ hash"

definition DecodeBlob :: "string \<Rightarrow> bfe_error + string" where
  "DecodeBlob b =
     (if length b < 34 then Inl InvalidBFE
      else if b ! 0 \<noteq> TypeBlob then Inl InvalidBFE
      else if b ! 1 \<noteq> CHR 0x00 then Inl InvalidFormat
      else Inr (take 32 (drop 2 b)))"

definition EncodeSignature :: "string \<Rightarrow> string" where
  "EncodeSignature sig = [TypeSignature, CHR 0x00] @ sig"

definition DecodeSignature :: "string \<Rightarrow> bfe_error + string" where
  "DecodeSignature b =
     (if length b < 66 then Inl InvalidBFE
      else if b ! 0 \<noteq> TypeSignature then Inl InvalidBFE
      else if b ! 1 \<noteq> CHR 0x00 then Inl InvalidFormat
      else Inr (take 64 (drop 2 b)))"

definition EncodeNil :: string where "EncodeNil = [TypeGeneric, CHR 0x02]"

definition bfe_EncodeString :: "string \<Rightarrow> string" where
  "bfe_EncodeString s = [TypeGeneric, code_of GenericFormatCodes ''string-UTF8''] @ s"

definition bfe_DecodeString :: "string \<Rightarrow> bfe_error + string" where
  "bfe_DecodeString b =
     (if length b < 2 then Inl InvalidBFE
      else if b ! 0 \<noteq> TypeGeneric \<or> b ! 1 \<noteq> code_of GenericFormatCodes ''string-UTF8'' then Inl InvalidFormat
      else Inr (drop 2 b))"

section \<open>BendyButt messages\<close>

datatype bendy_error =
    BInvalidMessage | BInvalidSequence | BInvalidAuthor | BInvalidPrevious | BInvalidTimestamp
  | BMessageTooLarge | BInvalidContent | BInvalidSignature | BEncode berr

definition MaxMessageSize :: nat where "MaxMessageSize = 8192"
definition bendySignPrefix :: string where "bendySignPrefix = ''bendybutt''"
definition bendyFeedFormatCode :: char where "bendyFeedFormatCode = code_of FeedFormatCodes ''bendybutt-v1''"
definition bendyMessageFormatCode :: char where "bendyMessageFormatCode = code_of MessageFormatCodes ''bendybutt-v1''"

record BendyMessage =
  Author :: string
  Sequence :: int
  Previous :: string
  Timestamp :: int
  ContentSection :: "bval list"
  Signature :: string

definition isBFENil :: "string \<Rightarrow> bool" where
  "isBFENil v \<longleftrightarrow> length v = length EncodeNil \<and> v ! 0 = EncodeNil ! 0 \<and> v ! 1 = EncodeNil ! 1"

definition Validate :: "BendyMessage \<Rightarrow> bendy_error option" where
  "Validate m =
     (if Sequence m < 1 then Some BInvalidSequence
      else if length (Author m) \<noteq> 34 \<or> Author m ! 0 \<noteq> TypeFeed \<or> Author m ! 1 \<noteq> bendyFeedFormatCode then Some BInvalidAuthor
      else if (if Sequence m = 1 then \<not> isBFENil (Previous m)
               else length (Previous m) \<noteq> 34 \<or> Previous m ! 0 \<noteq> TypeMessage \<or> Previous m ! 1 \<noteq> bendyMessageFormatCode)
        then Some BInvalidPrevious
      else if Timestamp m < 0 then Some BInvalidTimestamp
      else if length (ContentSection m) \<noteq> 2 then Some BInvalidContent
      else None)"

definition bendy_payload :: "BendyMessage \<Rightarrow> bval" where
  "bendy_payload m =
     BList [BBytes (Author m), BInt (Sequence m), BBytes (Previous m), BInt (Timestamp m), BList (ContentSection m)]"

definition ToBencode :: "BendyMessage \<Rightarrow> bval" where
  "ToBencode m = BList [bendy_payload m, BBytes (Signature m)]"

definition EncodeBendy :: "BendyMessage \<Rightarrow> bendy_error + string" where
  "EncodeBendy m =
     (case Encode (ToBencode m) of
        Inl e \<Rightarrow> Inl (BEncode e)
      | Inr b \<Rightarrow> if length b > MaxMessageSize then Inl BMessageTooLarge else Inr b)"

definition Key :: "(string \<Rightarrow> string) \<Rightarrow> BendyMessage \<Rightarrow> bendy_error + string" where
  "Key sha m =
     (case Encode (ToBencode m) of
        Inl e \<Rightarrow> Inl (BEncode e)
      | Inr b \<Rightarrow> if length b > MaxMessageSize then Inl BMessageTooLarge else Inr (sha b))"

definition Sign :: "(string \<Rightarrow> string \<Rightarrow> string) \<Rightarrow> string \<Rightarrow> BendyMessage \<Rightarrow> bendy_error + BendyMessage" where
  "Sign sign kp m =
     (if length (ContentSection m) \<noteq> 2 then Inl BInvalidContent
      else case Encode (ContentSection m ! 0) of
        Inl e \<Rightarrow> Inl (BEncode e)
      | Inr contentBytes \<Rightarrow>
         (let m = m\<lparr>ContentSection := (ContentSection m)[1 := BBytes (EncodeSignature (sign kp (bendySignPrefix @ contentBytes)))]\<rparr>
          in case Encode (bendy_payload m) of
               Inl e \<Rightarrow> Inl (BEncode e)
             | Inr payloadBytes \<Rightarrow> Inr (m\<lparr>Signature := EncodeSignature (sign kp payloadBytes)\<rparr>)))"

definition asBytes :: "bval \<Rightarrow> string option" where
  "asBytes v = (case v of BBytes b \<Rightarrow> Some b | BStr s \<Rightarrow> Some s | _ \<Rightarrow> None)"

definition Verify :: "(string \<Rightarrow> string \<Rightarrow> string \<Rightarrow> bool) \<Rightarrow> BendyMessage \<Rightarrow> bendy_error option" where
  "Verify verify m =
     (case Validate m of Some e \<Rightarrow> Some e
      | None \<Rightarrow>
        (let authorPubKey = take 32 (drop 2 (Author m))
         in case asBytes (ContentSection m ! 1) of None \<Rightarrow> Some BInvalidSignature
            | Some contentSigField \<Rightarrow>
              (case DecodeSignature contentSigField of Inl _ \<Rightarrow> Some BInvalidSignature
               | Inr contentSig \<Rightarrow>
                 (case Encode (ContentSection m ! 0) of Inl e \<Rightarrow> Some (BEncode e)
                  | Inr contentBytes \<Rightarrow>
                    if \<not> verify authorPubKey (bendySignPrefix @ contentBytes) contentSig then Some BInvalidSignature
                    else case DecodeSignature (Signature m) of Inl _ \<Rightarrow> Some BInvalidSignature
                         | Inr payloadSig \<Rightarrow>
                           (case Encode (bendy_payload m) of Inl e \<Rightarrow> Some (BEncode e)
                            | Inr payloadBytes \<Rightarrow>
                              if \<not> verify authorPubKey payloadBytes payloadSig then Some BInvalidSignature else None)))))"

primrec convertStringsToBytes :: "bval \<Rightarrow> bval" where
  "convertStringsToBytes (BStr s) = BBytes s"
| "convertStringsToBytes (BList vs) = BList (map convertStringsToBytes vs)"
| "convertStringsToBytes (BDict m) = BDict (map (map_prod (\<lambda>k. k) convertStringsToBytes) m)"
| "convertStringsToBytes (BInt n) = BInt n"
| "convertStringsToBytes (BBytes s) = BBytes s"
| "convertStringsToBytes BNil = BNil"
| "convertStringsToBytes (BBool b) = BBool b"
| "convertStringsToBytes BOther = BOther"

definition from_payload :: "string \<Rightarrow> bval list \<Rightarrow> bendy_error + BendyMessage" where
  "from_payload sig payload =
     (if length payload \<noteq> 5 then Inl BInvalidMessage
      else case asBytes (payload ! 0) of None \<Rightarrow> Inl BInvalidAuthor
      | Some author \<Rightarrow>
       (case payload ! 1 of BInt seq \<Rightarrow>
         (case (asBytes (payload ! 2), payload ! 2) of
            (None, v) \<Rightarrow> if v \<noteq> BNil then Inl BInvalidPrevious else
              (case payload ! 3 of BInt ts \<Rightarrow>
                 (case payload ! 4 of BList cs \<Rightarrow>
                    Inr \<lparr>Author = author, Sequence = seq, Previous = [], Timestamp = ts,
                         ContentSection = map convertStringsToBytes cs, Signature = sig\<rparr>
                  | _ \<Rightarrow> Inl BInvalidContent)
               | _ \<Rightarrow> Inl BInvalidTimestamp)
          | (Some prev, _) \<Rightarrow>
              (case payload ! 3 of BInt ts \<Rightarrow>
                 (case payload ! 4 of BList cs \<Rightarrow>
                    Inr \<lparr>Author = author, Sequence = seq, Previous = prev, Timestamp = ts,
                         ContentSection = map convertStringsToBytes cs, Signature = sig\<rparr>
                  | _ \<Rightarrow> Inl BInvalidContent)
               | _ \<Rightarrow> Inl BInvalidTimestamp))
        | _ \<Rightarrow> Inl BInvalidSequence))"

definition FromStoredMessage :: "string \<Rightarrow> bendy_error + BendyMessage" where
  "FromStoredMessage encoded =
     (case DecodeBytes encoded of
        Inl e \<Rightarrow> Inl (BEncode e)
      | Inr (BList list) \<Rightarrow>
         (if length list \<noteq> 2 then Inl BInvalidMessage
          else case list ! 0 of
            BList payload \<Rightarrow>
             (case asBytes (list ! 1) of None \<Rightarrow> Inl BInvalidSignature | Some sig \<Rightarrow> from_payload sig payload)
          | _ \<Rightarrow> Inl BInvalidMessage)
      | Inr _ \<Rightarrow> Inl BInvalidMessage)"

primrec encodeValueToBFE :: "bval \<Rightarrow> bval" where
  "encodeValueToBFE (BStr s) = BBytes (drop 2 (bfe_EncodeString s))"
| "encodeValueToBFE (BBool b) = BBytes (if b then [TypeGeneric, CHR 0x01, CHR 0x01] else [TypeGeneric, CHR 0x01, CHR 0x00])"
| "encodeValueToBFE BNil = BBytes EncodeNil"
| "encodeValueToBFE (BInt n) = BInt n"
| "encodeValueToBFE (BDict m) = BDict (map (\<lambda>p. (drop 2 (bfe_EncodeString (fst p)), snd p)) (map (map_prod (\<lambda>k. k) encodeValueToBFE) m))"
| "encodeValueToBFE (BList vs) = BList (map encodeValueToBFE vs)"
| "encodeValueToBFE (BBytes s) = BBytes s"
| "encodeValueToBFE BOther = BOther"

definition encodeContentToBFE :: "(string \<times> bval) list \<Rightarrow> (string \<times> bval) list" where
  "encodeContentToBFE content = map (\<lambda>(k, v). (drop 2 (bfe_EncodeString k), encodeValueToBFE v)) content"

definition CreateMessage ::
  "(string \<Rightarrow> string \<Rightarrow> string) \<Rightarrow> string \<Rightarrow> string \<Rightarrow> int \<Rightarrow> string \<Rightarrow> int \<Rightarrow> (string \<times> bval) list \<Rightarrow> bendy_error + BendyMessage" where
  "CreateMessage sign kp author sequence previous timestamp content =
     (let previous = (if sequence = 1 \<and> previous = [] then EncodeNil else previous);
          msg = \<lparr>Author = author, Sequence = sequence, Previous = previous, Timestamp = timestamp,
                 ContentSection = [BDict (encodeContentToBFE content), BBytes (EncodeSignature (replicate 64 (CHR 0x00)))],
                 Signature = []\<rparr>
      in case Validate msg of Some e \<Rightarrow> Inl e | None \<Rightarrow> Sign sign kp msg)"

section \<open>Field encodings read back\<close>

lemma drop_2_Cons: "drop 2 (a # b # k) = k"
  by simp

lemma feed_codes:
  "algo \<in> fst ` set FeedFormatCodes \<Longrightarrow> map_of FeedFormatCodesReverse (code_of FeedFormatCodes algo) = Some algo"
  by (auto simp: FeedFormatCodes_def FeedFormatCodesReverse_def code_of_def)

lemma message_codes:
  "algo \<in> fst ` set MessageFormatCodes \<Longrightarrow> map_of MessageFormatCodesReverse (code_of MessageFormatCodes algo) = Some algo"
  by (auto simp: MessageFormatCodes_def MessageFormatCodesReverse_def code_of_def)

lemma DecodeFeed_EncodeFeed:
  "length k = 32 \<Longrightarrow> DecodeFeed (EncodeFeed algo k) =
     (case map_of FeedFormatCodesReverse (code_of FeedFormatCodes algo) of None \<Rightarrow> Inl InvalidFormat | Some a \<Rightarrow> Inr (a, k))"
  by (simp add: DecodeFeed_def EncodeFeed_def Let_def TypeFeed_def drop_2_Cons split: option.splits)

lemma DecodeMessage_EncodeMessage:
  "length k = 32 \<Longrightarrow> DecodeMessage (EncodeMessage algo k) =
     (case map_of MessageFormatCodesReverse (code_of MessageFormatCodes algo) of None \<Rightarrow> Inl InvalidFormat | Some a \<Rightarrow> Inr (a, k))"
  by (simp add: DecodeMessage_def EncodeMessage_def Let_def TypeMessage_def drop_2_Cons split: option.splits)

lemma DecodeSignature_EncodeSignature: "length s = 64 \<Longrightarrow> DecodeSignature (EncodeSignature s) = Inr s"
  by (simp add: DecodeSignature_def EncodeSignature_def)

lemma DecodeBlob_EncodeBlob: "length h = 32 \<Longrightarrow> DecodeBlob (EncodeBlob h) = Inr h"
  by (simp add: DecodeBlob_def EncodeBlob_def)

section \<open>Messages verify\<close>

lemma encode_convert: "encodeValue (convertStringsToBytes v) = encodeValue v"
proof (induction v)
  case (BList vs)
  then have "map (encodeValue \<circ> convertStringsToBytes) vs = map encodeValue vs" by auto
  then show ?case by (simp only: encodeValue.simps convertStringsToBytes.simps list.map_comp)
next
  case (BDict m)
  have "map (map_prod (\<lambda>k. k) encodeValue) (map (map_prod (\<lambda>k. k) convertStringsToBytes) m) = map (map_prod (\<lambda>k. k) encodeValue) m"
    using BDict.IH by (auto simp: map_prod_def split: prod.splits)
  moreover have "map fst (map (map_prod (\<lambda>k. k) convertStringsToBytes) m) = map fst m" by (simp add: comp_def)
  ultimately show ?case by (simp only: encodeValue.simps convertStringsToBytes.simps)
qed simp_all

text \<open>What a stored message is read back as.\<close>

definition reread :: "BendyMessage \<Rightarrow> BendyMessage" where
  "reread m = m\<lparr>ContentSection := map (\<lambda>v. convertStringsToBytes (decoded v)) (ContentSection m)\<rparr>"

lemma reread_simps [simp]:
  "Author (reread m) = Author m" "Sequence (reread m) = Sequence m" "Previous (reread m) = Previous m"
  "Timestamp (reread m) = Timestamp m" "Signature (reread m) = Signature m"
  by (simp_all add: reread_def)

lemma FromStored_Encode:
  assumes "encodable (ToBencode m)" and "EncodeBendy m = Inr e"
  shows "FromStoredMessage e = Inr (reread m)"
proof -
  have "Encode (ToBencode m) = Inr e" using assms(2) by (auto simp: EncodeBendy_def split: sum.splits if_splits)
  with DecodeBytes_encode [OF assms(1)] have "DecodeBytes e = Inr (decoded (ToBencode m))" by simp
  then show ?thesis
    by (simp add: FromStoredMessage_def from_payload_def ToBencode_def bendy_payload_def asBytes_def reread_def comp_def)
qed

lemma encode_reread: "encodable v \<Longrightarrow> encodeValue (convertStringsToBytes (decoded v)) = encodeValue v"
  by (simp add: encode_convert encode_decoded)

lemma payload_reread:
  assumes "encodable (bendy_payload m)"
  shows "Encode (bendy_payload (reread m)) = Encode (bendy_payload m)"
proof -
  have "map encodeValue (ContentSection (reread m)) = map encodeValue (ContentSection m)"
    using assms by (auto simp: bendy_payload_def encode_reread reread_def)
  then show ?thesis by (simp add: Encode_def bendy_payload_def)
qed

lemma bencode_reread:
  assumes "encodable (bendy_payload m)"
  shows "Encode (ToBencode (reread m)) = Encode (ToBencode m)"
  using payload_reread [OF assms] by (simp add: Encode_def ToBencode_def)

lemma Verify_reread:
  assumes "encodable (bendy_payload m)" and "ContentSection m = [c, BBytes s]"
  shows "Verify verify (reread m) = Verify verify m"
proof -
  have v: "Validate (reread m) = Validate m" by (simp add: Validate_def reread_def)
  have "encodable c" using assms by (simp add: bendy_payload_def)
  then have c: "Encode (ContentSection (reread m) ! 0) = Encode (ContentSection m ! 0)"
    using assms(2) by (simp add: reread_def Encode_def encode_reread)
  have s: "asBytes (ContentSection (reread m) ! 1) = asBytes (ContentSection m ! 1)"
    using assms(2) by (simp add: reread_def asBytes_def)
  show ?thesis unfolding Verify_def reread_simps v c s payload_reread [OF assms(1)] ..
qed

lemma Validate_cong:
  assumes "Author m' = Author m" "Sequence m' = Sequence m" "Previous m' = Previous m" "Timestamp m' = Timestamp m"
    "length (ContentSection m') = length (ContentSection m)"
  shows "Validate m' = Validate m"
  unfolding Validate_def assms ..

lemma Sign_Verify:
  assumes sign: "\<And>x. verify pk x (sign kp x)" "\<And>x. length (sign kp x) = 64"
    and author: "Author m = EncodeFeed ''bendybutt-v1'' pk" "length pk = 32"
    and m: "Validate m = None" "Sign sign kp m = Inr m'"
  shows "Verify verify m' = None" and "\<exists>s. length s = 66 \<and> ContentSection m' = [ContentSection m ! 0, BBytes s]"
    and "length (Signature m') = 66" and "Author m' = Author m"
proof -
  obtain c d where cs: "ContentSection m = [c, d]"
    using m(1) by (auto simp: Validate_def length_Suc_conv numeral_2_eq_2 split: if_splits)
  obtain cb where cb: "Encode c = Inr cb" using m(2) cs by (auto simp: Sign_def split: sum.splits)
  define m1 where "m1 = m\<lparr>ContentSection := [c, BBytes (EncodeSignature (sign kp (bendySignPrefix @ cb)))]\<rparr>"
  obtain pb where pb: "Encode (bendy_payload m1) = Inr pb" "m' = m1\<lparr>Signature := EncodeSignature (sign kp pb)\<rparr>"
    using m(2) cs cb by (auto simp: Sign_def m1_def Let_def split: sum.splits)
  have pay: "bendy_payload m' = bendy_payload m1" using pb(2) by (simp add: bendy_payload_def)
  have pk: "take 32 (drop 2 (Author m')) = pk" using author pb(2) by (simp add: m1_def EncodeFeed_def Let_def)
  have "Validate m' = Validate m" using pb(2) cs by (intro Validate_cong) (simp_all add: m1_def)
  then have "Validate m' = None" using m(1) by simp
  then show "Verify verify m' = None"
    using pk pay pb cb sign by (simp add: Verify_def m1_def asBytes_def DecodeSignature_EncodeSignature)
  show "\<exists>s. length s = 66 \<and> ContentSection m' = [ContentSection m ! 0, BBytes s]"
    using pb(2) cs sign(2) by (simp add: m1_def EncodeSignature_def)
  show "length (Signature m') = 66" "Author m' = Author m" using pb(2) sign(2) by (simp_all add: m1_def EncodeSignature_def)
qed

lemma Sign_fields: "Sign sign kp m = Inr m' \<Longrightarrow> Sequence m' = Sequence m \<and> Timestamp m' = Timestamp m \<and> Previous m' = Previous m"
  by (auto simp: Sign_def Let_def split: if_splits sum.splits)

lemma Validate_None:
  assumes "Validate m = None"
  shows "1 \<le> Sequence m" "0 \<le> Timestamp m" "length (Previous m) \<le> 34" "length (ContentSection m) = 2"
  using assms by (auto simp: Validate_def isBFENil_def EncodeNil_def split: if_splits)

lemma created_stored:
  assumes sign: "\<And>x. verify pk x (sign kp x)" "\<And>x. length (sign kp x) = 64" and pk: "length pk = 32"
    and range: "sequence < 2 ^ 63" "timestamp < 2 ^ 63" "encodable (BDict (encodeContentToBFE content))"
    and m: "CreateMessage sign kp (EncodeFeed ''bendybutt-v1'' pk) sequence previous timestamp content = Inr m"
      "EncodeBendy m = Inr e"
  shows "\<exists>m'. FromStoredMessage e = Inr m' \<and> Verify verify m' = None \<and> Key sha m' = Key sha m"
proof -
  obtain m0 where m0: "Validate m0 = None" "Sign sign kp m0 = Inr m" "Author m0 = EncodeFeed ''bendybutt-v1'' pk"
    "Sequence m0 = sequence" "Timestamp m0 = timestamp" "ContentSection m0 ! 0 = BDict (encodeContentToBFE content)"
    using m(1) by (auto simp: CreateMessage_def Let_def split: option.splits)
  note sv = Sign_Verify [of verify pk sign kp m0 m, OF sign m0(3) pk m0(1,2)]
  obtain s where s: "length s = 66" "ContentSection m = [BDict (encodeContentToBFE content), BBytes s]"
    using sv(2) m0(6) by auto
  have "length (Author m) = 34" using sv(4) m0(3) pk by (simp add: EncodeFeed_def Let_def)
  moreover have "length (Previous m) < 2 ^ 63" using Sign_fields [OF m0(2)] Validate_None(3) [OF m0(1)] by simp
  ultimately have enc: "encodable (bendy_payload m)" "encodable (ToBencode m)"
    using s range sv(3) Sign_fields [OF m0(2)] Validate_None [OF m0(1)] m0(4,5)
    by (simp_all add: bendy_payload_def ToBencode_def del: encodable_dict)
  have "Key sha (reread m) = Key sha m" unfolding Key_def bencode_reread [OF enc(1)] ..
  with FromStored_Encode [OF enc(2) m(2)] Verify_reread [OF enc(1) s(2)] sv(1) show ?thesis by metis
qed

section \<open>Properties\<close>

text \<open>C19: A BendyButt message created for a key pair, encoded and read back from storage, passes verification and has the same
  key, for any signature scheme whose signatures verify and are 64 bytes long.\<close>
theorem bendy_created_verifies:
  assumes "\<And>x. verify pk x (sign kp x)" and "\<And>x. length (sign kp x) = 64" and "length pk = 32"
    and "sequence < 2 ^ 63" and "timestamp < 2 ^ 63" and "encodable (BDict (encodeContentToBFE content))"
    and "CreateMessage sign kp (EncodeFeed ''bendybutt-v1'' pk) sequence previous timestamp content = Inr m"
    and "EncodeBendy m = Inr e"
  shows "\<exists>m'. FromStoredMessage e = Inr m' \<and> Verify verify m' = None \<and> Key sha m' = Key sha m"
  using assms by (rule created_stored)

text \<open>Verification accepts a message only when its author, sequence and previous fields are well formed, and both the content
  signature and the payload signature verify under the author's key for the exact encoded bytes.\<close>
theorem bendy_verify_sound:
  assumes "Verify verify m = None"
  shows "Validate m = None \<and>
    (\<exists>field contentSig contentBytes payloadSig payloadBytes.
       asBytes (ContentSection m ! 1) = Some field \<and> DecodeSignature field = Inr contentSig \<and>
       Encode (ContentSection m ! 0) = Inr contentBytes \<and>
       verify (take 32 (drop 2 (Author m))) (''bendybutt'' @ contentBytes) contentSig \<and>
       DecodeSignature (Signature m) = Inr payloadSig \<and> Encode (bendy_payload m) = Inr payloadBytes \<and>
       verify (take 32 (drop 2 (Author m))) payloadBytes payloadSig)"
  using assms by (auto simp: Verify_def Let_def bendySignPrefix_def split: option.splits sum.splits if_splits)

text \<open>A feed reference of a known format is recovered from its binary field encoding.\<close>
theorem bfe_feed_round_trip:
  assumes "algo \<in> fst ` set FeedFormatCodes" and "length k = 32"
  shows "DecodeFeed (EncodeFeed algo k) = Inr (algo, k)"
  using feed_codes [OF assms(1)] by (simp add: DecodeFeed_EncodeFeed [OF assms(2)])

definition toy_sign :: "string \<Rightarrow> string \<Rightarrow> string" where
  "toy_sign kp x = take 64 (kp @ x @ replicate 64 CHR ''0'')"

definition toy_verify :: "string \<Rightarrow> string \<Rightarrow> string \<Rightarrow> bool" where
  "toy_verify pk x s \<longleftrightarrow> s = toy_sign pk x"

lemma toy_sign_length: "length (toy_sign kp x) = 64"
  by (simp add: toy_sign_def)

definition toy_created :: "bendy_error + BendyMessage" where
  "toy_created = CreateMessage toy_sign (replicate 32 CHR ''k'') (EncodeFeed ''bendybutt-v1'' (replicate 32 CHR ''k'')) 1 [] 7
     [(''type'', BStr ''metafeed''), (''n'', BInt 4)]"

lemma toy_created_encodes: "case toy_created of Inl _ \<Rightarrow> False | Inr m \<Rightarrow> (case EncodeBendy m of Inl _ \<Rightarrow> False | Inr _ \<Rightarrow> True)"
  by code_simp

theorem bendy_created_verifies_witness:
  "\<exists>m e. toy_created = Inr m \<and> EncodeBendy m = Inr e \<and>
     (\<exists>m'. FromStoredMessage e = Inr m' \<and> Verify toy_verify m' = None \<and> Key (\<lambda>x. x) m' = Key (\<lambda>x. x) m)"
proof -
  obtain m e where m: "toy_created = Inr m" "EncodeBendy m = Inr e"
    using toy_created_encodes by (auto split: sum.splits)
  have "encodable (BDict (encodeContentToBFE [(''type'', BStr ''metafeed''), (''n'', BInt 4)]))"
    by (simp add: encodeContentToBFE_def bfe_EncodeString_def)
  then have "\<exists>m'. FromStoredMessage e = Inr m' \<and> Verify toy_verify m' = None \<and> Key (\<lambda>x. x) m' = Key (\<lambda>x. x) m"
    using m bendy_created_verifies [of toy_verify "replicate 32 CHR ''k''" toy_sign "replicate 32 CHR ''k''" 1 7
        "[(''type'', BStr ''metafeed''), (''n'', BInt 4)]" "[]" m e "\<lambda>x. x"]
    by (simp add: toy_verify_def toy_sign_length toy_created_def)
  with m show ?thesis by blast
qed

theorem bendy_verify_sound_witness:
  "\<exists>m. toy_created = Inr m \<and> Verify toy_verify m = None \<and> Validate m = None \<and>
     (\<exists>payloadSig payloadBytes. Encode (bendy_payload m) = Inr payloadBytes \<and> DecodeSignature (Signature m) = Inr payloadSig \<and>
        toy_verify (take 32 (drop 2 (Author m))) payloadBytes payloadSig)"
proof -
  have "case toy_created of Inl _ \<Rightarrow> False | Inr m \<Rightarrow> (case Verify toy_verify m of None \<Rightarrow> True | Some _ \<Rightarrow> False)" by code_simp
  then obtain m where "toy_created = Inr m" "Verify toy_verify m = None" by (auto split: sum.splits option.splits)
  with bendy_verify_sound [of toy_verify m] show ?thesis by blast
qed

theorem bfe_feed_round_trip_witness:
  "DecodeFeed (EncodeFeed ''bendybutt-v1'' (replicate 32 CHR ''k'')) = Inr (''bendybutt-v1'', replicate 32 CHR ''k'')"
  by (rule bfe_feed_round_trip) (simp_all add: FeedFormatCodes_def)

lemma unknown_feed_algorithm: "DecodeFeed (EncodeFeed ''unknown'' (replicate 32 CHR ''k'')) = Inr (''ed25519'', replicate 32 CHR ''k'')"
  by code_simp

end
