(* ===== verification/Base64.thy ===== *)
theory Base64
  imports Go_Prelude
begin

text \<open>
  \<open>encoding/base64\<close> as the SSB packages use it: \<open>StdEncoding\<close>, \<open>URLEncoding\<close> and \<open>RawStdEncoding\<close>, on byte
  strings. Decoding follows the library: carriage returns and line feeds are skipped wherever
  they stand, padding is required unless the encoding has none, and the unused low bits of the
  last quantum are not looked at.
\<close>

named_theorems b64_simps \<open>evaluation rules for base64\<close>

record encoding =
  alphabet :: string
  padded :: bool

definition std_alphabet :: string where
  "std_alphabet = ''ABCDEFGHIJKLMNOPQRSTUVWXYZabcdefghijklmnopqrstuvwxyz0123456789+/''"

definition url_alphabet :: string where
  "url_alphabet = ''ABCDEFGHIJKLMNOPQRSTUVWXYZabcdefghijklmnopqrstuvwxyz0123456789-_''"

definition StdEncoding :: encoding where "StdEncoding = \<lparr>alphabet = std_alphabet, padded = True\<rparr>"
definition URLEncoding :: encoding where "URLEncoding = \<lparr>alphabet = url_alphabet, padded = True\<rparr>"
definition RawStdEncoding :: encoding where "RawStdEncoding = \<lparr>alphabet = std_alphabet, padded = False\<rparr>"

section \<open>Encoding\<close>

definition sextet :: "encoding \<Rightarrow> int \<Rightarrow> char" where
  "sextet E n = alphabet E ! nat (n mod 64)"

definition pad :: "encoding \<Rightarrow> nat \<Rightarrow> string" where
  "pad E n = (if padded E then replicate n CHR ''='' else [])"

fun EncodeToString :: "encoding \<Rightarrow> string \<Rightarrow> string" where
  "EncodeToString E [] = []"
| "EncodeToString E [a] =
     (let v = of_char a * 65536 in [sextet E (v div 262144), sextet E (v div 4096)] @ pad E 2)"
| "EncodeToString E [a, b] =
     (let v = of_char a * 65536 + of_char b * 256
      in [sextet E (v div 262144), sextet E (v div 4096), sextet E (v div 64)] @ pad E 1)"
| "EncodeToString E (a # b # c # r) =
     (let v = of_char a * 65536 + of_char b * 256 + of_char c
      in [sextet E (v div 262144), sextet E (v div 4096), sextet E (v div 64), sextet E v] @ EncodeToString E r)"

section \<open>Decoding\<close>

fun index_of :: "'a \<Rightarrow> 'a list \<Rightarrow> nat option" where
  "index_of x [] = None"
| "index_of x (y # ys) = (if x = y then Some 0 else map_option Suc (index_of x ys))"

definition decodeMap :: "encoding \<Rightarrow> char \<Rightarrow> int option" where
  "decodeMap E c = map_option int (index_of c (alphabet E))"

definition byte_of :: "int \<Rightarrow> char" where
  "byte_of n = char_of (n mod 256)"

text \<open>The quanta of the input without line breaks; \<open>None\<close> is \<open>CorruptInputError\<close>.\<close>

fun decode_quanta :: "encoding \<Rightarrow> string \<Rightarrow> string option" where
  "decode_quanta E [] = Some []"
| "decode_quanta E [a] = None"
| "decode_quanta E [a, b] =
     (if padded E then None
      else case (decodeMap E a, decodeMap E b) of
             (Some x, Some y) \<Rightarrow> Some [byte_of ((x * 262144 + y * 4096) div 65536)]
           | _ \<Rightarrow> None)"
| "decode_quanta E [a, b, c] =
     (if padded E then None
      else case (decodeMap E a, decodeMap E b, decodeMap E c) of
             (Some x, Some y, Some z) \<Rightarrow>
               (let v = x * 262144 + y * 4096 + z * 64 in Some [byte_of (v div 65536), byte_of (v div 256)])
           | _ \<Rightarrow> None)"
| "decode_quanta E (a # b # c # d # r) =
     (case (decodeMap E a, decodeMap E b) of
        (Some x, Some y) \<Rightarrow>
         (if padded E \<and> c = CHR ''='' then
            (if d = CHR ''='' \<and> r = [] then Some [byte_of ((x * 262144 + y * 4096) div 65536)] else None)
          else case decodeMap E c of
            None \<Rightarrow> None
          | Some z \<Rightarrow>
             (if padded E \<and> d = CHR ''='' then
                (let v = x * 262144 + y * 4096 + z * 64
                 in if r = [] then Some [byte_of (v div 65536), byte_of (v div 256)] else None)
              else case decodeMap E d of
                None \<Rightarrow> None
              | Some w \<Rightarrow>
                 (let v = x * 262144 + y * 4096 + z * 64 + w
                  in map_option (\<lambda>t. [byte_of (v div 65536), byte_of (v div 256), byte_of v] @ t) (decode_quanta E r))))
      | _ \<Rightarrow> None)"

definition DecodeString :: "encoding \<Rightarrow> string \<Rightarrow> string option" where
  "DecodeString E s = decode_quanta E (filter (\<lambda>c. c \<noteq> CHR 0x0A \<and> c \<noteq> CHR 0x0D) s)"

section \<open>Round trip\<close>

definition good :: "encoding \<Rightarrow> bool" where
  "good E \<longleftrightarrow> length (alphabet E) = 64 \<and> distinct (alphabet E) \<and>
     CHR ''='' \<notin> set (alphabet E) \<and> CHR 0x0A \<notin> set (alphabet E) \<and> CHR 0x0D \<notin> set (alphabet E)"

lemma good_encodings [simp]: "good StdEncoding" "good URLEncoding" "good RawStdEncoding"
  by code_simp+

lemma index_of_nth: "distinct xs \<Longrightarrow> i < length xs \<Longrightarrow> index_of (xs ! i) xs = Some i"
proof (induction xs arbitrary: i)
  case (Cons x xs)
  then show ?case by (cases i) (auto simp: nth_mem)
qed simp

lemma nat_mod_64: "nat (n mod 64) < 64"
  by (simp add: nat_less_iff)

lemma decodeMap_sextet: "good E \<Longrightarrow> decodeMap E (sextet E n) = Some (n mod 64)"
  using nat_mod_64 [of n] by (simp add: decodeMap_def sextet_def good_def index_of_nth)

lemma sextet_in: "good E \<Longrightarrow> sextet E n \<in> set (alphabet E)"
  using nat_mod_64 [of n] by (simp add: sextet_def good_def)

lemma sextet_not: "good E \<Longrightarrow> sextet E n \<noteq> CHR ''=''" "good E \<Longrightarrow> sextet E n \<noteq> CHR 0x0A" "good E \<Longrightarrow> sextet E n \<noteq> CHR 0x0D"
  using sextet_in [of E n] by (auto simp: good_def)

lemma sextets:
  assumes "0 \<le> v" and "v < (2 :: int) ^ 24"
  shows "v div 262144 mod 64 * 262144 + v div 4096 mod 64 * 4096 + v div 64 mod 64 * 64 + v mod 64 = v"
proof -
  have "v div 262144 < 64"
    using assms(2) div_mult_mod_eq [of v 262144] pos_mod_sign [of 262144 v] by simp
  moreover have "0 \<le> v div 262144" using assms(1) by (simp add: pos_imp_zdiv_nonneg_iff)
  ultimately have "v div 262144 mod 64 = v div 262144" by simp
  moreover have "v div 64 div 64 = v div 4096" "v div 4096 div 64 = v div 262144" by (simp_all add: zdiv_zmult2_eq [symmetric])
  ultimately show ?thesis
    using div_mult_mod_eq [of v 64] div_mult_mod_eq [of "v div 64" 64] div_mult_mod_eq [of "v div 4096" 64] by linarith
qed

lemma of_char_int: "0 \<le> (of_char c :: int)" "(of_char c :: int) < 256"
  using of_char_mod_256 [of c] pos_mod_bound [of 256 "of_char c"] pos_mod_sign [of 256 "of_char c"] by auto

lemma byte_of_char: "byte_of (of_char c) = c"
  by (simp add: byte_of_def)

lemma int_div_eqI: "(q :: int) * n \<le> m \<Longrightarrow> m < q * n + n \<Longrightarrow> 0 < n \<Longrightarrow> m div n = q"
  using int_div_pos_eq [of m n q "m - n * q"] by (simp add: mult.commute)

lemma byte_parts:
  fixes a b c :: char
  defines "v \<equiv> of_char a * 65536 + of_char b * 256 + of_char c"
  shows "byte_of (v div 65536) = a" "byte_of (v div 256) = b" "byte_of v = c" "0 \<le> v" "v < 2 ^ 24"
proof -
  note l = of_char_int [of a] of_char_int [of b] of_char_int [of c]
  have "v div 65536 = of_char a" using l unfolding v_def by (intro int_div_eqI) linarith+
  then show "byte_of (v div 65536) = a" by (simp add: byte_of_char)
  have "v div 256 = of_char a * 256 + of_char b" using l unfolding v_def by (intro int_div_eqI) (simp_all add: distrib_right)
  then have "v div 256 mod 256 = of_char b mod 256" by (simp only: mod_mult_self3)
  then show "byte_of (v div 256) = b" by (simp add: byte_of_def)
  have "v = of_char c + (of_char a * 256 + of_char b) * 256" by (simp add: v_def)
  then have "v mod 256 = of_char c mod 256" by (simp only: mod_mult_self1)
  then show "byte_of v = c" by (simp add: byte_of_def)
  show "0 \<le> v" using l by (simp add: v_def)
  have "v < 16777216" using l unfolding v_def by linarith
  then show "v < 2 ^ 24" by simp
qed

lemma low_zero:
  assumes "0 \<le> v" and "v < (2 :: int) ^ 24"
  shows "v mod 64 = 0 \<Longrightarrow> v div 262144 mod 64 * 262144 + v div 4096 mod 64 * 4096 + v div 64 mod 64 * 64 = v"
    and "v mod 4096 = 0 \<Longrightarrow> v div 262144 mod 64 * 262144 + v div 4096 mod 64 * 4096 = v"
proof -
  assume "v mod 64 = 0"
  then show "v div 262144 mod 64 * 262144 + v div 4096 mod 64 * 4096 + v div 64 mod 64 * 64 = v" using sextets [OF assms] by linarith
next
  assume "v mod 4096 = 0"
  then obtain k where "v = 4096 * k" by (auto elim: dvdE simp: mod_eq_0_iff_dvd)
  then have "v mod 64 = 0" "v div 64 mod 64 = 0" by simp_all
  then show "v div 262144 mod 64 * 262144 + v div 4096 mod 64 * 4096 = v" using sextets [OF assms] by linarith
qed

lemma decode_quanta_encode: "good E \<Longrightarrow> decode_quanta E (EncodeToString E s) = Some s"
proof (induction E s rule: EncodeToString.induct)
  case (2 E a)
  define v :: int where "v = of_char a * 65536"
  have parts: "byte_of (v div 65536) = a" "0 \<le> v" "v < 2 ^ 24"
    using byte_parts [of a "CHR 0x00" "CHR 0x00"] by (simp_all add: v_def)
  have "v div 262144 mod 64 * 262144 + v div 4096 mod 64 * 4096 = v" by (rule low_zero(2) [OF parts(2,3)]) (simp add: v_def)
  moreover define d e where "d = v div 262144" and "e = v div 4096"
  ultimately show ?case
    using 2 parts(1) unfolding EncodeToString.simps Let_def v_def [symmetric] d_def [symmetric] e_def [symmetric]
    by (simp add: Let_def pad_def numeral_2_eq_2 decodeMap_sextet)
next
  case (3 E a b)
  define v :: int where "v = of_char a * 65536 + of_char b * 256"
  have parts: "byte_of (v div 65536) = a" "byte_of (v div 256) = b" "0 \<le> v" "v < 2 ^ 24"
    using byte_parts [of a b "CHR 0x00"] by (simp_all add: v_def)
  have "v mod 64 = 0" by (simp add: v_def mod_add_eq [of "of_char a * 65536", symmetric])
  note low_zero(1) [OF parts(3,4) this]
  moreover define d e f where "d = v div 262144" and "e = v div 4096" and "f = v div 64"
  ultimately show ?case
    using 3 parts unfolding EncodeToString.simps Let_def v_def [symmetric] d_def [symmetric] e_def [symmetric] f_def [symmetric]
    by (simp add: Let_def pad_def decodeMap_sextet sextet_not)
next
  case (4 E a b c r)
  define v :: int where "v = of_char a * 65536 + of_char b * 256 + of_char c"
  have "v div 262144 mod 64 * 262144 + v div 4096 mod 64 * 4096 + v div 64 mod 64 * 64 + v mod 64 = v"
    unfolding v_def by (rule sextets [OF byte_parts(4,5)])
  moreover define d e f where "d = v div 262144" and "e = v div 4096" and "f = v div 64"
  ultimately show ?case
    using 4 byte_parts(1-3) [of a b c, folded v_def]
    unfolding EncodeToString.simps Let_def v_def [symmetric] d_def [symmetric] e_def [symmetric] f_def [symmetric]
    by (simp add: Let_def decodeMap_sextet sextet_not)
qed simp

lemma set_EncodeToString:
  assumes "good E"
  shows "set (EncodeToString E s) \<subseteq> insert CHR ''='' (set (alphabet E))"
  using assms by (induction E s rule: EncodeToString.induct) (auto simp: Let_def pad_def sextet_in)

lemma DecodeString_EncodeToString: "good E \<Longrightarrow> DecodeString E (EncodeToString E s) = Some s"
proof -
  assume g: "good E"
  then have "filter (\<lambda>c. c \<noteq> CHR 0x0A \<and> c \<noteq> CHR 0x0D) (EncodeToString E s) = EncodeToString E s"
    using set_EncodeToString [OF g, of s] by (intro filter_True) (auto simp: good_def)
  with decode_quanta_encode [OF g] show ?thesis by (simp add: DecodeString_def)
qed

lemma EncodeToString_Nil_iff: "EncodeToString E s = [] \<longleftrightarrow> s = []"
  by (cases "(E, s)" rule: EncodeToString.cases) (simp_all add: Let_def)

lemma EncodeToString_mem:
  "c \<in> set (EncodeToString StdEncoding s) \<Longrightarrow> c = CHR ''='' \<or> c \<in> set std_alphabet"
  "c \<in> set (EncodeToString URLEncoding s) \<Longrightarrow> c = CHR ''='' \<or> c \<in> set url_alphabet"
  using set_EncodeToString [OF good_encodings(1), of s] set_EncodeToString [OF good_encodings(2), of s]
  by (auto simp: StdEncoding_def URLEncoding_def)

text \<open>The lengths Go computes with \<open>EncodedLen\<close> for padded encodings.\<close>

lemma length_EncodeToString: "padded E \<Longrightarrow> length (EncodeToString E s) = (length s + 2) div 3 * 4"
proof (induction E s rule: EncodeToString.induct)
  case (4 E a b c r)
  have "(5 + length r) div 3 = Suc (Suc (Suc (length r)) div 3)" by presburger
  with 4 show ?case by (simp add: Let_def)
qed (simp_all add: Let_def pad_def)

end
