(* ===== verification/Refs.thy ===== *)
theory Refs
  imports Base64
begin

text \<open>
  \<open>internal/ssb/refs/refs.go\<close> and \<open>ssburi.go\<close>: feed, message and blob references with their sigil form
  and their SSB URIs, and \<open>internal/ssb/formats/registry.go\<close>, which says what formats are supported. A
  32-byte array is a string of length 32; a Go pointer that may be nil is an option.
\<close>

section \<open>References\<close>

datatype ref_error = ErrInvalidFeedRef | ErrInvalidMessageRef | ErrInvalidBlobRef | ErrInvalidSSBURI
  | ErrInvalidScheme | ErrInvalidResource | ErrInvalidEncoding | ErrRefPanic

definition RefAlgoFeedSSB1 :: string where "RefAlgoFeedSSB1 = ''ed25519''"
definition RefAlgoFeedBendyButt :: string where "RefAlgoFeedBendyButt = ''bendybutt-v1''"
definition RefAlgoFeedGabby :: string where "RefAlgoFeedGabby = ''gabbygrove-v1''"
definition RefAlgoFeedBamboo :: string where "RefAlgoFeedBamboo = ''bamboo''"
definition RefAlgoFeedIndexed :: string where "RefAlgoFeedIndexed = ''indexed-v1''"

definition RefAlgoMessageSSB1 :: string where "RefAlgoMessageSSB1 = ''sha256''"
definition RefAlgoMessageBendyButt :: string where "RefAlgoMessageBendyButt = ''bendybutt-v1''"
definition RefAlgoMessageGabby :: string where "RefAlgoMessageGabby = ''gabbygrove-v1''"
definition RefAlgoMessageBamboo :: string where "RefAlgoMessageBamboo = ''bamboo''"
definition RefAlgoMessageIndexed :: string where "RefAlgoMessageIndexed = ''indexed-v1''"

lemmas ref_algos = RefAlgoFeedSSB1_def RefAlgoFeedBendyButt_def RefAlgoFeedGabby_def RefAlgoFeedBamboo_def
  RefAlgoFeedIndexed_def RefAlgoMessageSSB1_def RefAlgoMessageBendyButt_def RefAlgoMessageGabby_def
  RefAlgoMessageBamboo_def RefAlgoMessageIndexed_def

record FeedRef =
  feed_algo :: string
  feed_id :: string

record MessageRef =
  msg_algo :: string
  msg_hash :: string

record BlobRef =
  blob_hash :: string

definition FeedRef_String :: "FeedRef \<Rightarrow> string" where
  "FeedRef_String f = ''@'' @ EncodeToString StdEncoding (feed_id f) @ ''.'' @ feed_algo f"

definition FeedRef_Equal :: "FeedRef \<Rightarrow> FeedRef \<Rightarrow> bool" where
  "FeedRef_Equal f g \<longleftrightarrow> feed_algo f = feed_algo g \<and> feed_id f = feed_id g"

definition NewFeedRef :: "string \<Rightarrow> string \<Rightarrow> ref_error + FeedRef" where
  "NewFeedRef i algo = (if length i \<noteq> 32 then Inl ErrInvalidFeedRef else Inr \<lparr>feed_algo = algo, feed_id = i\<rparr>)"

definition MustNewFeedRef :: "string \<Rightarrow> string \<Rightarrow> ref_error + FeedRef" where
  "MustNewFeedRef i algo = (case NewFeedRef i algo of Inl _ \<Rightarrow> Inl ErrRefPanic | Inr r \<Rightarrow> Inr r)"

definition feed_algo_known :: "string \<Rightarrow> bool" where
  "feed_algo_known a \<longleftrightarrow>
     a \<in> set [RefAlgoFeedSSB1, RefAlgoFeedBendyButt, RefAlgoFeedGabby, RefAlgoFeedBamboo, RefAlgoFeedIndexed]"

text \<open>
  \<open>strings.LastIndex(s, ".") > 0\<close> followed by cutting there: \<open>None\<close> when there is no dot or it comes first.
\<close>

definition cut_algo :: "string \<Rightarrow> (string \<times> string) option" where
  "cut_algo s = (case cut_last CHR ''.'' s of Some (a, b) \<Rightarrow> if a = [] then None else Some (a, b) | None \<Rightarrow> None)"

definition ParseFeedRef :: "string \<Rightarrow> ref_error + FeedRef" where
  "ParseFeedRef s =
     (let s = TrimSpace s
      in if length s < 2 \<or> s ! 0 \<noteq> CHR ''@'' then Inl ErrInvalidFeedRef
         else let s = tl s
              in case cut_algo s of
                   Some (b, algoStr) \<Rightarrow>
                     if feed_algo_known algoStr
                     then (case DecodeString StdEncoding b of None \<Rightarrow> Inl ErrInvalidFeedRef | Some d \<Rightarrow> NewFeedRef d algoStr)
                     else Inl ErrInvalidFeedRef
                 | None \<Rightarrow>
                     (case DecodeString StdEncoding s of None \<Rightarrow> Inl ErrInvalidFeedRef | Some d \<Rightarrow> NewFeedRef d RefAlgoFeedSSB1))"

definition ParseFeedRefB64 :: "string \<Rightarrow> ref_error + FeedRef" where
  "ParseFeedRefB64 s = (case DecodeString StdEncoding s of None \<Rightarrow> Inl ErrInvalidFeedRef | Some d \<Rightarrow> NewFeedRef d RefAlgoFeedSSB1)"

definition MessageRef_String :: "MessageRef \<Rightarrow> string" where
  "MessageRef_String m = ''%'' @ EncodeToString StdEncoding (msg_hash m) @ ''.'' @ msg_algo m"

definition MessageRef_Equal :: "MessageRef \<Rightarrow> MessageRef \<Rightarrow> bool" where
  "MessageRef_Equal f g \<longleftrightarrow> msg_algo f = msg_algo g \<and> msg_hash f = msg_hash g"

definition NewMessageRef :: "string \<Rightarrow> string \<Rightarrow> ref_error + MessageRef" where
  "NewMessageRef h algo = (if length h \<noteq> 32 then Inl ErrInvalidMessageRef else Inr \<lparr>msg_algo = algo, msg_hash = h\<rparr>)"

definition MustNewMessageRef :: "string \<Rightarrow> string \<Rightarrow> ref_error + MessageRef" where
  "MustNewMessageRef h algo = (case NewMessageRef h algo of Inl _ \<Rightarrow> Inl ErrRefPanic | Inr r \<Rightarrow> Inr r)"

definition msg_algo_known :: "string \<Rightarrow> bool" where
  "msg_algo_known a \<longleftrightarrow>
     a \<in> set [RefAlgoMessageSSB1, RefAlgoMessageBendyButt, RefAlgoMessageGabby, RefAlgoMessageBamboo, RefAlgoMessageIndexed]"

definition ParseMessageRef :: "string \<Rightarrow> ref_error + MessageRef" where
  "ParseMessageRef s =
     (let s = TrimSpace s
      in if length s < 2 \<or> s ! 0 \<noteq> CHR ''%'' then Inl ErrInvalidMessageRef
         else let s = tl s
              in case cut_algo s of
                   Some (b, algoStr) \<Rightarrow>
                     if msg_algo_known algoStr
                     then (case DecodeString StdEncoding b of None \<Rightarrow> Inl ErrInvalidMessageRef | Some d \<Rightarrow> NewMessageRef d algoStr)
                     else Inl ErrInvalidMessageRef
                 | None \<Rightarrow>
                     (case DecodeString StdEncoding s of None \<Rightarrow> Inl ErrInvalidMessageRef
                      | Some d \<Rightarrow> NewMessageRef d RefAlgoMessageSSB1))"

definition BlobRef_String :: "BlobRef \<Rightarrow> string" where
  "BlobRef_String b = ''&'' @ EncodeToString StdEncoding (blob_hash b) @ ''.sha256''"

definition BlobRef_Equal :: "BlobRef \<Rightarrow> BlobRef \<Rightarrow> bool" where
  "BlobRef_Equal f g \<longleftrightarrow> blob_hash f = blob_hash g"

definition NewBlobRef :: "string \<Rightarrow> ref_error + BlobRef" where
  "NewBlobRef h = (if length h \<noteq> 32 then Inl ErrInvalidBlobRef else Inr \<lparr>blob_hash = h\<rparr>)"

definition MustNewBlobRef :: "string \<Rightarrow> ref_error + BlobRef" where
  "MustNewBlobRef h = (case NewBlobRef h of Inl _ \<Rightarrow> Inl ErrRefPanic | Inr r \<Rightarrow> Inr r)"

text \<open>Any algorithm name is cut off a blob reference without being looked at.\<close>

definition ParseBlobRef :: "string \<Rightarrow> ref_error + BlobRef" where
  "ParseBlobRef s =
     (let s = TrimSpace s
      in if length s < 2 \<or> s ! 0 \<noteq> CHR ''&'' then Inl ErrInvalidBlobRef
         else let s = tl s; s = (case cut_algo s of Some (b, _) \<Rightarrow> b | None \<Rightarrow> s)
              in case DecodeString StdEncoding s of
                   Some d \<Rightarrow> NewBlobRef d
                 | None \<Rightarrow> (case DecodeString RawStdEncoding s of None \<Rightarrow> Inl ErrInvalidBlobRef | Some d \<Rightarrow> NewBlobRef d))"

section \<open>References read back\<close>

lemma cut_algo_append: "a \<noteq> [] \<Longrightarrow> CHR ''.'' \<notin> set b \<Longrightarrow> cut_algo (a @ CHR ''.'' # b) = Some (a, b)"
  by (simp add: cut_algo_def cut_last_append)

lemma cut_algo_None: "CHR ''.'' \<notin> set s \<Longrightarrow> cut_algo s = None"
  by (simp add: cut_algo_def cut_last_None [THEN iffD2])

lemma feed_algo_last:
  assumes "feed_algo_known a"
  shows "a \<noteq> []" "CHR ''.'' \<notin> set a" "solid (last a)"
  using assms by (auto simp: feed_algo_known_def ref_algos solid_def space_runes_def)

lemma msg_algo_last:
  assumes "msg_algo_known a"
  shows "a \<noteq> []" "CHR ''.'' \<notin> set a" "solid (last a)"
  using assms by (auto simp: msg_algo_known_def ref_algos solid_def space_runes_def)

lemma solid_sigils [simp]: "solid CHR ''@''" "solid CHR ''%''" "solid CHR ''&''"
  by (simp_all add: solid_def space_runes_def)

lemma TrimSpace_ref: "solid c \<Longrightarrow> a \<noteq> [] \<Longrightarrow> solid (last a) \<Longrightarrow> TrimSpace (c # s @ a) = c # s @ a"
  by (intro TrimSpace_solid) auto

lemma encode_id: "length i = 32 \<Longrightarrow> EncodeToString E i \<noteq> []"
  by (auto simp: EncodeToString_Nil_iff)

lemma ParseFeedRef_String:
  assumes "feed_algo_known (feed_algo f)" and "length (feed_id f) = 32"
  shows "ParseFeedRef (FeedRef_String f) = Inr f"
proof -
  let ?e = "EncodeToString StdEncoding (feed_id f)"
  have t: "TrimSpace (CHR ''@'' # (?e @ ''.'') @ feed_algo f) = CHR ''@'' # (?e @ ''.'') @ feed_algo f"
    using feed_algo_last [OF assms(1)] by (intro TrimSpace_ref) simp_all
  have c: "cut_algo (?e @ CHR ''.'' # feed_algo f) = Some (?e, feed_algo f)"
    using feed_algo_last(2) [OF assms(1)] encode_id [OF assms(2)] by (rule cut_algo_append [rotated])
  from t c assms show ?thesis
    by (simp add: ParseFeedRef_def FeedRef_String_def Let_def DecodeString_EncodeToString NewFeedRef_def)
qed

lemma ParseMessageRef_String:
  assumes "msg_algo_known (msg_algo f)" and "length (msg_hash f) = 32"
  shows "ParseMessageRef (MessageRef_String f) = Inr f"
proof -
  let ?e = "EncodeToString StdEncoding (msg_hash f)"
  have t: "TrimSpace (CHR ''%'' # (?e @ ''.'') @ msg_algo f) = CHR ''%'' # (?e @ ''.'') @ msg_algo f"
    using msg_algo_last [OF assms(1)] by (intro TrimSpace_ref) simp_all
  have c: "cut_algo (?e @ CHR ''.'' # msg_algo f) = Some (?e, msg_algo f)"
    using msg_algo_last(2) [OF assms(1)] encode_id [OF assms(2)] by (rule cut_algo_append [rotated])
  from t c assms show ?thesis
    by (simp add: ParseMessageRef_def MessageRef_String_def Let_def DecodeString_EncodeToString NewMessageRef_def)
qed

lemma ParseBlobRef_String:
  assumes "length (blob_hash f) = 32"
  shows "ParseBlobRef (BlobRef_String f) = Inr f"
proof -
  let ?e = "EncodeToString StdEncoding (blob_hash f)"
  have t: "TrimSpace (CHR ''&'' # ?e @ ''.sha256'') = CHR ''&'' # ?e @ ''.sha256''"
    by (intro TrimSpace_ref) (simp_all add: solid_def space_runes_def)
  have c: "cut_algo (?e @ CHR ''.'' # ''sha256'') = Some (?e, ''sha256'')"
    using encode_id [OF assms] by (intro cut_algo_append) simp_all
  from t c assms show ?thesis
    by (simp add: ParseBlobRef_def BlobRef_String_def Let_def DecodeString_EncodeToString NewBlobRef_def)
qed

text \<open>Whatever is parsed is a reference that prints to a string which parses back to it.\<close>

lemma ParseFeedRef_wf: "ParseFeedRef s = Inr f \<Longrightarrow> feed_algo_known (feed_algo f) \<and> length (feed_id f) = 32"
  by (auto simp: ParseFeedRef_def Let_def NewFeedRef_def feed_algo_known_def split: if_splits option.splits)

lemma ParseMessageRef_wf: "ParseMessageRef s = Inr f \<Longrightarrow> msg_algo_known (msg_algo f) \<and> length (msg_hash f) = 32"
  by (auto simp: ParseMessageRef_def Let_def NewMessageRef_def msg_algo_known_def split: if_splits option.splits)

lemma ParseBlobRef_wf: "ParseBlobRef s = Inr f \<Longrightarrow> length (blob_hash f) = 32"
  by (auto simp: ParseBlobRef_def Let_def NewBlobRef_def split: if_splits option.splits)

end
