(* ===== verification/SsbUri.thy ===== *)
theory SsbUri
  imports Refs
begin

text \<open>
  SSB URIs (\<open>internal/ssb/refs/ssburi.go\<close>) and the format registry (\<open>internal/ssb/formats/registry.go\<close>). Of
  \<open>net/url\<close> the part that \<open>ParseSSBURI\<close> uses is written out; whether an authority (\<open>user@host:port\<close>) is
  well formed is the argument \<open>auth\<close>.
\<close>

section \<open>url.Parse\<close>

record url =
  Scheme :: string
  Opaque :: string
  Path :: string

definition is_letter :: "char \<Rightarrow> bool" where
  "is_letter c \<longleftrightarrow> (let n = of_char c :: nat in 97 \<le> n \<and> n \<le> 122 \<or> 65 \<le> n \<and> n \<le> 90)"

definition to_lower :: "char \<Rightarrow> char" where
  "to_lower c = (let n = of_char c :: nat in if 65 \<le> n \<and> n \<le> 90 then char_of (n + 32) else c)"

fun getScheme :: "string \<Rightarrow> string \<Rightarrow> (string \<times> string) option" where
  "getScheme acc [] = Some ([], acc)"
| "getScheme acc (c # cs) =
     (if is_letter c then getScheme (acc @ [c]) cs
      else if is_digit c \<or> c \<in> set ''+-.'' then
        (if acc = [] then Some ([], c # cs) else getScheme (acc @ [c]) cs)
      else if c = CHR '':'' then (if acc = [] then None else Some (acc, cs))
      else Some ([], acc @ c # cs))"

definition hex_val :: "char \<Rightarrow> nat option" where
  "hex_val c =
     (let n = of_char c :: nat
      in if 48 \<le> n \<and> n \<le> 57 then Some (n - 48)
         else if 97 \<le> n \<and> n \<le> 102 then Some (n - 87)
         else if 65 \<le> n \<and> n \<le> 70 then Some (n - 55) else None)"

fun unescape :: "string \<Rightarrow> string option" where
  "unescape [] = Some []"
| "unescape (c # cs) =
     (if c = CHR ''%'' then
        (case cs of
           a # b # r \<Rightarrow>
             (case (hex_val a, hex_val b) of
                (Some x, Some y) \<Rightarrow> map_option (\<lambda>t. char_of (16 * x + y) # t) (unescape r)
              | _ \<Rightarrow> None)
         | _ \<Rightarrow> None)
      else map_option (\<lambda>t. c # t) (unescape cs))"

definition is_ctl :: "char \<Rightarrow> bool" where
  "is_ctl c \<longleftrightarrow> (of_char c :: nat) < 32 \<or> c = CHR 0x7F"

definition cut_query :: "string \<Rightarrow> string" where
  "cut_query rest =
     (if rest \<noteq> [] \<and> last rest = CHR ''?'' \<and> length (filter (\<lambda>c. c = CHR ''?'') rest) = 1 then butlast rest
      else fst (split_first CHR ''?'' rest))"

definition set_path :: "string \<Rightarrow> string \<Rightarrow> url option" where
  "set_path scheme p = map_option (\<lambda>q. \<lparr>Scheme = scheme, Opaque = [], Path = q\<rparr>) (unescape p)"

definition url_parse :: "(string \<Rightarrow> bool) \<Rightarrow> string \<Rightarrow> url option" where
  "url_parse auth raw =
     (if list_ex is_ctl raw then None
      else if raw = ''*'' then Some \<lparr>Scheme = [], Opaque = [], Path = ''*''\<rparr>
      else case getScheme [] raw of
        None \<Rightarrow> None
      | Some (scheme, rest) \<Rightarrow>
         (let scheme = map to_lower scheme; rest = cut_query rest
          in if \<not> HasPrefix rest ''/'' then
               (if scheme \<noteq> [] then Some \<lparr>Scheme = scheme, Opaque = rest, Path = []\<rparr>
                else if CHR '':'' \<in> set (fst (split_first CHR ''/'' rest)) then None
                else set_path scheme rest)
             else if (scheme \<noteq> [] \<or> \<not> HasPrefix rest ''///'') \<and> HasPrefix rest ''//'' then
               (let authority = fst (split_first CHR ''/'' (drop 2 rest))
                in if auth authority then set_path scheme (drop (2 + length authority) rest) else None)
             else set_path scheme rest))"

definition url_Parse :: "(string \<Rightarrow> bool) \<Rightarrow> string \<Rightarrow> url option" where
  "url_Parse auth raw =
     (case split_first CHR ''#'' raw of
        (u, frag) \<Rightarrow>
          (case url_parse auth u of
             None \<Rightarrow> None
           | Some r \<Rightarrow> (case frag of None \<Rightarrow> Some r | Some f \<Rightarrow> if unescape f = None then None else Some r)))"

section \<open>SSB URIs\<close>

datatype SSBURIType = URITypeFeed | URITypeMessage | URITypeBlob | URITypeAddress | URITypeUnknown

datatype SSBURI = FeedURI "FeedRef option" | MessageURI "MessageRef option" | BlobURI "BlobRef option"

fun URI_Type :: "SSBURI \<Rightarrow> SSBURIType" where
  "URI_Type (FeedURI _) = URITypeFeed"
| "URI_Type (MessageURI _) = URITypeMessage"
| "URI_Type (BlobURI _) = URITypeBlob"

definition feedURIFormat :: "string \<Rightarrow> string option" where
  "feedURIFormat algo =
     (if algo = RefAlgoFeedSSB1 then Some ''classic''
      else if algo = RefAlgoFeedBendyButt then Some ''bendybutt-v1''
      else if algo = RefAlgoFeedGabby then Some ''gabbygrove-v1''
      else if algo = RefAlgoFeedBamboo then Some ''bamboo''
      else if algo = RefAlgoFeedIndexed then Some ''indexed-v1'' else None)"

definition messageURIFormat :: "string \<Rightarrow> string option" where
  "messageURIFormat algo =
     (if algo = RefAlgoMessageSSB1 then Some ''classic''
      else if algo = RefAlgoMessageBendyButt then Some ''bendybutt-v1''
      else if algo = RefAlgoMessageGabby then Some ''gabbygrove-v1''
      else if algo = RefAlgoMessageBamboo then Some ''bamboo''
      else if algo = RefAlgoMessageIndexed then Some ''indexed-v1'' else None)"

fun URI_String :: "SSBURI \<Rightarrow> string" where
  "URI_String (FeedURI None) = []"
| "URI_String (FeedURI (Some r)) =
     (case feedURIFormat (feed_algo r) of None \<Rightarrow> []
      | Some format \<Rightarrow> ''ssb:feed/'' @ format @ ''/'' @ EncodeToString URLEncoding (feed_id r))"
| "URI_String (MessageURI None) = []"
| "URI_String (MessageURI (Some r)) =
     (case messageURIFormat (msg_algo r) of None \<Rightarrow> []
      | Some format \<Rightarrow> ''ssb:message/'' @ format @ ''/'' @ EncodeToString URLEncoding (msg_hash r))"
| "URI_String (BlobURI None) = []"
| "URI_String (BlobURI (Some r)) = ''ssb:blob/classic/'' @ EncodeToString URLEncoding (blob_hash r)"

definition uri_feed_algo :: "string \<Rightarrow> string option" where
  "uri_feed_algo p =
     (if p = ''classic'' \<or> p = ''ed25519'' then Some RefAlgoFeedSSB1
      else if p = ''bendybutt-v1'' then Some RefAlgoFeedBendyButt
      else if p = ''gabbygrove-v1'' then Some RefAlgoFeedGabby
      else if p = ''bamboo'' then Some RefAlgoFeedBamboo
      else if p = ''indexed-v1'' then Some RefAlgoFeedIndexed else None)"

definition uri_message_algo :: "string \<Rightarrow> string option" where
  "uri_message_algo p =
     (if p = ''classic'' \<or> p = ''sha256'' then Some RefAlgoMessageSSB1
      else if p = ''bendybutt-v1'' then Some RefAlgoMessageBendyButt
      else if p = ''gabbygrove-v1'' then Some RefAlgoMessageGabby
      else if p = ''bamboo'' then Some RefAlgoMessageBamboo
      else if p = ''indexed-v1'' then Some RefAlgoMessageIndexed else None)"

definition parseFeedURI :: "string list \<Rightarrow> ref_error + SSBURI" where
  "parseFeedURI parts =
     (if length parts < 3 then Inl ErrInvalidResource
      else case uri_feed_algo (parts ! 1) of None \<Rightarrow> Inl ErrInvalidResource
      | Some algo \<Rightarrow>
         (case DecodeString URLEncoding (parts ! 2) of None \<Rightarrow> Inl ErrInvalidEncoding
          | Some d \<Rightarrow> (case NewFeedRef d algo of Inl e \<Rightarrow> Inl e | Inr r \<Rightarrow> Inr (FeedURI (Some r)))))"

definition parseMessageURI :: "string list \<Rightarrow> ref_error + SSBURI" where
  "parseMessageURI parts =
     (if length parts < 3 then Inl ErrInvalidResource
      else case uri_message_algo (parts ! 1) of None \<Rightarrow> Inl ErrInvalidResource
      | Some algo \<Rightarrow>
         (case DecodeString URLEncoding (parts ! 2) of None \<Rightarrow> Inl ErrInvalidEncoding
          | Some d \<Rightarrow> (case NewMessageRef d algo of Inl e \<Rightarrow> Inl e | Inr r \<Rightarrow> Inr (MessageURI (Some r)))))"

definition parseBlobURI :: "string list \<Rightarrow> ref_error + SSBURI" where
  "parseBlobURI parts =
     (if length parts < 2 then Inl ErrInvalidResource
      else if parts ! 1 \<noteq> ''classic'' \<and> parts ! 1 \<noteq> ''sha256'' then Inl ErrInvalidResource
      else if length parts < 3 then Inl ErrInvalidEncoding
      else case DecodeString URLEncoding (parts ! 2) of None \<Rightarrow> Inl ErrInvalidEncoding
           | Some d \<Rightarrow> (case NewBlobRef d of Inl e \<Rightarrow> Inl e | Inr r \<Rightarrow> Inr (BlobURI (Some r))))"

definition uri_parts :: "string \<Rightarrow> string list" where
  "uri_parts path =
     filter (\<lambda>p. p \<noteq> []) (concat (map (split_on CHR '':'') (split_on CHR ''/'' path)))"

definition ParseSSBURI :: "(string \<Rightarrow> bool) \<Rightarrow> string \<Rightarrow> ref_error + SSBURI" where
  "ParseSSBURI auth uri =
     (case url_Parse auth (TrimSpace uri) of
        None \<Rightarrow> Inl ErrInvalidSSBURI
      | Some u \<Rightarrow>
         (if Scheme u \<noteq> ''ssb'' then Inl ErrInvalidScheme
          else let path = (if Opaque u = [] then Path u else Opaque u);
                   path = TrimPrefix path ''/'';
                   path = fst (split_first CHR ''?'' path);
                   parts = uri_parts path
               in if length parts < 2 then Inl ErrInvalidResource
                  else if parts ! 0 = ''feed'' then parseFeedURI parts
                  else if parts ! 0 = ''message'' then parseMessageURI parts
                  else if parts ! 0 = ''blob'' then parseBlobURI parts
                  else Inl ErrInvalidResource))"

section \<open>URIs read back\<close>

definition plain :: "char \<Rightarrow> bool" where
  "plain c \<longleftrightarrow> \<not> is_ctl c \<and> c \<notin> set ''#?/:%'' \<and> solid c"

lemma plain_base64: "c \<in> set (EncodeToString URLEncoding s) \<Longrightarrow> plain c"
proof -
  assume "c \<in> set (EncodeToString URLEncoding s)"
  then have "c \<in> set (CHR ''='' # url_alphabet)" using EncodeToString_mem(2) by auto
  moreover have "list_all plain (CHR ''='' # url_alphabet)" by code_simp
  ultimately show "plain c" by (simp only: list_all_iff)
qed

lemma split_first_absent: "c \<notin> set s \<Longrightarrow> split_first c s = (s, None)"
  by (induction s) auto

lemma parse_opaque:
  assumes "list_all plain k" "list_all plain f" "list_all plain b" "k \<noteq> []" "f \<noteq> []" "b \<noteq> []"
  shows "url_Parse auth (TrimSpace (''ssb:'' @ k @ ''/'' @ f @ ''/'' @ b)) = Some \<lparr>Scheme = ''ssb'', Opaque = k @ ''/'' @ f @ ''/'' @ b, Path = []\<rparr>"
    and "uri_parts (k @ ''/'' @ f @ ''/'' @ b) = [k, f, b]"
    and "split_first CHR ''?'' (k @ ''/'' @ f @ ''/'' @ b) = (k @ ''/'' @ f @ ''/'' @ b, None)"
    and "TrimPrefix (k @ ''/'' @ f @ ''/'' @ b) ''/'' = k @ ''/'' @ f @ ''/'' @ b"
proof -
  let ?s = "k @ ''/'' @ f @ ''/'' @ b"
  have "\<not> plain CHR ''#''" "\<not> plain CHR ''?''" "\<not> plain CHR ''/''" "\<not> plain CHR '':''" by (simp_all add: plain_def)
  then have no: "CHR ''#'' \<notin> set ?s" "CHR ''?'' \<notin> set ?s" "CHR ''/'' \<notin> set k \<union> set f \<union> set b"
    "CHR '':'' \<notin> set k \<union> set f \<union> set b"
    using assms(1-3) by (auto simp: list_all_iff)
  have "\<not> list_ex is_ctl k" "\<not> list_ex is_ctl f" "\<not> list_ex is_ctl b"
    using assms(1-3) by (auto simp: list_ex_iff list_all_iff plain_def)
  moreover have "\<not> list_ex is_ctl ''ssb:''" "\<not> list_ex is_ctl ''/''" by code_simp+
  ultimately have ctl: "\<not> list_ex is_ctl (''ssb:'' @ ?s)" by (simp only: list_ex_append simp_thms)
  have "solid (last (''ssb:'' @ ?s))" using assms(3,6) by (auto simp: list_all_iff plain_def)
  then have t: "TrimSpace (''ssb:'' @ ?s) = ''ssb:'' @ ?s"
    by (intro TrimSpace_solid) (simp_all add: solid_def space_runes_def)
  have g: "getScheme [] (''ssb:'' @ ?s) = Some (''ssb'', ?s)" by (simp add: is_letter_def is_digit_def)
  have "filter (\<lambda>c. c = CHR ''?'') ?s = []" using no(2) by (auto simp: filter_empty_conv)
  then have q: "cut_query ?s = ?s" by (simp only: cut_query_def split_first_absent [OF no(2)] list.size) simp
  have p: "\<not> HasPrefix ?s ''/''" using assms(4) no(3) by (cases k) (auto simp: HasPrefix_def)
  then show "TrimPrefix ?s ''/'' = ?s" by (simp add: TrimPrefix_def)
  have l: "map to_lower ''ssb'' = ''ssb''" by (simp add: to_lower_def)
  have "url_parse auth (''ssb:'' @ ?s) = Some \<lparr>Scheme = ''ssb'', Opaque = ?s, Path = []\<rparr>"
    unfolding url_parse_def g option.case prod.case Let_def q l using ctl p by (simp del: list.map append_Cons)
  moreover have "split_first CHR ''#'' (''ssb:'' @ ?s) = (''ssb:'' @ ?s, None)"
    using no(1) by (intro split_first_absent) simp
  ultimately show "url_Parse auth (TrimSpace (''ssb:'' @ ?s)) = Some \<lparr>Scheme = ''ssb'', Opaque = ?s, Path = []\<rparr>"
    unfolding t url_Parse_def by (simp only: prod.case option.case)
  show "split_first CHR ''?'' ?s = (?s, None)" by (rule split_first_absent [OF no(2)])
  show "uri_parts ?s = [k, f, b]"
    using no(3,4) assms(4-6) by (simp add: uri_parts_def split_on_append split_on_single)
qed

lemma plain_list: "list_all plain (EncodeToString URLEncoding s)"
  by (simp add: list_all_iff plain_base64)

lemma plain_names:
  "list_all plain ''feed''" "list_all plain ''message''" "list_all plain ''blob''" "list_all plain ''classic''"
  "list_all plain ''bendybutt-v1''" "list_all plain ''gabbygrove-v1''" "list_all plain ''bamboo''" "list_all plain ''indexed-v1''"
  by code_simp+

lemma feed_format:
  assumes "feed_algo_known a"
  obtains f where "feedURIFormat a = Some f" "uri_feed_algo f = Some a" "list_all plain f" "f \<noteq> []"
  using assms plain_names by (auto simp: feed_algo_known_def feedURIFormat_def uri_feed_algo_def ref_algos)

lemma message_format:
  assumes "msg_algo_known a"
  obtains f where "messageURIFormat a = Some f" "uri_message_algo f = Some a" "list_all plain f" "f \<noteq> []"
  using assms plain_names by (auto simp: msg_algo_known_def messageURIFormat_def uri_message_algo_def ref_algos)

lemma ParseSSBURI_plain:
  assumes "list_all plain k" "list_all plain f" "list_all plain b" "k \<noteq> []" "f \<noteq> []" "b \<noteq> []"
  shows "ParseSSBURI auth (''ssb:'' @ k @ ''/'' @ f @ ''/'' @ b) =
     (if k = ''feed'' then parseFeedURI [k, f, b]
      else if k = ''message'' then parseMessageURI [k, f, b]
      else if k = ''blob'' then parseBlobURI [k, f, b]
      else Inl ErrInvalidResource)"
proof -
  have "k @ ''/'' @ f @ ''/'' @ b \<noteq> []" by simp
  then show ?thesis
    unfolding ParseSSBURI_def parse_opaque(1) [OF assms] option.case Let_def url.simps
    by (simp only: if_False if_True simp_thms parse_opaque(2-4) [OF assms] fst_conv) simp
qed

fun uri_ok :: "SSBURI \<Rightarrow> bool" where
  "uri_ok (FeedURI (Some r)) \<longleftrightarrow> feed_algo_known (feed_algo r) \<and> length (feed_id r) = 32"
| "uri_ok (MessageURI (Some r)) \<longleftrightarrow> msg_algo_known (msg_algo r) \<and> length (msg_hash r) = 32"
| "uri_ok (BlobURI (Some r)) \<longleftrightarrow> length (blob_hash r) = 32"
| "uri_ok _ \<longleftrightarrow> False"

lemma ParseSSBURI_String:
  assumes "uri_ok u"
  shows "ParseSSBURI auth (URI_String u) = Inr u"
  using assms
proof (cases u rule: uri_ok.cases)
  case (1 r)
  with assms obtain f where f: "feedURIFormat (feed_algo r) = Some f" "uri_feed_algo f = Some (feed_algo r)" "list_all plain f" "f \<noteq> []"
    using feed_format by auto
  let ?b = "EncodeToString URLEncoding (feed_id r)"
  have "ParseSSBURI auth (''ssb:'' @ ''feed'' @ ''/'' @ f @ ''/'' @ ?b) = parseFeedURI [''feed'', f, ?b]"
    using ParseSSBURI_plain [OF plain_names(1) f(3) plain_list _ f(4) encode_id] assms 1 by simp
  with f assms 1 show ?thesis by (simp add: parseFeedURI_def DecodeString_EncodeToString NewFeedRef_def)
next
  case (2 r)
  with assms obtain f where f: "messageURIFormat (msg_algo r) = Some f" "uri_message_algo f = Some (msg_algo r)" "list_all plain f" "f \<noteq> []"
    using message_format by auto
  let ?b = "EncodeToString URLEncoding (msg_hash r)"
  have "ParseSSBURI auth (''ssb:'' @ ''message'' @ ''/'' @ f @ ''/'' @ ?b) = parseMessageURI [''message'', f, ?b]"
    using ParseSSBURI_plain [OF plain_names(2) f(3) plain_list _ f(4) encode_id] assms 2 by simp
  with f assms 2 show ?thesis by (simp add: parseMessageURI_def DecodeString_EncodeToString NewMessageRef_def)
next
  case (3 r)
  let ?b = "EncodeToString URLEncoding (blob_hash r)"
  have "ParseSSBURI auth (''ssb:'' @ ''blob'' @ ''/'' @ ''classic'' @ ''/'' @ ?b) = parseBlobURI [''blob'', ''classic'', ?b]"
    using ParseSSBURI_plain [OF plain_names(3,4) plain_list _ _ encode_id] assms 3 by simp
  with assms 3 show ?thesis by (simp add: parseBlobURI_def DecodeString_EncodeToString NewBlobRef_def)
qed auto

section \<open>The format registry\<close>

datatype Kind = KindFeed | KindMessage
datatype SupportStatus = StatusSupported | StatusPartial | StatusUnsupported

record Descriptor =
  Name :: string
  DKind :: Kind
  Status :: SupportStatus

record Registry =
  feeds :: "(string \<times> Descriptor) list"
  messages :: "(string \<times> Descriptor) list"

text \<open>The free-text descriptions are left out.\<close>

definition NewRegistry :: Registry where
  "NewRegistry =
     \<lparr>feeds =
        [(''ed25519'', \<lparr>Name = ''ed25519'', DKind = KindFeed, Status = StatusSupported\<rparr>),
         (''bendybutt-v1'', \<lparr>Name = ''bendybutt-v1'', DKind = KindFeed, Status = StatusPartial\<rparr>),
         (''gabbygrove-v1'', \<lparr>Name = ''gabbygrove-v1'', DKind = KindFeed, Status = StatusUnsupported\<rparr>),
         (''bamboo'', \<lparr>Name = ''bamboo'', DKind = KindFeed, Status = StatusUnsupported\<rparr>),
         (''indexed-v1'', \<lparr>Name = ''indexed-v1'', DKind = KindFeed, Status = StatusUnsupported\<rparr>)],
      messages =
        [(''sha256'', \<lparr>Name = ''sha256'', DKind = KindMessage, Status = StatusSupported\<rparr>),
         (''bendybutt-v1'', \<lparr>Name = ''bendybutt-v1'', DKind = KindMessage, Status = StatusPartial\<rparr>),
         (''gabbygrove-v1'', \<lparr>Name = ''gabbygrove-v1'', DKind = KindMessage, Status = StatusUnsupported\<rparr>),
         (''bamboo'', \<lparr>Name = ''bamboo'', DKind = KindMessage, Status = StatusUnsupported\<rparr>),
         (''indexed-v1'', \<lparr>Name = ''indexed-v1'', DKind = KindMessage, Status = StatusUnsupported\<rparr>)]\<rparr>"

definition registry_or_default :: "Registry option \<Rightarrow> Registry" where
  "registry_or_default r = (case r of None \<Rightarrow> NewRegistry | Some r \<Rightarrow> r)"

definition Registry_Feed :: "Registry option \<Rightarrow> string \<Rightarrow> Descriptor option" where
  "Registry_Feed r format = map_of (feeds (registry_or_default r)) format"

definition Registry_Message :: "Registry option \<Rightarrow> string \<Rightarrow> Descriptor option" where
  "Registry_Message r format = map_of (messages (registry_or_default r)) format"

definition FeedStatus :: "Registry option \<Rightarrow> string \<Rightarrow> SupportStatus" where
  "FeedStatus r format = (case Registry_Feed r format of Some d \<Rightarrow> Status d | None \<Rightarrow> StatusUnsupported)"

definition MessageStatus :: "Registry option \<Rightarrow> string \<Rightarrow> SupportStatus" where
  "MessageStatus r format = (case Registry_Message r format of Some d \<Rightarrow> Status d | None \<Rightarrow> StatusUnsupported)"

record UnsupportedFormatError =
  EKind :: "Kind option"
  EFeedFormat :: string
  EMessageFormat :: string
  EMethod :: string
  EPhase :: string

definition UnsupportedFeed :: "string \<Rightarrow> string \<Rightarrow> string \<Rightarrow> UnsupportedFormatError" where
  "UnsupportedFeed format meth phase =
     \<lparr>EKind = Some KindFeed, EFeedFormat = format, EMessageFormat = [], EMethod = meth, EPhase = phase\<rparr>"

definition UnsupportedMessage :: "string \<Rightarrow> string \<Rightarrow> string \<Rightarrow> UnsupportedFormatError" where
  "UnsupportedMessage format meth phase =
     \<lparr>EKind = Some KindMessage, EFeedFormat = [], EMessageFormat = format, EMethod = meth, EPhase = phase\<rparr>"

definition EnsureFeedSupported :: "Registry option \<Rightarrow> string \<Rightarrow> string \<Rightarrow> string \<Rightarrow> UnsupportedFormatError option" where
  "EnsureFeedSupported r format meth phase =
     (if FeedStatus r format = StatusSupported then None else Some (UnsupportedFeed format meth phase))"

definition EnsureMessageSupported :: "Registry option \<Rightarrow> string \<Rightarrow> string \<Rightarrow> string \<Rightarrow> UnsupportedFormatError option" where
  "EnsureMessageSupported r format meth phase =
     (if MessageStatus r format = StatusSupported then None else Some (UnsupportedMessage format meth phase))"

definition FeedFromRef :: "FeedRef option \<Rightarrow> string" where
  "FeedFromRef r = (case r of None \<Rightarrow> [] | Some r \<Rightarrow> feed_algo r)"

definition MessageFromRef :: "MessageRef option \<Rightarrow> string" where
  "MessageFromRef r = (case r of None \<Rightarrow> [] | Some r \<Rightarrow> msg_algo r)"

definition FeedFromString :: "string \<Rightarrow> string" where
  "FeedFromString s = (case ParseFeedRef s of Inl _ \<Rightarrow> [] | Inr r \<Rightarrow> FeedFromRef (Some r))"

definition MessageFromString :: "string \<Rightarrow> string" where
  "MessageFromString s = (case ParseMessageRef s of Inl _ \<Rightarrow> [] | Inr r \<Rightarrow> MessageFromRef (Some r))"

definition MessageFromFeed :: "string \<Rightarrow> string" where
  "MessageFromFeed format =
     (if format = ''ed25519'' then ''sha256''
      else if format = ''bendybutt-v1'' then ''bendybutt-v1''
      else if format = ''gabbygrove-v1'' then ''gabbygrove-v1''
      else if format = ''bamboo'' then ''bamboo''
      else if format = ''indexed-v1'' then ''indexed-v1'' else [])"

definition IsClassic :: "string \<Rightarrow> string \<Rightarrow> bool" where
  "IsClassic feed msg \<longleftrightarrow> feed = ''ed25519'' \<and> msg = ''sha256''"

definition Error_text :: "UnsupportedFormatError option \<Rightarrow> string" where
  "Error_text e =
     (case e of
        None \<Rightarrow> []
      | Some e \<Rightarrow>
         (let (errKind, format) =
                (case EKind e of
                   Some KindFeed \<Rightarrow> (''unsupported_feed_format'', EFeedFormat e)
                 | Some KindMessage \<Rightarrow> (''unsupported_message_format'', EMessageFormat e)
                 | None \<Rightarrow> (''unsupported_format'', []))
          in Join '' ''
               ([errKind]
                @ (if TrimSpace format \<noteq> [] then [''format='' @ format] else [])
                @ (if TrimSpace (EMethod e) \<noteq> [] then [''method='' @ TrimSpace (EMethod e)] else [])
                @ (if TrimSpace (EPhase e) \<noteq> [] then [''phase='' @ TrimSpace (EPhase e)] else []))))"

text \<open>\<open>errors.As\<close> finds an unsupported-format error in a chain or nothing.\<close>

definition ErrorKind :: "UnsupportedFormatError option \<Rightarrow> string" where
  "ErrorKind e =
     (case e of None \<Rightarrow> []
      | Some e \<Rightarrow> (case EKind e of Some KindFeed \<Rightarrow> ''unsupported_feed_format''
                   | Some KindMessage \<Rightarrow> ''unsupported_message_format'' | None \<Rightarrow> ''unsupported_format''))"

definition ParseFeedAlgo :: "string \<Rightarrow> string option" where
  "ParseFeedAlgo value =
     (let value = TrimSpace value in case Registry_Feed (Some NewRegistry) value of Some _ \<Rightarrow> Some value | None \<Rightarrow> None)"

definition ParseMessageAlgo :: "string \<Rightarrow> string option" where
  "ParseMessageAlgo value =
     (let value = TrimSpace value in case Registry_Message (Some NewRegistry) value of Some _ \<Rightarrow> Some value | None \<Rightarrow> None)"

lemma Feed_registered: "Registry_Feed None f \<noteq> None \<longleftrightarrow> feed_algo_known f"
  by (auto simp: Registry_Feed_def registry_or_default_def NewRegistry_def feed_algo_known_def ref_algos)

lemma FeedStatus_supported: "FeedStatus None f = StatusSupported \<longleftrightarrow> f = ''ed25519''"
  by (auto simp: FeedStatus_def Registry_Feed_def registry_or_default_def NewRegistry_def)

lemma MessageStatus_of_feed: "feed_algo_known f \<Longrightarrow> MessageStatus None (MessageFromFeed f) = FeedStatus None f"
  by (auto simp: feed_algo_known_def ref_algos MessageFromFeed_def MessageStatus_def FeedStatus_def Registry_Feed_def
      Registry_Message_def registry_or_default_def NewRegistry_def)

section \<open>Properties\<close>

text \<open>C20: A string that parses as a feed reference yields a well-formed reference, of a known algorithm with a 32-byte key, and
  the reference prints to a string that parses to the same reference.\<close>
theorem parsed_feed_ref_canonical:
  assumes "ParseFeedRef s = Inr f"
  shows "feed_algo_known (feed_algo f) \<and> length (feed_id f) = 32 \<and> ParseFeedRef (FeedRef_String f) = Inr f"
  using ParseFeedRef_wf [OF assms] ParseFeedRef_String by blast

text \<open>Every SSB URI that is printed for a feed, message or blob reference of a known format parses back to that reference.\<close>
theorem ssb_uri_round_trip:
  assumes "uri_ok u"
  shows "ParseSSBURI auth (URI_String u) = Inr u"
  using assms by (rule ParseSSBURI_String)

text \<open>For every feed string, replication is allowed exactly when the string is a classic feed reference, and the registry gives
  the message format of a known feed format the same status as the feed format.\<close>
theorem only_classic_supported:
  "(EnsureFeedSupported None (FeedFromString s) meth phase = None \<longleftrightarrow>
      (\<exists>f. ParseFeedRef s = Inr f \<and> feed_algo f = ''ed25519'')) \<and>
   (case ParseFeedRef s of Inl _ \<Rightarrow> True
    | Inr f \<Rightarrow> MessageStatus None (MessageFromFeed (feed_algo f)) = FeedStatus None (feed_algo f))"
  using ParseFeedRef_wf [of s]
  by (auto simp: EnsureFeedSupported_def FeedFromString_def FeedFromRef_def FeedStatus_supported MessageStatus_of_feed split: sum.splits)

definition sample_feed :: FeedRef where
  "sample_feed = \<lparr>feed_algo = ''bendybutt-v1'', feed_id = replicate 32 CHR ''k''\<rparr>"

lemma sample_feed_ok: "feed_algo_known (feed_algo sample_feed)" "length (feed_id sample_feed) = 32"
  by (simp_all add: sample_feed_def feed_algo_known_def ref_algos)

theorem parsed_feed_ref_canonical_witness:
  "ParseFeedRef (FeedRef_String sample_feed) = Inr sample_feed \<and> feed_algo_known (feed_algo sample_feed)"
  using parsed_feed_ref_canonical [OF ParseFeedRef_String [OF sample_feed_ok]] by simp

theorem ssb_uri_round_trip_witness:
  "ParseSSBURI (\<lambda>_. False) (''ssb:feed/bendybutt-v1/'' @ EncodeToString URLEncoding (replicate 32 CHR ''k'')) = Inr (FeedURI (Some sample_feed))"
proof -
  have "URI_String (FeedURI (Some sample_feed)) = ''ssb:feed/bendybutt-v1/'' @ EncodeToString URLEncoding (replicate 32 CHR ''k'')"
    by (simp add: sample_feed_def feedURIFormat_def ref_algos)
  with ssb_uri_round_trip [of "FeedURI (Some sample_feed)" "\<lambda>_. False"] sample_feed_ok show ?thesis by simp
qed

end
