(* ===== verification/JsonText.thy ===== *)
theory JsonText
  imports Go_Value
begin

text \<open>
  The text of JSON as \<open>encoding/json\<close> reads it: the scanner, which finds where a value ends, the
  members of an object and the elements of an array as raw text, string literals with their
  escapes, and UTF-8. The scanner's limit on nesting (10000) is not reached by texts shorter than
  that and is left out.
\<close>

section \<open>UTF-8\<close>

definition byte :: "char \<Rightarrow> nat" where
  "byte c = of_char c"

definition cont :: "char \<Rightarrow> bool" where
  "cont c \<longleftrightarrow> 128 \<le> byte c \<and> byte c \<le> 191"

text \<open>\<open>utf8.DecodeRune\<close>: the rune and the number of bytes; an invalid byte is U+FFFD of width one.\<close>

fun decode_rune :: "string \<Rightarrow> nat \<times> nat" where
  "decode_rune [] = (0xFFFD, 0)"
| "decode_rune (c # s) =
     (let b = byte c
      in if b < 128 then (b, 1)
         else if 0xC2 \<le> b \<and> b \<le> 0xDF then
           (case s of d # _ \<Rightarrow> if cont d then ((b - 0xC0) * 64 + (byte d - 128), 2) else (0xFFFD, 1) | _ \<Rightarrow> (0xFFFD, 1))
         else if 0xE0 \<le> b \<and> b \<le> 0xEF then
           (case s of d # e # _ \<Rightarrow>
              if cont d \<and> cont e \<and> (b = 0xE0 \<longrightarrow> 0xA0 \<le> byte d) \<and> (b = 0xED \<longrightarrow> byte d \<le> 0x9F)
              then ((b - 0xE0) * 4096 + (byte d - 128) * 64 + (byte e - 128), 3) else (0xFFFD, 1)
            | _ \<Rightarrow> (0xFFFD, 1))
         else if 0xF0 \<le> b \<and> b \<le> 0xF4 then
           (case s of d # e # f # _ \<Rightarrow>
              if cont d \<and> cont e \<and> cont f \<and> (b = 0xF0 \<longrightarrow> 0x90 \<le> byte d) \<and> (b = 0xF4 \<longrightarrow> byte d \<le> 0x8F)
              then ((b - 0xF0) * 262144 + (byte d - 128) * 4096 + (byte e - 128) * 64 + (byte f - 128), 4) else (0xFFFD, 1)
            | _ \<Rightarrow> (0xFFFD, 1))
         else (0xFFFD, 1))"

lemma decode_rune_width: "s \<noteq> [] \<Longrightarrow> 1 \<le> snd (decode_rune s)"
  by (cases s) (auto simp: Let_def split: list.splits)

function runes :: "string \<Rightarrow> nat list" where
  "runes s = (if s = [] then [] else case decode_rune s of (r, n) \<Rightarrow> r # runes (drop n s))"
  by pat_completeness auto
termination
proof (relation "measure length", goal_cases)
  case (2 s r n)
  then have "n = snd (decode_rune s)" by (metis snd_conv)
  with decode_rune_width [OF 2(1)] 2(1) show ?case by (cases s) auto
qed simp

declare runes.simps [simp del]

definition encode_rune :: "nat \<Rightarrow> string" where
  "encode_rune r =
     (if r < 128 then [char_of r]
      else if r < 0x800 then [char_of (0xC0 + r div 64), char_of (128 + r mod 64)]
      else if 0x10FFFF < r \<or> 0xD800 \<le> r \<and> r \<le> 0xDFFF then [CHR 0xEF, CHR 0xBF, CHR 0xBD]
      else if r < 0x10000 then [char_of (0xE0 + r div 4096), char_of (128 + r div 64 mod 64), char_of (128 + r mod 64)]
      else [char_of (0xF0 + r div 262144), char_of (128 + r div 4096 mod 64), char_of (128 + r div 64 mod 64), char_of (128 + r mod 64)])"

section \<open>Scanning\<close>

definition is_space :: "char \<Rightarrow> bool" where
  "is_space c \<longleftrightarrow> c = CHR 0x20 \<or> c = CHR 0x09 \<or> c = CHR 0x0A \<or> c = CHR 0x0D"

definition skip_ws :: "string \<Rightarrow> string" where
  "skip_ws s = dropWhile is_space s"

definition hex_digit :: "char \<Rightarrow> nat option" where
  "hex_digit c =
     (let n = byte c
      in if 48 \<le> n \<and> n \<le> 57 then Some (n - 48)
         else if 97 \<le> n \<and> n \<le> 102 then Some (n - 87)
         else if 65 \<le> n \<and> n \<le> 70 then Some (n - 55) else None)"

text \<open>What follows a string literal, given what follows its opening quote.\<close>

fun string_rest :: "string \<Rightarrow> string option" where
  "string_rest [] = None"
| "string_rest (c # s) =
     (if c = CHR 0x22 then Some s
      else if byte c < 32 then None
      else if c = CHR 0x5C then
        (case s of
           d # t \<Rightarrow>
             if d \<in> set ''bfnrt/'' \<or> d = CHR 0x22 \<or> d = CHR 0x5C then string_rest t
             else if d = CHR ''u'' then
               (case t of h1 # h2 # h3 # h4 # t' \<Rightarrow>
                  if hex_digit h1 \<noteq> None \<and> hex_digit h2 \<noteq> None \<and> hex_digit h3 \<noteq> None \<and> hex_digit h4 \<noteq> None
                  then string_rest t' else None
                | _ \<Rightarrow> None)
             else None
         | [] \<Rightarrow> None)
      else string_rest s)"

definition digits1 :: "string \<Rightarrow> string option" where
  "digits1 s = (case s of c # t \<Rightarrow> if is_digit c then Some (dropWhile is_digit s) else None | [] \<Rightarrow> None)"

definition number_rest :: "string \<Rightarrow> string option" where
  "number_rest s =
     (let s = (case s of c # t \<Rightarrow> if c = CHR ''-'' then t else s | [] \<Rightarrow> s);
          int_part = (case s of c # t \<Rightarrow> if c = CHR ''0'' then Some t else digits1 s | [] \<Rightarrow> None)
      in case int_part of
           None \<Rightarrow> None
         | Some s \<Rightarrow>
            (let frac = (case s of c # t \<Rightarrow> if c = CHR ''.'' then digits1 t else Some s | [] \<Rightarrow> Some s)
             in case frac of
                  None \<Rightarrow> None
                | Some s \<Rightarrow>
                   (case s of
                      c # t \<Rightarrow>
                        if c = CHR ''e'' \<or> c = CHR ''E'' then
                          digits1 (case t of d # u \<Rightarrow> if d = CHR ''+'' \<or> d = CHR ''-'' then u else t | [] \<Rightarrow> t)
                        else Some s
                    | [] \<Rightarrow> Some s)))"

definition literal_rest :: "string \<Rightarrow> string \<Rightarrow> string option" where
  "literal_rest lit s = (if HasPrefix s lit then Some (drop (length lit) s) else None)"

definition span_of :: "string \<Rightarrow> string \<Rightarrow> string" where
  "span_of s rest = take (length s - length rest) s"

text \<open>
  The first argument bounds the number of steps: each of them reads a byte or ends, so twice the
  length of the text and one more is enough (\<open>value_rest_fuel\<close>).
\<close>

fun value_rest :: "nat \<Rightarrow> string \<Rightarrow> string option"
  and obj_items :: "nat \<Rightarrow> bool \<Rightarrow> string \<Rightarrow> ((string \<times> string) list \<times> string) option"
  and arr_items :: "nat \<Rightarrow> bool \<Rightarrow> string \<Rightarrow> (string list \<times> string) option"
where
  "value_rest 0 s = None"
| "value_rest (Suc n) s =
     (case skip_ws s of
        [] \<Rightarrow> None
      | c # t \<Rightarrow>
         (if c = CHR ''{'' then map_option snd (obj_items n True t)
          else if c = CHR ''['' then map_option snd (arr_items n True t)
          else if c = CHR 0x22 then string_rest t
          else if c = CHR ''t'' then literal_rest ''true'' (c # t)
          else if c = CHR ''f'' then literal_rest ''false'' (c # t)
          else if c = CHR ''n'' then literal_rest ''null'' (c # t)
          else number_rest (c # t)))"
| "obj_items 0 first s = None"
| "obj_items (Suc n) first s =
     (case skip_ws s of
        [] \<Rightarrow> None
      | c # t \<Rightarrow>
         (if c = CHR ''}'' \<and> first then Some ([], t)
          else if c \<noteq> CHR 0x22 then None
          else case string_rest t of
            None \<Rightarrow> None
          | Some u \<Rightarrow>
             (case skip_ws u of
                [] \<Rightarrow> None
              | d # v \<Rightarrow>
                 (if d \<noteq> CHR '':'' then None
                  else case value_rest n v of
                    None \<Rightarrow> None
                  | Some w \<Rightarrow>
                     (let item = (span_of (c # t) u, span_of (skip_ws v) w)
                      in case skip_ws w of
                           [] \<Rightarrow> None
                         | e # x \<Rightarrow>
                            (if e = CHR ''}'' then Some ([item], x)
                             else if e = CHR '','' then map_option (\<lambda>(is, r). (item # is, r)) (obj_items n False x)
                             else None))))))"
| "arr_items 0 first s = None"
| "arr_items (Suc n) first s =
     (case skip_ws s of
        [] \<Rightarrow> None
      | c # t \<Rightarrow>
         (if c = CHR '']'' \<and> first then Some ([], t)
          else case value_rest n (c # t) of
            None \<Rightarrow> None
          | Some w \<Rightarrow>
             (let item = span_of (c # t) w
              in case skip_ws w of
                   [] \<Rightarrow> None
                 | e # x \<Rightarrow>
                    (if e = CHR '']'' then Some ([item], x)
                     else if e = CHR '','' then map_option (\<lambda>(is, r). (item # is, r)) (arr_items n False x)
                     else None))))"

definition fuel_for :: "string \<Rightarrow> nat" where
  "fuel_for s = 2 * length s + 2"

text \<open>\<open>json.Valid\<close>, which \<open>json.Unmarshal\<close> checks first.\<close>

definition valid_json :: "string \<Rightarrow> bool" where
  "valid_json s = (case value_rest (fuel_for s) s of None \<Rightarrow> False | Some r \<Rightarrow> skip_ws r = [])"

section \<open>String literals\<close>

definition hex4 :: "string \<Rightarrow> nat option" where
  "hex4 s =
     (case s of a # b # c # d # _ \<Rightarrow>
        (case (hex_digit a, hex_digit b, hex_digit c, hex_digit d) of
           (Some w, Some x, Some y, Some z) \<Rightarrow> Some (4096 * w + 256 * x + 16 * y + z)
         | _ \<Rightarrow> None)
      | _ \<Rightarrow> None)"

definition escape_char :: "char \<Rightarrow> char option" where
  "escape_char d =
     (if d = CHR ''b'' then Some (CHR 0x08) else if d = CHR ''f'' then Some (CHR 0x0C)
      else if d = CHR ''n'' then Some (CHR 0x0A) else if d = CHR ''r'' then Some (CHR 0x0D)
      else if d = CHR ''t'' then Some (CHR 0x09)
      else if d = CHR ''/'' \<or> d = CHR 0x22 \<or> d = CHR 0x5C then Some d else None)"

text \<open>The text between the quotes; the first argument bounds the number of characters.\<close>

fun unquote :: "nat \<Rightarrow> string \<Rightarrow> string option" where
  "unquote 0 s = (if s = [] then Some [] else None)"
| "unquote (Suc n) [] = Some []"
| "unquote (Suc n) (c # s) =
     (if c = CHR 0x5C then
        (case s of
           [] \<Rightarrow> None
         | d # t \<Rightarrow>
            (if d = CHR ''u'' then
               (case hex4 t of
                  None \<Rightarrow> None
                | Some r \<Rightarrow>
                   (if 0xD800 \<le> r \<and> r \<le> 0xDFFF then
                      (let t' = drop 4 t
                       in case (if r < 0xDC00 \<and> take 2 t' = [CHR 0x5C, CHR ''u''] then hex4 (drop 2 t') else None) of
                            Some l \<Rightarrow>
                              (if 0xDC00 \<le> l \<and> l \<le> 0xDFFF
                               then map_option (\<lambda>u. encode_rune (0x10000 + (r - 0xD800) * 1024 + (l - 0xDC00)) @ u) (unquote n (drop 6 t'))
                               else map_option (\<lambda>u. encode_rune 0xFFFD @ u) (unquote n t'))
                          | None \<Rightarrow> map_option (\<lambda>u. encode_rune 0xFFFD @ u) (unquote n t'))
                    else map_option (\<lambda>u. encode_rune r @ u) (unquote n (drop 4 t))))
             else case escape_char d of None \<Rightarrow> None | Some e \<Rightarrow> map_option (\<lambda>u. e # u) (unquote n t)))
      else if byte c < 128 then map_option (\<lambda>u. c # u) (unquote n s)
      else case decode_rune (c # s) of (r, k) \<Rightarrow> map_option (\<lambda>u. encode_rune r @ u) (unquote n (drop k (c # s))))"

definition unquote_literal :: "string \<Rightarrow> string option" where
  "unquote_literal raw =
     (if 2 \<le> length raw \<and> hd raw = CHR 0x22 \<and> last raw = CHR 0x22
      then unquote (length raw) (butlast (tl raw)) else None)"

section \<open>Decoding into Go values\<close>

text \<open>\<open>map[string]json.RawMessage\<close> and the keys in document order; \<open>[]json.RawMessage\<close>.\<close>

definition raw_members :: "string \<Rightarrow> (string \<times> string) list option" where
  "raw_members s =
     (if \<not> valid_json s then None
      else case skip_ws s of
             c # t \<Rightarrow> (if c = CHR ''{''
                 then map_option (\<lambda>(is, _). map (\<lambda>(k, v). (case unquote_literal k of None \<Rightarrow> [] | Some u \<Rightarrow> u, v)) is) (obj_items (fuel_for s) True t)
                 else None)
           | [] \<Rightarrow> None)"

definition raw_elements :: "string \<Rightarrow> string list option" where
  "raw_elements s =
     (if \<not> valid_json s then None
      else case skip_ws s of
             c # t \<Rightarrow> (if c = CHR ''['' then map_option fst (arr_items (fuel_for s) True t) else None)
           | [] \<Rightarrow> None)"

definition raw_string :: "string \<Rightarrow> string option" where
  "raw_string s = (if valid_json s then unquote_literal (span_of (skip_ws s) (the (value_rest (fuel_for s) s))) else None)"

section \<open>Fuel\<close>

lemma skip_ws_le: "length (skip_ws s) \<le> length s"
  by (simp add: skip_ws_def length_dropWhile_le)

lemma string_rest_less: "string_rest s = Some r \<Longrightarrow> length r < length s"
proof (induction s rule: string_rest.induct)
  case (2 c s)
  then show ?case by (auto simp: less_Suc_eq split: if_splits list.splits)
qed simp

lemma digits1_less: "digits1 s = Some r \<Longrightarrow> length r < length s"
  by (auto simp: digits1_def le_imp_less_Suc length_dropWhile_le split: list.splits if_splits)

lemma number_rest_less: "number_rest s = Some r \<Longrightarrow> length r < length s"
  by (auto simp: number_rest_def Let_def dest!: digits1_less split: option.splits list.splits if_splits)

lemma literal_rest_less: "literal_rest lit s = Some r \<Longrightarrow> lit \<noteq> [] \<Longrightarrow> length r < length s"
  by (auto simp: literal_rest_def HasPrefix_iff split: if_splits)

lemma rest_shorter:
  "value_rest n s = Some r \<Longrightarrow> length r < length s"
  "obj_items n first s = Some (kvs, r) \<Longrightarrow> length r < length s"
  "arr_items n first' s' = Some (vs, r') \<Longrightarrow> length r' < length s'"
proof (induction n s and n first s and n first' s' arbitrary: r and r kvs and r' vs rule: value_rest_obj_items_arr_items.induct)
  case (2 n s)
  obtain c t where ct: "skip_ws s = c # t" using "2.prems" by (cases "skip_ws s") auto
  have "length (c # t) \<le> length s" using skip_ws_le [of s] ct by simp
  moreover have "length r < length (c # t)"
    using "2.prems" ct "2.IH" [of c t]
    by (auto split: if_splits dest: string_rest_less literal_rest_less number_rest_less)
  ultimately show ?case by simp
next
  case (4 n first s)
  obtain c t where ct: "skip_ws s = c # t" using "4.prems" by (cases "skip_ws s") auto
  have le: "length (c # t) \<le> length s" using skip_ws_le [of s] ct by simp
  show ?case
  proof (cases "c = CHR ''}'' \<and> first")
    case True
    with "4.prems" ct le show ?thesis by auto
  next
    case False
    from "4.prems" ct False have q: "\<not> c \<noteq> CHR 0x22" by (auto split: if_splits)
    from "4.prems" ct False q obtain u where u: "string_rest t = Some u" by (auto split: option.splits)
    from "4.prems" ct False q u obtain d v where dv: "skip_ws u = d # v" by (auto split: list.splits)
    from "4.prems" ct False q u dv have colon: "\<not> d \<noteq> CHR '':''" by (auto split: if_splits)
    from "4.prems" ct False q u dv colon obtain w where w: "value_rest n v = Some w" by (auto split: option.splits)
    from "4.prems" ct False q u dv colon w obtain e x where ex: "skip_ws w = e # x" by (auto simp: Let_def split: list.splits)
    have len: "length u < length t" "length (d # v) \<le> length u" "length w < length v" "length (e # x) \<le> length w"
      using string_rest_less [OF u] skip_ws_le [of u] dv "4.IH"(1) [OF ct False q u dv colon w] skip_ws_le [of w] ex by simp_all
    show ?thesis
    proof (cases "e = CHR ''}''")
      case True
      with "4.prems" ct False q u dv colon w ex len le show ?thesis by (simp add: Let_def)
    next
      case e: False
      with "4.prems" ct False q u dv colon w ex obtain kvs' where o: "e = CHR '',''" "obj_items n False x = Some (kvs', r)"
        by (auto simp: Let_def split: if_splits)
      from "4.IH"(2) [OF ct False q u dv colon w refl ex e o] len le show ?thesis by simp
    qed
  qed
next
  case (6 n first s)
  obtain c t where ct: "skip_ws s = c # t" using "6.prems" by (cases "skip_ws s") auto
  have le: "length (c # t) \<le> length s" using skip_ws_le [of s] ct by simp
  show ?case
  proof (cases "c = CHR '']'' \<and> first")
    case True
    with "6.prems" ct le show ?thesis by auto
  next
    case False
    from "6.prems" ct False obtain w where w: "value_rest n (c # t) = Some w" by (auto split: option.splits)
    from "6.prems" ct False w obtain e x where ex: "skip_ws w = e # x" by (auto simp: Let_def split: list.splits)
    have len: "length w < length (c # t)" "length (e # x) \<le> length w"
      using "6.IH"(1) [OF ct False w] skip_ws_le [of w] ex by simp_all
    show ?thesis
    proof (cases "e = CHR '']''")
      case True
      with "6.prems" ct False w ex len le show ?thesis by (simp add: Let_def)
    next
      case e: False
      with "6.prems" ct False w ex obtain vs' where o: "e = CHR '',''" "arr_items n False x = Some (vs', r')"
        by (auto simp: Let_def split: if_splits)
      from "6.IH"(2) [OF ct False w refl ex e o] len le show ?thesis by simp
    qed
  qed
qed simp_all

lemma more_fuel:
  "2 * length s + 1 \<le> n \<Longrightarrow> value_rest (Suc n) s = value_rest n s"
  "2 * length s + 2 \<le> n \<Longrightarrow> obj_items (Suc n) first s = obj_items n first s"
  "2 * length s' + 2 \<le> n \<Longrightarrow> arr_items (Suc n) first' s' = arr_items n first' s'"
proof (induction n s and n first s and n first' s' rule: value_rest_obj_items_arr_items.induct)
  case (2 n s)
  show ?case
  proof (cases "skip_ws s")
    case (Cons c t)
    then have "2 * length t + 2 \<le> n" using "2.prems" skip_ws_le [of s] by simp
    with "2.IH" [OF Cons] Cons show ?thesis by (simp only: value_rest.simps list.case) simp
  qed simp
next
  case (4 n first s)
  show ?case
  proof (cases "skip_ws s")
    case ct: (Cons c t)
    have l1: "length t < length s" using skip_ws_le [of s] ct by simp
    show ?thesis
    proof (cases "(c = CHR ''}'' \<and> first) \<or> c \<noteq> CHR 0x22 \<or> string_rest t = None")
      case False
      then have c: "\<not> (c = CHR ''}'' \<and> first)" "\<not> c \<noteq> CHR 0x22" by auto
      from False obtain u where u: "string_rest t = Some u" by auto
      show ?thesis
      proof (cases "skip_ws u")
        case dv: (Cons d v)
        have l2: "length v < length t" using string_rest_less [OF u] skip_ws_le [of u] dv by simp
        show ?thesis
        proof (cases "d \<noteq> CHR '':''")
          case d: False
          have v: "value_rest (Suc n) v = value_rest n v" using "4.IH"(1) [OF ct c u dv d] "4.prems" l1 l2 by simp
          show ?thesis
          proof (cases "value_rest n v")
            case w: (Some w)
            have "obj_items (Suc n) False x = obj_items n False x" if "skip_ws w = CHR '','' # x" for x
            proof -
              have "length x < length v" using rest_shorter(1) [OF w] skip_ws_le [of w] that by simp
              with "4.IH"(2) [OF ct c u dv d w refl that] "4.prems" l1 l2 show ?thesis by simp
            qed
            with ct c u dv d v w show ?thesis by (simp only: obj_items.simps list.case option.case if_False) (auto simp: Let_def split: list.split)
          qed (use ct c u dv d v in \<open>simp only: obj_items.simps list.case option.case if_False\<close>)
        qed (use ct c u dv in simp)
      qed (use ct c u in simp)
    qed (use ct in auto)
  qed simp
next
  case (6 n first s)
  show ?case
  proof (cases "skip_ws s")
    case ct: (Cons c t)
    have l1: "length (c # t) \<le> length s" using skip_ws_le [of s] ct by simp
    show ?thesis
    proof (cases "c = CHR '']'' \<and> first")
      case c: False
      have v: "value_rest (Suc n) (c # t) = value_rest n (c # t)" using "6.IH"(1) [OF ct c] "6.prems" l1 by simp
      show ?thesis
      proof (cases "value_rest n (c # t)")
        case w: (Some w)
        have "arr_items (Suc n) False x = arr_items n False x" if "skip_ws w = CHR '','' # x" for x
        proof -
          have "length x < length (c # t)" using rest_shorter(1) [OF w] skip_ws_le [of w] that by simp
          with "6.IH"(2) [OF ct c w refl that] "6.prems" l1 show ?thesis by simp
        qed
        with ct c v w show ?thesis by (simp only: arr_items.simps list.case option.case if_False) (auto simp: Let_def split: list.split)
      qed (use ct c v in \<open>simp only: arr_items.simps list.case option.case if_False\<close>)
    qed (use ct in auto)
  qed simp
qed simp_all

lemma value_rest_fuel: "fuel_for s \<le> n \<Longrightarrow> value_rest n s = value_rest (fuel_for s) s"
proof (induction n rule: dec_induct)
  case (step m)
  then have "2 * length s + 1 \<le> m" by (simp add: fuel_for_def)
  from more_fuel(1) [OF this] step show ?case by (simp only:)
qed simp

section \<open>Members are shorter than the text they are in\<close>

lemma length_span: "length (span_of s r) \<le> length s"
  by (simp add: span_of_def)

lemma obj_items_short: "obj_items n first s = Some (kvs, r) \<Longrightarrow> (k, v) \<in> set kvs \<Longrightarrow> length v \<le> length s"
proof (induction n arbitrary: first s kvs r)
  case (Suc n)
  obtain c t where ct: "skip_ws s = c # t" using Suc.prems(1) by (cases "skip_ws s") auto
  have le: "length (c # t) \<le> length s" using skip_ws_le [of s] ct by simp
  show ?case
  proof (cases "c = CHR ''}'' \<and> first")
    case False
    with Suc.prems(1) ct obtain u d v' w e x where p: "c = CHR 0x22" "string_rest t = Some u" "skip_ws u = d # v'" "d = CHR '':''"
      "value_rest n v' = Some w" "skip_ws w = e # x"
      and out: "(if e = CHR ''}'' then Some ([(span_of (c # t) u, span_of (skip_ws v') w)], x)
         else if e = CHR '','' then map_option (\<lambda>(is, r). ((span_of (c # t) u, span_of (skip_ws v') w) # is, r)) (obj_items n False x) else None)
         = Some (kvs, r)"
      by (auto simp: Let_def split: if_splits option.splits list.splits)
    have len: "length v' < length u" "length u < length t" "length w < length v'" "length x < length w"
      using string_rest_less [OF p(2)] skip_ws_le [of u] skip_ws_le [of w] rest_shorter(1) [OF p(5)] p(3,6) by simp_all
    have item: "length (span_of (skip_ws v') w) \<le> length s"
      using length_span [of "skip_ws v'" w] skip_ws_le [of v'] len le by simp
    show ?thesis
    proof (cases "e = CHR ''}''")
      case True
      with out item Suc.prems(2) show ?thesis by auto
    next
      case e: False
      with out obtain kvs' where o: "obj_items n False x = Some (kvs', r)" "kvs = (span_of (c # t) u, span_of (skip_ws v') w) # kvs'"
        by (auto split: if_splits)
      from Suc.prems(2) o(2) consider "v = span_of (skip_ws v') w" | "(k, v) \<in> set kvs'" by auto
      then show ?thesis
      proof cases
        case 2
        from Suc.IH [OF o(1) 2] len le show ?thesis by simp
      qed (use item in simp)
    qed
  qed (use Suc.prems ct in auto)
qed simp

lemma arr_items_short: "arr_items n first s = Some (vs, r) \<Longrightarrow> v \<in> set vs \<Longrightarrow> length v \<le> length s"
proof (induction n arbitrary: first s vs r)
  case (Suc n)
  obtain c t where ct: "skip_ws s = c # t" using Suc.prems(1) by (cases "skip_ws s") auto
  have le: "length (c # t) \<le> length s" using skip_ws_le [of s] ct by simp
  show ?case
  proof (cases "c = CHR '']'' \<and> first")
    case False
    with Suc.prems(1) ct obtain w e x where p: "value_rest n (c # t) = Some w" "skip_ws w = e # x"
      and out: "(if e = CHR '']'' then Some ([span_of (c # t) w], x)
         else if e = CHR '','' then map_option (\<lambda>(is, r). (span_of (c # t) w # is, r)) (arr_items n False x) else None) = Some (vs, r)"
      by (auto simp: Let_def split: if_splits option.splits list.splits)
    have len: "length w < length (c # t)" "length x < length w" using skip_ws_le [of w] rest_shorter(1) [OF p(1)] p(2) by simp_all
    have item: "length (span_of (c # t) w) \<le> length s" using length_span [of "c # t" w] le by simp
    show ?thesis
    proof (cases "e = CHR '']''")
      case True
      with out item Suc.prems(2) show ?thesis by auto
    next
      case e: False
      with out obtain vs' where o: "arr_items n False x = Some (vs', r)" "vs = span_of (c # t) w # vs'" by (auto split: if_splits)
      from Suc.prems(2) o(2) consider "v = span_of (c # t) w" | "v \<in> set vs'" by auto
      then show ?thesis
      proof cases
        case 2
        from Suc.IH [OF o(1) 2] len le show ?thesis by simp
      qed (use item in simp)
    qed
  qed (use Suc.prems ct in auto)
qed simp

lemma raw_members_short: "raw_members s = Some ms \<Longrightarrow> (k, v) \<in> set ms \<Longrightarrow> length v < length s"
proof -
  assume m: "raw_members s = Some ms" "(k, v) \<in> set ms"
  obtain c t where ct: "skip_ws s = c # t" using m(1) by (auto simp: raw_members_def split: if_splits list.splits)
  with m obtain its r k' where "obj_items (fuel_for s) True t = Some (its, r)" "(k', v) \<in> set its"
    by (auto simp: raw_members_def split: if_splits)
  from obj_items_short [OF this] skip_ws_le [of s] ct show ?thesis by simp
qed

lemma raw_elements_short: "raw_elements s = Some vs \<Longrightarrow> v \<in> set vs \<Longrightarrow> length v < length s"
proof -
  assume m: "raw_elements s = Some vs" "v \<in> set vs"
  obtain c t where ct: "skip_ws s = c # t" using m(1) by (auto simp: raw_elements_def split: if_splits list.splits)
  with m obtain r where "arr_items (fuel_for s) True t = Some (vs, r)" by (auto simp: raw_elements_def split: if_splits)
  from arr_items_short [OF this m(2)] skip_ws_le [of s] ct show ?thesis by simp
qed

end
