(* ===== verification/Legacy.thy ===== *)
theory Legacy
  imports SsbUri JsonText
begin

text \<open>
  \<open>internal/ssb/message/legacy/message.go\<close> and \<open>sign.go\<close>: classic SSB messages. The canonical text of a
  message is built piece by piece, signed, and hashed after the conversion to the low bytes of
  UTF-16. What \<open>json.Marshal\<close> makes of a Go value, the signature scheme and the hash are arguments.
\<close>

section \<open>Canonical text\<close>

definition nl :: string where "nl = [CHR 0x0A]"
definition quot :: string where "quot = [CHR 0x22]"

lemma TrimSpace_hd_len: "TrimSpace s = c # t \<Longrightarrow> length (c # t) \<le> length s"
  by (metis length_TrimSpace)

text \<open>
  \<open>formatObject\<close> takes the keys in document order, repeated when the document repeats them, each with
  the last value for that key, and writes them without escaping.
\<close>

function formatJSON :: "string \<Rightarrow> nat \<Rightarrow> string" where
  "formatJSON data depth =
     (let data' = TrimSpace data; indent = concat (replicate depth ''  '')
      in if data' = [] then []
         else if hd data' = CHR ''{'' then
           (case raw_members data' of
              None \<Rightarrow> data'
            | Some ms \<Rightarrow>
                ''{'' @ nl @
                Join ('','' @ nl)
                  (map (\<lambda>(k, v). indent @ ''  '' @ quot @ k @ quot @ '': '' @
                        formatJSON (case map_of (rev ms) k of Some v' \<Rightarrow> v' | None \<Rightarrow> []) (depth + 1)) ms)
                @ nl @ indent @ ''}'')
         else if hd data' = CHR ''['' then
           (case raw_elements data' of
              None \<Rightarrow> data'
            | Some [] \<Rightarrow> ''[]''
            | Some (v # vs) \<Rightarrow>
                ''['' @
                Join '','' (map (\<lambda>e. nl @ indent @ ''  '' @ formatJSON e (depth + 1)) (v # vs))
                @ nl @ indent @ '']'')
         else data')"
  by pat_completeness auto
termination
proof (relation "measure (\<lambda>(data, _). length data)", goal_cases)
  case (2 data depth data' indent ms p k v)
  have le: "length data' \<le> length data" using 2(1) by (simp add: length_TrimSpace)
  have "0 < length data'" using 2(3) by simp
  moreover have "length v' < length data'" if "map_of (rev ms) k = Some v'" for v'
    using raw_members_short [OF 2(5), of k v'] map_of_SomeD [OF that] by simp
  ultimately show ?case using le by (auto split: option.splits intro: less_le_trans)
next
  case (3 data depth data' indent es v vs e)
  have "length data' \<le> length data" using 3(1) by (simp add: length_TrimSpace)
  moreover have "length e < length data'" using raw_elements_short [of data' "v # vs" e] 3 by simp
  ultimately show ?case by simp
qed simp

declare formatJSON.simps [simp del]

definition PrettyPrint :: "string \<Rightarrow> string" where
  "PrettyPrint input = formatJSON input 0"

definition CanonicalJSON :: "string \<Rightarrow> string" where
  "CanonicalJSON data = PrettyPrint data"

definition indentJSONFragment :: "string \<Rightarrow> string \<Rightarrow> string" where
  "indentJSONFragment data pre =
     (case split_on (CHR 0x0A) data of [] \<Rightarrow> [] | l # ls \<Rightarrow> Join nl (l # map (\<lambda>x. pre @ x) ls))"

definition escapeString :: "string \<Rightarrow> string" where
  "escapeString s =
     concat (map (\<lambda>c.
       if c = CHR 0x22 \<or> c = CHR 0x5C then [CHR 0x5C, c]
       else if c = CHR 0x08 then [CHR 0x5C, CHR ''b''] else if c = CHR 0x0C then [CHR 0x5C, CHR ''f'']
       else if c = CHR 0x0A then [CHR 0x5C, CHR ''n''] else if c = CHR 0x0D then [CHR 0x5C, CHR ''r'']
       else if c = CHR 0x09 then [CHR 0x5C, CHR ''t'']
       else if byte c < 32 then [CHR 0x5C] @ ''u00'' @ [''0123456789abcdef'' ! (byte c div 16), ''0123456789abcdef'' ! (byte c mod 16)]
       else [c]) s)"

section \<open>Hashing\<close>

definition V8Binary :: "string \<Rightarrow> string" where
  "V8Binary data =
     concat (map (\<lambda>r.
       if r < 0x10000 then [char_of (r mod 256)]
       else let r = r - 0x10000; h = 0xD800 + r div 1024; l = 0xDC00 + r mod 1024
            in [char_of (h mod 256), char_of (l mod 256)]) (runes data))"

definition HashMessage :: "(string \<Rightarrow> string) \<Rightarrow> string \<Rightarrow> string" where
  "HashMessage sha content = sha (V8Binary content)"

section \<open>Signatures\<close>

datatype legacy_error =
    InvalidSignature | SignatureTooShort | SignatureTooLong | InvalidBase64 | InvalidSignatureLength
  | InvalidFeedAlgorithm | SignatureNotFound | JSONError | MarshalError | RefError ref_error

definition signatureSuffix :: string where "signatureSuffix = ''.sig.ed25519''"

definition HasSuffix :: "string \<Rightarrow> string \<Rightarrow> bool" where
  "HasSuffix s p \<longleftrightarrow> length p \<le> length s \<and> drop (length s - length p) s = p"

definition NewSignatureFromBase64 :: "string \<Rightarrow> legacy_error + string" where
  "NewSignatureFromBase64 input =
     (if \<not> HasSuffix input signatureSuffix then Inl InvalidSignature
      else let b64 = take (length input - length signatureSuffix) input;
               gotLen = length b64 div 4 * 3
           in if gotLen < 64 then Inl SignatureTooShort
              else if gotLen > 66 then Inl SignatureTooLong
              else case DecodeString StdEncoding b64 of
                     None \<Rightarrow> Inl InvalidBase64
                   | Some d \<Rightarrow> if length d \<noteq> 64 then Inl InvalidSignatureLength else Inr d)"

definition ParseSignatureString :: "string \<Rightarrow> legacy_error + string" where
  "ParseSignatureString input =
     (let trimmed = TrimSpace input
      in if trimmed = [] then Inl InvalidSignature
         else case NewSignatureFromBase64 trimmed of
                Inr sig \<Rightarrow> Inr sig
              | Inl err \<Rightarrow>
                 (case DecodeString StdEncoding trimmed of
                    None \<Rightarrow> Inl err
                  | Some d \<Rightarrow> if length d \<noteq> 64 then Inl InvalidSignatureLength else Inr d))"

definition Signature_Verify :: "(string \<Rightarrow> string \<Rightarrow> string \<Rightarrow> bool) \<Rightarrow> string \<Rightarrow> string \<Rightarrow> FeedRef \<Rightarrow> legacy_error option" where
  "Signature_Verify verify s content r =
     (if feed_algo r \<noteq> RefAlgoFeedSSB1 \<and> feed_algo r \<noteq> RefAlgoFeedBendyButt then Some InvalidFeedAlgorithm
      else if \<not> verify (feed_id r) content s then Some InvalidSignature else None)"

definition verifySignature :: "(string \<Rightarrow> string \<Rightarrow> string \<Rightarrow> bool) \<Rightarrow> string \<Rightarrow> string \<Rightarrow> string \<Rightarrow> bool" where
  "verifySignature verify pubKey content sig \<longleftrightarrow> \<not> (length sig \<noteq> 64 \<or> length pubKey \<noteq> 32) \<and> verify pubKey content sig"

definition ExtractSignature :: "string \<Rightarrow> legacy_error + string \<times> string" where
  "ExtractSignature b =
     (case cut_last (CHR 0x22) b of
        None \<Rightarrow> Inl SignatureNotFound
      | Some (upto_end, afterSig) \<Rightarrow>
         (case cut_last (CHR 0x22) upto_end of
            None \<Rightarrow> Inl SignatureNotFound
          | Some (upto_start, sigText) \<Rightarrow>
             (case cut_last CHR '','' upto_start of
                None \<Rightarrow> Inl SignatureNotFound
              | Some (beforeSig, _) \<Rightarrow>
                 (case NewSignatureFromBase64 sigText of Inl e \<Rightarrow> Inl e | Inr sigData \<Rightarrow> Inr (beforeSig @ afterSig, sigData)))))"

section \<open>Messages\<close>

record 'c LegacyMessage =
  Previous :: "MessageRef option"
  Author :: FeedRef
  Sequence :: int
  Timestamp :: int
  Hash :: string
  Content :: 'c

record 'c SignedMessage = "'c LegacyMessage" +
  Signature :: string

definition HashAlgorithm :: string where "HashAlgorithm = ''sha256''"

text \<open>The lines before the content, which all printers of a message share.\<close>

definition header_text :: "MessageRef option \<Rightarrow> FeedRef \<Rightarrow> int \<Rightarrow> int \<Rightarrow> string \<Rightarrow> string" where
  "header_text prev author seq ts h =
     ''{'' @ nl @
     ''  '' @ quot @ ''previous'' @ quot @ '': '' @ (case prev of Some p \<Rightarrow> quot @ MessageRef_String p @ quot | None \<Rightarrow> ''null'') @ '','' @ nl @
     ''  '' @ quot @ ''author'' @ quot @ '': '' @ quot @ FeedRef_String author @ quot @ '','' @ nl @
     ''  '' @ quot @ ''sequence'' @ quot @ '': '' @ show_int seq @ '','' @ nl @
     ''  '' @ quot @ ''timestamp'' @ quot @ '': '' @ show_int ts @ '','' @ nl @
     ''  '' @ quot @ ''hash'' @ quot @ '': '' @ quot @ h @ quot @ '','' @ nl @
     ''  '' @ quot @ ''content'' @ quot @ '': ''"

definition signature_line :: "string \<Rightarrow> string" where
  "signature_line sig =
     '','' @ nl @ ''  '' @ quot @ ''signature'' @ quot @ '': '' @ quot @ EncodeToString StdEncoding sig @ ''.sig.ed25519'' @ quot @ nl"

definition marshalLegacyContent :: "('c \<Rightarrow> string option) \<Rightarrow> 'c \<Rightarrow> string option" where
  "marshalLegacyContent marshal content = map_option (\<lambda>data. indentJSONFragment (PrettyPrint data) ''  '') (marshal content)"

definition marshalForSigning :: "('c \<Rightarrow> string option) \<Rightarrow> ('c, 'z) LegacyMessage_scheme \<Rightarrow> string option" where
  "marshalForSigning marshal m =
     map_option (\<lambda>c. header_text (Previous m) (Author m) (Sequence m) (Timestamp m) (Hash m) @ c @ nl @ ''}'')
       (marshalLegacyContent marshal (Content m))"

definition marshalWithSignature :: "('c \<Rightarrow> string option) \<Rightarrow> ('c, 'z) LegacyMessage_scheme \<Rightarrow> string \<Rightarrow> string option" where
  "marshalWithSignature marshal m sig =
     map_option (\<lambda>c. header_text (Previous m) (Author m) (Sequence m) (Timestamp m) (Hash m) @ c @ signature_line sig @ ''}'')
       (marshalLegacyContent marshal (Content m))"

text \<open>\<open>Sign\<close> gives the message with its hash field set, its reference and the signature.\<close>

definition Message_Sign ::
  "('c \<Rightarrow> string option) \<Rightarrow> (string \<Rightarrow> string \<Rightarrow> string) \<Rightarrow> (string \<Rightarrow> string) \<Rightarrow> string \<Rightarrow> 'c LegacyMessage \<Rightarrow>
   legacy_error + 'c LegacyMessage \<times> MessageRef \<times> string" where
  "Message_Sign marshal sign sha kp m =
     (let m = m\<lparr>Hash := HashAlgorithm\<rparr>
      in case marshalForSigning marshal m of
           None \<Rightarrow> Inl MarshalError
         | Some contentToSign \<Rightarrow>
            (let sig = sign kp contentToSign
             in case marshalWithSignature marshal m sig of
                  None \<Rightarrow> Inl MarshalError
                | Some msgToHash \<Rightarrow>
                   (case NewMessageRef (HashMessage sha msgToHash) RefAlgoMessageSSB1 of
                      Inl e \<Rightarrow> Inl (RefError e)
                    | Inr r \<Rightarrow> Inr (m, r, sig))))"

definition with_signature :: "'c LegacyMessage \<Rightarrow> string \<Rightarrow> 'c SignedMessage" where
  "with_signature m sig = \<lparr>Previous = Previous m, Author = Author m, Sequence = Sequence m, Timestamp = Timestamp m, Hash = Hash m,
     Content = Content m, Signature = sig\<rparr>"

definition SignedMessage_Verify ::
  "('c \<Rightarrow> string option) \<Rightarrow> (string \<Rightarrow> string \<Rightarrow> string \<Rightarrow> bool) \<Rightarrow> 'c SignedMessage \<Rightarrow> legacy_error option" where
  "SignedMessage_Verify marshal verify m =
     (case marshalForSigning marshal m of
        None \<Rightarrow> Some MarshalError
      | Some contentToSign \<Rightarrow>
         (if feed_algo (Author m) \<noteq> RefAlgoFeedSSB1 \<and> feed_algo (Author m) \<noteq> RefAlgoFeedBendyButt then Some InvalidFeedAlgorithm
          else if \<not> verifySignature verify (feed_id (Author m)) contentToSign (Signature m) then Some InvalidSignature
          else None))"

section \<open>Messages from the wire\<close>

record signedMessageJSON =
  j_previous :: "MessageRef option"
  j_author :: FeedRef
  j_sequence :: int
  j_timestamp :: int
  j_hash :: string
  j_content :: string
  j_signature :: string

definition zero_json :: signedMessageJSON where
  "zero_json = \<lparr>j_previous = None, j_author = \<lparr>feed_algo = [], feed_id = replicate 32 (CHR 0x00)\<rparr>, j_sequence = 0, j_timestamp = 0,
     j_hash = [], j_content = [], j_signature = []\<rparr>"

text \<open>
  Decoding one member of the object into the struct. A reference decodes itself from a string; \<open>null\<close>
  leaves numbers and strings alone, clears the pointer, and is no feed reference.
\<close>

definition into_int :: "string \<Rightarrow> int \<Rightarrow> int option" where
  "into_int raw old = (if raw = ''null'' then Some old else ParseInt64 raw)"

definition into_str :: "string \<Rightarrow> string \<Rightarrow> string option" where
  "into_str raw old = (if raw = ''null'' then Some old else raw_string raw)"

definition store_member :: "string \<Rightarrow> string \<Rightarrow> signedMessageJSON \<Rightarrow> signedMessageJSON option" where
  "store_member key raw m =
     (if field_is ''previous'' key then
        (if raw = ''null'' then Some (m\<lparr>j_previous := None\<rparr>)
         else case raw_string raw of None \<Rightarrow> None
              | Some s \<Rightarrow> (case ParseMessageRef s of Inl _ \<Rightarrow> None | Inr r \<Rightarrow> Some (m\<lparr>j_previous := Some r\<rparr>)))
      else if field_is ''author'' key then
        (case raw_string raw of None \<Rightarrow> None
         | Some s \<Rightarrow> (case ParseFeedRef s of Inl _ \<Rightarrow> None | Inr r \<Rightarrow> Some (m\<lparr>j_author := r\<rparr>)))
      else if field_is ''sequence'' key then map_option (\<lambda>n. m\<lparr>j_sequence := n\<rparr>) (into_int raw (j_sequence m))
      else if field_is ''timestamp'' key then map_option (\<lambda>n. m\<lparr>j_timestamp := n\<rparr>) (into_int raw (j_timestamp m))
      else if field_is ''hash'' key then map_option (\<lambda>s. m\<lparr>j_hash := s\<rparr>) (into_str raw (j_hash m))
      else if field_is ''content'' key then Some (m\<lparr>j_content := raw\<rparr>)
      else if field_is ''signature'' key then map_option (\<lambda>s. m\<lparr>j_signature := s\<rparr>) (into_str raw (j_signature m))
      else Some m)"

fun store_members :: "(string \<times> string) list \<Rightarrow> signedMessageJSON \<Rightarrow> signedMessageJSON option" where
  "store_members [] m = Some m"
| "store_members ((k, v) # ms) m = (case store_member k v m of None \<Rightarrow> None | Some m' \<Rightarrow> store_members ms m')"

definition parseSignedMessageJSONRaw :: "string \<Rightarrow> signedMessageJSON option" where
  "parseSignedMessageJSONRaw input =
     (if valid_json input \<and> skip_ws input \<noteq> [] \<and> HasPrefix (skip_ws input) ''null'' then Some zero_json
      else case raw_members input of None \<Rightarrow> None | Some ms \<Rightarrow> store_members ms zero_json)"

definition marshalSignedMessageJSON :: "signedMessageJSON \<Rightarrow> bool \<Rightarrow> legacy_error + string" where
  "marshalSignedMessageJSON raw includeSignature =
     (let text = header_text (j_previous raw) (j_author raw) (j_sequence raw) (j_timestamp raw) (j_hash raw)
                 @ indentJSONFragment (PrettyPrint (TrimSpace (j_content raw))) ''  ''
      in if includeSignature then
           (case ParseSignatureString (j_signature raw) of
              Inl e \<Rightarrow> Inl e
            | Inr sig \<Rightarrow> Inr (text @ signature_line sig @ ''}''))
         else Inr (text @ nl @ ''}''))"

definition ParseSignedMessageJSON :: "(string \<Rightarrow> 'c) \<Rightarrow> string \<Rightarrow> legacy_error + 'c SignedMessage \<times> string" where
  "ParseSignedMessageJSON decode input =
     (case parseSignedMessageJSONRaw (TrimSpace input) of
        None \<Rightarrow> Inl JSONError
      | Some raw \<Rightarrow>
         (case ParseSignatureString (j_signature raw) of
            Inl e \<Rightarrow> Inl e
          | Inr sig \<Rightarrow>
             (let contentBytes = TrimSpace (j_content raw)
              in Inr (\<lparr>Previous = j_previous raw, Author = j_author raw, Sequence = j_sequence raw, Timestamp = j_timestamp raw,
                       Hash = j_hash raw, Content = decode contentBytes, Signature = sig\<rparr>, contentBytes))))"

definition VerifySignedMessageJSON ::
  "(string \<Rightarrow> 'c) \<Rightarrow> (string \<Rightarrow> string \<Rightarrow> string \<Rightarrow> bool) \<Rightarrow> string \<Rightarrow> legacy_error + 'c SignedMessage" where
  "VerifySignedMessageJSON decode verify input =
     (case parseSignedMessageJSONRaw (TrimSpace input) of
        None \<Rightarrow> Inl JSONError
      | Some raw \<Rightarrow>
         (case ParseSignedMessageJSON decode (TrimSpace input) of
            Inl e \<Rightarrow> Inl e
          | Inr (msg, _) \<Rightarrow>
             (case marshalSignedMessageJSON raw False of
                Inl e \<Rightarrow> Inl e
              | Inr signable \<Rightarrow>
                 (case ParseSignatureString (j_signature raw) of
                    Inl e \<Rightarrow> Inl e
                  | Inr sig \<Rightarrow>
                     if verifySignature verify (feed_id (Author msg)) signable sig then Inr msg else Inl InvalidSignature))))"

definition SignedMessageRefFromJSON :: "(string \<Rightarrow> string) \<Rightarrow> string \<Rightarrow> legacy_error + MessageRef" where
  "SignedMessageRefFromJSON sha input =
     (case parseSignedMessageJSONRaw (TrimSpace input) of
        None \<Rightarrow> Inl JSONError
      | Some raw \<Rightarrow>
         (case marshalSignedMessageJSON raw True of
            Inl e \<Rightarrow> Inl e
          | Inr canonical \<Rightarrow>
             (case NewMessageRef (HashMessage sha canonical) RefAlgoMessageSSB1 of Inl e \<Rightarrow> Inl (RefError e) | Inr r \<Rightarrow> Inr r)))"

section \<open>Signatures read back\<close>

lemma HasSuffix_append [simp]: "HasSuffix (a @ b) b"
  by (simp add: HasSuffix_def)

lemma NewSignature_encode:
  assumes "length sig = 64"
  shows "NewSignatureFromBase64 (EncodeToString StdEncoding sig @ signatureSuffix) = Inr sig"
proof -
  have "length (EncodeToString StdEncoding sig) = 88" using assms by (simp add: length_EncodeToString StdEncoding_def)
  with assms show ?thesis by (simp add: NewSignatureFromBase64_def Let_def DecodeString_EncodeToString)
qed

lemma no_quote_base64: "CHR 0x22 \<notin> set (EncodeToString StdEncoding s)" "CHR '','' \<notin> set (EncodeToString StdEncoding s)"
proof -
  have "CHR 0x22 \<notin> set (CHR ''='' # std_alphabet)" "CHR '','' \<notin> set (CHR ''='' # std_alphabet)" by code_simp+
  then show "CHR 0x22 \<notin> set (EncodeToString StdEncoding s)" "CHR '','' \<notin> set (EncodeToString StdEncoding s)"
    using EncodeToString_mem(1) [of _ s] by auto
qed

lemma ExtractSignature_line:
  assumes "length sig = 64"
  shows "ExtractSignature (pre @ signature_line sig @ ''}'') = Inr (pre @ nl @ ''}'', sig)"
proof -
  let ?b = "EncodeToString StdEncoding sig @ signatureSuffix"
  let ?y = "pre @ '','' @ nl @ ''  '' @ quot @ ''signature'' @ quot @ '': ''"
  have "pre @ signature_line sig @ ''}'' = (?y @ CHR 0x22 # ?b) @ CHR 0x22 # (nl @ ''}'')"
    by (simp add: signature_line_def quot_def signatureSuffix_def)
  moreover have "cut_last (CHR 0x22) ((?y @ CHR 0x22 # ?b) @ CHR 0x22 # (nl @ ''}'')) = Some (?y @ CHR 0x22 # ?b, nl @ ''}'')"
    by (rule cut_last_append) (simp add: nl_def)
  moreover have "cut_last (CHR 0x22) (?y @ CHR 0x22 # ?b) = Some (?y, ?b)"
    by (rule cut_last_append) (simp add: no_quote_base64 signatureSuffix_def)
  moreover have "cut_last CHR '','' ?y = Some (pre, nl @ ''  '' @ quot @ ''signature'' @ quot @ '': '')"
    using cut_last_append [of "CHR '',''" "nl @ ''  '' @ quot @ ''signature'' @ quot @ '': ''" pre] by (simp add: nl_def quot_def)
  ultimately show ?thesis
    unfolding ExtractSignature_def by (simp only: option.case prod.case NewSignature_encode [OF assms] sum.case append_assoc)
qed

lemma marshal_both:
  assumes "marshalWithSignature marshal m sig = Some wire" and "length sig = 64"
  shows "\<exists>signable. marshalForSigning marshal m = Some signable \<and> ExtractSignature wire = Inr (signable, sig)"
proof -
  from assms(1) obtain c where c: "marshalLegacyContent marshal (Content m) = Some c"
    "wire = (header_text (Previous m) (Author m) (Sequence m) (Timestamp m) (Hash m) @ c) @ signature_line sig @ ''}''"
    by (auto simp: marshalWithSignature_def)
  show ?thesis unfolding c(2) ExtractSignature_line [OF assms(2)] using c(1) by (simp add: marshalForSigning_def)
qed

lemma signed_verifies:
  assumes "\<And>x. verify (feed_id (Author m)) x (sign kp x)" and "\<And>x. length (sign kp x) = 64" and "length (feed_id (Author m)) = 32"
    and "feed_algo (Author m) = ''ed25519''" and "Message_Sign marshal sign sha kp m = Inr (m', r, sig)"
  shows "SignedMessage_Verify marshal verify (with_signature m' sig) = None \<and>
    (\<exists>wire. marshalWithSignature marshal m' sig = Some wire \<and> r = \<lparr>msg_algo = ''sha256'', msg_hash = sha (V8Binary wire)\<rparr> \<and>
       (\<exists>signable. ExtractSignature wire = Inr (signable, sig) \<and> Signature_Verify verify sig signable (Author m') = None))"
proof -
  from assms(5) obtain signable wire where s: "m' = m\<lparr>Hash := HashAlgorithm\<rparr>" "marshalForSigning marshal m' = Some signable"
    "sig = sign kp signable" "marshalWithSignature marshal m' sig = Some wire" "NewMessageRef (HashMessage sha wire) RefAlgoMessageSSB1 = Inr r"
    by (auto simp: Message_Sign_def Let_def split: option.splits sum.splits)
  have a: "Author m' = Author m" using s(1) by simp
  have r: "r = \<lparr>msg_algo = ''sha256'', msg_hash = sha (V8Binary wire)\<rparr>"
    using s(5) by (simp add: NewMessageRef_def HashMessage_def RefAlgoMessageSSB1_def split: if_splits)
  have "length sig = 64" using assms(2) s(3) by simp
  from marshal_both [OF s(4) this] s(2) have x: "ExtractSignature wire = Inr (signable, sig)" by simp
  have "marshalForSigning marshal (with_signature m' sig) = Some signable"
    using s(2) by (simp add: marshalForSigning_def with_signature_def)
  moreover have "feed_id (Author (with_signature m' sig)) = feed_id (Author m)"
    "feed_algo (Author (with_signature m' sig)) = ''ed25519''" "Signature (with_signature m' sig) = sig"
    using a assms(4) by (simp_all add: with_signature_def)
  ultimately have "SignedMessage_Verify marshal verify (with_signature m' sig) = None"
    using assms(1-3) s(3) by (simp add: SignedMessage_Verify_def verifySignature_def RefAlgoFeedSSB1_def)
  moreover have "Signature_Verify verify sig signable (Author m') = None"
    using assms(1,4) s(3) a by (simp add: Signature_Verify_def RefAlgoFeedSSB1_def)
  ultimately show ?thesis using s(4) r x by blast
qed

section \<open>Properties\<close>

text \<open>C18:
  A classic message that \<open>Sign\<close> returns is accepted by \<open>Verify\<close>; the message reference is the hash of
  the text with the signature line; and the signature line can be cut out of that text again, giving
  a text under which the signature verifies for the author.
\<close>

theorem classic_signed_verifies:
  assumes "\<And>x. verify (feed_id (Author m)) x (sign kp x)" and "\<And>x. length (sign kp x) = 64" and "length (feed_id (Author m)) = 32"
    and "feed_algo (Author m) = ''ed25519''" and "Message_Sign marshal sign sha kp m = Inr (m', r, sig)"
  shows "SignedMessage_Verify marshal verify (with_signature m' sig) = None \<and>
    (\<exists>wire. marshalWithSignature marshal m' sig = Some wire \<and> r = \<lparr>msg_algo = ''sha256'', msg_hash = sha (V8Binary wire)\<rparr> \<and>
       (\<exists>signable. ExtractSignature wire = Inr (signable, sig) \<and> Signature_Verify verify sig signable (Author m') = None))"
  by (rule signed_verifies) (use assms in auto)

text \<open>
  \<open>ExtractSignature\<close> undoes \<open>MarshalWithSignature\<close>: from the text of a message with a 64-byte signature
  it returns that signature and exactly the text that was signed.
\<close>

theorem extract_signature_inverse:
  assumes "marshalWithSignature marshal m sig = Some wire" and "length sig = 64"
  shows "\<exists>signable. marshalForSigning marshal m = Some signable \<and> ExtractSignature wire = Inr (signable, sig)"
  by (rule marshal_both [OF assms])

section \<open>Instances\<close>

definition toy_sig :: "string \<Rightarrow> string \<Rightarrow> string" where
  "toy_sig kp x = take 64 (rev x @ kp @ replicate 64 CHR ''-'')"

definition toy_check :: "string \<Rightarrow> string \<Rightarrow> string \<Rightarrow> bool" where
  "toy_check pk x s \<longleftrightarrow> s = toy_sig pk x"

definition toy_sha :: "string \<Rightarrow> string" where
  "toy_sha x = take 32 (rev x @ replicate 32 CHR ''#'')"

definition toy_author :: FeedRef where
  "toy_author = \<lparr>feed_algo = ''ed25519'', feed_id = replicate 32 CHR ''k''\<rparr>"

definition toy_legacy :: "string LegacyMessage" where
  "toy_legacy = \<lparr>Previous = None, Author = toy_author, Sequence = 1, Timestamp = 5, Hash = [],
     Content = ''{'' @ quot @ ''type'' @ quot @ '':'' @ quot @ ''post'' @ quot @ ''}''\<rparr>"

lemma toy_sig_length: "length (toy_sig kp x) = 64"
  by (simp add: toy_sig_def)

lemma toy_signs: "case Message_Sign Some toy_sig toy_sha (replicate 32 CHR ''k'') toy_legacy of Inl _ \<Rightarrow> False | Inr _ \<Rightarrow> True"
  by (simp add: Message_Sign_def Let_def marshalForSigning_def marshalWithSignature_def marshalLegacyContent_def NewMessageRef_def
      HashMessage_def toy_sha_def RefAlgoMessageSSB1_def)

theorem classic_signed_verifies_witness:
  "\<exists>m' r sig. Message_Sign Some toy_sig toy_sha (replicate 32 CHR ''k'') toy_legacy = Inr (m', r, sig) \<and>
     SignedMessage_Verify Some toy_check (with_signature m' sig) = None"
proof -
  from toy_signs obtain m' r sig where s: "Message_Sign Some toy_sig toy_sha (replicate 32 CHR ''k'') toy_legacy = Inr (m', r, sig)"
    by (auto split: sum.splits)
  show ?thesis
    using s classic_signed_verifies [OF _ toy_sig_length _ _ s, of toy_check]
    by (simp add: toy_check_def toy_legacy_def toy_author_def)
qed

theorem extract_signature_inverse_witness:
  "\<exists>wire signable. marshalWithSignature Some toy_legacy (replicate 64 CHR ''s'') = Some wire \<and>
     marshalForSigning Some toy_legacy = Some signable \<and> ExtractSignature wire = Inr (signable, replicate 64 CHR ''s'')"
  using extract_signature_inverse [of Some toy_legacy "replicate 64 CHR ''s''"] 
  by (auto simp: marshalWithSignature_def marshalLegacyContent_def)

text \<open>
  The printer differs from the \<open>JSON.stringify\<close> that SSB signs: an empty object gets a line break, a key
  is written without escaping, and a repeated key is written twice with its last value.
\<close>

lemma pretty_empty_object: "PrettyPrint ''{}'' = ''{'' @ nl @ nl @ ''}''"
  by code_simp

lemma pretty_key_unescaped:
  "PrettyPrint (''{'' @ quot @ ''a'' @ [CHR 0x5C] @ quot @ quot @ '':1}'') =
   ''{'' @ nl @ ''  '' @ quot @ ''a'' @ quot @ quot @ '': 1'' @ nl @ ''}''"
  by code_simp

lemma pretty_repeated_key:
  "PrettyPrint (''{'' @ quot @ ''a'' @ quot @ '':1,'' @ quot @ ''a'' @ quot @ '':2}'') =
   ''{'' @ nl @ ''  '' @ quot @ ''a'' @ quot @ '': 2,'' @ nl @ ''  '' @ quot @ ''a'' @ quot @ '': 2'' @ nl @ ''}''"
  by code_simp

end
