(* ===== verification/Tangle.thy ===== *)
theory Tangle
  imports Go_Prelude "HOL-Library.Multiset"
begin

text \<open>
  \<open>internal/ssb/message/tangle/order.go\<close> and \<open>tangle.go\<close>: ordering the messages of a tangle so that parents
  come first. The sorter ranges over a map to find the messages without parents, and calls
  \<open>sort.Slice\<close> with a comparison of positions instead of keys, which is no order of the elements; what
  these two do to a list is given by the arguments \<open>iter\<close> and \<open>resort\<close>, of which the theorems assume
  only that they permute it.
\<close>

section \<open>Messages\<close>

record MessageWithTangles =
  Key :: string
  TangleName :: string
  Root :: string
  Parents :: "string list"
  Content :: string

definition zero_message :: MessageWithTangles where
  "zero_message = \<lparr>Key = [], TangleName = [], Root = [], Parents = [], Content = []\<rparr>"

section \<open>The topological sort\<close>

type_synonym degrees = "(string, int) gmap"
type_synonym children = "(string, string list) gmap"

definition degree :: "degrees \<Rightarrow> string \<Rightarrow> int" where
  "degree d k = (case map_of d k of None \<Rightarrow> 0 | Some n \<Rightarrow> n)"

definition kids :: "children \<Rightarrow> string \<Rightarrow> string list" where
  "kids c k = (case map_of c k of None \<Rightarrow> [] | Some l \<Rightarrow> l)"

definition msg_map :: "MessageWithTangles list \<Rightarrow> (string, MessageWithTangles) gmap" where
  "msg_map ms = fold (\<lambda>m. gput (Key m) m) ms []"

definition init_degrees :: "MessageWithTangles list \<Rightarrow> degrees" where
  "init_degrees ms = fold (\<lambda>m. gput (Key m) 0) ms []"

definition init_children :: "MessageWithTangles list \<Rightarrow> children" where
  "init_children ms = fold (\<lambda>m. gput (Key m) []) ms []"

fun link_parents :: "(string, MessageWithTangles) gmap \<Rightarrow> string \<Rightarrow> string list \<Rightarrow> children \<times> degrees \<Rightarrow> children \<times> degrees" where
  "link_parents mm k [] s = s"
| "link_parents mm k (p # ps) (c, d) =
     link_parents mm k ps
       (if ghas p mm then (gput p (kids c p @ [k]) c, gput k (degree d k + 1) d) else (c, d))"

fun link_all :: "(string, MessageWithTangles) gmap \<Rightarrow> MessageWithTangles list \<Rightarrow> children \<times> degrees \<Rightarrow> children \<times> degrees" where
  "link_all mm [] s = s"
| "link_all mm (m # ms) s = link_all mm ms (link_parents mm (Key m) (Parents m) s)"

text \<open>The inner loop over the children of the message just placed.\<close>

fun visit :: "(string list \<Rightarrow> string list) \<Rightarrow> string list \<Rightarrow> string list \<times> degrees \<Rightarrow> string list \<times> degrees" where
  "visit resort [] s = s"
| "visit resort (child # cs) (queue, d) =
     (let d = gput child (degree d child - 1) d
      in visit resort cs (if degree d child = 0 then (resort (queue @ [child]), d) else (queue, d)))"

text \<open>
  The outer loop. The first argument bounds the number of rounds; \<open>Sort_total\<close> below shows that one
  round per message and one for the test at the end are enough.
\<close>

fun sort_loop :: "nat \<Rightarrow> (string list \<Rightarrow> string list) \<Rightarrow> children \<Rightarrow> string list \<Rightarrow> string list \<times> degrees \<Rightarrow> (string list \<times> degrees) option" where
  "sort_loop 0 resort c out s = None"
| "sort_loop (Suc n) resort c out (queue, d) =
     (case queue of
        [] \<Rightarrow> Some (out, d)
      | current # rest \<Rightarrow> sort_loop n resort c (out @ [current]) (visit resort (kids c current) (rest, d)))"

record sort_result =
  Sorted :: "MessageWithTangles list"
  Cycle :: "string list option"

definition Sort :: "(degrees \<Rightarrow> degrees) \<Rightarrow> (string list \<Rightarrow> string list) \<Rightarrow> MessageWithTangles list \<Rightarrow> sort_result option" where
  "Sort iter resort messages =
     (if messages = [] then Some \<lparr>Sorted = [], Cycle = None\<rparr>
      else let mm = msg_map messages;
               (c, d) = link_all mm messages (init_children messages, init_degrees messages);
               queue = resort (map fst (filter (\<lambda>p. snd p = 0) (iter d)))
           in case sort_loop (Suc (length messages)) resort c [] (queue, d) of
                None \<Rightarrow> None
              | Some (out, d) \<Rightarrow>
                  (let sorted = map (\<lambda>k. case map_of mm k of None \<Rightarrow> zero_message | Some m \<Rightarrow> m) out
                   in Some \<lparr>Sorted = sorted,
                            Cycle = (if length sorted \<noteq> length messages
                                     then Some (map fst (filter (\<lambda>p. snd p > 0) (iter d))) else None)\<rparr>))"

section \<open>Iterator, root and depth\<close>

record MessageIterator =
  it_messages :: "MessageWithTangles list"
  it_index :: nat

definition NewMessageIterator :: "MessageWithTangles list \<Rightarrow> MessageIterator" where
  "NewMessageIterator ms = \<lparr>it_messages = ms, it_index = 0\<rparr>"

definition it_Next :: "MessageIterator \<Rightarrow> bool" where
  "it_Next mi \<longleftrightarrow> it_index mi < length (it_messages mi)"

definition it_Message :: "MessageIterator \<Rightarrow> MessageWithTangles \<times> MessageIterator" where
  "it_Message mi =
     (if it_index mi \<ge> length (it_messages mi) then (zero_message, mi)
      else (it_messages mi ! it_index mi, mi\<lparr>it_index := it_index mi + 1\<rparr>))"

definition GetRootMessage :: "MessageWithTangles list \<Rightarrow> MessageWithTangles option" where
  "GetRootMessage messages =
     (case find (\<lambda>m. Parents m = []) messages of
        Some m \<Rightarrow> Some m
      | None \<Rightarrow> (case messages of [] \<Rightarrow> None | m # _ \<Rightarrow> Some m))"

text \<open>
  The depth-first search threads the set of visited keys through the recursive calls; the first
  argument bounds their nesting, and \<open>None\<close> means that it was not enough.
\<close>

fun dfs :: "nat \<Rightarrow> (string, MessageWithTangles) gmap \<Rightarrow> string \<Rightarrow> nat \<Rightarrow> string list \<Rightarrow> (nat \<times> string list) option"
  and dfs_parents :: "nat \<Rightarrow> (string, MessageWithTangles) gmap \<Rightarrow> string list \<Rightarrow> nat \<Rightarrow> nat \<Rightarrow> string list \<Rightarrow> (nat \<times> string list) option"
where
  "dfs 0 mm key depth visited = None"
| "dfs (Suc n) mm key depth visited =
     (if key \<in> set visited then Some (depth, visited)
      else case map_of mm key of
             None \<Rightarrow> Some (depth, key # visited)
           | Some msg \<Rightarrow>
               (if Parents msg = [] then Some (depth, key # visited)
                else dfs_parents n mm (Parents msg) depth depth (key # visited)))"
| "dfs_parents n mm [] depth maxDepth visited = Some (maxDepth, visited)"
| "dfs_parents n mm (parent # ps) depth maxDepth visited =
     (case dfs n mm parent (depth + 1) visited of
        None \<Rightarrow> None
      | Some (d, visited) \<Rightarrow> dfs_parents n mm ps depth (if d > maxDepth then d else maxDepth) visited)"

definition GetMessageDepth :: "string \<Rightarrow> MessageWithTangles list \<Rightarrow> nat option" where
  "GetMessageDepth msgKey messages = map_option fst (dfs (length messages + 2) (msg_map messages) msgKey 0 [])"

section \<open>The graph of a tangle\<close>

text \<open>The edges from a message to the messages that name it as a parent, with their multiplicity.\<close>

definition known :: "MessageWithTangles list \<Rightarrow> string \<Rightarrow> bool" where
  "known ms k \<longleftrightarrow> k \<in> set (map Key ms)"

definition edges :: "MessageWithTangles list \<Rightarrow> MessageWithTangles list \<Rightarrow> (string \<times> string) list" where
  "edges all ms = concat (map (\<lambda>m. map (\<lambda>p. (p, Key m)) (filter (known all) (Parents m))) ms)"

definition pending :: "(string \<times> string) list \<Rightarrow> string set \<Rightarrow> string \<Rightarrow> nat" where
  "pending es D c = length (filter (\<lambda>(p, k). k = c \<and> p \<notin> D) es)"

definition kids_of :: "(string \<times> string) list \<Rightarrow> string \<Rightarrow> string list" where
  "kids_of es p = map snd (filter (\<lambda>e. fst e = p) es)"

lemma map_of_fold_gput:
  "map_of (fold (\<lambda>m. gput (f m) (g m)) ms acc) k =
     (case map_of (rev (map (\<lambda>m. (f m, g m)) ms)) k of None \<Rightarrow> map_of acc k | Some v \<Rightarrow> Some v)"
  by (induction ms arbitrary: acc) (auto simp: gm_simps map_add_def split: option.splits)

lemma map_of_rev_distinct: "distinct (map fst xs) \<Longrightarrow> map_of (rev xs) k = Some v \<longleftrightarrow> (k, v) \<in> set xs"
  by (subst map_of_eq_Some_iff) (simp_all flip: rev_map)

lemma distinct_key: "distinct (map Key ms) \<Longrightarrow> m \<in> set ms \<Longrightarrow> m' \<in> set ms \<Longrightarrow> Key m = Key m' \<Longrightarrow> m = m'"
  by (auto simp: distinct_map inj_on_def)

lemma msg_map_lookup:
  assumes "distinct (map Key ms)" and "m \<in> set ms"
  shows "map_of (msg_map ms) (Key m) = Some m"
proof -
  have "map_of (rev (map (\<lambda>m. (Key m, m)) ms)) (Key m) = Some m"
    using assms by (subst map_of_rev_distinct) (auto simp: comp_def)
  then show ?thesis by (simp add: msg_map_def map_of_fold_gput)
qed

lemma keys_fold_gput: "set (map fst (fold (\<lambda>m. gput (Key m) (g m)) ms acc)) = set (map fst acc) \<union> set (map Key ms)"
proof (induction ms arbitrary: acc)
  case (Cons m ms)
  then show ?case using keys_gput [of "Key m" "g m" acc] by auto
qed simp

lemma distinct_fold_gput: "distinct (map fst acc) \<Longrightarrow> distinct (map fst (fold (\<lambda>m. gput (Key m) (g m)) ms acc))"
  by (induction ms arbitrary: acc) (simp_all add: distinct_gput)

lemma msg_map_has: "ghas k (msg_map ms) \<longleftrightarrow> known ms k"
  using keys_fold_gput [of "\<lambda>m. m" ms "[]"] by (simp add: ghas_iff known_def msg_map_def)

lemma degree_gput: "degree (gput k v d) k' = (if k' = k then v else degree d k')"
  by (simp add: degree_def gm_simps)

lemma kids_gput: "kids (gput k v c) k' = (if k' = k then v else kids c k')"
  by (simp add: kids_def gm_simps)

lemma degree_init: "degree (init_degrees ms) k = 0"
proof -
  have "v = 0" if "map_of (fold (\<lambda>m. gput (Key m) 0) ms acc) k = Some v" "\<forall>v. map_of acc k = Some v \<longrightarrow> v = 0"
    for acc :: degrees and v
    using that by (induction ms arbitrary: acc) (auto simp: gm_simps split: if_splits)
  from this [of "[]"] show ?thesis by (auto simp: degree_def init_degrees_def split: option.splits)
qed

lemma kids_init: "kids (init_children ms) k = []"
proof -
  have "v = []" if "map_of (fold (\<lambda>m. gput (Key m) []) ms acc) k = Some v" "\<forall>v. map_of acc k = Some v \<longrightarrow> v = []"
    for acc :: children and v
    using that by (induction ms arbitrary: acc) (auto simp: gm_simps split: if_splits)
  from this [of "[]"] show ?thesis by (auto simp: kids_def init_children_def split: option.splits)
qed

lemma link_parents_spec:
  assumes "link_parents (msg_map all) k ps (c, d) = (c', d')" and "k \<in> set (map fst d)" and "distinct (map fst d)"
  shows "kids c' p = kids c p @ (map (\<lambda>_. k) (filter (\<lambda>q. known all q \<and> q = p) ps))"
    and "degree d' x = degree d x + (if x = k then int (length (filter (known all) ps)) else 0)"
    and "set (map fst d') = set (map fst d)" and "distinct (map fst d')"
proof -
  have "kids c' p = kids c p @ (map (\<lambda>_. k) (filter (\<lambda>q. known all q \<and> q = p) ps)) \<and>
    degree d' x = degree d x + (if x = k then int (length (filter (known all) ps)) else 0) \<and>
    set (map fst d') = set (map fst d) \<and> distinct (map fst d')"
    using assms
  proof (induction "msg_map all" k ps "(c, d)" arbitrary: c d rule: link_parents.induct)
    case (2 k q ps c d)
    show ?case
    proof (cases "known all q")
      case True
      have keys: "set (map fst (gput k (degree d k + 1) d)) = set (map fst d)" using 2(3) by (subst keys_gput) auto
      have "kids c' p = kids (gput q (kids c q @ [k]) c) p @ map (\<lambda>_. k) (filter (\<lambda>q. known all q \<and> q = p) ps) \<and>
        degree d' x = degree (gput k (degree d k + 1) d) x + (if x = k then int (length (filter (known all) ps)) else 0) \<and>
        set (map fst d') = set (map fst (gput k (degree d k + 1) d)) \<and> distinct (map fst d')"
        using 2(2-4) True keys by (intro 2(1)) (simp_all add: msg_map_has distinct_gput)
      with True keys show ?thesis by (auto simp: kids_gput degree_gput)
    next
      case False
      with 2 show ?thesis by (simp add: msg_map_has)
    qed
  qed simp
  then show "kids c' p = kids c p @ (map (\<lambda>_. k) (filter (\<lambda>q. known all q \<and> q = p) ps))"
    and "degree d' x = degree d x + (if x = k then int (length (filter (known all) ps)) else 0)"
    and "set (map fst d') = set (map fst d)" and "distinct (map fst d')" by auto
qed

lemma edges_Cons: "edges all (m # ms) = map (\<lambda>p. (p, Key m)) (filter (known all) (Parents m)) @ edges all ms"
  by (simp add: edges_def)

lemma kids_of_append: "kids_of (es @ fs) p = kids_of es p @ kids_of fs p"
  by (simp add: kids_of_def)

lemma kids_of_star: "kids_of (map (\<lambda>p. (p, k)) ps) p = map (\<lambda>_. k) (filter (\<lambda>q. q = p) ps)"
  by (induction ps) (auto simp: kids_of_def)

lemma pending_append: "pending (es @ fs) D c = pending es D c + pending fs D c"
  by (simp add: pending_def)

lemma pending_star: "pending (map (\<lambda>p. (p, k)) ps) {} c = (if c = k then length ps else 0)"
  by (induction ps) (auto simp: pending_def)

lemma link_all_spec:
  "link_all (msg_map all) ms (c, d) = (c', d') \<Longrightarrow> set (map Key ms) \<subseteq> set (map fst d) \<Longrightarrow> distinct (map fst d) \<Longrightarrow>
   (\<forall>p. kids c' p = kids c p @ kids_of (edges all ms) p) \<and> (\<forall>x. degree d' x = degree d x + int (pending (edges all ms) {} x)) \<and>
   set (map fst d') = set (map fst d) \<and> distinct (map fst d')"
proof (induction ms arbitrary: c d)
  case Nil
  then show ?case by (simp add: edges_def kids_of_def pending_def)
next
  case (Cons m ms)
  obtain c1 d1 where l: "link_parents (msg_map all) (Key m) (Parents m) (c, d) = (c1, d1)" by fastforce
  note spec = link_parents_spec [OF l]
  have key: "Key m \<in> set (map fst d)" using Cons.prems(2) by simp
  have "link_all (msg_map all) ms (c1, d1) = (c', d')" using Cons.prems(1) l by simp
  from Cons.IH [OF this] spec(3,4) [OF key Cons.prems(3)] Cons.prems(2)
  have ih: "\<forall>p. kids c' p = kids c1 p @ kids_of (edges all ms) p" "\<forall>x. degree d' x = degree d1 x + int (pending (edges all ms) {} x)"
    "set (map fst d') = set (map fst d1)" "distinct (map fst d')" by auto
  then show ?case
    using spec [OF key Cons.prems(3)]
    by (auto simp: edges_Cons kids_of_append kids_of_star pending_append pending_star filter_filter conj_commute)
qed

section \<open>The loop invariant\<close>

text \<open>
  While the children \<open>cs\<close> of the last placed message are still to be visited: a degree counts the
  parents that are not placed and the visits that are still to come; the keys of degree zero are
  those placed or queued, each once.
\<close>

definition loop_inv :: "(string \<times> string) list \<Rightarrow> string set \<Rightarrow> string list \<Rightarrow> string list \<Rightarrow> string list \<Rightarrow> degrees \<Rightarrow> bool" where
  "loop_inv es K out cs queue d \<longleftrightarrow>
     (\<forall>c \<in> K. degree d c = int (pending es (set out) c + count_list cs c)) \<and>
     distinct (queue @ out) \<and> set queue \<union> set out = {c \<in> K. degree d c = 0} \<and>
     set cs \<subseteq> K \<and> set (map fst d) = K \<and> distinct (map fst d)"

lemma perm_distinct:
  assumes "\<And>q. mset (resort q) = mset q"
  shows "set (resort q) = set q" "distinct (resort q) \<longleftrightarrow> distinct q"
  using assms [of q] mset_eq_setD mset_eq_imp_distinct_iff by blast+

lemma visit_inv:
  assumes "\<And>q. mset (resort q) = mset q"
  shows "loop_inv es K out cs queue d \<Longrightarrow> visit resort cs (queue, d) = (queue', d') \<Longrightarrow> loop_inv es K out [] queue' d'"
proof (induction cs arbitrary: queue d)
  case (Cons child cs)
  let ?d = "gput child (degree d child - 1) d"
  let ?q = "if degree ?d child = 0 then resort (queue @ [child]) else queue"
  have inv: "\<forall>c \<in> K. degree d c = int (pending es (set out) c + count_list (child # cs) c)" "distinct (queue @ out)"
    "set queue \<union> set out = {c \<in> K. degree d c = 0}" "child \<in> K" "set cs \<subseteq> K" "set (map fst d) = K" "distinct (map fst d)"
    using Cons.prems(1) by (auto simp: loop_inv_def)
  have pos: "degree d child \<ge> 1" using inv(1,4) by simp
  then have new: "child \<notin> set queue \<union> set out" using inv(3) by auto
  have deg: "\<forall>c \<in> K. degree ?d c = int (pending es (set out) c + count_list cs c)" using inv(1) by (auto simp: degree_gput)
  have keys: "set (map fst ?d) = K" "distinct (map fst ?d)" using inv(4,6,7) keys_gput [of child _ d] by (auto simp: distinct_gput)
  have "distinct (?q @ out)" using inv(2) new perm_distinct [OF assms, of "queue @ [child]"] by auto
  moreover have "set ?q \<union> set out = {c \<in> K. degree ?d c = 0}"
    using inv(3,4) pos perm_distinct(1) [OF assms, of "queue @ [child]"] by (auto simp: degree_gput)
  ultimately have "loop_inv es K out cs ?q ?d" using deg keys inv(5) by (simp add: loop_inv_def)
  from Cons.IH [OF this] Cons.prems(2) show ?case by (auto simp: Let_def split: if_splits)
qed simp

lemma pending_place:
  assumes "current \<notin> D"
  shows "pending es (insert current D) c + count_list (kids_of es current) c = pending es D c"
  using assms by (induction es) (auto simp: pending_def kids_of_def)

lemma place_inv:
  assumes "loop_inv es K out [] (current # rest) d" and "snd ` set es \<subseteq> K"
  shows "loop_inv es K (out @ [current]) (kids_of es current) rest d"
  using assms pending_place [of current "set out" es]
  by (auto simp: loop_inv_def kids_of_def)

text \<open>Every known parent of a placed message is placed before it.\<close>

definition parents_first :: "(string \<times> string) list \<Rightarrow> string list \<Rightarrow> bool" where
  "parents_first es out \<longleftrightarrow> (\<forall>i < length out. \<forall>p. (p, out ! i) \<in> set es \<longrightarrow> p \<in> set (take i out))"

lemma parents_first_snoc:
  assumes "parents_first es out" and "\<forall>p. (p, k) \<in> set es \<longrightarrow> p \<in> set out"
  shows "parents_first es (out @ [k])"
  using assms by (auto simp: parents_first_def nth_append less_Suc_eq)

lemma pending_0: "pending es D c = 0 \<longleftrightarrow> (\<forall>p. (p, c) \<in> set es \<longrightarrow> p \<in> D)"
  by (auto simp: pending_def filter_empty_conv)

lemma sort_loop_spec:
  assumes perm: "\<And>q. mset (resort q) = mset q" and kids: "\<And>p. kids c p = kids_of es p" and K: "snd ` set es \<subseteq> K" "finite K"
  shows "loop_inv es K out [] queue d \<Longrightarrow> parents_first es out \<Longrightarrow> card K < n + length out \<Longrightarrow>
    \<exists>out' d'. sort_loop n resort c out (queue, d) = Some (out', d') \<and> loop_inv es K out' [] [] d' \<and> parents_first es out'"
proof (induction n arbitrary: out queue d)
  case 0
  have "set out \<subseteq> K" "distinct out" using "0.prems"(1) by (auto simp: loop_inv_def)
  then have "length out \<le> card K" using K(2) by (metis card_mono distinct_card)
  with 0 show ?case by simp
next
  case (Suc n)
  show ?case
  proof (cases queue)
    case Nil
    with Suc.prems show ?thesis by auto
  next
    case (Cons current rest)
    obtain q' d' where v: "visit resort (kids c current) (rest, d) = (q', d')" by fastforce
    have inv: "loop_inv es K (out @ [current]) [] q' d'"
      using visit_inv [OF perm place_inv v [unfolded kids]] Suc.prems(1) K(1) Cons by simp
    have "current \<in> K" "degree d current = 0" using Suc.prems(1) Cons by (auto simp: loop_inv_def)
    then have "pending es (set out) current = 0" using Suc.prems(1) by (auto simp: loop_inv_def)
    then have "parents_first es (out @ [current])" using Suc.prems(2) by (auto simp: pending_0 intro: parents_first_snoc)
    from Suc.IH [OF inv this] Suc.prems(3) Cons v show ?thesis by simp
  qed
qed

section \<open>What the sort returns\<close>

lemma edges_mem: "(p, k) \<in> set (edges all ms) \<longleftrightarrow> (\<exists>m \<in> set ms. Key m = k \<and> p \<in> set (Parents m) \<and> known all p)"
  by (auto simp: edges_def)

lemma keys_with:
  assumes "distinct (map fst d)"
  shows "fst ` {x \<in> set d. P (snd x)} = {k \<in> set (map fst d). P (degree d k)}"
proof -
  have "map_of d k = Some v \<Longrightarrow> degree d k = v" for k v by (simp add: degree_def)
  then have "(k, v) \<in> set d \<Longrightarrow> degree d k = v" for k v using assms by simp
  then show ?thesis by force
qed

lemma Sort_spec:
  assumes dist: "distinct (map Key messages)" and perm: "\<And>q. mset (resort q) = mset q" and iter: "\<And>d. mset (iter d) = mset d"
    and ne: "messages \<noteq> []"
  obtains out d where "parents_first (edges messages messages) out"
    and "loop_inv (edges messages messages) (set (map Key messages)) out [] [] d"
    and "Sort iter resort messages =
       Some \<lparr>Sorted = map (\<lambda>k. case map_of (msg_map messages) k of None \<Rightarrow> zero_message | Some m \<Rightarrow> m) out,
             Cycle = (if length out \<noteq> length messages then Some (map fst (filter (\<lambda>p. snd p > 0) (iter d))) else None)\<rparr>"
proof -
  let ?es = "edges messages messages" and ?K = "set (map Key messages)"
  obtain c d where l: "link_all (msg_map messages) messages (init_children messages, init_degrees messages) = (c, d)" by fastforce
  have init: "set (map fst (init_degrees messages)) = ?K" "distinct (map fst (init_degrees messages))"
    using keys_fold_gput [of "\<lambda>_. 0 :: int" messages "[]"] distinct_fold_gput [of "[]" "\<lambda>_. 0 :: int" messages]
    by (simp_all add: init_degrees_def)
  from link_all_spec [OF l] init
  have d: "\<forall>p. kids c p = kids_of ?es p" "\<forall>x. degree d x = int (pending ?es {} x)" "set (map fst d) = ?K" "distinct (map fst d)"
    by (auto simp: degree_init kids_init)
  let ?q = "resort (map fst (filter (\<lambda>p. snd p = 0) (iter d)))"
  have "set (iter d) = set d" "distinct (map fst (iter d))"
    using iter [of d] d(4) by (metis mset_eq_setD, metis mset_eq_imp_distinct_iff mset_map)
  then have q: "set ?q = {k \<in> ?K. degree d k = 0}" "distinct ?q"
    using keys_with [OF d(4), of "\<lambda>v. v = 0"] d(3) by (simp_all add: perm_distinct [OF perm] distinct_map_filter)
  have "loop_inv ?es ?K [] [] ?q d" using d q by (simp add: loop_inv_def)
  moreover have "snd ` set ?es \<subseteq> ?K" by (auto simp: edges_mem)
  moreover have "card ?K < Suc (length messages) + length ([] :: string list)"
    by (metis List.card_set length_map length_remdups_leq less_Suc_eq_le list.size(3) add_0_right)
  moreover have "parents_first ?es []" by (simp add: parents_first_def)
  ultimately obtain out d' where out: "sort_loop (Suc (length messages)) resort c [] (?q, d) = Some (out, d')"
    "loop_inv ?es ?K out [] [] d'" "parents_first ?es out"
    using sort_loop_spec [OF perm, of c ?es ?K "[]" ?q d "Suc (length messages)"] d(1) by (metis List.finite_set)
  with ne l that show thesis by (simp add: Sort_def)
qed

text \<open>The messages placed, and what is left when some are not.\<close>

definition sort_facts :: "MessageWithTangles list \<Rightarrow> sort_result \<Rightarrow> bool" where
  "sort_facts messages r \<longleftrightarrow>
     (let es = edges messages messages; K = set (map Key messages); S = set (map Key (Sorted r))
      in set (Sorted r) \<subseteq> set messages \<and> distinct (map Key (Sorted r)) \<and> parents_first es (map Key (Sorted r)) \<and>
         (\<forall>k \<in> K. k \<in> S \<longleftrightarrow> (\<forall>p. (p, k) \<in> set es \<longrightarrow> p \<in> S)) \<and>
         (Cycle r = None \<longleftrightarrow> S = K) \<and> (\<forall>ks. Cycle r = Some ks \<longrightarrow> set ks = K - S))"

lemma Sort_messages:
  assumes dist: "distinct (map Key messages)" and perm: "\<And>q. mset (resort q) = mset q" and iter: "\<And>d. mset (iter d) = mset d"
  shows "\<exists>r. Sort iter resort messages = Some r \<and> sort_facts messages r"
proof (cases "messages = []")
  case True
  then show ?thesis by (simp add: Sort_def sort_facts_def parents_first_def)
next
  case False
  let ?es = "edges messages messages" and ?K = "set (map Key messages)"
  obtain out d where s: "parents_first ?es out" "loop_inv ?es ?K out [] [] d"
    "Sort iter resort messages =
       Some \<lparr>Sorted = map (\<lambda>k. case map_of (msg_map messages) k of None \<Rightarrow> zero_message | Some m \<Rightarrow> m) out,
             Cycle = (if length out \<noteq> length messages then Some (map fst (filter (\<lambda>p. snd p > 0) (iter d))) else None)\<rparr>"
    using Sort_spec [OF dist perm iter False] by blast
  have inv: "\<forall>c \<in> ?K. degree d c = int (pending ?es (set out) c)" "distinct out" "set out = {c \<in> ?K. degree d c = 0}"
    "set (map fst d) = ?K" "distinct (map fst d)"
    using s(2) by (auto simp: loop_inv_def)
  let ?r = "map (\<lambda>k. case map_of (msg_map messages) k of None \<Rightarrow> zero_message | Some m \<Rightarrow> m) out"
  have lookup: "\<exists>m \<in> set messages. map_of (msg_map messages) k = Some m \<and> Key m = k" if "k \<in> set out" for k
    using that inv(3) msg_map_lookup [OF dist] by auto
  have keys: "map Key ?r = out" unfolding list.map_comp using lookup by (intro map_idI) fastforce
  have sub: "set ?r \<subseteq> set messages" using lookup by force
  have card: "length out = length messages \<longleftrightarrow> set out = ?K"
    using inv(2,3) dist distinct_card [of out] distinct_card [of "map Key messages"]
    by (metis (no_types, lifting) List.finite_set card_subset_eq length_map mem_Collect_eq subsetI)
  have zero: "k \<in> set out \<longleftrightarrow> degree d k = 0" "degree d k \<ge> 0" if "k \<in> ?K" for k
    using that inv(1,3) by (blast, metis of_nat_0_le_iff)
  have "set (iter d) = set d" using iter [of d] by (metis mset_eq_setD)
  then have "set (map fst (filter (\<lambda>p. snd p > 0) (iter d))) = {k \<in> ?K. degree d k > 0}"
    using keys_with [OF inv(5), of "\<lambda>v. v > 0"] inv(4) by simp
  then have cyc: "set (map fst (filter (\<lambda>p. snd p > 0) (iter d))) = ?K - set out"
    using zero by (fastforce simp: order.strict_iff_order)
  have step: "\<forall>k \<in> ?K. k \<in> set out \<longleftrightarrow> (\<forall>p. (p, k) \<in> set ?es \<longrightarrow> p \<in> set out)"
  proof
    fix k assume k: "k \<in> ?K"
    have "k \<in> set out \<longleftrightarrow> degree d k = 0" by (rule zero(1) [OF k])
    also have "\<dots> \<longleftrightarrow> pending ?es (set out) k = 0" using bspec [OF inv(1) k] by simp
    finally show "k \<in> set out \<longleftrightarrow> (\<forall>p. (p, k) \<in> set ?es \<longrightarrow> p \<in> set out)" by (simp add: pending_0)
  qed
  have "sort_facts messages \<lparr>Sorted = ?r, Cycle = (if length out \<noteq> length messages then Some (map fst (filter (\<lambda>p. snd p > 0) (iter d))) else None)\<rparr>"
    unfolding sort_facts_def Let_def sort_result.simps keys
    by (intro conjI sub inv(2) s(1) step) (use card cyc in \<open>simp_all split: if_splits\<close>)
  with s(3) show ?thesis by blast
qed

lemma ranked_complete:
  assumes rank: "\<forall>(p, k) \<in> set es. rank p < (rank k :: nat)" and kn: "\<forall>(p, k) \<in> set es. p \<in> K"
    and step: "\<forall>k \<in> K. k \<in> S \<longleftrightarrow> (\<forall>p. (p, k) \<in> set es \<longrightarrow> p \<in> S)"
  shows "K \<subseteq> S"
proof
  show "k \<in> S" if "k \<in> K" for k
    using that
  proof (induction "rank k" arbitrary: k rule: less_induct)
    case less
    then show ?case using rank kn step by blast
  qed
qed

lemma parents_first_ranked:
  assumes "parents_first es out" "set out = K" "\<forall>(p, k) \<in> set es. p \<in> K \<and> k \<in> K" "distinct out"
  shows "\<exists>rank. \<forall>(p, k) \<in> set es. rank p < (rank k :: nat)"
proof -
  have "\<forall>k \<in> K. \<exists>i < length out. out ! i = k" using assms(2) by (metis in_set_conv_nth)
  then obtain pos where pos: "\<forall>k \<in> K. pos k < length out \<and> out ! pos k = k" by metis
  have "pos p < pos k" if e: "(p, k) \<in> set es" for p k
  proof -
    have k: "p \<in> K" "k \<in> K" using assms(3) e by auto
    then have "p \<in> set (take (pos k) out)" using assms(1) e pos by (metis parents_first_def)
    then obtain j where j: "j < pos k" "j < length out" "out ! j = p" by (auto simp: in_set_conv_nth)
    then have "pos p = j" using pos k(1) assms(4) by (metis nth_eq_iff_index_eq)
    with j show ?thesis by simp
  qed
  then show ?thesis by blast
qed

section \<open>Properties\<close>

text \<open>Sorting a tangle always returns, whatever the iteration order of the maps and the effect of the position-comparing
  \<open>sort.Slice\<close>, and returns each message at most once with every parent that is in the tangle before it.\<close>
theorem tangle_sort_parents_first:
  assumes "distinct (map Key messages)" and "\<And>q. mset (resort q) = mset q" and "\<And>d. mset (iter d) = mset d"
  shows "\<exists>r. Sort iter resort messages = Some r \<and> set (Sorted r) \<subseteq> set messages \<and> distinct (Sorted r) \<and>
    (\<forall>i < length (Sorted r). \<forall>p \<in> set (Parents (Sorted r ! i)). p \<in> Key ` set messages \<longrightarrow> p \<in> Key ` set (take i (Sorted r)))"
proof -
  from Sort_messages [OF assms] obtain r where r: "Sort iter resort messages = Some r" "set (Sorted r) \<subseteq> set messages"
    "distinct (map Key (Sorted r))" "parents_first (edges messages messages) (map Key (Sorted r))"
    by (auto simp: sort_facts_def Let_def)
  have "p \<in> Key ` set (take i (Sorted r))"
    if i: "i < length (Sorted r)" "p \<in> set (Parents (Sorted r ! i))" "p \<in> Key ` set messages" for i p
  proof -
    have "(p, map Key (Sorted r) ! i) \<in> set (edges messages messages)" using i r(2) nth_mem [OF i(1)] by (fastforce simp: edges_mem known_def)
    then have "p \<in> set (take i (map Key (Sorted r)))" using r(4) i(1) by (auto simp: parents_first_def)
    then show ?thesis by (simp add: take_map)
  qed
  with r show ?thesis by (auto simp: distinct_map)
qed

text \<open>The sort reports no cycle exactly when the parent links inside the tangle can be ranked, and then it returns all messages;
  otherwise the reported messages are those not returned, and each of them has a parent that is reported too.\<close>
theorem tangle_sort_cycles:
  assumes "distinct (map Key messages)" and "\<And>q. mset (resort q) = mset q" and "\<And>d. mset (iter d) = mset d"
    and "Sort iter resort messages = Some r"
  shows "case Cycle r of
      None \<Rightarrow> mset (Sorted r) = mset messages \<and>
        (\<exists>rank. \<forall>m \<in> set messages. \<forall>p \<in> set (Parents m). p \<in> Key ` set messages \<longrightarrow> rank p < (rank (Key m) :: nat))
    | Some ks \<Rightarrow> set ks = Key ` (set messages - set (Sorted r)) \<and> ks \<noteq> [] \<and>
        (\<forall>m \<in> set messages. Key m \<in> set ks \<longrightarrow> (\<exists>p \<in> set (Parents m). p \<in> set ks)) \<and>
        \<not> (\<exists>rank. \<forall>m \<in> set messages. \<forall>p \<in> set (Parents m). p \<in> Key ` set messages \<longrightarrow> rank p < (rank (Key m) :: nat))"
proof -
  let ?es = "edges messages messages" and ?K = "set (map Key messages)" and ?S = "set (map Key (Sorted r))"
  have "sort_facts messages r" using Sort_messages [OF assms(1-3)] assms(4) by auto
  then have r: "set (Sorted r) \<subseteq> set messages" "distinct (map Key (Sorted r))"
    "parents_first ?es (map Key (Sorted r))" "\<forall>k \<in> ?K. k \<in> ?S \<longleftrightarrow> (\<forall>p. (p, k) \<in> set ?es \<longrightarrow> p \<in> ?S)"
    "Cycle r = None \<longleftrightarrow> ?S = ?K" "\<forall>ks. Cycle r = Some ks \<longrightarrow> set ks = ?K - ?S"
    unfolding sort_facts_def Let_def by - (elim conjE, assumption)+
  have es: "\<forall>(p, k) \<in> set ?es. p \<in> ?K \<and> k \<in> ?K" by (auto simp: edges_mem known_def)
  have ranked: "(\<forall>m \<in> set messages. \<forall>p \<in> set (Parents m). p \<in> Key ` set messages \<longrightarrow> rank p < (rank (Key m) :: nat)) \<longleftrightarrow>
    (\<forall>(p, k) \<in> set ?es. rank p < rank k)" for rank
    by (auto simp: edges_mem known_def)
  have inj: "m \<in> set (Sorted r) \<longleftrightarrow> m \<in> set messages \<and> Key m \<in> ?S" for m
    using r(1) distinct_key [OF assms(1)] by auto
  show ?thesis
  proof (cases "Cycle r")
    case None
    then have "?S = ?K" using r(5) by simp
    then have "set (Sorted r) = set messages" using inj r(1) by (metis image_eqI list.set_map subsetI subset_antisym)
    then have "mset (Sorted r) = mset messages"
      using assms(1) r(2) by (metis set_eq_iff_mset_eq_distinct distinct_map)
    moreover have "\<exists>rank. \<forall>(p, k) \<in> set ?es. rank p < (rank k :: nat)"
      using parents_first_ranked [OF r(3) \<open>?S = ?K\<close> es r(2)] .
    ultimately show ?thesis using None ranked by simp
  next
    case (Some ks)
    then have ks: "set ks = ?K - ?S" "?S \<noteq> ?K" using r(5,6) by auto
    have sub: "?S \<subseteq> ?K" using r(1) by auto
    have "set ks = Key ` (set messages - set (Sorted r))"
    proof
      show "set ks \<subseteq> Key ` (set messages - set (Sorted r))" unfolding ks(1) by auto
      show "Key ` (set messages - set (Sorted r)) \<subseteq> set ks" 
      proof (rule image_subsetI)
        fix m assume "m \<in> set messages - set (Sorted r)"
        then have "m \<in> set messages" "Key m \<notin> ?S" using inj [of m] by blast+
        then show "Key m \<in> set ks" unfolding ks(1) by simp
      qed
    qed
    moreover have "ks \<noteq> []" using ks sub by auto
    moreover have "\<forall>m \<in> set messages. Key m \<in> set ks \<longrightarrow> (\<exists>p \<in> set (Parents m). p \<in> set ks)"
    proof (intro ballI impI)
      fix m assume m: "m \<in> set messages" "Key m \<in> set ks"
      then have "Key m \<in> ?K" "Key m \<notin> ?S" using ks(1) by auto
      then obtain p where p: "(p, Key m) \<in> set ?es" "p \<notin> ?S" using r(4) by metis
      then have "p \<in> set ks" using es ks(1) by auto
      then show "\<exists>p \<in> set (Parents m). p \<in> set ks" using p(1) m(1) distinct_key [OF assms(1)] by (auto simp: edges_mem)
    qed
    moreover have "\<not> (\<exists>rank. \<forall>(p, k) \<in> set ?es. rank p < (rank k :: nat))"

    proof
      assume "\<exists>rank. \<forall>(p, k) \<in> set ?es. rank p < (rank k :: nat)"
      then obtain rank where rank: "\<forall>(p, k) \<in> set ?es. rank p < (rank k :: nat)" ..
      have "\<forall>(p, k) \<in> set ?es. p \<in> ?K" using es by blast
      from ranked_complete [OF rank this r(4)] sub ks(2) show False by blast
    qed
    ultimately show ?thesis using Some ranked by simp
  qed
qed

section \<open>Depth\<close>

text \<open>
  The search always returns: each nested call that recurses has visited one more message of the
  tangle, so the nesting is bounded by their number.
\<close>

definition unvisited :: "MessageWithTangles list \<Rightarrow> string list \<Rightarrow> nat" where
  "unvisited ms vis = card (set (map Key ms) - set vis)"

lemma unvisited_le: "set vis \<subseteq> set vis' \<Longrightarrow> unvisited ms vis' \<le> unvisited ms vis"
  unfolding unvisited_def by (rule card_mono) auto

lemma unvisited_less: "key \<in> set (map Key ms) \<Longrightarrow> key \<notin> set vis \<Longrightarrow> unvisited ms (key # vis) < unvisited ms vis"
  unfolding unvisited_def by (rule psubset_card_mono) auto

lemma msg_map_known: "map_of (msg_map ms) k = Some m \<Longrightarrow> k \<in> set (map Key ms)"
  using msg_map_has [of k ms] by (simp add: ghas_def known_def)

lemma dfs_returns:
  "mm = msg_map ms \<Longrightarrow> unvisited ms vis < n \<Longrightarrow>
     \<exists>d vis'. dfs n mm key depth vis = Some (d, vis') \<and> set vis \<subseteq> set vis' \<and> depth \<le> d"
  "mm = msg_map ms \<Longrightarrow> unvisited ms vis' < n \<Longrightarrow>
     \<exists>d vis''. dfs_parents n mm ps depth mx vis' = Some (d, vis'') \<and> set vis' \<subseteq> set vis'' \<and> mx \<le> d"
proof (induction n mm key depth vis and n mm ps depth mx vis' rule: dfs_dfs_parents.induct)
  case (2 n mm key depth vis)
  show ?case
  proof (cases "key \<in> set vis \<or> map_of mm key = None \<or> (\<exists>m. map_of mm key = Some m \<and> Parents m = [])")
    case True
    then show ?thesis by auto
  next
    case False
    then obtain m where m: "map_of mm key = Some m" "Parents m \<noteq> []" "key \<notin> set vis" by auto
    have "unvisited ms (key # vis) < n"
      using "2.prems" unvisited_less [of key ms vis] msg_map_known [of ms key m] m by simp
    from "2.IH" [OF m(3,1,2) "2.prems"(1) this] m show ?thesis by auto
  qed
next
  case (4 n mm parent ps depth mx vis)
  from "4.IH"(1) [OF "4.prems"] obtain d v where d: "dfs n mm parent (depth + 1) vis = Some (d, v)" "set vis \<subseteq> set v" by blast
  have "unvisited ms v < n" using unvisited_le [OF d(2), of ms] "4.prems"(2) by simp
  from "4.IH"(2) [OF d(1) refl "4.prems"(1) this] d show ?case by (fastforce split: if_splits)
qed auto

lemma unvisited_Nil: "unvisited ms [] \<le> length ms"
  unfolding unvisited_def by (metis Diff_empty card_length length_map list.set(1))

lemma GetMessageDepth_returns: "\<exists>d. GetMessageDepth k ms = Some d"
proof -
  have "unvisited ms [] < length ms + 2" using unvisited_Nil [of ms] by simp
  from dfs_returns(1) [OF refl this] show ?thesis unfolding GetMessageDepth_def by force
qed

text \<open>
  The depth is not the length of the longest path to a root: a message that was reached on a
  shorter path first is not looked into again.
\<close>

definition detour :: "MessageWithTangles list" where
  "detour = map (\<lambda>(k, ps). \<lparr>Key = k, TangleName = ''post'', Root = ''r'', Parents = ps, Content = []\<rparr>)
     [(''r'', []), (''a'', [''r'']), (''b'', [''a'']), (''d'', [''a'', ''b''])]"

lemma depth_depends_on_order:
  "GetMessageDepth ''d'' detour = Some 2"
  "GetMessageDepth ''d'' (butlast detour @ [(last detour)\<lparr>Parents := [''b'', ''a'']\<rparr>]) = Some 3"
  by code_simp+

theorem tangle_sort_parents_first_witness:
  "\<exists>r. Sort (\<lambda>d. d) rev detour = Some r \<and> distinct (Sorted r) \<and>
    (\<forall>i < length (Sorted r). \<forall>p \<in> set (Parents (Sorted r ! i)). p \<in> Key ` set detour \<longrightarrow> p \<in> Key ` set (take i (Sorted r)))"
proof -
  have "distinct (map Key detour)" by code_simp
  from tangle_sort_parents_first [OF this, of rev "\<lambda>d. d"] show ?thesis by simp blast
qed

theorem tangle_sort_cycles_witness:
  "\<exists>r. Sort (\<lambda>d. d) rev [\<lparr>Key = ''a'', TangleName = [], Root = [], Parents = [''b''], Content = []\<rparr>,
      \<lparr>Key = ''b'', TangleName = [], Root = [], Parents = [''a''], Content = []\<rparr>] = Some r \<and> Cycle r = Some [''a'', ''b''] \<and>
      set [''a'', ''b''] = Key ` (set [\<lparr>Key = ''a'', TangleName = [], Root = [], Parents = [''b''], Content = []\<rparr>,
      \<lparr>Key = ''b'', TangleName = [], Root = [], Parents = [''a''], Content = []\<rparr>] - set (Sorted r))"
proof -
  let ?ms = "[\<lparr>Key = ''a'', TangleName = [], Root = [], Parents = [''b''], Content = []\<rparr>,
      \<lparr>Key = ''b'', TangleName = [], Root = [], Parents = [''a''], Content = []\<rparr>]"
  have r: "Sort (\<lambda>d. d) rev ?ms = Some \<lparr>Sorted = [], Cycle = Some [''a'', ''b'']\<rparr>" by code_simp
  have "distinct (map Key ?ms)" by code_simp
  from tangle_sort_cycles [OF this _ _ r] r show ?thesis by simp
qed

end
