(* ===== verification/Feedlog.thy ===== *)
theory Feedlog
  imports SsbUri Tangle
begin

text \<open>
  \<open>internal/ssb/feedlog/feedlog.go\<close>: the tables of the feed database as lists of rows in insertion order,
  and the operations of the multi-log, the per-feed log, the receive log, the tangle table and the
  blob store. A transaction either happens or leaves the tables alone; what happens to its
  attempts is the argument \<open>txs\<close>. The JSON text of a stored message, the hash, the clock and the
  signature verifier are arguments. Loggers, which are called in goroutines of their own, are left
  out.
\<close>

section \<open>Rows\<close>

record Metadata =
  Author :: string
  Sequence :: int
  Previous :: string
  Timestamp :: int
  Sig :: string
  Hash :: string
  MTangleName :: string
  MRoot :: string
  MParents :: "string list"
  FeedFormat :: string
  MessageFormat :: string
  RawValue :: string
  CanonicalRef :: string
  ValidationStatus :: string

definition zero_Metadata :: Metadata where
  "zero_Metadata = \<lparr>Author = [], Sequence = 0, Previous = [], Timestamp = 0, Sig = [], Hash = [], MTangleName = [],
     MRoot = [], MParents = [], FeedFormat = [], MessageFormat = [], RawValue = [], CanonicalRef = [], ValidationStatus = []\<rparr>"

record StoredMessage =
  SKey :: string
  SValue :: string
  SMetadata :: Metadata
  SReceived :: int
  SFeedFormat :: string
  SMessageFormat :: string
  SRawValue :: string
  SCanonicalRef :: string
  SValidationStatus :: string

record feed_row =
  f_id :: int
  f_addr :: string
  f_created :: int

record msg_row =
  m_feed :: int
  m_seq :: int
  m_key :: string
  m_value :: string
  m_created :: int
  m_feed_format :: string
  m_message_format :: string
  m_raw :: string
  m_ref :: string
  m_status :: string

record member_row =
  t_id :: int
  t_key :: string
  t_name :: string
  t_root :: string
  t_parents :: string
  t_created :: int

record blob_row =
  b_hash :: string
  b_size :: nat
  b_created :: int

record db =
  feed_rows :: "feed_row list"
  next_feed :: int
  msg_rows :: "msg_row list"
  key_idx :: "(string, int \<times> int) gmap"
  receive_rows :: "msg_row list"
  member_rows :: "member_row list"
  next_member :: int
  blob_rows :: "blob_row list"
  blob_files :: "(string, string) gmap"

datatype feedlog_error = ErrNotFound | ErrFeedNotFound | ErrDatabase | ErrMarshal | ErrSignature | ErrNotImplemented | ErrNoRange | ErrNilReader

section \<open>Retries\<close>

datatype tx = TxOk | TxBusy | TxFail

definition sqliteBusyRetryLimit :: nat where "sqliteBusyRetryLimit = 20"

text \<open>\<open>shouldRetrySQLiteBusy\<close> and the loops around it: only a busy database is tried again.\<close>

definition shouldRetrySQLiteBusy :: "tx \<Rightarrow> nat \<Rightarrow> bool" where
  "shouldRetrySQLiteBusy t attempt \<longleftrightarrow> \<not> (t = TxOk \<or> attempt \<ge> sqliteBusyRetryLimit - 1) \<and> t = TxBusy"

function retry_from :: "(nat \<Rightarrow> tx) \<Rightarrow> nat \<Rightarrow> bool" where
  "retry_from txs attempt =
     (if txs attempt = TxOk then True
      else if shouldRetrySQLiteBusy (txs attempt) attempt then retry_from txs (attempt + 1)
      else False)"
  by pat_completeness auto
termination
  by (relation "measure (\<lambda>(_, a). sqliteBusyRetryLimit - a)") (auto simp: shouldRetrySQLiteBusy_def)

declare retry_from.simps [simp del]

section \<open>Metadata\<close>

definition blank :: "string \<Rightarrow> bool" where
  "blank s \<longleftrightarrow> TrimSpace s = []"

text \<open>The field assignments of \<open>normalizeMetadata\<close>, one function per field.\<close>

definition normal_feed_format :: "Metadata \<Rightarrow> string" where
  "normal_feed_format md =
     (let f = FeedFormat md;
          f = (if blank f \<and> FeedFromString (Author md) \<noteq> [] then FeedFromString (Author md) else f)
      in if blank f then ''ed25519'' else f)"

definition normal_message_format :: "Metadata \<Rightarrow> string" where
  "normal_message_format md =
     (let f = MessageFormat md;
          f = (if blank f \<and> MessageFromString (Hash md) \<noteq> [] then MessageFromString (Hash md) else f);
          f = (if blank f \<and> MessageFromFeed (FeedFormat md) \<noteq> [] then MessageFromFeed (FeedFormat md) else f)
      in if blank f then ''sha256'' else f)"

definition normalizeMetadata :: "string \<Rightarrow> Metadata option \<Rightarrow> bool \<Rightarrow> Metadata" where
  "normalizeMetadata content metadata defaultRaw =
     (let md = (case metadata of None \<Rightarrow> zero_Metadata | Some md \<Rightarrow> md);
          md = md\<lparr>FeedFormat := normal_feed_format md\<rparr>;
          md = md\<lparr>MessageFormat := normal_message_format md\<rparr>;
          md = md\<lparr>CanonicalRef := if blank (CanonicalRef md) then TrimSpace (Hash md) else CanonicalRef md\<rparr>;
          md = md\<lparr>ValidationStatus := if blank (ValidationStatus md) then ''validated'' else ValidationStatus md\<rparr>
      in md\<lparr>RawValue := if defaultRaw \<and> RawValue md = [] \<and> content \<noteq> [] then content else RawValue md\<rparr>)"

definition metadataForValueJSON :: "Metadata \<Rightarrow> Metadata" where
  "metadataForValueJSON md =
     md\<lparr>FeedFormat := [], MessageFormat := [], RawValue := [], CanonicalRef := [], ValidationStatus := []\<rparr>"

definition applyStoredFormatFields :: "Metadata \<Rightarrow> string \<Rightarrow> string \<Rightarrow> string \<Rightarrow> string \<Rightarrow> string \<Rightarrow> Metadata" where
  "applyStoredFormatFields md feedFormat messageFormat rawValue canonicalRef validationStatus =
     (let md = md\<lparr>FeedFormat := if \<not> blank feedFormat then TrimSpace feedFormat else FeedFormat md\<rparr>;
          md = md\<lparr>MessageFormat := if \<not> blank messageFormat then TrimSpace messageFormat else MessageFormat md\<rparr>;
          md = md\<lparr>RawValue := if rawValue \<noteq> [] then rawValue else RawValue md\<rparr>;
          md = md\<lparr>CanonicalRef := if \<not> blank canonicalRef then TrimSpace canonicalRef else CanonicalRef md\<rparr>;
          md = md\<lparr>CanonicalRef := if blank (CanonicalRef md) then TrimSpace (Hash md) else CanonicalRef md\<rparr>;
          md = md\<lparr>ValidationStatus := if \<not> blank validationStatus then TrimSpace validationStatus else ValidationStatus md\<rparr>
      in md\<lparr>ValidationStatus := if blank (ValidationStatus md) then ''validated'' else ValidationStatus md\<rparr>)"

section \<open>Environment\<close>

text \<open>
  \<open>marshal\<close> and \<open>unmarshal\<close> are \<open>encoding/json\<close> on \<open>storedMessageWrapper\<close>; \<open>sha_hex\<close> is the hash in
  hexadecimal, \<open>sha\<close> its bytes; \<open>marshal_strings\<close> and \<open>unmarshal_strings\<close> the JSON text of a list of strings.
\<close>

record env =
  marshal :: "string \<times> Metadata \<Rightarrow> string option"
  unmarshal :: "string \<Rightarrow> (string \<times> Metadata option) option"
  marshal_strings :: "string list \<Rightarrow> string"
  unmarshal_strings :: "string \<Rightarrow> string list"
  sha :: "string \<Rightarrow> string"
  sha_hex :: "string \<Rightarrow> string"
  now :: int

section \<open>Feeds\<close>

definition multiLog_List :: "db \<Rightarrow> string list" where
  "multiLog_List s = map f_addr (sort_key f_created (feed_rows s))"

definition feed_id_of :: "db \<Rightarrow> string \<Rightarrow> int option" where
  "feed_id_of s addr = map_option f_id (find (\<lambda>r. f_addr r = addr) (feed_rows s))"

definition multiLog_Get :: "(nat \<Rightarrow> tx) \<Rightarrow> db \<Rightarrow> string \<Rightarrow> feedlog_error + int" where
  "multiLog_Get txs s addr =
     (if \<not> retry_from txs 0 then Inl ErrDatabase
      else case feed_id_of s addr of None \<Rightarrow> Inl ErrNotFound | Some i \<Rightarrow> Inr i)"

definition insert_feed :: "env \<Rightarrow> string \<Rightarrow> db \<Rightarrow> db" where
  "insert_feed e addr s =
     (if feed_id_of s addr \<noteq> None then s
      else s\<lparr>feed_rows := feed_rows s @ [\<lparr>f_id = next_feed s, f_addr = addr, f_created = now e\<rparr>], next_feed := next_feed s + 1\<rparr>)"

definition multiLog_Create :: "env \<Rightarrow> (nat \<Rightarrow> tx) \<Rightarrow> string \<Rightarrow> db \<Rightarrow> (feedlog_error + int) \<times> db" where
  "multiLog_Create e txs addr s =
     (if \<not> retry_from txs 0 then (Inl ErrDatabase, s)
      else let s = insert_feed e addr s
           in case feed_id_of s addr of None \<Rightarrow> (Inl ErrDatabase, s) | Some i \<Rightarrow> (Inr i, s))"

definition multiLog_Has :: "(nat \<Rightarrow> tx) \<Rightarrow> db \<Rightarrow> string \<Rightarrow> feedlog_error + bool" where
  "multiLog_Has txs s addr = (if \<not> retry_from txs 0 then Inl ErrDatabase else Inr (feed_id_of s addr \<noteq> None))"

definition NewFeedLog :: "(nat \<Rightarrow> tx) \<Rightarrow> db \<Rightarrow> string \<Rightarrow> feedlog_error + int" where
  "NewFeedLog txs s feed =
     (case multiLog_Get txs s feed of Inl ErrNotFound \<Rightarrow> Inl ErrFeedNotFound | Inl e \<Rightarrow> Inl e | Inr i \<Rightarrow> Inr i)"

section \<open>Tangles\<close>

definition tangle_AddMessage :: "env \<Rightarrow> string \<Rightarrow> string \<Rightarrow> string \<Rightarrow> string list \<Rightarrow> db \<Rightarrow> db" where
  "tangle_AddMessage e msgKey tangleName rootKey parentKeys s =
     s\<lparr>member_rows := filter (\<lambda>r. \<not> (t_key r = msgKey \<and> t_name r = tangleName)) (member_rows s)
         @ [\<lparr>t_id = next_member s, t_key = msgKey, t_name = tangleName, t_root = rootKey,
              t_parents = marshal_strings e parentKeys, t_created = now e\<rparr>],
       next_member := next_member s + 1\<rparr>"

text \<open>
  \<open>LIKE\<close> with a pattern that has a per cent sign at both ends: SQLite compares ASCII letters without
  case, a per cent sign matches any string and an underscore any one character.
\<close>

definition upcase :: "char \<Rightarrow> char" where
  "upcase c = (let n = of_char c :: nat in if 97 \<le> n \<and> n \<le> 122 then char_of (n - 32) else c)"

fun like :: "string \<Rightarrow> string \<Rightarrow> bool" where
  "like [] s \<longleftrightarrow> s = []"
| "like (c # p) [] \<longleftrightarrow> c = CHR ''%'' \<and> like p []"
| "like (c # p) (x # s) \<longleftrightarrow>
     (if c = CHR ''%'' then like p (x # s) \<or> like (c # p) s
      else (c = CHR ''_'' \<or> upcase c = upcase x) \<and> like p s)"

definition to_message :: "env \<Rightarrow> string \<Rightarrow> member_row \<Rightarrow> MessageWithTangles" where
  "to_message e content r =
     \<lparr>Key = t_key r, TangleName = t_name r, Root = t_root r, Parents = unmarshal_strings e (t_parents r), Content = content\<rparr>"

text \<open>
  The left join of the membership rows with the messages of the same key, by ascending sequence
  number; a row without a message has no number and comes first. \<open>sinceSeq\<close> is not used.
\<close>

definition join_rows :: "db \<Rightarrow> member_row \<Rightarrow> (int option \<times> member_row \<times> string) list" where
  "join_rows s r =
     (case filter (\<lambda>m. m_key m = t_key r) (msg_rows s) of
        [] \<Rightarrow> [(None, r, [])]
      | ms \<Rightarrow> map (\<lambda>m. (Some (m_seq m), r, m_value m)) ms)"

definition seq_order :: "int option \<Rightarrow> int option \<Rightarrow> bool" where
  "seq_order a b \<longleftrightarrow> (case (a, b) of (None, _) \<Rightarrow> True | (Some _, None) \<Rightarrow> False | (Some x, Some y) \<Rightarrow> x \<le> y)"

fun insert_joined :: "int option \<times> 'a \<Rightarrow> (int option \<times> 'a) list \<Rightarrow> (int option \<times> 'a) list" where
  "insert_joined x [] = [x]"
| "insert_joined x (y # ys) = (if seq_order (fst x) (fst y) then x # y # ys else y # insert_joined x ys)"

definition GetTangleMessages :: "env \<Rightarrow> string \<Rightarrow> string \<Rightarrow> int \<Rightarrow> db \<Rightarrow> MessageWithTangles list" where
  "GetTangleMessages e name root sinceSeq s =
     map (\<lambda>(_, r, content). to_message e content r)
       (foldr insert_joined (concat (map (join_rows s) (filter (\<lambda>r. t_name r = name \<and> t_root r = root) (member_rows s)))) [])"

definition GetMessagesByParent :: "env \<Rightarrow> string \<Rightarrow> db \<Rightarrow> MessageWithTangles list" where
  "GetMessagesByParent e parentKey s =
     map (to_message e []) (filter (\<lambda>r. like (''%'' @ parentKey @ ''%'') (t_parents r)) (member_rows s))"

definition GetTangleTips :: "string \<Rightarrow> string \<Rightarrow> db \<Rightarrow> string list" where
  "GetTangleTips name root s =
     map t_key (filter (\<lambda>r. t_name r = name \<and> t_root r = root \<and>
       \<not> list_ex (\<lambda>r2. like (''%'' @ t_key r @ ''%'') (t_parents r2)) (member_rows s)) (member_rows s))"

definition GetTangleMembership :: "string \<Rightarrow> db \<Rightarrow> member_row option" where
  "GetTangleMembership msgKey s = find (\<lambda>r. t_key r = msgKey) (member_rows s)"

definition GetTangleMessageCount :: "string \<Rightarrow> string \<Rightarrow> db \<Rightarrow> nat" where
  "GetTangleMessageCount name root s = length (filter (\<lambda>r. t_name r = name \<and> t_root r = root) (member_rows s))"

section \<open>The log of a feed\<close>

definition max_seq :: "msg_row list \<Rightarrow> int option" where
  "max_seq rows = (case map m_seq rows of [] \<Rightarrow> None | n # ns \<Rightarrow> Some (foldl max n ns))"

definition rows_of :: "int \<Rightarrow> db \<Rightarrow> msg_row list" where
  "rows_of feedID s = filter (\<lambda>r. m_feed r = feedID) (msg_rows s)"

definition log_Seq :: "int \<Rightarrow> db \<Rightarrow> int" where
  "log_Seq feedID s = (case max_seq (rows_of feedID s) of None \<Rightarrow> -1 | Some n \<Rightarrow> n)"

definition next_seq :: "msg_row list \<Rightarrow> int" where
  "next_seq rows = (case max_seq rows of None \<Rightarrow> 1 | Some n \<Rightarrow> n + 1)"

definition new_row :: "env \<Rightarrow> int \<Rightarrow> int \<Rightarrow> string \<Rightarrow> Metadata \<Rightarrow> msg_row" where
  "new_row e feedID n data md =
     \<lparr>m_feed = feedID, m_seq = n, m_key = sha_hex e data, m_value = data, m_created = now e, m_feed_format = FeedFormat md,
      m_message_format = MessageFormat md, m_raw = RawValue md, m_ref = CanonicalRef md, m_status = ValidationStatus md\<rparr>"

definition log_Append :: "env \<Rightarrow> (nat \<Rightarrow> tx) \<Rightarrow> int \<Rightarrow> string \<Rightarrow> Metadata option \<Rightarrow> db \<Rightarrow> (feedlog_error + int) \<times> db" where
  "log_Append e txs feedID content metadata s =
     (let md = normalizeMetadata content metadata False
      in case marshal e (content, metadataForValueJSON md) of
           None \<Rightarrow> (Inl ErrMarshal, s)
         | Some data \<Rightarrow>
             (if \<not> retry_from txs 0 then (Inl ErrDatabase, s)
              else let nextSeq = next_seq (rows_of feedID s);
                       row = new_row e feedID nextSeq data md;
                       s = s\<lparr>msg_rows := msg_rows s @ [row], key_idx := gput (m_key row) (feedID, nextSeq) (key_idx s)\<rparr>;
                       s = (if MTangleName md \<noteq> [] then tangle_AddMessage e (m_key row) (MTangleName md) (MRoot md) (MParents md) s
                            else s)
                   in (Inr nextSeq, s)))"

definition read_row :: "env \<Rightarrow> bool \<Rightarrow> msg_row \<Rightarrow> feedlog_error + StoredMessage" where
  "read_row e defaultRaw r =
     (case unmarshal e (m_value r) of
        None \<Rightarrow> Inl ErrMarshal
      | Some (content, metadata) \<Rightarrow>
         (let md = applyStoredFormatFields (normalizeMetadata content metadata defaultRaw)
                     (m_feed_format r) (m_message_format r) (m_raw r) (m_ref r) (m_status r);
              key = m_ref r;
              key = (if key = [] then CanonicalRef md else key);
              key = (if key = [] then Hash md else key);
              key = (if key = [] then m_key r else key)
          in Inr \<lparr>SKey = key, SValue = content, SMetadata = md, SReceived = m_created r, SFeedFormat = FeedFormat md,
                  SMessageFormat = MessageFormat md, SRawValue = RawValue md, SCanonicalRef = key,
                  SValidationStatus = ValidationStatus md\<rparr>))"

definition log_Get :: "env \<Rightarrow> int \<Rightarrow> int \<Rightarrow> db \<Rightarrow> feedlog_error + StoredMessage" where
  "log_Get e feedID n s =
     (case find (\<lambda>r. m_feed r = feedID \<and> m_seq r = n) (msg_rows s) of
        None \<Rightarrow> Inl ErrNotFound
      | Some r \<Rightarrow> read_row e False r)"

section \<open>The receive log\<close>

definition receive_Seq :: "db \<Rightarrow> int" where
  "receive_Seq s = (case max_seq (receive_rows s) of None \<Rightarrow> -1 | Some n \<Rightarrow> n)"

definition receive_Append ::
  "env \<Rightarrow> (nat \<Rightarrow> tx) \<Rightarrow> (string \<Rightarrow> Metadata \<Rightarrow> bool) option \<Rightarrow> string \<Rightarrow> Metadata option \<Rightarrow> db \<Rightarrow> (feedlog_error + int) \<times> db" where
  "receive_Append e txs verifier content metadata s =
     (let md = normalizeMetadata content metadata True
      in if (case verifier of None \<Rightarrow> False | Some v \<Rightarrow> MessageFormat md = ''sha256'' \<and> \<not> v content md) then (Inl ErrSignature, s)
         else case marshal e (content, metadataForValueJSON md) of
           None \<Rightarrow> (Inl ErrMarshal, s)
         | Some data \<Rightarrow>
             (if \<not> retry_from txs 0 then (Inl ErrDatabase, s)
              else let nextSeq = next_seq (receive_rows s)
                   in (Inr nextSeq, s\<lparr>receive_rows := receive_rows s @ [new_row e 0 nextSeq data md]\<rparr>)))"

definition receive_Get :: "env \<Rightarrow> int \<Rightarrow> db \<Rightarrow> feedlog_error + StoredMessage" where
  "receive_Get e n s =
     (case find (\<lambda>r. m_seq r = n) (receive_rows s) of None \<Rightarrow> Inl ErrNotFound | Some r \<Rightarrow> read_row e True r)"

section \<open>Blobs\<close>

text \<open>
  \<open>dir\<close> says whether a blob directory is configured. Without one, \<open>Put\<close> records the size only, and the
  reader that \<open>Get\<close> returns limits a nil reader, which panics when it is read.
\<close>

definition blob_find :: "string \<Rightarrow> db \<Rightarrow> blob_row option" where
  "blob_find h s = find (\<lambda>r. b_hash r = h) (blob_rows s)"

definition blob_Put :: "env \<Rightarrow> bool \<Rightarrow> string \<Rightarrow> db \<Rightarrow> string \<times> db" where
  "blob_Put e dir r s =
     (let h = sha e r;
          s = (if dir then s\<lparr>blob_files := gput h r (blob_files s)\<rparr> else s)
      in (h, s\<lparr>blob_rows := filter (\<lambda>b. b_hash b \<noteq> h) (blob_rows s) @ [\<lparr>b_hash = h, b_size = length r, b_created = now e\<rparr>]\<rparr>))"

definition blob_Get :: "bool \<Rightarrow> string \<Rightarrow> db \<Rightarrow> feedlog_error + string" where
  "blob_Get dir h s =
     (case blob_find h s of
        None \<Rightarrow> Inl ErrNotFound
      | Some b \<Rightarrow>
         (if dir then (case map_of (blob_files s) h of None \<Rightarrow> Inl ErrNotFound | Some c \<Rightarrow> Inr c)
          else if b_size b = 0 then Inr [] else Inl ErrNilReader))"

definition blob_GetRange :: "bool \<Rightarrow> string \<Rightarrow> nat \<Rightarrow> nat \<Rightarrow> db \<Rightarrow> feedlog_error + string" where
  "blob_GetRange dir h start n s =
     (case blob_find h s of
        None \<Rightarrow> Inl ErrNotFound
      | Some b \<Rightarrow>
         (if dir then (case map_of (blob_files s) h of None \<Rightarrow> Inl ErrNotFound | Some c \<Rightarrow> Inr (take n (drop start c)))
          else Inl ErrNoRange))"

definition blob_Has :: "string \<Rightarrow> db \<Rightarrow> bool" where
  "blob_Has h s \<longleftrightarrow> blob_find h s \<noteq> None"

definition blob_Size :: "string \<Rightarrow> db \<Rightarrow> feedlog_error + nat" where
  "blob_Size h s = (case blob_find h s of None \<Rightarrow> Inl ErrNotFound | Some b \<Rightarrow> Inr (b_size b))"

definition blob_Delete :: "string \<Rightarrow> db \<Rightarrow> db" where
  "blob_Delete h s = s\<lparr>blob_rows := filter (\<lambda>b. b_hash b \<noteq> h) (blob_rows s)\<rparr>"

section \<open>Retries are bounded\<close>

lemma retry_from_iff:
  "attempt \<le> 19 \<Longrightarrow> retry_from txs attempt \<longleftrightarrow>
     (\<exists>n. attempt \<le> n \<and> n < sqliteBusyRetryLimit \<and> txs n = TxOk \<and> (\<forall>i. attempt \<le> i \<longrightarrow> i < n \<longrightarrow> txs i = TxBusy))"
proof (induction txs attempt rule: retry_from.induct)
  case (1 txs attempt)
  show ?case
  proof (cases "txs attempt = TxOk")
    case True
    then show ?thesis using 1(2) by (auto simp: retry_from.simps [of txs attempt] sqliteBusyRetryLimit_def intro!: exI [of _ attempt])
  next
    case False
    show ?thesis
    proof (cases "shouldRetrySQLiteBusy (txs attempt) attempt")
      case True
      then have b: "txs attempt = TxBusy" "attempt + 1 \<le> 19" by (auto simp: shouldRetrySQLiteBusy_def sqliteBusyRetryLimit_def)
      have "retry_from txs attempt \<longleftrightarrow> retry_from txs (attempt + 1)" using False True by (subst retry_from.simps) simp
      also have "\<dots> \<longleftrightarrow> (\<exists>n. attempt + 1 \<le> n \<and> n < sqliteBusyRetryLimit \<and> txs n = TxOk \<and> (\<forall>i. attempt + 1 \<le> i \<longrightarrow> i < n \<longrightarrow> txs i = TxBusy))"
        by (rule 1(1) [OF False True b(2)])
      also have "\<dots> \<longleftrightarrow> (\<exists>n. attempt \<le> n \<and> n < sqliteBusyRetryLimit \<and> txs n = TxOk \<and> (\<forall>i. attempt \<le> i \<longrightarrow> i < n \<longrightarrow> txs i = TxBusy))"
        using b(1) False by (metis Suc_eq_plus1 le_antisym not_less_eq_eq Suc_leD)
      finally show ?thesis .
    next
      case nr: False
      then have "txs attempt = TxFail \<or> attempt = 19"
        using 1(2) False by (cases "txs attempt") (auto simp: shouldRetrySQLiteBusy_def sqliteBusyRetryLimit_def)
      moreover have "n = attempt" if "attempt = 19" "attempt \<le> n" "n < sqliteBusyRetryLimit" for n
        using that by (simp add: sqliteBusyRetryLimit_def)
      moreover have "\<not> retry_from txs attempt" using False nr by (subst retry_from.simps) simp
      ultimately show ?thesis using False by (metis le_eq_less_or_eq tx.distinct(5))
    qed
  qed
qed

end
