(* ===== verification/FeedlogProps.thy ===== *)
theory FeedlogProps
  imports Feedlog
begin

text \<open>
  What the feed database guarantees: every log is an append-only sequence, numbered from one
  (\<open>append_log\<close>, interpreted for the feeds and for the receive log); a stored message is read back with
  its metadata; no operation changes what can be read.
\<close>

section \<open>Append-only logs\<close>

text \<open>
  The abstract specification: each log is a list, an append that succeeds adds one entry at its end,
  and the entry with number \<open>n\<close> is the \<open>n\<close>-th of the list.
\<close>

locale append_log =
  fixes inv :: "'s \<Rightarrow> bool"
    and entries :: "'f \<Rightarrow> 's \<Rightarrow> 'm list"
    and ok :: "'x \<Rightarrow> bool"
    and stored :: "'f \<Rightarrow> nat \<Rightarrow> 'x \<Rightarrow> 'm"
    and add :: "'f \<Rightarrow> 'x \<Rightarrow> 's \<Rightarrow> 's"
    and get :: "'f \<Rightarrow> int \<Rightarrow> 's \<Rightarrow> 'm option"
  assumes add_inv: "inv s \<Longrightarrow> inv (add f x s)"
    and entries_add: "inv s \<Longrightarrow>
      entries g (add f x s) = entries g s @ (if g = f \<and> ok x then [stored f (length (entries f s)) x] else [])"
    and get_entries: "inv s \<Longrightarrow>
      get f n s = (if 1 \<le> n \<and> n \<le> int (length (entries f s)) then Some (entries f s ! (nat n - 1)) else None)"
begin

lemma get_added:
  assumes "inv s" and "ok x"
  shows "get f (int (length (entries f s)) + 1) (add f x s) = Some (stored f (length (entries f s)) x)"
  using assms by (simp add: get_entries add_inv entries_add nat_add_distrib)

lemma get_kept:
  assumes "inv s" and "inv s'" and "prefix (entries f s) (entries f s')" and "get f n s = Some m"
  shows "get f n s' = Some m"
proof -
  from assms(1,4) have n: "1 \<le> n" "n \<le> int (length (entries f s))" "m = entries f s ! (nat n - 1)"
    by (auto simp: get_entries split: if_splits)
  obtain zs where "entries f s' = entries f s @ zs" using assms(3) by (auto simp: prefix_def)
  moreover have "nat n - 1 < length (entries f s)" using n(1,2) by linarith
  ultimately show ?thesis using n assms(2) by (simp add: get_entries nth_append)
qed

lemma add_kept: "inv s \<Longrightarrow> prefix (entries g s) (entries g (add f x s))"
  by (simp add: entries_add)

lemma get_fresh: "inv s \<Longrightarrow> get f (int (length (entries f s)) + 1) s = None"
  by (simp add: get_entries)

end

section \<open>Trimming\<close>

lemma cut_first_prefix: "cut_first ws (t @ u) = None \<Longrightarrow> cut_first ws t = None"
  by (induction ws) (auto simp: HasPrefix_iff split: if_splits)

lemma TrimSpace_TrimSpace [simp]: "TrimSpace (TrimSpace s) = TrimSpace s"
proof -
  let ?u = "strip space_runes s" and ?r = "strip (map rev space_runes) (rev (strip space_runes s))"
  obtain p where "rev ?u = p @ ?r" using strip_suffix by blast
  then have "?u = rev ?r @ rev p" by (metis rev_append rev_rev_ident)
  moreover have "cut_first space_runes ?u = None" by simp
  ultimately have "cut_first space_runes (rev ?r) = None" by (metis cut_first_prefix)
  then have "strip space_runes (rev ?r) = rev ?r" by (rule strip_None)
  moreover have "strip (map rev space_runes) ?r = ?r" by (rule strip_None) simp
  ultimately show ?thesis by (simp add: TrimSpace_def)
qed

lemma blank_Nil [simp]: "blank []"
  by (simp add: blank_def)

lemma blank_TrimSpace [simp]: "blank (TrimSpace s) \<longleftrightarrow> blank s"
  by (simp add: blank_def)

lemma not_blank: "\<not> blank ''ed25519''" "\<not> blank ''sha256''" "\<not> blank ''validated''" "\<not> blank ''bendybutt-v1''"
  "\<not> blank ''gabbygrove-v1''" "\<not> blank ''bamboo''" "\<not> blank ''indexed-v1''"
  by code_simp+

section \<open>Metadata survives storage\<close>

lemma FeedFromString_cases: "FeedFromString s = [] \<or> feed_algo_known (FeedFromString s)"
  using ParseFeedRef_wf [of s] by (auto simp: FeedFromString_def FeedFromRef_def split: sum.splits)

lemma MessageFromString_cases: "MessageFromString s = [] \<or> msg_algo_known (MessageFromString s)"
  using ParseMessageRef_wf [of s] by (auto simp: MessageFromString_def MessageFromRef_def split: sum.splits)

lemma known_algo_not_blank: "feed_algo_known a \<Longrightarrow> \<not> blank a" "msg_algo_known a \<Longrightarrow> \<not> blank a"
  using not_blank by (auto simp: feed_algo_known_def msg_algo_known_def ref_algos)

lemma formats_not_blank:
  "FeedFromString s \<noteq> [] \<Longrightarrow> \<not> blank (FeedFromString s)" "MessageFromString s \<noteq> [] \<Longrightarrow> \<not> blank (MessageFromString s)"
  "MessageFromFeed f \<noteq> [] \<Longrightarrow> \<not> blank (MessageFromFeed f)"
  using FeedFromString_cases [of s] MessageFromString_cases [of s] known_algo_not_blank not_blank
  by (blast, blast, auto simp: MessageFromFeed_def split: if_splits)

lemma normal_formats: "\<not> blank (normal_feed_format md)" "\<not> blank (normal_message_format md)"
  using not_blank(1,2) formats_not_blank
  by (simp_all add: normal_feed_format_def normal_message_format_def Let_def)

text \<open>After normalising, every format field is set.\<close>

lemma normalize_fields:
  assumes md: "md = normalizeMetadata content metadata raw"
  shows "\<not> blank (FeedFormat md)" "\<not> blank (MessageFormat md)" "\<not> blank (ValidationStatus md)"
    and "blank (CanonicalRef md) \<Longrightarrow> CanonicalRef md = TrimSpace (Hash md)"
    and "raw \<Longrightarrow> RawValue md = [] \<Longrightarrow> content = []"
  unfolding md normalizeMetadata_def Let_def
  by (simp_all add: normal_formats not_blank(3) split: if_splits)

text \<open>What a normalised record looks like once it has been stored and read: its text columns are trimmed.\<close>

definition stored_view :: "Metadata \<Rightarrow> Metadata" where
  "stored_view md = md\<lparr>FeedFormat := TrimSpace (FeedFormat md), MessageFormat := TrimSpace (MessageFormat md),
     CanonicalRef := TrimSpace (CanonicalRef md), ValidationStatus := TrimSpace (ValidationStatus md)\<rparr>"

lemma normalize_keeps:
  "Author (normalizeMetadata c (Some md) raw) = Author md" "Sequence (normalizeMetadata c (Some md) raw) = Sequence md"
  "Previous (normalizeMetadata c (Some md) raw) = Previous md" "Timestamp (normalizeMetadata c (Some md) raw) = Timestamp md"
  "Sig (normalizeMetadata c (Some md) raw) = Sig md" "Hash (normalizeMetadata c (Some md) raw) = Hash md"
  "MTangleName (normalizeMetadata c (Some md) raw) = MTangleName md" "MRoot (normalizeMetadata c (Some md) raw) = MRoot md"
  "MParents (normalizeMetadata c (Some md) raw) = MParents md"
  "RawValue (normalizeMetadata c (Some md) raw) = (if raw \<and> RawValue md = [] \<and> c \<noteq> [] then c else RawValue md)"
  "CanonicalRef (normalizeMetadata c (Some md) raw) = (if blank (CanonicalRef md) then TrimSpace (Hash md) else CanonicalRef md)"
  by (simp_all add: normalizeMetadata_def Let_def)

lemma apply_fields:
  assumes "\<not> blank ff" "\<not> blank mf" "\<not> blank st"
  shows "applyStoredFormatFields md ff mf rv ref st =
     md\<lparr>FeedFormat := TrimSpace ff, MessageFormat := TrimSpace mf, RawValue := (if rv \<noteq> [] then rv else RawValue md),
        CanonicalRef := (if \<not> blank ref then TrimSpace ref else if blank (CanonicalRef md) then TrimSpace (Hash md) else CanonicalRef md),
        ValidationStatus := TrimSpace st\<rparr>"
  using assms by (simp add: applyStoredFormatFields_def Let_def)

lemma metadata_restored:
  assumes "md = normalizeMetadata content metadata raw"
  shows "applyStoredFormatFields (normalizeMetadata content (Some (metadataForValueJSON md)) raw)
      (FeedFormat md) (MessageFormat md) (RawValue md) (CanonicalRef md) (ValidationStatus md) = stored_view md"
proof -
  note nf = normalize_fields [OF assms]
  show ?thesis
    unfolding apply_fields [OF nf(1-3)]
    by (rule Metadata.equality)
      (use nf in \<open>auto simp: stored_view_def normalize_keeps metadataForValueJSON_def blank_def\<close>)
qed

section \<open>Invariant\<close>

definition numbered :: "msg_row list \<Rightarrow> bool" where
  "numbered rows \<longleftrightarrow> map m_seq rows = map int [1..<Suc (length rows)]"

definition feedlog_inv :: "db \<Rightarrow> bool" where
  "feedlog_inv s \<longleftrightarrow> (\<forall>i. numbered (rows_of i s)) \<and> numbered (receive_rows s) \<and>
     distinct (map f_addr (feed_rows s)) \<and> distinct (map f_id (feed_rows s)) \<and> (\<forall>r \<in> set (feed_rows s). f_id r < next_feed s) \<and>
     distinct (map (\<lambda>r. (t_key r, t_name r)) (member_rows s)) \<and> distinct (map b_hash (blob_rows s))"

definition empty_db :: db where
  "empty_db = \<lparr>feed_rows = [], next_feed = 1, msg_rows = [], key_idx = [], receive_rows = [], member_rows = [], next_member = 1,
     blob_rows = [], blob_files = []\<rparr>"

lemma numbered_max:
  assumes "numbered rows"
  shows "max_seq rows = (if rows = [] then None else Some (int (length rows)))"
proof (cases rows rule: rev_cases)
  case Nil
  then show ?thesis by (simp add: max_seq_def)
next
  case (snoc rs r)
  have "foldl max n (ns :: int list) = Max (set (n # ns))" for n ns
  proof (induction ns arbitrary: n)
    case (Cons a ns)
    then show ?case by (cases "set ns = {}") (simp_all add: max.assoc)
  qed simp
  moreover have "max_seq rows = (case map int [1..<Suc (length rows)] of [] \<Rightarrow> None | n # ns \<Rightarrow> Some (foldl max n ns))"
    using assms by (simp add: max_seq_def numbered_def)
  moreover have "map int [1..<Suc (length rows)] = int 1 # map int [2..<Suc (length rows)]"
    using snoc by (simp add: upt_conv_Cons numeral_2_eq_2 del: upt_Suc)
  moreover have "Max (set (map int [1..<Suc (length rows)])) = int (length rows)"
    using snoc by (intro Max_eqI) auto
  ultimately show ?thesis using snoc by simp
qed

lemma numbered_next: "numbered rows \<Longrightarrow> next_seq rows = int (length rows) + 1"
  by (simp add: next_seq_def numbered_max)

lemma numbered_snoc: "numbered rows \<Longrightarrow> m_seq r = int (length rows) + 1 \<Longrightarrow> numbered (rows @ [r])"
  by (simp add: numbered_def)

lemma numbered_nth: "numbered rows \<Longrightarrow> k < length rows \<Longrightarrow> m_seq (rows ! k) = int k + 1"
  using nth_map [of k rows m_seq] nth_map [of k "[1..<Suc (length rows)]" int]
  by (simp add: numbered_def del: upt_Suc)

lemma find_numbered:
  assumes "numbered rows"
  shows "find (\<lambda>r. m_seq r = n) rows = (if 1 \<le> n \<and> n \<le> int (length rows) then Some (rows ! (nat n - 1)) else None)"
proof (cases "1 \<le> n \<and> n \<le> int (length rows)")
  case True
  then have k: "nat n - 1 < length rows" by linarith
  have "m_seq (rows ! (nat n - 1)) = n" using numbered_nth [OF assms k] True by linarith
  moreover have "m_seq (rows ! j) \<noteq> n" if "j < nat n - 1" for j using numbered_nth [OF assms, of j] that k by simp
  ultimately show ?thesis using True k by (auto simp: find_Some_iff)
next
  case False
  have "m_seq r \<noteq> n" if r: "r \<in> set rows" for r
  proof -
    obtain k where "k < length rows" "r = rows ! k" using r by (auto simp: in_set_conv_nth)
    with numbered_nth [OF assms] False show ?thesis by auto
  qed
  with False show ?thesis by (auto simp: find_None_iff)
qed

lemma find_filter: "find P (filter Q xs) = find (\<lambda>x. Q x \<and> P x) xs"
  by (induction xs) auto

section \<open>Operations\<close>

type_synonym append_args = "env \<times> (nat \<Rightarrow> tx) \<times> string \<times> Metadata option"

definition append_ok :: "append_args \<Rightarrow> bool" where
  "append_ok x = (case x of (e, txs, content, metadata) \<Rightarrow>
     retry_from txs 0 \<and> marshal e (content, metadataForValueJSON (normalizeMetadata content metadata False)) \<noteq> None)"

definition append_row :: "int \<Rightarrow> nat \<Rightarrow> append_args \<Rightarrow> msg_row" where
  "append_row i n x = (case x of (e, txs, content, metadata) \<Rightarrow>
     (let md = normalizeMetadata content metadata False
      in new_row e i (int n + 1) (the (marshal e (content, metadataForValueJSON md))) md))"

definition append_db :: "int \<Rightarrow> append_args \<Rightarrow> db \<Rightarrow> db" where
  "append_db i x s = (case x of (e, txs, content, metadata) \<Rightarrow> snd (log_Append e txs i content metadata s))"

definition find_row :: "int \<Rightarrow> int \<Rightarrow> db \<Rightarrow> msg_row option" where
  "find_row i n s = find (\<lambda>r. m_feed r = i \<and> m_seq r = n) (msg_rows s)"

lemma rows_of_snoc: "rows_of i (s\<lparr>msg_rows := msg_rows s @ [r]\<rparr>) = rows_of i s @ (if m_feed r = i then [r] else [])"
  by (simp add: rows_of_def)

lemma log_Append_rows:
  assumes "feedlog_inv s"
  shows "msg_rows (append_db i x s) = msg_rows s @ (if append_ok x then [append_row i (length (rows_of i s)) x] else [])"
    and "receive_rows (append_db i x s) = receive_rows s" and "feed_rows (append_db i x s) = feed_rows s"
    and "next_feed (append_db i x s) = next_feed s" and "blob_rows (append_db i x s) = blob_rows s"
proof -
  have n: "next_seq (rows_of i s) = int (length (rows_of i s)) + 1" using assms by (simp add: feedlog_inv_def numbered_next)
  show "msg_rows (append_db i x s) = msg_rows s @ (if append_ok x then [append_row i (length (rows_of i s)) x] else [])"
    by (auto simp: append_db_def append_ok_def append_row_def log_Append_def Let_def tangle_AddMessage_def n split: prod.splits option.splits)
  show "receive_rows (append_db i x s) = receive_rows s" "feed_rows (append_db i x s) = feed_rows s"
    "next_feed (append_db i x s) = next_feed s" "blob_rows (append_db i x s) = blob_rows s"
    by (auto simp: append_db_def log_Append_def Let_def tangle_AddMessage_def split: prod.splits option.splits)
qed

lemma distinct_replace:
  "distinct (map f xs) \<Longrightarrow> f y = k \<Longrightarrow> distinct (map f (filter (\<lambda>x. f x \<noteq> k) xs @ [y]))"
  by (auto simp: distinct_map_filter)

lemma members_distinct:
  assumes "distinct (map (\<lambda>r. (t_key r, t_name r)) (member_rows s))"
  shows "distinct (map (\<lambda>r. (t_key r, t_name r)) (member_rows (tangle_AddMessage e k n rt ps s)))"
  using distinct_replace [OF assms, of "\<lparr>t_id = next_member s, t_key = k, t_name = n, t_root = rt, t_parents = marshal_strings e ps, t_created = now e\<rparr>" "(k, n)"]
  by (simp add: tangle_AddMessage_def)

lemma append_members:
  "distinct (map (\<lambda>r. (t_key r, t_name r)) (member_rows s)) \<Longrightarrow>
   distinct (map (\<lambda>r. (t_key r, t_name r)) (member_rows (append_db i x s)))"
  by (auto simp: append_db_def log_Append_def Let_def intro!: members_distinct split: prod.splits option.splits)

lemma m_append_row [simp]: "m_feed (append_row i n x) = i" "m_seq (append_row i n x) = int n + 1"
  by (simp_all add: append_row_def new_row_def Let_def split: prod.splits)

lemma append_inv:
  assumes "feedlog_inv s"
  shows "feedlog_inv (append_db i x s)"
proof -
  have "numbered (rows_of j (append_db i x s))" for j
    using assms log_Append_rows(1) [OF assms, of i x]
    by (cases "j = i") (auto simp: rows_of_def feedlog_inv_def intro: numbered_snoc)
  with assms append_members [of s i x] log_Append_rows(2-5) [OF assms, of i x] show ?thesis by (simp add: feedlog_inv_def)
qed

interpretation fl: append_log feedlog_inv rows_of append_ok append_row append_db find_row
proof
  show "feedlog_inv (append_db i x s)" if "feedlog_inv s" for s i x using that by (rule append_inv)
  show "rows_of g (append_db i x s) = rows_of g s @ (if g = i \<and> append_ok x then [append_row i (length (rows_of i s)) x] else [])"
    if "feedlog_inv s" for s g i x
    using log_Append_rows(1) [OF that, of i x] by (auto simp: rows_of_def)
  show "find_row i n s = (if 1 \<le> n \<and> n \<le> int (length (rows_of i s)) then Some (rows_of i s ! (nat n - 1)) else None)"
    if "feedlog_inv s" for s i n
    using that find_numbered [of "rows_of i s" n] find_filter [of "\<lambda>r. m_seq r = n" "\<lambda>r. m_feed r = i" "msg_rows s"]
    by (simp add: feedlog_inv_def find_row_def rows_of_def)
qed

type_synonym receive_args = "env \<times> (nat \<Rightarrow> tx) \<times> (string \<Rightarrow> Metadata \<Rightarrow> bool) option \<times> string \<times> Metadata option"

definition receive_ok :: "receive_args \<Rightarrow> bool" where
  "receive_ok x = (case x of (e, txs, verifier, content, metadata) \<Rightarrow>
     (let md = normalizeMetadata content metadata True
      in (\<forall>v. verifier = Some v \<longrightarrow> MessageFormat md = ''sha256'' \<longrightarrow> v content md) \<and> retry_from txs 0 \<and>
         marshal e (content, metadataForValueJSON md) \<noteq> None))"

definition receive_row :: "unit \<Rightarrow> nat \<Rightarrow> receive_args \<Rightarrow> msg_row" where
  "receive_row u n x = (case x of (e, txs, verifier, content, metadata) \<Rightarrow>
     (let md = normalizeMetadata content metadata True
      in new_row e 0 (int n + 1) (the (marshal e (content, metadataForValueJSON md))) md))"

definition receive_db :: "unit \<Rightarrow> receive_args \<Rightarrow> db \<Rightarrow> db" where
  "receive_db u x s = (case x of (e, txs, verifier, content, metadata) \<Rightarrow> snd (receive_Append e txs verifier content metadata s))"

definition find_received :: "unit \<Rightarrow> int \<Rightarrow> db \<Rightarrow> msg_row option" where
  "find_received u n s = find (\<lambda>r. m_seq r = n) (receive_rows s)"

lemma receive_db_rows:
  assumes "feedlog_inv s"
  shows "receive_db u x s = (if receive_ok x then s\<lparr>receive_rows := receive_rows s @ [receive_row u (length (receive_rows s)) x]\<rparr> else s)"
proof -
  have n: "next_seq (receive_rows s) = int (length (receive_rows s)) + 1" using assms by (simp add: feedlog_inv_def numbered_next)
  show ?thesis
    by (auto simp: receive_db_def receive_ok_def receive_row_def receive_Append_def Let_def n split: prod.splits option.splits)
qed

lemma rows_of_receive [simp]: "rows_of i (s\<lparr>receive_rows := r\<rparr>) = rows_of i s"
  by (simp add: rows_of_def)

lemma receive_inv: "feedlog_inv s \<Longrightarrow> feedlog_inv (receive_db u x s)"
  by (auto simp: receive_db_rows feedlog_inv_def receive_row_def new_row_def Let_def intro!: numbered_snoc split: prod.splits)

interpretation rl: append_log feedlog_inv "\<lambda>_. receive_rows" receive_ok receive_row receive_db find_received
proof
  show "feedlog_inv (receive_db u x s)" if "feedlog_inv s" for s u x using that by (rule receive_inv)
  show "receive_rows (receive_db f x s) = receive_rows s @ (if g = f \<and> receive_ok x then [receive_row f (length (receive_rows s)) x] else [])"
    if "feedlog_inv s" for s x and g f :: unit
    using that by (simp add: receive_db_rows)
  show "find_received u n s = (if 1 \<le> n \<and> n \<le> int (length (receive_rows s)) then Some (receive_rows s ! (nat n - 1)) else None)"
    if "feedlog_inv s" for s u n
    using that find_numbered [of "receive_rows s" n] by (simp add: feedlog_inv_def find_received_def)
qed

section \<open>The database as a machine\<close>

datatype feedlog_op =
    OpCreate env "nat \<Rightarrow> tx" string
  | OpAppend int append_args
  | OpReceive receive_args
  | OpTangle env string string string "string list"
  | OpPut env bool string
  | OpDelete string

fun feedlog_step :: "db \<Rightarrow> feedlog_op \<Rightarrow> db" where
  "feedlog_step s (OpCreate e txs addr) = snd (multiLog_Create e txs addr s)"
| "feedlog_step s (OpAppend i x) = append_db i x s"
| "feedlog_step s (OpReceive x) = receive_db () x s"
| "feedlog_step s (OpTangle e k n r ps) = tangle_AddMessage e k n r ps s"
| "feedlog_step s (OpPut e dir c) = snd (blob_Put e dir c s)"
| "feedlog_step s (OpDelete h) = blob_Delete h s"

lemma feed_id_of_None: "feed_id_of s addr = None \<longleftrightarrow> addr \<notin> set (map f_addr (feed_rows s))"
  by (auto simp: feed_id_of_def find_None_iff)

lemma insert_feed_inv: "feedlog_inv s \<Longrightarrow> feedlog_inv (insert_feed e addr s)"
  by (auto simp: insert_feed_def feedlog_inv_def rows_of_def feed_id_of_None)

lemma create_cases: "snd (multiLog_Create e txs addr s) = s \<or> snd (multiLog_Create e txs addr s) = insert_feed e addr s"
  by (simp add: multiLog_Create_def Let_def split: option.splits)

lemma feedlog_step_inv: "feedlog_inv s \<Longrightarrow> feedlog_inv (feedlog_step s opr)"
proof (cases opr)
  case (OpCreate e txs addr)
  then show "feedlog_inv s \<Longrightarrow> ?thesis" using create_cases [of e txs addr s] insert_feed_inv by fastforce
next
  case (OpTangle e k n r ps)
  then show "feedlog_inv s \<Longrightarrow> ?thesis" using members_distinct [of s e k n r ps]
    by (simp add: feedlog_inv_def) (simp add: tangle_AddMessage_def rows_of_def)
next
  case (OpPut e dir c)
  then show "feedlog_inv s \<Longrightarrow> ?thesis"
    by (auto simp: feedlog_inv_def blob_Put_def Let_def rows_of_def distinct_map_filter)
next
  case (OpDelete h)
  then show "feedlog_inv s \<Longrightarrow> ?thesis"
    by (auto simp: feedlog_inv_def blob_Delete_def rows_of_def distinct_map_filter)
qed (simp_all add: append_inv receive_inv)

lemma empty_db_inv: "feedlog_inv empty_db"
  by (simp add: feedlog_inv_def empty_db_def numbered_def rows_of_def)

interpretation fm: invariant_machine empty_db feedlog_step feedlog_inv
  by unfold_locales (rule empty_db_inv, rule feedlog_step_inv)

text \<open>No operation removes or changes an entry of a log.\<close>

lemma feedlog_step_kept:
  assumes "feedlog_inv s"
  shows "prefix (rows_of i s) (rows_of i (feedlog_step s opr)) \<and> prefix (receive_rows s) (receive_rows (feedlog_step s opr))"
proof (cases opr)
  case (OpCreate e txs addr)
  then show ?thesis using create_cases [of e txs addr s] by (auto simp: insert_feed_def rows_of_def)
next
  case (OpAppend j x)
  then show ?thesis using fl.add_kept [OF assms, of i j x] log_Append_rows(2) [OF assms] by simp
next
  case (OpReceive x)
  then show ?thesis using receive_db_rows [OF assms, of "()" x] by simp
qed (auto simp: tangle_AddMessage_def blob_Put_def blob_Delete_def rows_of_def Let_def)

lemma feedlog_run_kept:
  "feedlog_inv s \<Longrightarrow> prefix (rows_of i s) (rows_of i (foldl feedlog_step s ops)) \<and> prefix (receive_rows s) (receive_rows (foldl feedlog_step s ops))"
proof (induction ops arbitrary: s)
  case (Cons opr ops)
  from Cons.IH [OF feedlog_step_inv [OF Cons.prems]] feedlog_step_kept [OF Cons.prems, of i opr] show ?case
    by (auto intro: prefix_order.trans)
qed simp

section \<open>Properties\<close>

text \<open>\<open>encoding/json\<close> reads back the wrapper it wrote (which holds for metadata whose strings are UTF-8).\<close>

definition json_reads :: "env \<Rightarrow> bool" where
  "json_reads e \<longleftrightarrow> (\<forall>c md data. marshal e (c, md) = Some data \<longrightarrow> unmarshal e data = Some (c, Some md))"

lemma read_new_row:
  assumes "json_reads e" and "md = normalizeMetadata content metadata raw" and "marshal e (content, metadataForValueJSON md) = Some data"
  shows "\<exists>m. read_row e raw (new_row e i n data md) = Inr m \<and> SValue m = content \<and> SMetadata m = stored_view md \<and>
    (CanonicalRef md \<noteq> [] \<longrightarrow> SKey m = CanonicalRef md)"
proof -
  have "unmarshal e data = Some (content, Some (metadataForValueJSON md))" using assms(1,3) by (simp add: json_reads_def)
  then show ?thesis using metadata_restored [OF assms(2)] by (simp add: read_row_def new_row_def Let_def)
qed

lemma append_refines:
  assumes "feedlog_inv s"
  shows "case log_Append e txs i content metadata s of
      (Inr n, s') \<Rightarrow> n = int (length (rows_of i s)) + 1 \<and> log_Seq i s' = n \<and>
        (\<exists>r. rows_of i s' = rows_of i s @ [r] \<and> log_Get e i n s' = read_row e False r) \<and> (\<forall>j. j \<noteq> i \<longrightarrow> rows_of j s' = rows_of j s)
    | (Inl _, s') \<Rightarrow> s' = s"
proof (cases "log_Append e txs i content metadata s")
  case (Pair r s')
  let ?x = "(e, txs, content, metadata)"
  have s': "s' = append_db i ?x s" using Pair by (simp add: append_db_def)
  show ?thesis
  proof (cases r)
    case (Inl err)
    with Pair show ?thesis by (auto simp: log_Append_def Let_def split: option.splits if_splits)
  next
    case (Inr n)
    with Pair have ok: "append_ok ?x" and "n = next_seq (rows_of i s)"
      by (auto simp: log_Append_def append_ok_def Let_def split: option.splits if_splits)
    then have n: "n = int (length (rows_of i s)) + 1" using assms by (simp add: feedlog_inv_def numbered_next)
    let ?r = "append_row i (length (rows_of i s)) ?x"
    have rows: "rows_of j s' = rows_of j s @ (if j = i then [?r] else [])" for j
      using fl.entries_add [OF assms, of j i ?x] ok s' by simp
    have "find_row i n s' = Some ?r" using fl.get_added [OF assms ok] n s' by simp
    then have "log_Get e i n s' = read_row e False ?r" by (simp add: log_Get_def find_row_def)
    moreover have "log_Seq i s' = n"
    proof -
      have "numbered (rows_of i s')" using append_inv [OF assms] s' by (simp add: feedlog_inv_def)
      with rows [of i] n show ?thesis by (simp add: log_Seq_def numbered_max)
    qed
    ultimately show ?thesis using Inr Pair n rows by simp
  qed
qed

lemma get_append:
  assumes "feedlog_inv s" and "json_reads e" and "log_Append e txs i content metadata s = (Inr n, s')"
  shows "\<exists>m. log_Get e i n s' = Inr m \<and> SValue m = content \<and> SMetadata m = stored_view (normalizeMetadata content metadata False)"
proof -
  let ?md = "normalizeMetadata content metadata False" and ?x = "(e, txs, content, metadata)"
  from assms(3) obtain data where d: "marshal e (content, metadataForValueJSON ?md) = Some data" and ok: "append_ok ?x"
    and "n = next_seq (rows_of i s)"
    by (auto simp: log_Append_def append_ok_def Let_def split: option.splits if_splits)
  then have n: "n = int (length (rows_of i s)) + 1" using assms(1) by (simp add: feedlog_inv_def numbered_next)
  have "s' = append_db i ?x s" using assms(3) by (simp add: append_db_def)
  with fl.get_added [OF assms(1) ok, of i] n have "find_row i n s' = Some (append_row i (length (rows_of i s)) ?x)" by simp
  moreover have "append_row i (length (rows_of i s)) ?x = new_row e i n data ?md" using d n by (simp add: append_row_def Let_def)
  ultimately have "log_Get e i n s' = read_row e False (new_row e i n data ?md)" by (simp add: log_Get_def find_row_def)
  with read_new_row [OF assms(2) refl d, of i n] show ?thesis by metis
qed

text \<open>C16: The log of a feed refines a list: an append that succeeds returns the length of the feed's list plus one and adds one entry
  at its end, leaves every other feed alone, and a failed append leaves all of them alone.\<close>
theorem feedlog_append_refines:
  assumes "feedlog_inv s"
  shows "case log_Append e txs i content metadata s of
      (Inr n, s') \<Rightarrow> n = int (length (rows_of i s)) + 1 \<and> log_Seq i s' = n \<and>
        (\<exists>r. rows_of i s' = rows_of i s @ [r] \<and> log_Get e i n s' = read_row e False r) \<and> (\<forall>j. j \<noteq> i \<longrightarrow> rows_of j s' = rows_of j s)
    | (Inl _, s') \<Rightarrow> s' = s"
  by (rule append_refines [OF assms])

text \<open>A message appended to a feed is read back with its content and its metadata: every field as given, blank format fields
  filled in, and the stored text columns trimmed.\<close>
theorem feedlog_get_append:
  assumes "feedlog_inv s" and "json_reads e" and "log_Append e txs i content metadata s = (Inr n, s')"
  shows "\<exists>m. log_Get e i n s' = Inr m \<and> SValue m = content \<and> SMetadata m = stored_view (normalizeMetadata content metadata False)"
  by (rule get_append [OF assms])

text \<open>C17: The feed database is append-only: what can be read at a sequence number of a feed is the same after any further operations
  on any of the tables.\<close>
theorem feedlog_append_only:
  assumes "log_Get e i n (foldl feedlog_step empty_db ops) = Inr m"
  shows "log_Get e i n (foldl feedlog_step (foldl feedlog_step empty_db ops) later) = Inr m"
proof -
  let ?s = "foldl feedlog_step empty_db ops"
  have inv: "feedlog_inv ?s" by (rule fm.run_start)
  from assms obtain r where r: "find_row i n ?s = Some r" "read_row e False r = Inr m"
    by (auto simp: log_Get_def find_row_def split: option.splits)
  have "find_row i n (foldl feedlog_step ?s later) = Some r"
    using fl.get_kept [OF inv fm.run_inv [OF inv] _ r(1)] feedlog_run_kept [OF inv] by blast
  with r(2) show ?thesis by (simp add: log_Get_def find_row_def)
qed

text \<open>With a signature verifier set, a classic message enters the receive log only if the verifier accepts its content with its
  normalised metadata; a rejected message changes nothing.\<close>
theorem receive_log_verified:
  "case receive_Append e txs (Some v) content metadata s of
     (Inr n, s') \<Rightarrow> MessageFormat (normalizeMetadata content metadata True) \<noteq> ''sha256'' \<or> v content (normalizeMetadata content metadata True)
   | (Inl _, s') \<Rightarrow> s' = s"
  by (auto simp: receive_Append_def Let_def split: option.splits)

text \<open>A database operation is repeated only while the database is busy and at most twenty times: it succeeds exactly when
  one of the first twenty attempts succeeds and all before it found the database busy.\<close>
theorem busy_retries_bounded:
  "retry_from txs 0 \<longleftrightarrow> (\<exists>n < 20. txs n = TxOk \<and> (\<forall>i < n. txs i = TxBusy))"
  using retry_from_iff [of 0 txs] by (auto simp: sqliteBusyRetryLimit_def)

text \<open>A blob put into a store with a directory is found, has the size of its content, and is read back, whole or by range,
  until it is deleted, after which it is not found.\<close>
theorem blob_put_get:
  assumes "blob_Put e True c s = (h, s')"
  shows "blob_Get True h s' = Inr c \<and> blob_Size h s' = Inr (length c) \<and> blob_Has h s' \<and>
    blob_GetRange True h a n s' = Inr (take n (drop a c)) \<and> blob_Get True h (blob_Delete h s') = Inl ErrNotFound"
proof -
  have f: "find (\<lambda>r. b_hash r = k) (filter (\<lambda>b. b_hash b \<noteq> k) rows @ [\<lparr>b_hash = k, b_size = z, b_created = t\<rparr>]) =
      Some \<lparr>b_hash = k, b_size = z, b_created = t\<rparr>" for k rows z t
    by (induction rows) auto
  have g: "find (\<lambda>r. b_hash r = k) (filter (\<lambda>b. b_hash b \<noteq> k) rows) = None" for k rows
    by (auto simp: find_None_iff)
  have s': "h = sha e c" "blob_files s' = gput h c (blob_files s)"
    "blob_rows s' = filter (\<lambda>b. b_hash b \<noteq> h) (blob_rows s) @ [\<lparr>b_hash = h, b_size = length c, b_created = now e\<rparr>]"
    using assms by (auto simp: blob_Put_def Let_def)
  then have "blob_find h s' = Some \<lparr>b_hash = h, b_size = length c, b_created = now e\<rparr>" by (simp only: blob_find_def f)
  moreover have "blob_find h (blob_Delete h s') = None" by (simp add: blob_find_def blob_Delete_def g)
  ultimately show ?thesis using s'(2) by (simp add: blob_Get_def blob_Size_def blob_Has_def blob_GetRange_def gm_simps)
qed

text \<open>
  The tangle table is keyed by the hash of the stored row, while a message names its parents by
  their message references: a parent is never found among the keys of its tangle unless the two
  happen to be equal.
\<close>

lemma append_tangle_key:
  assumes "log_Append e txs i content metadata s = (Inr n, s')" and "MTangleName (normalizeMetadata content metadata False) \<noteq> []"
  shows "\<exists>data. t_key (last (member_rows s')) = sha_hex e data"
  using assms by (auto simp: log_Append_def Let_def tangle_AddMessage_def new_row_def split: option.splits if_splits)

definition toy_md :: Metadata where
  "toy_md = zero_Metadata\<lparr>Author := ''me'', Sequence := 1, Hash := '' h '', MTangleName := ''post'', MRoot := ''r'', MParents := [''p'']\<rparr>"

definition toy_env :: env where
  "toy_env = \<lparr>marshal = (\<lambda>(c, md). if (c, md) = (''hi'', toy_md) then Some ''x'' else None),
     unmarshal = (\<lambda>d. if d = ''x'' then Some (''hi'', Some toy_md) else None), marshal_strings = concat, unmarshal_strings = (\<lambda>s. [s]),
     sha = (\<lambda>s. s), sha_hex = (\<lambda>s. s), now = 5\<rparr>"

definition toy_op :: feedlog_op where
  "toy_op = OpAppend 1 (toy_env, \<lambda>n. if n < 3 then TxBusy else TxOk, ''hi'', Some toy_md)"

lemma toy_json: "json_reads toy_env"
  by (simp add: json_reads_def toy_env_def)

lemma toy_retry: "retry_from (\<lambda>n. if n < 3 then TxBusy else TxOk) 0"
  by (subst retry_from_iff) (auto simp: sqliteBusyRetryLimit_def intro!: exI [of _ 3])

lemma toy_append: "\<exists>s'. log_Append toy_env (\<lambda>n. if n < 3 then TxBusy else TxOk) 1 ''hi'' (Some toy_md) empty_db = (Inr 1, s')"
proof -
  have "metadataForValueJSON (normalizeMetadata ''hi'' (Some toy_md) False) = toy_md"
    by (simp add: metadataForValueJSON_def normalizeMetadata_def Let_def toy_md_def zero_Metadata_def)
  then show ?thesis
    by (simp add: log_Append_def Let_def toy_retry toy_env_def empty_db_def rows_of_def next_seq_def max_seq_def)
qed

theorem feedlog_append_refines_witness:
  "feedlog_inv empty_db \<and> (case log_Append toy_env (\<lambda>n. if n < 3 then TxBusy else TxOk) 1 ''hi'' (Some toy_md) empty_db of
     (Inr n, s') \<Rightarrow> n = 1 \<and> log_Seq 1 s' = 1 | (Inl _, s') \<Rightarrow> False)"
  using feedlog_append_refines [OF empty_db_inv, where e = toy_env and txs = "\<lambda>n. if n < 3 then TxBusy else TxOk" and i = 1
      and content = "''hi''" and metadata = "Some toy_md"]
    toy_append empty_db_inv by (auto simp: empty_db_def rows_of_def)

theorem feedlog_get_append_witness:
  "\<exists>n s' m. log_Append toy_env (\<lambda>n. if n < 3 then TxBusy else TxOk) 1 ''hi'' (Some toy_md) empty_db = (Inr n, s') \<and>
     log_Get toy_env 1 n s' = Inr m \<and> SValue m = ''hi'' \<and> SMetadata m = stored_view (normalizeMetadata ''hi'' (Some toy_md) False)"
  using toy_append feedlog_get_append [OF empty_db_inv toy_json] by blast

theorem feedlog_append_only_witness:
  "\<exists>m. log_Get toy_env 1 1 (foldl feedlog_step empty_db [toy_op]) = Inr m \<and>
     log_Get toy_env 1 1 (foldl feedlog_step (foldl feedlog_step empty_db [toy_op]) [toy_op, OpDelete ''x'']) = Inr m"
proof -
  obtain s' where s': "log_Append toy_env (\<lambda>n. if n < 3 then TxBusy else TxOk) 1 ''hi'' (Some toy_md) empty_db = (Inr 1, s')"
    using toy_append by blast
  from get_append [OF empty_db_inv toy_json this] obtain m where "log_Get toy_env 1 1 s' = Inr m" by blast
  moreover have "foldl feedlog_step empty_db [toy_op] = s'" using s' by (simp add: toy_op_def append_db_def)
  ultimately have m: "log_Get toy_env 1 1 (foldl feedlog_step empty_db [toy_op]) = Inr m" by simp
  with feedlog_append_only [OF m, of "[toy_op, OpDelete ''x'']"] show ?thesis by blast
qed

theorem blob_put_get_witness:
  "blob_Get True ''abc'' (snd (blob_Put toy_env True ''abc'' empty_db)) = Inr ''abc''"
  using blob_put_get [of toy_env "''abc''" empty_db "''abc''" "snd (blob_Put toy_env True ''abc'' empty_db)" 0 0]
  by (simp add: blob_Put_def Let_def toy_env_def)

theorem busy_retries_bounded_witness: "retry_from (\<lambda>n. if n < 19 then TxBusy else TxOk) 0 \<and> \<not> retry_from (\<lambda>n. if n < 20 then TxBusy else TxOk) 0"
  using busy_retries_bounded [of "\<lambda>n. if n < 19 then TxBusy else TxOk"] busy_retries_bounded [of "\<lambda>n. if n < 20 then TxBusy else TxOk"]
  by (auto intro!: exI [of _ 19])

end
