(* ===== verification/Replication.thy ===== *)
theory Replication
  imports FeedlogProps Legacy Bendy
begin

text \<open>
  The code that puts signed messages into the feed database and takes them out again:
  \<open>internal/ssb/sbot/feed_manager_adapter.go\<close> and \<open>feed_replicator.go\<close> (messages received from peers),
  \<open>internal/ssb/publisher/publisher.go\<close> (messages of the bridge's own feeds),
  \<open>internal/ssb/feedlog/classic_raw.go\<close>, and the default signature verifier of \<open>feedlog.go\<close>. \<open>decode\<close> is \<open>json.Unmarshal\<close> into an interface, giving the text
  itself as a Go string when it is no JSON, and \<open>marsh\<close> is \<open>json.Marshal\<close> of such a value; the
  signature scheme is an argument, the hash comes from the environment of the database.
\<close>

section \<open>Environment\<close>

text \<open>What happens to the database calls of one operation: the attempts of each transaction, and whether reading the number works.\<close>

record io =
  io_get :: "nat \<Rightarrow> tx"
  io_create :: "nat \<Rightarrow> tx"
  io_seq :: bool
  io_append :: "nat \<Rightarrow> tx"
  io_receive :: "nat \<Rightarrow> tx"

type_synonym verifier = "string \<Rightarrow> Metadata \<Rightarrow> bool"
type_synonym ed_verify = "string \<Rightarrow> string \<Rightarrow> string \<Rightarrow> bool"

definition open_log :: "env \<Rightarrow> io \<Rightarrow> string \<Rightarrow> db \<Rightarrow> (feedlog_error + int) \<times> db" where
  "open_log e io addr s =
     (case multiLog_Get (io_get io) s addr of
        Inl ErrNotFound \<Rightarrow> multiLog_Create e (io_create io) addr s
      | r \<Rightarrow> (r, s))"

section \<open>The default signature verifier\<close>

datatype verify_error =
    MissingMetadata | MissingSignature | BadSignatureLength | VParse legacy_error | VExtract legacy_error | VSignature legacy_error
  | VRef legacy_error | AuthorMismatch | SequenceMismatch | WireMismatch | SignatureMismatch | RefMismatch

definition DefaultSignatureVerifier_Verify ::
  "(string \<Rightarrow> 'c) \<Rightarrow> ed_verify \<Rightarrow> (string \<Rightarrow> string) \<Rightarrow> string \<Rightarrow> Metadata option \<Rightarrow> verify_error option" where
  "DefaultSignatureVerifier_Verify decode verify sh content metadata =
     (case metadata of None \<Rightarrow> Some MissingMetadata
      | Some md \<Rightarrow>
        if Sig md = [] then Some MissingSignature
        else if length (Sig md) \<noteq> 64 then Some BadSignatureLength
        else case ParseSignedMessageJSON decode content of Inl e \<Rightarrow> Some (VParse e)
        | Inr (msg, _) \<Rightarrow>
          (case ExtractSignature content of Inl e \<Rightarrow> Some (VExtract e)
           | Inr (signable, sigFromWire) \<Rightarrow>
             (case Signature_Verify verify sigFromWire signable (LegacyMessage.Author msg) of Some e \<Rightarrow> Some (VSignature e)
              | None \<Rightarrow>
                (case SignedMessageRefFromJSON sh content of Inl e \<Rightarrow> Some (VRef e)
                 | Inr msgRef \<Rightarrow>
                   if Metadata.Author md \<noteq> [] \<and> Metadata.Author md \<noteq> FeedRef_String (LegacyMessage.Author msg) then Some AuthorMismatch
                   else if Metadata.Sequence md \<noteq> 0 \<and> Metadata.Sequence md \<noteq> LegacyMessage.Sequence msg then Some SequenceMismatch
                   else if sigFromWire \<noteq> SignedMessage.Signature msg then Some WireMismatch
                   else if Sig md \<noteq> sigFromWire then Some SignatureMismatch
                   else if Metadata.Hash md \<noteq> [] \<and> Metadata.Hash md \<noteq> MessageRef_String msgRef then Some RefMismatch
                   else None))))"

definition default_verifier :: "(string \<Rightarrow> 'c) \<Rightarrow> ed_verify \<Rightarrow> (string \<Rightarrow> string) \<Rightarrow> verifier" where
  "default_verifier decode verify sh content md \<longleftrightarrow> DefaultSignatureVerifier_Verify decode verify sh content (Some md) = None"

section \<open>Classic messages from stored rows\<close>

datatype raw_error =
    NilMessage | UnsupportedFormat UnsupportedFormatError | RawNoSignature | RawBadAuthor ref_error | RawNoAuthor | RawNoSequence
  | RawBadPrevious ref_error | RawMarshal

definition resolveClassicAuthor :: "string \<Rightarrow> FeedRef option \<Rightarrow> raw_error + FeedRef" where
  "resolveClassicAuthor author fallback =
     (let author = TrimSpace author
      in if author \<noteq> [] then (case ParseFeedRef author of Inl e \<Rightarrow> Inl (RawBadAuthor e) | Inr parsed \<Rightarrow> Inr parsed)
         else case fallback of None \<Rightarrow> Inl RawNoAuthor | Some f \<Rightarrow> Inr f)"

definition ClassicSignedMessageRaw ::
  "(string \<Rightarrow> 'c) \<Rightarrow> ('c \<Rightarrow> string option) \<Rightarrow> StoredMessage option \<Rightarrow> FeedRef option \<Rightarrow> int \<Rightarrow> raw_error + string" where
  "ClassicSignedMessageRaw decode marsh msg fallbackAuthor fallbackSeq =
     (case msg of None \<Rightarrow> Inl NilMessage
      | Some msg \<Rightarrow>
        (let msgFormat = TrimSpace (SMessageFormat msg); md = SMetadata msg
         in if msgFormat \<noteq> [] \<and> msgFormat \<noteq> ''sha256'' then Inl (UnsupportedFormat (UnsupportedMessage msgFormat ''classic_raw'' ''derive''))
            else if SRawValue msg \<noteq> [] then Inr (SRawValue msg)
            else if Sig md = [] then Inl RawNoSignature
            else case resolveClassicAuthor (Metadata.Author md) fallbackAuthor of Inl e \<Rightarrow> Inl e
            | Inr author \<Rightarrow>
              (let seq = (if Metadata.Sequence md \<le> 0 then fallbackSeq else Metadata.Sequence md);
                   prevStr = TrimSpace (Metadata.Previous md)
               in if seq \<le> 0 then Inl RawNoSequence
                  else case (if prevStr = [] then Inr None else map_sum id Some (ParseMessageRef prevStr)) of Inl e \<Rightarrow> Inl (RawBadPrevious e)
                  | Inr previous \<Rightarrow>
                    (case marshalWithSignature marsh
                            \<lparr>LegacyMessage.Previous = previous, Author = author, Sequence = seq, Timestamp = Metadata.Timestamp md,
                             Hash = HashAlgorithm, Content = decode (SValue msg)\<rparr> (Sig md) of
                       None \<Rightarrow> Inl RawMarshal
                     | Some raw \<Rightarrow> Inr raw))))"

section \<open>Messages from peers\<close>

datatype repl_error =
    ReplGetLog feedlog_error | ReplGetMessage feedlog_error | ReplClassic raw_error | ReplUnsupported UnsupportedFormatError
  | ReplRef legacy_error | ReplOpenLog feedlog_error | ReplReadSeq | ReplGap int int | ReplAppend feedlog_error | ReplReceive feedlog_error
  | ReplParse legacy_error bendy_error | ReplVerify bendy_error | ReplAuthor bfe_error | ReplAuthorRef ref_error
  | ReplBendyRef "bendy_error + ref_error"

text \<open>\<open>GetFeedSeq\<close> drops the error of \<open>Seq\<close>, whose result is then zero.\<close>

definition GetFeedSeq :: "io \<Rightarrow> db \<Rightarrow> FeedRef \<Rightarrow> repl_error + int" where
  "GetFeedSeq io s author =
     (case multiLog_Get (io_get io) s (FeedRef_String author) of
        Inl e \<Rightarrow> Inl (ReplGetLog e)
      | Inr l \<Rightarrow> Inr (if io_seq io then log_Seq l s else 0))"

definition GetMessage ::
  "env \<Rightarrow> io \<Rightarrow> (string \<Rightarrow> 'c) \<Rightarrow> ('c \<Rightarrow> string option) \<Rightarrow> db \<Rightarrow> FeedRef \<Rightarrow> int \<Rightarrow> repl_error + string" where
  "GetMessage e io decode marsh s author seq =
     (case multiLog_Get (io_get io) s (FeedRef_String author) of
        Inl err \<Rightarrow> Inl (ReplGetLog err)
      | Inr l \<Rightarrow>
        (case log_Get e l seq s of
           Inl err \<Rightarrow> Inl (ReplGetMessage err)
         | Inr msg \<Rightarrow>
           if SMessageFormat msg = [] \<or> SMessageFormat msg = ''sha256'' then
             (case ClassicSignedMessageRaw decode marsh (Some msg) (Some author) seq of Inl err \<Rightarrow> Inl (ReplClassic err) | Inr raw \<Rightarrow> Inr raw)
           else if SMessageFormat msg = ''bendybutt-v1'' then
             (if SRawValue msg = [] then Inl (ReplUnsupported (UnsupportedMessage ''bendybutt-v1'' ''ebt.replicate'' ''get_message_no_raw_value''))
              else Inr (SRawValue msg))
           else Inl (ReplUnsupported (UnsupportedMessage (SMessageFormat msg) ''ebt.replicate'' ''get_message''))))"

text \<open>The second half of both append functions: open the log, compare the numbers, write the feed log, then the receive log.\<close>

definition store_replicated ::
  "env \<Rightarrow> io \<Rightarrow> verifier option \<Rightarrow> FeedRef \<Rightarrow> int \<Rightarrow> string \<Rightarrow> string \<Rightarrow> Metadata \<Rightarrow> db \<Rightarrow> (repl_error + FeedRef \<times> int) \<times> db" where
  "store_replicated e io vf author seq contentBytes raw metadata s =
     (case open_log e io (FeedRef_String author) s of
        (Inl err, s) \<Rightarrow> (Inl (ReplOpenLog err), s)
      | (Inr l, s) \<Rightarrow>
        if \<not> io_seq io then (Inl ReplReadSeq, s)
        else let currentSeq = log_Seq l s
          in if seq \<le> currentSeq then (Inr (author, currentSeq), s)
             else if currentSeq \<ge> 0 \<and> seq \<noteq> currentSeq + 1 then (Inl (ReplGap currentSeq seq), s)
             else case log_Append e (io_append io) l contentBytes (Some metadata) s of
                    (Inl err, s) \<Rightarrow> (Inl (ReplAppend err), s)
                  | (Inr _, s) \<Rightarrow>
                    (case receive_Append e (io_receive io) vf raw (Some metadata) s of
                       (Inl err, s) \<Rightarrow> (Inl (ReplReceive err), s)
                     | (Inr _, s) \<Rightarrow> (Inr (author, seq), s)))"

definition ToRefsMessage :: "(string \<Rightarrow> string) \<Rightarrow> BendyMessage \<Rightarrow> (bendy_error + ref_error) + MessageRef" where
  "ToRefsMessage sh m =
     (case Bendy.Key sh m of
        Inl e \<Rightarrow> Inl (Inl e)
      | Inr key \<Rightarrow> (case NewMessageRef key RefAlgoMessageBendyButt of Inl e \<Rightarrow> Inl (Inr e) | Inr r \<Rightarrow> Inr r))"

definition bendy_previous :: "BendyMessage \<Rightarrow> string" where
  "bendy_previous msg =
     (if BendyMessage.Previous msg = [] then []
      else case DecodeMessage (BendyMessage.Previous msg) of
             Inl _ \<Rightarrow> []
           | Inr (prevAlgo, prevHash) \<Rightarrow> (case NewMessageRef prevHash prevAlgo of Inl _ \<Rightarrow> [] | Inr r \<Rightarrow> MessageRef_String r))"

definition bendy_metadata :: "FeedRef \<Rightarrow> BendyMessage \<Rightarrow> MessageRef \<Rightarrow> string \<Rightarrow> Metadata" where
  "bendy_metadata author msg msgRef raw = zero_Metadata\<lparr>
     Metadata.Author := FeedRef_String author, Metadata.Sequence := BendyMessage.Sequence msg, Metadata.Previous := bendy_previous msg,
     Metadata.Timestamp := BendyMessage.Timestamp msg, Metadata.Hash := MessageRef_String msgRef, FeedFormat := ''bendybutt-v1'',
     MessageFormat := ''bendybutt-v1'', RawValue := raw, CanonicalRef := MessageRef_String msgRef, ValidationStatus := ''validated''\<rparr>"

definition appendBendyMessage ::
  "env \<Rightarrow> io \<Rightarrow> (bval \<Rightarrow> string option) \<Rightarrow> ed_verify \<Rightarrow> verifier option \<Rightarrow> string \<Rightarrow> legacy_error \<Rightarrow> db \<Rightarrow>
   (repl_error + FeedRef \<times> int) \<times> db" where
  "appendBendyMessage e io marsh_bval verify vf raw classicErr s =
     (case FromStoredMessage raw of
        Inl err \<Rightarrow> (Inl (ReplParse classicErr err), s)
      | Inr msg \<Rightarrow>
        (case Bendy.Verify verify msg of
           Some err \<Rightarrow> (Inl (ReplVerify err), s)
         | None \<Rightarrow>
           (case DecodeFeed (BendyMessage.Author msg) of
              Inl err \<Rightarrow> (Inl (ReplAuthor err), s)
            | Inr (algo, pubKey) \<Rightarrow>
              if algo \<noteq> ''bendybutt-v1'' then (Inl (ReplUnsupported (UnsupportedFeed algo ''ebt.replicate'' ''append'')), s)
              else case NewFeedRef pubKey RefAlgoFeedBendyButt of
                Inl err \<Rightarrow> (Inl (ReplAuthorRef err), s)
              | Inr author \<Rightarrow>
                (case ToRefsMessage (sha e) msg of
                   Inl err \<Rightarrow> (Inl (ReplBendyRef err), s)
                 | Inr msgRef \<Rightarrow>
                   store_replicated e io vf author (BendyMessage.Sequence msg)
                     (case marsh_bval (ContentSection msg ! 0) of None \<Rightarrow> raw | Some c \<Rightarrow> c) raw
                     (bendy_metadata author msg msgRef raw) s))))"

definition classic_metadata :: "'c SignedMessage \<Rightarrow> MessageRef \<Rightarrow> string \<Rightarrow> Metadata" where
  "classic_metadata msg msgRef raw = zero_Metadata\<lparr>
     Metadata.Author := FeedRef_String (LegacyMessage.Author msg), Metadata.Sequence := LegacyMessage.Sequence msg,
     Metadata.Previous := (case LegacyMessage.Previous msg of None \<Rightarrow> [] | Some p \<Rightarrow> TrimSpace (MessageRef_String p)),
     Metadata.Timestamp := LegacyMessage.Timestamp msg, Sig := SignedMessage.Signature msg, Metadata.Hash := MessageRef_String msgRef,
     FeedFormat := ''ed25519'', MessageFormat := ''sha256'', RawValue := raw, CanonicalRef := MessageRef_String msgRef,
     ValidationStatus := ''validated''\<rparr>"

definition AppendReplicatedMessage ::
  "env \<Rightarrow> io \<Rightarrow> (string \<Rightarrow> 'c) \<Rightarrow> (bval \<Rightarrow> string option) \<Rightarrow> ed_verify \<Rightarrow> verifier option \<Rightarrow> string \<Rightarrow> db \<Rightarrow>
   (repl_error + FeedRef \<times> int) \<times> db" where
  "AppendReplicatedMessage e io decode marsh_bval verify vf raw s =
     (case ParseSignedMessageJSON decode raw of
        Inl err \<Rightarrow> appendBendyMessage e io marsh_bval verify vf raw err s
      | Inr (msg, contentBytes) \<Rightarrow>
        (case SignedMessageRefFromJSON (sha e) raw of
           Inl err \<Rightarrow> (Inl (ReplRef err), s)
         | Inr msgRef \<Rightarrow>
           store_replicated e io vf (LegacyMessage.Author msg) (LegacyMessage.Sequence msg) contentBytes raw
             (classic_metadata msg msgRef raw) s))"

definition AppendSignedMessage ::
  "env \<Rightarrow> io \<Rightarrow> (string \<Rightarrow> 'c) \<Rightarrow> (bval \<Rightarrow> string option) \<Rightarrow> ed_verify \<Rightarrow> verifier option \<Rightarrow> string \<Rightarrow> db \<Rightarrow>
   (repl_error + FeedRef \<times> int) \<times> db" where
  "AppendSignedMessage e io decode marsh_bval verify vf raw s = AppendReplicatedMessage e io decode marsh_bval verify vf raw s"

definition ListFeeds :: "db \<Rightarrow> FeedRef list" where
  "ListFeeds s = concat (map (\<lambda>addr. case ParseFeedRef addr of Inl _ \<Rightarrow> [] | Inr r \<Rightarrow> [r]) (multiLog_List s))"

section \<open>The publisher\<close>

record Publisher =
  p_feed :: FeedRef
  p_key :: string
  p_log :: int
  p_receive :: bool

datatype publish_error =
    PubLog feedlog_error | PubSeq | PubSign legacy_error | PubMarshal | PubAppend feedlog_error | PubReceive feedlog_error

text \<open>\<open>New\<close>: the feed reference of the key pair comes from \<open>keys.KeyPair\<close>; \<open>receive\<close> says whether a receive log was given.\<close>

definition New_Publisher :: "env \<Rightarrow> io \<Rightarrow> FeedRef \<Rightarrow> string \<Rightarrow> bool \<Rightarrow> db \<Rightarrow> (publish_error + Publisher) \<times> db" where
  "New_Publisher e io feed kp receive s =
     (case open_log e io (FeedRef_String feed) s of
        (Inl err, s) \<Rightarrow> (Inl (PubLog err), s)
      | (Inr l, s) \<Rightarrow> (Inr \<lparr>p_feed = feed, p_key = kp, p_log = l, p_receive = receive\<rparr>, s))"

definition next_and_previous :: "env \<Rightarrow> int \<Rightarrow> db \<Rightarrow> int \<times> MessageRef option" where
  "next_and_previous e l s =
     (let seq = log_Seq l s
      in if seq \<ge> 0 then
           (case log_Get e l seq s of
              Inl _ \<Rightarrow> (1, None)
            | Inr msg \<Rightarrow> (seq + 1, case ParseMessageRef (SKey msg) of Inl _ \<Rightarrow> None | Inr r \<Rightarrow> Some r))
         else (1, None))"

definition publish_metadata :: "'c LegacyMessage \<Rightarrow> MessageRef \<Rightarrow> string \<Rightarrow> string \<Rightarrow> Metadata" where
  "publish_metadata msg msgRef sig raw = zero_Metadata\<lparr>
     Metadata.Author := FeedRef_String (LegacyMessage.Author msg), Metadata.Sequence := LegacyMessage.Sequence msg,
     Metadata.Previous := (case LegacyMessage.Previous msg of None \<Rightarrow> [] | Some p \<Rightarrow> MessageRef_String p),
     Metadata.Timestamp := LegacyMessage.Timestamp msg, Sig := sig, Metadata.Hash := MessageRef_String msgRef,
     FeedFormat := ''ed25519'', MessageFormat := ''sha256'', RawValue := raw, CanonicalRef := MessageRef_String msgRef,
     ValidationStatus := ''validated''\<rparr>"

text \<open>The third result says whether, and with which number, \<open>afterPublish\<close> is called.\<close>

definition Publish ::
  "env \<Rightarrow> io \<Rightarrow> (string \<Rightarrow> 'c) \<Rightarrow> ('c \<Rightarrow> string option) \<Rightarrow> (string \<Rightarrow> string \<Rightarrow> string) \<Rightarrow> verifier option \<Rightarrow> int \<Rightarrow> Publisher \<Rightarrow> string \<Rightarrow> db \<Rightarrow>
   (publish_error + MessageRef) \<times> db \<times> int option" where
  "Publish e io decode marsh sign vf unixMilli p content s =
     (if \<not> io_seq io then (Inl PubSeq, s, None)
      else let (nextSeq, previous) = next_and_previous e (p_log p) s;
               msg = \<lparr>LegacyMessage.Previous = previous, Author = p_feed p, Sequence = nextSeq, Timestamp = unixMilli, Hash = ''sha256'',
                      Content = decode content\<rparr>
           in case Message_Sign marsh sign (sha e) (p_key p) msg of
                Inl err \<Rightarrow> (Inl (PubSign err), s, None)
              | Inr (msg, msgRef, sig) \<Rightarrow>
                (case marshalWithSignature marsh msg sig of
                   None \<Rightarrow> (Inl PubMarshal, s, None)
                 | Some raw \<Rightarrow>
                   (let metadata = publish_metadata msg msgRef sig raw
                    in case log_Append e (io_append io) (p_log p) content (Some metadata) s of
                         (Inl err, s) \<Rightarrow> (Inl (PubAppend err), s, None)
                       | (Inr _, s) \<Rightarrow>
                         if p_receive p then
                           (case receive_Append e (io_receive io) vf raw (Some metadata) s of
                              (Inl err, s) \<Rightarrow> (Inl (PubReceive err), s, None)
                            | (Inr _, s) \<Rightarrow> (Inr msgRef, s, Some nextSeq))
                         else (Inr msgRef, s, Some nextSeq))))"

definition VerifyMessage :: "ed_verify \<Rightarrow> string \<Rightarrow> string \<Rightarrow> string \<Rightarrow> bool" where
  "VerifyMessage verify sigMsg sig pubKey \<longleftrightarrow> \<not> (length sig \<noteq> 64 \<or> length pubKey \<noteq> 32) \<and> verify pubKey sigMsg sig"

definition PubKeyToFeedRef :: "string \<Rightarrow> ref_error + string" where
  "PubKeyToFeedRef pubKey = (case NewFeedRef pubKey RefAlgoFeedSSB1 of Inl e \<Rightarrow> Inl e | Inr r \<Rightarrow> Inr (FeedRef_String r))"

definition FeedRefToPubKey :: "string \<Rightarrow> ref_error + string" where
  "FeedRefToPubKey refStr = (case ParseFeedRef refStr of Inl e \<Rightarrow> Inl e | Inr r \<Rightarrow> Inr (feed_id r))"

end
