(* ===== verification/History.thy ===== *)
theory History
  imports Replication
begin

text \<open>
  \<open>internal/ssb/muxrpc/handlers/history.go\<close>: the source \<open>createHistoryStream\<close>, which sends the messages of a
  feed from a given number on, then waits for new ones. The text of a message with its key is
  the argument \<open>marsh_body\<close>; a request is seen through its type, its arguments, the outcome of each
  write, and the databases its ticker finds.
\<close>

section \<open>Arguments\<close>

record HistoryStreamArgs =
  h_id :: string
  h_sequence :: int
  h_seq :: "int option"
  h_limit :: int
  h_live :: bool
  h_old :: "bool option"
  h_keys :: "bool option"

definition zero_args :: HistoryStreamArgs where
  "zero_args = \<lparr>h_id = [], h_sequence = 0, h_seq = None, h_limit = 0, h_live = False, h_old = None, h_keys = None\<rparr>"

definition raw_bool :: "string \<Rightarrow> bool option" where
  "raw_bool raw = (if raw = ''true'' then Some True else if raw = ''false'' then Some False else None)"

text \<open>Decoding a member of the argument object into the struct; \<open>null\<close> clears a pointer and leaves other fields alone.\<close>

definition store_arg :: "string \<Rightarrow> string \<Rightarrow> HistoryStreamArgs \<Rightarrow> HistoryStreamArgs option" where
  "store_arg key raw a =
     (if field_is ''id'' key then map_option (\<lambda>v. a\<lparr>h_id := v\<rparr>) (into_str raw (h_id a))
      else if field_is ''sequence'' key then map_option (\<lambda>v. a\<lparr>h_sequence := v\<rparr>) (into_int raw (h_sequence a))
      else if field_is ''seq'' key then
        (if raw = ''null'' then Some (a\<lparr>h_seq := None\<rparr>) else map_option (\<lambda>v. a\<lparr>h_seq := Some v\<rparr>) (ParseInt64 raw))
      else if field_is ''limit'' key then map_option (\<lambda>v. a\<lparr>h_limit := v\<rparr>) (into_int raw (h_limit a))
      else if field_is ''live'' key then
        (if raw = ''null'' then Some a else map_option (\<lambda>v. a\<lparr>h_live := v\<rparr>) (raw_bool raw))
      else if field_is ''old'' key then
        (if raw = ''null'' then Some (a\<lparr>h_old := None\<rparr>) else map_option (\<lambda>v. a\<lparr>h_old := Some v\<rparr>) (raw_bool raw))
      else if field_is ''keys'' key then
        (if raw = ''null'' then Some (a\<lparr>h_keys := None\<rparr>) else map_option (\<lambda>v. a\<lparr>h_keys := Some v\<rparr>) (raw_bool raw))
      else Some a)"

fun store_args :: "(string \<times> string) list \<Rightarrow> HistoryStreamArgs \<Rightarrow> HistoryStreamArgs option" where
  "store_args [] a = Some a"
| "store_args ((k, v) # ms) a = (case store_arg k v a of None \<Rightarrow> None | Some a' \<Rightarrow> store_args ms a')"

datatype history_error =
    NotSource | ArgsNotArray | ArgsCount | ArgsObject | ArgsConflict | NoID | BadID ref_error | HistUnsupported UnsupportedFormatError
  | HistLog feedlog_error

definition parseHistoryStreamArgs :: "string \<Rightarrow> history_error + HistoryStreamArgs" where
  "parseHistoryStreamArgs raw =
     (if raw = [] then Inr zero_args
      else if \<not> valid_json raw then Inl ArgsNotArray
      else case (if HasPrefix (skip_ws raw) ''null'' then Some [] else raw_elements raw) of
        None \<Rightarrow> Inl ArgsNotArray
      | Some [] \<Rightarrow> Inr zero_args
      | Some [a] \<Rightarrow>
        (case (if a = ''null'' then Some zero_args else case raw_members a of None \<Rightarrow> None | Some ms \<Rightarrow> store_args ms zero_args) of
           None \<Rightarrow> Inl ArgsObject
         | Some args \<Rightarrow>
           (case h_seq args of
              None \<Rightarrow> Inr args
            | Some n \<Rightarrow> if h_sequence args \<noteq> 0 \<and> h_sequence args \<noteq> n then Inl ArgsConflict else Inr (args\<lparr>h_sequence := n\<rparr>)))
      | Some _ \<Rightarrow> Inl ArgsCount)"

text \<open>
  \<open>marsh_body\<close> is the JSON text of a message with its key and the time of its arrival. A message that
  cannot be read, or is of another format, ends the stream.
\<close>

definition writeMessage ::
  "env \<Rightarrow> (string \<Rightarrow> 'c) \<Rightarrow> ('c \<Rightarrow> string option) \<Rightarrow> (string \<Rightarrow> string \<Rightarrow> int \<Rightarrow> string option) \<Rightarrow> int \<Rightarrow> HistoryStreamArgs \<Rightarrow> db \<Rightarrow> int \<Rightarrow>
   string option" where
  "writeMessage e decode marsh marsh_body l args s seq =
     (case log_Get e l seq s of
        Inl _ \<Rightarrow> None
      | Inr msg \<Rightarrow>
        if SMessageFormat msg \<noteq> [] \<and> SMessageFormat msg \<noteq> ''sha256'' then None
        else case ClassicSignedMessageRaw decode marsh (Some msg) None seq of
          Inl _ \<Rightarrow> None
        | Inr raw \<Rightarrow> if h_keys args = None \<or> h_keys args = Some True then marsh_body (SKey msg) raw (SReceived msg) else Some raw)"

text \<open>
  The state of a stream: what has been written, the next number, how many were sent, and whether the
  function has returned. \<open>wok k\<close> says whether the \<open>k\<close>-th write to the sink works.
\<close>

record stream =
  written :: "string list"
  nextSeq :: int
  sent :: nat
  returned :: bool

function write_upto :: "(int \<Rightarrow> string option) \<Rightarrow> (nat \<Rightarrow> bool) \<Rightarrow> int \<Rightarrow> int \<Rightarrow> stream \<Rightarrow> stream" where
  "write_upto msg wok limit seq t =
     (if \<not> nextSeq t \<le> seq then t
      else if limit > 0 \<and> int (sent t) \<ge> limit then t\<lparr>returned := True\<rparr>
      else case msg (nextSeq t) of
        None \<Rightarrow> t\<lparr>returned := True\<rparr>
      | Some d \<Rightarrow>
        if \<not> wok (sent t) then t\<lparr>returned := True\<rparr>
        else write_upto msg wok limit seq (t\<lparr>written := written t @ [d], nextSeq := nextSeq t + 1, sent := sent t + 1\<rparr>))"
  by pat_completeness auto
termination
  by (relation "measure (\<lambda>(_, _, _, seq, t). nat (seq + 1 - nextSeq t))") auto

declare write_upto.simps [simp del]

text \<open>\<open>ticks\<close> are the databases the ticker's rounds see, until the context is done.\<close>

definition streamMessages ::
  "(db \<Rightarrow> int \<Rightarrow> string option) \<Rightarrow> (nat \<Rightarrow> bool) \<Rightarrow> int \<Rightarrow> int \<Rightarrow> HistoryStreamArgs \<Rightarrow> db \<Rightarrow> db list \<Rightarrow> stream" where
  "streamMessages msg wok l startSeq args s ticks =
     (let seq = log_Seq l s;
          t = \<lparr>written = [], nextSeq = startSeq + 1, sent = 0, returned = False\<rparr>;
          t = (if h_old args = None \<or> h_old args = Some True then write_upto (msg s) wok (h_limit args) seq t else t\<lparr>nextSeq := seq + 1\<rparr>)
      in if returned t \<or> \<not> h_live args \<or> (h_limit args > 0 \<and> int (sent t) \<ge> h_limit args) then t\<lparr>returned := True\<rparr>
         else foldl (\<lambda>t s. if returned t then t else write_upto (msg s) wok (h_limit args) (log_Seq l s) t) t ticks)"

text \<open>The checks of \<open>HandleCall\<close>: an unknown feed closes the stream without an error and without a message.\<close>

definition HistoryStream_HandleCall ::
  "env \<Rightarrow> io \<Rightarrow> (string \<Rightarrow> 'c) \<Rightarrow> ('c \<Rightarrow> string option) \<Rightarrow> (string \<Rightarrow> string \<Rightarrow> int \<Rightarrow> string option) \<Rightarrow> (nat \<Rightarrow> bool) \<Rightarrow> string \<Rightarrow> string \<Rightarrow>
   db \<Rightarrow> db list \<Rightarrow> history_error + stream option" where
  "HistoryStream_HandleCall e io decode marsh marsh_body wok reqType rawArgs s ticks =
     (if reqType \<noteq> ''source'' then Inl NotSource
      else case parseHistoryStreamArgs rawArgs of Inl err \<Rightarrow> Inl err
      | Inr args \<Rightarrow>
        if h_id args = [] then Inl NoID
        else case ParseFeedRef (h_id args) of Inl err \<Rightarrow> Inl (BadID err)
        | Inr feedRef \<Rightarrow>
          if FeedFromRef (Some feedRef) \<noteq> ''ed25519'' then
            Inl (HistUnsupported (UnsupportedFeed (FeedFromRef (Some feedRef)) ''createHistoryStream'' ''history''))
          else case multiLog_Get (io_get io) s (FeedRef_String feedRef) of
            Inl ErrNotFound \<Rightarrow> Inr None
          | Inl err \<Rightarrow> Inl (HistLog err)
          | Inr l \<Rightarrow>
            Inr (Some (streamMessages (writeMessage e decode marsh marsh_body l args) wok l
              (if h_sequence args < 0 then 0 else h_sequence args) args s ticks)))"

section \<open>What is sent\<close>

text \<open>
  The invariant of a stream that started with number \<open>first\<close>: the messages written are those of
  consecutive numbers, each as some database had it, and no more than the limit.
\<close>

definition stream_inv :: "(db \<Rightarrow> int \<Rightarrow> string option) \<Rightarrow> db set \<Rightarrow> int \<Rightarrow> int \<Rightarrow> stream \<Rightarrow> bool" where
  "stream_inv msg D limit first t \<longleftrightarrow> length (written t) = sent t \<and> nextSeq t = first + int (sent t) \<and> (0 < limit \<longrightarrow> int (sent t) \<le> limit) \<and>
     (\<forall>i < sent t. \<exists>s \<in> D. msg s (first + int i) = Some (written t ! i))"

lemma write_upto_inv:
  assumes "stream_inv msg D limit first t" and "s \<in> D"
  shows "stream_inv msg D limit first (write_upto (msg s) wok limit seq t)"
  using assms(1)
proof (induction "msg s" wok limit seq t rule: write_upto.induct)
  case (1 wok limit seq t)
  show ?case
  proof (cases "nextSeq t \<le> seq \<and> \<not> (limit > 0 \<and> int (sent t) \<ge> limit) \<and> (\<exists>d. msg s (nextSeq t) = Some d) \<and> wok (sent t)")
    case True
    then obtain d where d: "nextSeq t \<le> seq" "\<not> (limit > 0 \<and> int (sent t) \<ge> limit)" "msg s (nextSeq t) = Some d" "wok (sent t)" by blast
    let ?t = "t\<lparr>written := written t @ [d], nextSeq := nextSeq t + 1, sent := sent t + 1\<rparr>"
    have "stream_inv msg D limit first ?t"
      using 1(2) d assms(2) by (auto simp: stream_inv_def nth_append less_Suc_eq)
    from 1(1) [OF _ d(2,3) _ this] d have "stream_inv msg D limit first (write_upto (msg s) wok limit seq ?t)" by simp
    moreover have "write_upto (msg s) wok limit seq t = write_upto (msg s) wok limit seq ?t" using d by (subst write_upto.simps) auto
    ultimately show ?thesis by simp
  next
    case False
    then have "write_upto (msg s) wok limit seq t = t \<or> write_upto (msg s) wok limit seq t = t\<lparr>returned := True\<rparr>"
      by (subst (1 2) write_upto.simps) (auto split: option.splits)
    moreover have "stream_inv msg D limit first (t\<lparr>returned := True\<rparr>)" using 1(2) by (simp add: stream_inv_def)
    ultimately show ?thesis using 1(2) by metis
  qed
qed

lemma ticks_inv:
  "stream_inv msg D limit first t \<Longrightarrow> set ticks \<subseteq> D \<Longrightarrow>
   stream_inv msg D limit first (foldl (\<lambda>t s. if returned t then t else write_upto (msg s) wok limit (log_Seq l s) t) t ticks)"
  by (induction ticks arbitrary: t) (auto intro: write_upto_inv)

text \<open>When nothing fails and no limit is set, everything up to the last number is written.\<close>

lemma write_upto_all:
  assumes "\<And>n. nextSeq t \<le> n \<Longrightarrow> n \<le> seq \<Longrightarrow> msg n \<noteq> None" and "\<And>k. wok k" and "limit \<le> 0" and "nextSeq t \<le> seq + 1"
  shows "nextSeq (write_upto msg wok limit seq t) = seq + 1 \<and> returned (write_upto msg wok limit seq t) = returned t"
  using assms
proof (induction msg wok limit seq t rule: write_upto.induct)
  case (1 msg wok limit seq t)
  show ?case
  proof (cases "nextSeq t \<le> seq")
    case True
    then obtain d where d: "msg (nextSeq t) = Some d" using "1.prems"(1) [of "nextSeq t"] by auto
    let ?t = "t\<lparr>written := written t @ [d], nextSeq := nextSeq t + 1, sent := sent t + 1\<rparr>"
    have "nextSeq (write_upto msg wok limit seq ?t) = seq + 1 \<and> returned (write_upto msg wok limit seq ?t) = returned ?t"
      by (rule 1(1)) (use True d "1.prems" in simp_all)
    moreover have "write_upto msg wok limit seq t = write_upto msg wok limit seq ?t"
      using True d "1.prems"(2,3) by (subst write_upto.simps) simp
    ultimately show ?thesis by simp
  next
    case False
    then have "write_upto msg wok limit seq t = t" by (subst write_upto.simps) simp
    with False "1.prems"(4) show ?thesis by simp
  qed
qed

section \<open>Properties\<close>

text \<open>
  A history stream that sends the backlog sends the messages with the numbers after the requested
  one, in order, without gaps or repeats, each as the log had it, and never more than the limit,
  however the log grows and the writes fail meanwhile.
\<close>

theorem history_in_order:
  assumes "h_old args \<noteq> Some False" and "t = streamMessages msg wok l start args s ticks"
  shows "length (written t) = sent t \<and> (0 < h_limit args \<longrightarrow> int (sent t) \<le> h_limit args) \<and>
    (\<forall>i < sent t. \<exists>s' \<in> set (s # ticks). msg s' (start + 1 + int i) = Some (written t ! i))"
proof -
  let ?D = "set (s # ticks)" and ?t0 = "\<lparr>written = [], nextSeq = start + 1, sent = 0, returned = False\<rparr>"
  let ?t1 = "write_upto (msg s) wok (h_limit args) (log_Seq l s) ?t0"
  have old: "h_old args = None \<or> h_old args = Some True" using assms(1) by (cases "h_old args") auto
  have "stream_inv msg ?D (h_limit args) (start + 1) ?t0" by (simp add: stream_inv_def)
  then have t1: "stream_inv msg ?D (h_limit args) (start + 1) ?t1" by (rule write_upto_inv) simp
  then have "stream_inv msg ?D (h_limit args) (start + 1) (?t1\<lparr>returned := True\<rparr>)" by (simp add: stream_inv_def)
  with t1 ticks_inv [OF t1 set_subset_Cons, of wok l] old have "stream_inv msg ?D (h_limit args) (start + 1) t"
    unfolding assms(2) streamMessages_def Let_def by (auto simp del: list.set)
  then show ?thesis by (simp add: stream_inv_def del: list.set)
qed

text \<open>
  A history stream without a limit that meets no failure sends everything the log holds after the
  requested number, and then ends or goes on with what is new.
\<close>

theorem history_complete:
  assumes "h_old args \<noteq> Some False" and "h_limit args \<le> 0" and "\<not> h_live args" and "\<And>k. wok k" and "start \<le> log_Seq l s"
    and "\<And>n. start < n \<Longrightarrow> n \<le> log_Seq l s \<Longrightarrow> msg s n \<noteq> None"
  shows "map Some (written (streamMessages msg wok l start args s ticks)) = map (msg s) [start + 1 .. log_Seq l s]"
proof -
  let ?t0 = "\<lparr>written = [], nextSeq = start + 1, sent = 0, returned = False\<rparr>"
  let ?t1 = "write_upto (msg s) wok (h_limit args) (log_Seq l s) ?t0"
  have old: "h_old args = None \<or> h_old args = Some True" using assms(1) by (cases "h_old args") auto
  have "stream_inv msg {s} (h_limit args) (start + 1) ?t0" by (simp add: stream_inv_def)
  then have t1: "stream_inv msg {s} (h_limit args) (start + 1) ?t1" by (rule write_upto_inv) simp
  have n: "nextSeq ?t1 = log_Seq l s + 1"
    using write_upto_all [of ?t0 "log_Seq l s" "msg s" wok "h_limit args"] assms(2,4,5,6) by simp
  have w: "written (streamMessages msg wok l start args s ticks) = written ?t1" using old assms(3) by (simp add: streamMessages_def Let_def)
  show ?thesis unfolding w
  proof (rule nth_equalityI)
    show "length (map Some (written ?t1)) = length (map (msg s) [start + 1 .. log_Seq l s])"
    proof -
      have "length (written ?t1) = sent ?t1" "log_Seq l s = start + int (sent ?t1)" using t1 n by (auto simp: stream_inv_def)
      then show ?thesis by (simp del: of_nat_add)
    qed
  next
    fix i
    assume "i < length (map Some (written ?t1))"
    then have i: "i < sent ?t1" using t1 by (simp add: stream_inv_def)
    with t1 have "msg s (start + 1 + int i) = Some (written ?t1 ! i)" by (auto simp: stream_inv_def)
    moreover have "int i < log_Seq l s - start" using t1 n i by (simp add: stream_inv_def)
    ultimately show "map Some (written ?t1) ! i = map (msg s) [start + 1 .. log_Seq l s] ! i"
      using i t1 by (simp add: stream_inv_def nth_upto)
  qed
qed

section \<open>Instances\<close>

definition demo_row :: "int \<Rightarrow> msg_row" where
  "demo_row n = \<lparr>m_feed = 1, m_seq = n, m_key = [], m_value = [], m_created = 0, m_feed_format = [], m_message_format = [], m_raw = [], m_ref = [],
     m_status = []\<rparr>"

definition demo_db :: db where "demo_db = empty_db\<lparr>msg_rows := map demo_row [1, 2, 3]\<rparr>"

definition demo_msg :: "db \<Rightarrow> int \<Rightarrow> string option" where
  "demo_msg s n = (if 1 \<le> n \<and> n \<le> log_Seq 1 s then Some (replicate (nat n) CHR ''m'') else None)"

lemma demo_Seq: "log_Seq 1 demo_db = 3"
  by (simp add: log_Seq_def max_seq_def rows_of_def demo_db_def demo_row_def)

theorem history_in_order_witness:
  "written (streamMessages demo_msg (\<lambda>_. True) 1 1 (zero_args\<lparr>h_limit := 1\<rparr>) demo_db []) = [''mm''] \<and> demo_msg demo_db 2 = Some ''mm''"
proof -
  let ?t = "streamMessages demo_msg (\<lambda>_. True) 1 1 (zero_args\<lparr>h_limit := 1\<rparr>) demo_db []"
  have w: "written ?t = [''mm'']" by code_simp
  have t: "length (written ?t) = sent ?t" "\<forall>i < sent ?t. \<exists>s' \<in> set [demo_db]. demo_msg s' (1 + 1 + int i) = Some (written ?t ! i)"
    using history_in_order [OF _ refl, of "zero_args\<lparr>h_limit := 1\<rparr>" demo_msg "\<lambda>_. True" 1 1 demo_db "[]"] by (simp_all add: zero_args_def)
  then have "0 < sent ?t" using w by simp
  with t(2) have "\<exists>s' \<in> set [demo_db]. demo_msg s' (1 + 1 + int 0) = Some (written ?t ! 0)" by blast
  with w show ?thesis by simp
qed

theorem history_complete_witness:
  "map Some (written (streamMessages demo_msg (\<lambda>_. True) 1 1 zero_args demo_db [])) = [Some ''mm'', Some ''mmm'']"
proof -
  have "[1 + 1 .. 3] = [2, 3 :: int]" by code_simp
  then show ?thesis
    using history_complete [of zero_args "\<lambda>_. True" 1 1 demo_db demo_msg "[]"] by (simp add: demo_Seq demo_msg_def zero_args_def numeral_2_eq_2 numeral_3_eq_3)
qed

end
