(* ===== verification/Ebt.thy ===== *)
theory Ebt
  imports Replication
begin

text \<open>
  \<open>internal/ssb/replication/ebt.go\<close>: epidemic broadcast trees. Notes and frontiers with their JSON form,
  the state matrix, the sessions, the handling of what a peer sends, and the loop that streams the
  history of a feed. Frontiers are maps kept in one iteration order. A duplex connection is seen
  through the messages it receives and what it sends and starts; the feed store is the argument
  \<open>app\<close>, which the development instantiates with \<open>AppendReplicatedMessage\<close>.
\<close>

unbundle bit_operations_syntax

section \<open>Notes and frontiers\<close>

record Note =
  Seq :: int
  Replicate :: bool
  Receive :: bool
  TangleRootSeq :: int

type_synonym frontier = "(string, Note) gmap"

definition int64 :: "int \<Rightarrow> int" where
  "int64 i = signed_take_bit 63 i"

definition note_int :: "Note \<Rightarrow> int" where
  "note_int n =
     (if \<not> Replicate n \<or> Seq n = - 1 then - 1
      else let i = int64 (push_bit 1 (Seq n)) in if \<not> Receive n then i OR 1 else i)"

definition Note_MarshalJSON :: "Note \<Rightarrow> string" where
  "Note_MarshalJSON n = show_int (note_int n)"

definition note_of :: "int \<Rightarrow> Note" where
  "note_of i = \<lparr>Seq = drop_bit 1 i, Replicate = (i \<noteq> - 1), Receive = (i \<noteq> - 1 \<and> \<not> (i AND 1 = 1)), TangleRootSeq = 0\<rparr>"

text \<open>\<open>json.Unmarshal\<close> into \<open>map[string]int64\<close>: \<open>null\<close> gives no map, a \<open>null\<close> value is zero, and any other value must be an integer.\<close>

fun int_members :: "(string \<times> string) list \<Rightarrow> (string, int) gmap \<Rightarrow> (string, int) gmap option" where
  "int_members [] m = Some m"
| "int_members ((k, raw) # ms) m =
     (case (if raw = ''null'' then Some 0 else ParseInt64 raw) of None \<Rightarrow> None | Some i \<Rightarrow> int_members ms (gput k i m))"

definition json_int_map :: "string \<Rightarrow> (string, int) gmap option" where
  "json_int_map data =
     (if valid_json data \<and> HasPrefix (skip_ws data) ''null'' then Some []
      else case raw_members data of None \<Rightarrow> None | Some ms \<Rightarrow> int_members ms [])"

fun valid_feeds :: "(string, int) gmap \<Rightarrow> frontier" where
  "valid_feeds [] = []"
| "valid_feeds ((fstr, i) # dummy) =
     (case ParseFeedRef fstr of Inl _ \<Rightarrow> valid_feeds dummy | Inr _ \<Rightarrow> (fstr, note_of i) # valid_feeds dummy)"

definition Frontier_UnmarshalJSON :: "string \<Rightarrow> frontier option" where
  "Frontier_UnmarshalJSON data = map_option valid_feeds (json_int_map data)"

section \<open>The state matrix\<close>

text \<open>
  \<open>frontiers\<close> is \<open>None\<close> after \<open>Close\<close>: reading the nil map works, storing into it panics. \<open>notified\<close> says
  whether the channel of capacity one holds an update.
\<close>

record StateMatrix =
  sm_self :: string
  frontiers :: "(string, frontier) gmap option"
  tangleFrontiers :: "(string, (string, int) gmap) gmap"
  notified :: bool

datatype ebt_error = EbtPanic | EbtList

definition NewStateMatrix :: "FeedRef option \<Rightarrow> StateMatrix" where
  "NewStateMatrix self = \<lparr>sm_self = (case self of None \<Rightarrow> [] | Some f \<Rightarrow> FeedRef_String f), frontiers = Some [], tangleFrontiers = [], notified = False\<rparr>"

definition GetTangleFrontier :: "StateMatrix \<Rightarrow> string \<Rightarrow> (string, int) gmap" where
  "GetTangleFrontier sm peer = (case map_of (tangleFrontiers sm) peer of None \<Rightarrow> [] | Some f \<Rightarrow> f)"

definition SetTangleFrontier :: "string \<Rightarrow> (string, int) gmap \<Rightarrow> StateMatrix \<Rightarrow> StateMatrix" where
  "SetTangleFrontier peer f sm = sm\<lparr>tangleFrontiers := gput peer f (tangleFrontiers sm)\<rparr>"

definition notify :: "StateMatrix \<Rightarrow> StateMatrix" where
  "notify sm = sm\<lparr>notified := True\<rparr>"

definition loadFrontier :: "StateMatrix \<Rightarrow> string \<Rightarrow> frontier" where
  "loadFrontier sm peer =
     (case frontiers sm of None \<Rightarrow> [] | Some fs \<Rightarrow> (case map_of fs peer of None \<Rightarrow> [] | Some f \<Rightarrow> f))"

definition store_frontier :: "string \<Rightarrow> frontier \<Rightarrow> StateMatrix \<Rightarrow> ebt_error + StateMatrix" where
  "store_frontier peer f sm =
     (case frontiers sm of None \<Rightarrow> Inl EbtPanic | Some fs \<Rightarrow> Inr (sm\<lparr>frontiers := Some (gput peer f fs)\<rparr>))"

definition SetFeedSeq :: "FeedRef \<Rightarrow> int \<Rightarrow> StateMatrix \<Rightarrow> ebt_error + StateMatrix" where
  "SetFeedSeq feed seq sm =
     (if sm_self sm = [] then Inr sm
      else case store_frontier (sm_self sm)
                  (gput (FeedRef_String feed) \<lparr>Seq = seq, Replicate = True, Receive = True, TangleRootSeq = 0\<rparr> (loadFrontier sm (sm_self sm))) sm of
             Inl e \<Rightarrow> Inl e
           | Inr sm \<Rightarrow> Inr (notify sm))"

text \<open>\<open>initializeFeed\<close> does the same as \<open>SetFeedSeq\<close>, except for the text it logs.\<close>

definition initializeFeed :: "FeedRef \<Rightarrow> int \<Rightarrow> StateMatrix \<Rightarrow> ebt_error + StateMatrix" where
  "initializeFeed feed seq sm = SetFeedSeq feed seq sm"

fun initialize_feeds :: "(nat \<Rightarrow> tx) \<Rightarrow> db \<Rightarrow> string list \<Rightarrow> StateMatrix \<Rightarrow> ebt_error + StateMatrix" where
  "initialize_feeds txs s [] sm = Inr sm"
| "initialize_feeds txs s (feedID # ids) sm =
     (case multiLog_Get txs s feedID of
        Inl _ \<Rightarrow> initialize_feeds txs s ids sm
      | Inr l \<Rightarrow>
        (case ParseFeedRef feedID of
           Inl _ \<Rightarrow> initialize_feeds txs s ids sm
         | Inr feedRef \<Rightarrow>
           (case initializeFeed feedRef (log_Seq l s) sm of Inl e \<Rightarrow> Inl e | Inr sm \<Rightarrow> initialize_feeds txs s ids sm)))"

text \<open>\<open>listed\<close> says whether the query of \<open>List\<close> works; the store is \<open>None\<close> when none was given.\<close>

definition InitializeFromFeedlog :: "(nat \<Rightarrow> tx) \<Rightarrow> bool \<Rightarrow> db option \<Rightarrow> StateMatrix \<Rightarrow> ebt_error + StateMatrix" where
  "InitializeFromFeedlog txs listed store sm =
     (case store of None \<Rightarrow> Inr sm
      | Some s \<Rightarrow> if \<not> listed then Inl EbtList else initialize_feeds txs s (multiLog_List s) sm)"

definition Inspect :: "FeedRef \<Rightarrow> StateMatrix \<Rightarrow> frontier" where
  "Inspect peer sm = loadFrontier sm (FeedRef_String peer)"

text \<open>A nil \<open>who\<close> panics in \<open>String\<close>, which has a value receiver.\<close>

definition Update :: "FeedRef option \<Rightarrow> frontier \<Rightarrow> StateMatrix \<Rightarrow> ebt_error + StateMatrix" where
  "Update who upd sm =
     (case who of None \<Rightarrow> Inl EbtPanic
      | Some w \<Rightarrow> store_frontier (FeedRef_String w) (foldl (\<lambda>f (feed, note). gput feed note f) (loadFrontier sm (FeedRef_String w)) upd) sm)"

definition same_note :: "Note \<Rightarrow> Note \<Rightarrow> bool" where
  "same_note a b \<longleftrightarrow> Seq a = Seq b \<and> Receive a = Receive b \<and> Replicate a = Replicate b"

definition Changed :: "FeedRef \<Rightarrow> FeedRef option \<Rightarrow> StateMatrix \<Rightarrow> frontier" where
  "Changed self peer sm =
     (let selfNf = loadFrontier sm (FeedRef_String self)
      in case peer of
           None \<Rightarrow> filter (\<lambda>(feed, note). Replicate note) selfNf
         | Some p \<Rightarrow>
             (let peerNf = loadFrontier sm (FeedRef_String p)
              in filter (\<lambda>(feed, myNote). case map_of peerNf feed of None \<Rightarrow> True | Some theirNote \<Rightarrow> \<not> same_note myNote theirNote) selfNf))"

definition Export :: "StateMatrix \<Rightarrow> (string, (string, int) gmap) gmap" where
  "Export sm = (case frontiers sm of None \<Rightarrow> [] | Some fs \<Rightarrow> map (map_prod (\<lambda>p. p) (map (map_prod (\<lambda>f. f) Seq))) fs)"

definition sm_Close :: "StateMatrix \<Rightarrow> StateMatrix" where
  "sm_Close sm = sm\<lparr>frontiers := None\<rparr>"

section \<open>Sessions\<close>

text \<open>
  A session is known by a number; \<open>subs\<close> has the subscriptions of each session, a cancel function
  for each feed, \<open>cancelled\<close> the cancel functions that were called, \<open>closed\<close> the wait channels that
  were closed.
\<close>

record Sessions =
  ses_open :: "(string, nat) gmap"
  waiting :: "(string, nat) gmap"
  subs :: "(nat, (string, nat) gmap) gmap"
  cancelled :: "nat list"
  closed :: "nat list"
  fresh :: nat

definition NewSessions :: Sessions where
  "NewSessions = \<lparr>ses_open = [], waiting = [], subs = [], cancelled = [], closed = [], fresh = 0\<rparr>"

definition subs_of :: "nat \<Rightarrow> Sessions \<Rightarrow> (string, nat) gmap" where
  "subs_of sid ss = (case map_of (subs ss) sid of None \<Rightarrow> [] | Some m \<Rightarrow> m)"

definition Started :: "string \<Rightarrow> Sessions \<Rightarrow> nat \<times> Sessions" where
  "Started addr ss =
     (let sid = fresh ss;
          ss = ss\<lparr>fresh := sid + 1, subs := gput sid [] (subs ss), ses_open := gput addr sid (ses_open ss)\<rparr>
      in (sid, case map_of (waiting ss) addr of
                 None \<Rightarrow> ss
               | Some ch \<Rightarrow> ss\<lparr>closed := closed ss @ [ch], waiting := gdel addr (waiting ss)\<rparr>))"

definition Ended :: "string \<Rightarrow> Sessions \<Rightarrow> Sessions" where
  "Ended addr ss =
     (case map_of (ses_open ss) addr of
        None \<Rightarrow> ss
      | Some sid \<Rightarrow> ss\<lparr>cancelled := cancelled ss @ map snd (subs_of sid ss), ses_open := gdel addr (ses_open ss)\<rparr>)"

text \<open>The first half of \<open>WaitFor\<close>: a known session answers at once, otherwise there is a new channel to wait on.\<close>

definition WaitFor :: "string \<Rightarrow> Sessions \<Rightarrow> nat option \<times> Sessions" where
  "WaitFor addr ss =
     (if ghas addr (ses_open ss) then (None, ss)
      else (Some (fresh ss), ss\<lparr>fresh := fresh ss + 1, waiting := gput addr (fresh ss) (waiting ss)\<rparr>))"

definition Unsubscribe :: "nat \<Rightarrow> string \<Rightarrow> Sessions \<Rightarrow> Sessions" where
  "Unsubscribe sid feed ss =
     (case map_of (subs_of sid ss) feed of
        None \<Rightarrow> ss
      | Some c \<Rightarrow> ss\<lparr>cancelled := cancelled ss @ [c], subs := gput sid (gdel feed (subs_of sid ss)) (subs ss)\<rparr>)"

definition Subscribed :: "nat \<Rightarrow> string \<Rightarrow> nat \<Rightarrow> Sessions \<Rightarrow> Sessions" where
  "Subscribed sid feed cancel ss =
     (let ss = (case map_of (subs_of sid ss) feed of
                  None \<Rightarrow> ss
                | Some c \<Rightarrow> ss\<lparr>cancelled := cancelled ss @ [c], subs := gput sid (gdel feed (subs_of sid ss)) (subs ss)\<rparr>)
      in ss\<lparr>subs := gput sid (gput feed cancel (subs_of sid ss)) (subs ss)\<rparr>)"

section \<open>The duplex handler\<close>

text \<open>
  \<open>ebt\<close> is what a connection works on: the matrix, the sessions, and the feed store. A received
  message may send a frontier to the peer and start streams; \<open>DStream feed seq c\<close> is a goroutine
  that runs \<open>createStreamHistory\<close> from \<open>seq\<close> until \<open>c\<close> is called.
\<close>

record 'db ebt =
  matrix :: StateMatrix
  sess :: Sessions
  store :: 'db

datatype duplex_out = DFrontier frontier | DStream FeedRef int nat

type_synonym 'db append_op = "string \<Rightarrow> 'db \<Rightarrow> (repl_error + FeedRef \<times> int) \<times> 'db"

text \<open>The frontier \<open>sendState\<close> writes when the connection opens.\<close>

definition sendState :: "FeedRef \<Rightarrow> StateMatrix \<Rightarrow> duplex_out" where
  "sendState self sm = DFrontier (Changed self None sm)"

definition wants_out :: "FeedRef \<Rightarrow> FeedRef option \<Rightarrow> StateMatrix \<Rightarrow> duplex_out list" where
  "wants_out self remote sm = (let wants = Changed self remote sm in if wants \<noteq> [] then [DFrontier wants] else [])"

text \<open>The background loop takes the update out of the channel and sends what changed.\<close>

definition on_update :: "FeedRef \<Rightarrow> FeedRef option \<Rightarrow> StateMatrix \<Rightarrow> duplex_out list \<times> StateMatrix" where
  "on_update self remote sm =
     (if notified sm then (wants_out self remote sm, sm\<lparr>notified := False\<rparr>) else ([], sm))"

text \<open>The decision which feeds to stream, for the notes of an update in order.\<close>

fun start_streams :: "nat \<Rightarrow> frontier \<Rightarrow> frontier \<Rightarrow> Sessions \<Rightarrow> duplex_out list \<times> Sessions" where
  "start_streams sid selfNf [] ss = ([], ss)"
| "start_streams sid selfNf ((feedStr, theirNote) # upd) ss =
     (case map_of selfNf feedStr of
        None \<Rightarrow> start_streams sid selfNf upd ss
      | Some myNote \<Rightarrow>
        if Receive theirNote \<and> Seq myNote > Seq theirNote then
          (case ParseFeedRef feedStr of
             Inl _ \<Rightarrow> start_streams sid selfNf upd ss
           | Inr feed \<Rightarrow>
             (let c = fresh ss;
                  (out, ss') = start_streams sid selfNf upd (Subscribed sid feedStr c (ss\<lparr>fresh := c + 1\<rparr>))
              in (DStream feed (Seq theirNote + 1) c # out, ss')))
        else start_streams sid selfNf upd ss)"

text \<open>One turn of the receiving loop of \<open>HandleDuplex\<close>.\<close>

definition handle_bytes ::
  "'db append_op \<Rightarrow> FeedRef \<Rightarrow> FeedRef option \<Rightarrow> nat \<Rightarrow> string \<Rightarrow> 'db ebt \<Rightarrow> ebt_error + duplex_out list \<times> 'db ebt" where
  "handle_bytes app self remote sid data st =
     (case Frontier_UnmarshalJSON data of
        None \<Rightarrow>
          (case app data (store st) of
             (Inl _, d) \<Rightarrow> Inr ([], st\<lparr>store := d\<rparr>)
           | (Inr (author, seq), d) \<Rightarrow>
             (case SetFeedSeq author seq (matrix st) of
                Inl e \<Rightarrow> Inl e
              | Inr sm \<Rightarrow> Inr ([], st\<lparr>store := d, matrix := sm\<rparr>)))
      | Some frontierUpdate \<Rightarrow>
          (case Update remote frontierUpdate (matrix st) of
             Inl e \<Rightarrow> Inl e
           | Inr sm \<Rightarrow>
             (let (out, ss) = start_streams sid (loadFrontier sm (FeedRef_String self)) frontierUpdate (sess st)
              in Inr (out @ wants_out self remote sm, st\<lparr>matrix := sm, sess := ss\<rparr>))))"

fun handle_all ::
  "'db append_op \<Rightarrow> FeedRef \<Rightarrow> FeedRef option \<Rightarrow> nat \<Rightarrow> string list \<Rightarrow> 'db ebt \<Rightarrow> ebt_error + duplex_out list \<times> 'db ebt" where
  "handle_all app self remote sid [] st = Inr ([], st)"
| "handle_all app self remote sid (data # rx) st =
     (case handle_bytes app self remote sid data st of
        Inl e \<Rightarrow> Inl e
      | Inr (out, st) \<Rightarrow>
        (case handle_all app self remote sid rx st of Inl e \<Rightarrow> Inl e | Inr (out', st') \<Rightarrow> Inr (out @ out', st')))"

text \<open>A whole connection that receives \<open>rx\<close> and is then closed by the peer.\<close>

definition HandleDuplex ::
  "'db append_op \<Rightarrow> FeedRef \<Rightarrow> string \<Rightarrow> FeedRef option \<Rightarrow> string list \<Rightarrow> 'db ebt \<Rightarrow> ebt_error + duplex_out list \<times> 'db ebt" where
  "HandleDuplex app self remoteAddr remote rx st =
     (let (sid, ss) = Started remoteAddr (sess st)
      in case handle_all app self remote sid rx (st\<lparr>sess := ss\<rparr>) of
           Inl e \<Rightarrow> Inl e
         | Inr (out, st') \<Rightarrow> Inr (sendState self (matrix st) # out, st'\<lparr>sess := Ended remoteAddr (sess st')\<rparr>))"

section \<open>Streaming a history\<close>

text \<open>
  The loop of \<open>createStreamHistory\<close>, one turn for each moment: what \<open>GetMessage\<close> answers then (a
  message, not found, or another error), what \<open>GetFeedSeq\<close> answers, the time in milliseconds, whether
  the context is done while it waits, and whether writing works.
\<close>

datatype got = Found string | Missing | Broken

record moment =
  m_get :: "int \<Rightarrow> got"
  m_seqno :: "int option"
  m_now :: int
  m_done :: bool
  m_write :: bool

record CreateHistArgs =
  a_seq :: int
  a_limit :: int
  a_live :: bool

datatype hist_end = HRunning | HNil | HErr

record hist =
  h_out :: "string list"
  h_next :: int
  retries :: nat
  retryDelay :: int
  startTime :: int
  h_end :: hist_end

definition maxRetries :: nat where "maxRetries = 50"
definition maxWaitTime :: int where "maxWaitTime = 60000"

definition hist_start :: "CreateHistArgs \<Rightarrow> int \<Rightarrow> hist" where
  "hist_start arg t0 = \<lparr>h_out = [], h_next = a_seq arg, retries = 0, retryDelay = 100, startTime = t0, h_end = HRunning\<rparr>"

definition hist_wait :: "moment \<Rightarrow> hist \<Rightarrow> hist" where
  "hist_wait m h = (if m_done m then h\<lparr>h_end := HErr\<rparr> else h\<lparr>retryDelay := if retryDelay h < 2000 then retryDelay h * 2 else retryDelay h\<rparr>)"

definition hist_turn :: "CreateHistArgs \<Rightarrow> moment \<Rightarrow> hist \<Rightarrow> hist" where
  "hist_turn arg m h =
     (if h_end h \<noteq> HRunning then h
      else if a_limit arg > 0 \<and> int (length (h_out h)) \<ge> a_limit arg then h\<lparr>h_end := HNil\<rparr>
      else case m_get m (h_next h) of
        Broken \<Rightarrow> h\<lparr>h_end := HErr\<rparr>
      | Missing \<Rightarrow>
        if \<not> a_live arg then h\<lparr>h_end := HNil\<rparr>
        else if m_now m - startTime h > maxWaitTime then h\<lparr>h_end := HNil\<rparr>
        else let h = h\<lparr>retries := retries h + 1\<rparr>
          in if retries h > maxRetries then
               (if (case m_seqno m of None \<Rightarrow> False | Some currentSeq \<Rightarrow> currentSeq \<ge> h_next h) then h\<lparr>h_end := HNil\<rparr>
                else hist_wait m (h\<lparr>retries := 0, retryDelay := 100\<rparr>))
             else hist_wait m h
      | Found msg \<Rightarrow>
        let h = h\<lparr>retries := 0, retryDelay := 100, startTime := m_now m\<rparr>
        in if \<not> m_write m then h\<lparr>h_end := HErr\<rparr> else h\<lparr>h_out := h_out h @ [msg], h_next := h_next h + 1\<rparr>)"

definition createStreamHistory :: "CreateHistArgs \<Rightarrow> int \<Rightarrow> moment list \<Rightarrow> hist" where
  "createStreamHistory arg t0 ms = foldl (\<lambda>h m. hist_turn arg m h) (hist_start arg t0) ms"

end
