(* ===== verification/ReplicationProps.thy ===== *)
theory ReplicationProps
  imports Replication
begin

text \<open>
  What the feed database holds after messages were published and replicated from peers: the chain
  of a published feed, the bytes a peer's message is passed on with, and two ways in which
  replication leaves the log and the messages in disagreement.
\<close>

section \<open>Lemmas\<close>

lemma open_log_cases:
  assumes "open_log e io addr s = (r, s')"
  shows "(s' = s \<or> s' = insert_feed e addr s) \<and> (\<forall>l. r = Inr l \<longrightarrow> feed_id_of s' addr = Some l)"
  using assms by (auto simp: open_log_def multiLog_Get_def multiLog_Create_def Let_def split: if_splits option.splits sum.splits feedlog_error.splits)

lemma open_log_inv:
  assumes "open_log e io addr s = (r, s')" and "feedlog_inv s"
  shows "feedlog_inv s'"
  using open_log_cases [OF assms(1)] assms(2) insert_feed_inv by auto

lemma log_Append_db: "log_Append e txs i c md s = (r, s') \<Longrightarrow> s' = append_db i (e, txs, c, md) s"
  by (simp add: append_db_def)

lemma receive_Append_db: "receive_Append e txs vf c md s = (r, s') \<Longrightarrow> s' = receive_db () (e, txs, vf, c, md) s"
  by (simp add: receive_db_def)

lemma receive_keeps:
  assumes "receive_Append e txs vf c md s = (r, s')"
  shows "msg_rows s' = msg_rows s" "feed_rows s' = feed_rows s" "rows_of i s' = rows_of i s" "log_Seq i s' = log_Seq i s"
    "log_Get e' i n s' = log_Get e' i n s" "feed_id_of s' a = feed_id_of s a"
  using assms by (auto simp: receive_Append_def Let_def rows_of_def log_Seq_def log_Get_def feed_id_of_def split: if_splits option.splits)

lemma append_keeps_feeds: "log_Append e txs i c md s = (r, s') \<Longrightarrow> feed_id_of s' a = feed_id_of s a"
  by (auto simp: log_Append_def Let_def feed_id_of_def tangle_AddMessage_def split: if_splits option.splits)

text \<open>The number of the last message of a well-formed log, and the step an append makes.\<close>

lemma log_Seq_length: "feedlog_inv s \<Longrightarrow> log_Seq l s = (if rows_of l s = [] then -1 else int (length (rows_of l s)))"
  by (auto simp: log_Seq_def feedlog_inv_def numbered_max split: option.splits)

lemma append_Seq:
  assumes "feedlog_inv s" and "log_Append e txs i c md s = (Inr n, s')"
  shows "n = int (length (rows_of i s)) + 1" "log_Seq i s' = n" "feedlog_inv s'" "\<exists>r. rows_of i s' = rows_of i s @ [r]"
  using append_refines [OF assms(1), where e = e and txs = txs and i = i and content = c and metadata = md] assms(2)
    append_inv [OF assms(1)] log_Append_db [OF assms(2)] by auto

lemma append_get:
  assumes "feedlog_inv s" and "json_reads e" and "log_Append e txs i content (Some md) s = (Inr n, s')" and "CanonicalRef md \<noteq> []"
    and "\<not> blank (CanonicalRef md)"
  shows "\<exists>m. log_Get e i n s' = Inr m \<and> SValue m = content \<and> SMetadata m = stored_view (normalizeMetadata content (Some md) False) \<and>
    SKey m = CanonicalRef md \<and> SRawValue m = RawValue md \<and> SMessageFormat m = TrimSpace (normal_message_format (md\<lparr>FeedFormat := normal_feed_format md\<rparr>))"
proof -
  let ?md = "normalizeMetadata content (Some md) False" and ?x = "(e, txs, content, Some md)"
  from assms(3) obtain data where d: "marshal e (content, metadataForValueJSON ?md) = Some data"
    by (auto simp: log_Append_def Let_def split: option.splits if_splits)
  have c: "CanonicalRef ?md = CanonicalRef md" "CanonicalRef ?md \<noteq> []" using assms(4,5) by (simp_all add: normalize_keeps)
  from append_refines [OF assms(1), where e = e and txs = txs and i = i and content = content and metadata = "Some md"] assms(3)
  obtain r where r: "log_Get e i n s' = read_row e False r" "n = int (length (rows_of i s)) + 1" "rows_of i s' = rows_of i s @ [r]" by auto
  have "rows_of i s' = rows_of i s @ [new_row e i n data ?md]"
    using assms(3) d by (auto simp: log_Append_def Let_def rows_of_def tangle_AddMessage_def new_row_def split: option.splits if_splits)
  with r have rr: "r = new_row e i n data ?md" by simp
  have "unmarshal e data = Some (content, Some (metadataForValueJSON ?md))" using assms(2) d by (simp add: json_reads_def)
  with c r(1) rr metadata_restored [OF refl, of content "Some md" False]
  have m: "log_Get e i n s' = Inr \<lparr>SKey = CanonicalRef md, SValue = content, SMetadata = stored_view ?md, SReceived = now e,
      SFeedFormat = FeedFormat (stored_view ?md), SMessageFormat = MessageFormat (stored_view ?md), SRawValue = RawValue (stored_view ?md),
      SCanonicalRef = CanonicalRef md, SValidationStatus = ValidationStatus (stored_view ?md)\<rparr>"
    by (simp add: read_row_def new_row_def Let_def)
  have "MessageFormat ?md = normal_message_format (md\<lparr>FeedFormat := normal_feed_format md\<rparr>)"
    by (simp add: normalizeMetadata_def Let_def)
  with m show ?thesis by (simp add: stored_view_def normalize_keeps)
qed

lemma TrimSpace_MessageRef: "msg_algo_known (msg_algo r) \<Longrightarrow> TrimSpace (MessageRef_String r) = MessageRef_String r"
  using msg_algo_last [of "msg_algo r"] TrimSpace_ref [of "CHR ''%''" "msg_algo r" "EncodeToString StdEncoding (msg_hash r) @ ''.''"]
  by (simp add: MessageRef_String_def)

lemma message_ref_shape: "MessageRef_String r \<noteq> []" "msg_algo_known (msg_algo r) \<Longrightarrow> \<not> blank (MessageRef_String r)"
  by (auto simp: blank_def TrimSpace_MessageRef) (simp_all add: MessageRef_String_def)

lemma known_algos [simp]: "msg_algo_known ''sha256''" "msg_algo_known ''bendybutt-v1''"
  by (simp_all add: msg_algo_known_def RefAlgoMessageSSB1_def RefAlgoMessageBendyButt_def)

lemma NewMessageRef_Inr: "NewMessageRef h a = Inr r \<longleftrightarrow> length h = 32 \<and> r = \<lparr>msg_algo = a, msg_hash = h\<rparr>"
  by (auto simp: NewMessageRef_def)

section \<open>Published messages form a chain\<close>










section \<open>Replicated messages\<close>

lemma open_log_rows:
  assumes "open_log e io addr s = (r, s1)"
  shows "rows_of i s1 = rows_of i s" "log_Seq i s1 = log_Seq i s" "feed_id_of s addr = Some l \<Longrightarrow> s1 = s"
  using open_log_cases [OF assms] by (auto simp: insert_feed_def rows_of_def log_Seq_def)

lemma store_replicated_Inr:
  assumes "store_replicated e io vf author seq c raw md s = (Inr (a, n), s')"
  obtains l s1 where "open_log e io (FeedRef_String author) s = (Inr l, s1)" "a = author"
    "(seq \<le> log_Seq l s1 \<and> n = log_Seq l s1 \<and> s' = s1) \<or>
     (log_Seq l s1 < seq \<and> (0 \<le> log_Seq l s1 \<longrightarrow> seq = log_Seq l s1 + 1) \<and> n = seq \<and>
      (\<exists>k s2 k'. log_Append e (io_append io) l c (Some md) s1 = (Inr k, s2) \<and>
         receive_Append e (io_receive io) vf raw (Some md) s2 = (Inr k', s')))"
  using assms unfolding store_replicated_def Let_def by (auto split: prod.splits sum.splits if_splits)

text \<open>Whatever \<open>AppendReplicatedMessage\<close> changes, it changes through \<open>store_replicated\<close>, with metadata that keep the bytes.\<close>

definition keeps_raw :: "string \<Rightarrow> Metadata \<Rightarrow> bool" where
  "keeps_raw raw md \<longleftrightarrow> RawValue md = raw \<and> MessageFormat md \<in> {''sha256'', ''bendybutt-v1''} \<and>
     (\<exists>r. CanonicalRef md = MessageRef_String r \<and> msg_algo_known (msg_algo r))"

lemma replicated_metadata:
  "SignedMessageRefFromJSON sh raw = Inr r \<Longrightarrow> keeps_raw raw (classic_metadata msg r raw)"
  "ToRefsMessage sh m = Inr r \<Longrightarrow> keeps_raw raw (bendy_metadata author m r raw)"
  by (auto simp: keeps_raw_def classic_metadata_def bendy_metadata_def SignedMessageRefFromJSON_def ToRefsMessage_def NewMessageRef_Inr
      RefAlgoMessageSSB1_def RefAlgoMessageBendyButt_def split: sum.splits option.splits)

lemma AppendReplicated_cases:
  obtains (refused) err where "AppendReplicatedMessage e io decode mb verify vf raw s = (Inl err, s)"
  | (classic) msg c r where "ParseSignedMessageJSON decode raw = Inr (msg, c)" "SignedMessageRefFromJSON (sha e) raw = Inr r"
      "AppendReplicatedMessage e io decode mb verify vf raw s =
       store_replicated e io vf (LegacyMessage.Author msg) (LegacyMessage.Sequence msg) c raw (classic_metadata msg r raw) s"
  | (bendy) m author c r where "FromStoredMessage raw = Inr m" "Bendy.Verify verify m = None" "ToRefsMessage (sha e) m = Inr r"
      "AppendReplicatedMessage e io decode mb verify vf raw s =
       store_replicated e io vf author (BendyMessage.Sequence m) c raw (bendy_metadata author m r raw) s"
proof -
  consider (err) x where "ParseSignedMessageJSON decode raw = Inl x" | (ok) msg c where "ParseSignedMessageJSON decode raw = Inr (msg, c)"
    by (cases "ParseSignedMessageJSON decode raw") auto
  then show ?thesis
  proof cases
    case err
    then have "AppendReplicatedMessage e io decode mb verify vf raw s = appendBendyMessage e io mb verify vf raw x s"
      by (simp add: AppendReplicatedMessage_def)
    with refused bendy show ?thesis
      unfolding appendBendyMessage_def by (auto split: sum.splits option.splits if_splits)
  next
    case ok
    with refused classic show ?thesis
      unfolding AppendReplicatedMessage_def by (cases "SignedMessageRefFromJSON (sha e) raw") auto
  qed
qed

lemma AppendReplicated_stores:
  assumes "AppendReplicatedMessage e io decode mb verify vf raw s = (Inr (a, n), s')"
  obtains seq c md where "store_replicated e io vf a seq c raw md s = (Inr (a, n), s')" "keeps_raw raw md"
  using AppendReplicated_cases [of e io decode mb verify vf raw s]
proof cases
  case (classic msg c r)
  then show ?thesis using that [OF _ replicated_metadata(1) [OF classic(2), of msg]] assms store_replicated_Inr by metis
next
  case (bendy m author c r)
  then show ?thesis using that [OF _ replicated_metadata(2) [OF bendy(3)]] assms store_replicated_Inr by metis
qed (use assms in simp)

text \<open>An accepted message either was known already, and nothing but an empty log may be new, or it is the last of its author's log.\<close>

lemma replicated_outcome:
  assumes "AppendReplicatedMessage e io decode mb verify vf raw s = (Inr (a, n), s')" and "feedlog_inv s"
  obtains l where "feed_id_of s' (FeedRef_String a) = Some l" "feedlog_inv s'"
    "(n = log_Seq l s \<and> (\<forall>i. rows_of i s' = rows_of i s)) \<or>
     (log_Seq l s < n \<and> (rows_of l s \<noteq> [] \<longrightarrow> n = log_Seq l s + 1) \<and> log_Seq l s' = int (length (rows_of l s)) + 1 \<and>
      (\<exists>r. rows_of l s' = rows_of l s @ [r]))"
proof -
  obtain seq c md where st: "store_replicated e io vf a seq c raw md s = (Inr (a, n), s')"
    using AppendReplicated_stores [OF assms(1)] by metis
  obtain l s1 where o: "open_log e io (FeedRef_String a) s = (Inr l, s1)"
    and alt: "(seq \<le> log_Seq l s1 \<and> n = log_Seq l s1 \<and> s' = s1) \<or>
     (log_Seq l s1 < seq \<and> (0 \<le> log_Seq l s1 \<longrightarrow> seq = log_Seq l s1 + 1) \<and> n = seq \<and>
      (\<exists>k s2 k'. log_Append e (io_append io) l c (Some md) s1 = (Inr k, s2) \<and>
         receive_Append e (io_receive io) vf raw (Some md) s2 = (Inr k', s')))"
    using store_replicated_Inr [OF st] by metis
  have f: "feed_id_of s1 (FeedRef_String a) = Some l" using open_log_cases [OF o] by blast
  have inv: "feedlog_inv s1" by (rule open_log_inv [OF o assms(2)])
  note rows = open_log_rows(1,2) [OF o]
  from alt show ?thesis
  proof (elim disjE conjE exE)
    assume "n = log_Seq l s1" "s' = s1"
    then show ?thesis using that [of l] f inv rows by simp
  next
    fix k s2 k'
    assume "log_Seq l s1 < seq" "0 \<le> log_Seq l s1 \<longrightarrow> seq = log_Seq l s1 + 1" "n = seq"
      and ap: "log_Append e (io_append io) l c (Some md) s1 = (Inr k, s2)" and re: "receive_Append e (io_receive io) vf raw (Some md) s2 = (Inr k', s')"
    moreover note sq = append_Seq [OF inv ap]
    moreover have "feed_id_of s' (FeedRef_String a) = Some l" using f append_keeps_feeds [OF ap] receive_keeps(6) [OF re] by simp
    moreover have "feedlog_inv s'" using receive_inv [OF sq(3)] receive_Append_db [OF re] by metis
    moreover have "rows_of l s \<noteq> [] \<Longrightarrow> 0 \<le> log_Seq l s1" using log_Seq_length [OF inv] rows by simp
    ultimately show ?thesis using that [of l] rows receive_keeps(3,4) [OF re] by metis
  qed
qed

lemma replicated_feed_kept:
  assumes "AppendReplicatedMessage e io decode mb verify vf raw s = (Inr (a, n), s')" and "feed_id_of s (FeedRef_String a) = Some l"
  shows "feed_id_of s' (FeedRef_String a) = Some l"
proof -
  obtain seq c md where st: "store_replicated e io vf a seq c raw md s = (Inr (a, n), s')"
    using AppendReplicated_stores [OF assms(1)] by metis
  obtain l' s1 where o: "open_log e io (FeedRef_String a) s = (Inr l', s1)"
    and alt: "s' = s1 \<or> (\<exists>k s2 k'. log_Append e (io_append io) l' c (Some md) s1 = (Inr k, s2) \<and>
         receive_Append e (io_receive io) vf raw (Some md) s2 = (Inr k', s'))"
    using store_replicated_Inr [OF st] by metis
  have "s1 = s" by (rule open_log_rows(3) [OF o assms(2)])
  with alt assms(2) show ?thesis using append_keeps_feeds receive_keeps(6) by metis
qed

text \<open>The bytes a stored message is given out with.\<close>

lemma stored_raw:
  assumes "feedlog_inv s" and "json_reads e" and "log_Append e txs l c (Some md) s = (Inr k, s')" and "keeps_raw raw md" and "raw \<noteq> []"
  shows "\<exists>m. log_Get e l k s' = Inr m \<and> SRawValue m = raw \<and> SMessageFormat m = MessageFormat md"
proof -
  from assms(4) obtain r where r: "CanonicalRef md = MessageRef_String r" "msg_algo_known (msg_algo r)" "RawValue md = raw"
    "MessageFormat md \<in> {''sha256'', ''bendybutt-v1''}" by (auto simp: keeps_raw_def)
  have "\<not> blank (MessageFormat md)" "TrimSpace (MessageFormat md) = MessageFormat md"
    using r(4) by (auto simp: not_blank intro!: TrimSpace_solid) (simp_all add: solid_def space_runes_def)
  then have "TrimSpace (normal_message_format (md\<lparr>FeedFormat := normal_feed_format md\<rparr>)) = MessageFormat md"
    by (simp add: normal_message_format_def Let_def)
  with append_get [OF assms(1-3)] message_ref_shape [of r] r(1-3) show ?thesis by metis
qed

lemma GetMessage_raw:
  assumes "retry_from (io_get io) 0" and "feed_id_of s (FeedRef_String a) = Some l" and "log_Get e l k s = Inr m" and "SRawValue m = raw"
    and "raw \<noteq> []" and "SMessageFormat m \<in> {''sha256'', ''bendybutt-v1''}"
  shows "GetMessage e io decode marsh s a k = Inr raw"
proof -
  have "TrimSpace ''sha256'' = ''sha256''" by (rule TrimSpace_solid) (simp_all add: solid_def space_runes_def)
  with assms show ?thesis by (auto simp: GetMessage_def multiLog_Get_def ClassicSignedMessageRaw_def Let_def)
qed

lemma replicated_row:
  assumes "feedlog_inv s" and "json_reads e" and "AppendReplicatedMessage e io decode mb verify vf raw s = (Inr (a, n), s')"
    and "feed_id_of s' (FeedRef_String a) = Some l" and "rows_of l s' \<noteq> rows_of l s" and "n = int (length (rows_of l s'))" and "raw \<noteq> []"
  shows "\<exists>m. log_Get e l n s' = Inr m \<and> SRawValue m = raw \<and> SMessageFormat m \<in> {''sha256'', ''bendybutt-v1''}"
proof -
  obtain seq c md where st: "store_replicated e io vf a seq c raw md s = (Inr (a, n), s')" "keeps_raw raw md"
    using AppendReplicated_stores [OF assms(3)] by metis
  obtain l' s1 where o: "open_log e io (FeedRef_String a) s = (Inr l', s1)"
    and alt: "(seq \<le> log_Seq l' s1 \<and> n = log_Seq l' s1 \<and> s' = s1) \<or>
     (log_Seq l' s1 < seq \<and> (0 \<le> log_Seq l' s1 \<longrightarrow> seq = log_Seq l' s1 + 1) \<and> n = seq \<and>
      (\<exists>k s2 k'. log_Append e (io_append io) l' c (Some md) s1 = (Inr k, s2) \<and>
         receive_Append e (io_receive io) vf raw (Some md) s2 = (Inr k', s')))"
    using store_replicated_Inr [OF st(1)] by metis
  have "s' \<noteq> s1" using assms(5) open_log_rows(1) [OF o] by auto
  with alt obtain k s2 k' where ap: "log_Append e (io_append io) l' c (Some md) s1 = (Inr k, s2)"
    and re: "receive_Append e (io_receive io) vf raw (Some md) s2 = (Inr k', s')" by blast
  have inv: "feedlog_inv s1" by (rule open_log_inv [OF o assms(1)])
  have "feed_id_of s' (FeedRef_String a) = Some l'"
    using open_log_cases [OF o] append_keeps_feeds [OF ap] receive_keeps(6) [OF re] by auto
  then have l: "l' = l" using assms(4) by simp
  from stored_raw [OF inv assms(2) ap st(2) assms(7)] obtain m where m: "log_Get e l k s2 = Inr m" "SRawValue m = raw"
    "SMessageFormat m = MessageFormat md" unfolding l by blast
  have "k = n" using append_Seq(1,4) [OF inv ap] l assms(6) receive_keeps(3) [OF re, of l] by auto
  then have "log_Get e l n s' = Inr m" using m(1) receive_keeps(5) [OF re] by simp
  moreover have "SMessageFormat m \<in> {''sha256'', ''bendybutt-v1''}" using m(3) st(2) by (simp add: keeps_raw_def)
  ultimately show ?thesis using m(2) by blast
qed

section \<open>Properties\<close>


text \<open>
  A message from a peer that is accepted into a log that is not empty is either one the log has
  already, and then no log changes, or the next one of its author: the log grows by exactly this
  message. The number that is returned, which the bridge announces to its peers, is then the
  number of the last message of the log.
\<close>

theorem replicated_in_order:
  assumes "feedlog_inv s" and "AppendReplicatedMessage e io decode mb verify vf raw s = (Inr (a, n), s')"
    and "feed_id_of s (FeedRef_String a) = Some l" and "rows_of l s \<noteq> []"
  shows "feedlog_inv s' \<and> log_Seq l s' = n \<and>
    ((n = log_Seq l s \<and> rows_of l s' = rows_of l s) \<or> (n = log_Seq l s + 1 \<and> (\<exists>r. rows_of l s' = rows_of l s @ [r])))"
proof -
  obtain l' where l': "feed_id_of s' (FeedRef_String a) = Some l'" "feedlog_inv s'"
    "(n = log_Seq l' s \<and> (\<forall>i. rows_of i s' = rows_of i s)) \<or>
     (log_Seq l' s < n \<and> (rows_of l' s \<noteq> [] \<longrightarrow> n = log_Seq l' s + 1) \<and> log_Seq l' s' = int (length (rows_of l' s)) + 1 \<and>
      (\<exists>r. rows_of l' s' = rows_of l' s @ [r]))"
    using replicated_outcome [OF assms(2,1)] by metis
  have "feed_id_of s' (FeedRef_String a) = feed_id_of s (FeedRef_String a)" using replicated_feed_kept [OF assms(2)] assms(3) by simp
  with l'(1) assms(3) have "l' = l" by simp
  with l' assms(1,4) show ?thesis by (auto simp: log_Seq_length)
qed

text \<open>C22:
  A message from a peer is passed on byte for byte: when it has been appended to its author's log
  with the number it carries, asking for that number returns exactly the bytes received.
\<close>

theorem replicated_bytes_kept:
  assumes "feedlog_inv s" and "json_reads e" and "AppendReplicatedMessage e io decode mb verify vf raw s = (Inr (a, n), s')"
    and "feed_id_of s' (FeedRef_String a) = Some l" and "rows_of l s' \<noteq> rows_of l s" and "n = int (length (rows_of l s'))" and "raw \<noteq> []"
    and "retry_from (io_get io') 0"
  shows "GetMessage e io' decode' marsh s' a n = Inr raw"
proof -
  obtain m where m: "log_Get e l n s' = Inr m" "SRawValue m = raw" "SMessageFormat m \<in> {''sha256'', ''bendybutt-v1''}"
    using replicated_row [OF assms(1-7)] by blast
  show ?thesis by (rule GetMessage_raw [OF assms(8,4) m(1,2) assms(7) m(3)])
qed

text \<open>
  A message that is no classic message changes the database only if it is a BendyButt message whose
  signatures verify.
\<close>

theorem replicated_bendy_verified:
  assumes "ParseSignedMessageJSON decode raw = Inl err" and "snd (AppendReplicatedMessage e io decode mb verify vf raw s) \<noteq> s"
  shows "\<exists>m. FromStoredMessage raw = Inr m \<and> Bendy.Verify verify m = None"
  using AppendReplicated_cases [of e io decode mb verify vf raw s] assms by (cases) auto

text \<open>C23:
  A classic message with a bad signature is refused, but only after it was appended to its author's
  feed log: it stays there, counts as the last message of the feed, and is given out to other peers.
\<close>

theorem forged_message_stays:
  assumes "feedlog_inv s" and "json_reads e" and "ParseSignedMessageJSON decode raw = Inr (msg, c)" and "SignedMessageRefFromJSON (sha e) raw = Inr r"
    and "feed_id_of s (FeedRef_String (LegacyMessage.Author msg)) = Some l" and "LegacyMessage.Sequence msg = int (length (rows_of l s)) + 1"
    and "\<not> v raw (normalizeMetadata raw (Some (classic_metadata msg r raw)) True)"
    and "marshal e (c, metadataForValueJSON (normalizeMetadata c (Some (classic_metadata msg r raw)) False)) \<noteq> None"
    and "retry_from (io_get io) 0" and "retry_from (io_append io) 0" and "io_seq io" and "raw \<noteq> []"
  shows "\<exists>s'. AppendReplicatedMessage e io decode mb verify (Some v) raw s = (Inl (ReplReceive ErrSignature), s') \<and>
    log_Seq l s' = LegacyMessage.Sequence msg \<and>
    GetMessage e io decode' marsh s' (LegacyMessage.Author msg) (LegacyMessage.Sequence msg) = Inr raw"
proof -
  let ?md = "classic_metadata msg r raw" and ?a = "LegacyMessage.Author msg" and ?n = "LegacyMessage.Sequence msg"
  have o: "open_log e io (FeedRef_String ?a) s = (Inr l, s)" using assms(5,9) by (simp add: open_log_def multiLog_Get_def)
  have "append_ok (e, io_append io, c, Some ?md)" using assms(8,10) by (simp add: append_ok_def)
  then obtain k s2 where ap: "log_Append e (io_append io) l c (Some ?md) s = (Inr k, s2)"
    by (auto simp: append_ok_def log_Append_def Let_def split: option.splits)
  note sq = append_Seq [OF assms(1) ap]
  have k: "k = ?n" using sq(1) assms(6) by simp
  have "MessageFormat (normalizeMetadata raw (Some ?md) True) = ''sha256''"
    using not_blank(2) by (simp add: normalizeMetadata_def normal_message_format_def Let_def classic_metadata_def)
  then have re: "receive_Append e (io_receive io) (Some v) raw (Some ?md) s2 = (Inl ErrSignature, s2)"
    using assms(7) by (simp add: receive_Append_def Let_def)
  have "\<not> ?n \<le> log_Seq l s" "\<not> (log_Seq l s \<ge> 0 \<and> ?n \<noteq> log_Seq l s + 1)" using assms(6) log_Seq_length [OF assms(1), of l] by auto
  then have st: "AppendReplicatedMessage e io decode mb verify (Some v) raw s = (Inl (ReplReceive ErrSignature), s2)"
    using assms(3,4,11) o ap re by (simp add: AppendReplicatedMessage_def store_replicated_def Let_def)
  from stored_raw [OF assms(1,2) ap replicated_metadata(1) [OF assms(4)] assms(12)] obtain m
    where m: "log_Get e l k s2 = Inr m" "SRawValue m = raw" "SMessageFormat m = MessageFormat ?md" by blast
  have "GetMessage e io decode' marsh s2 ?a ?n = Inr raw"
    using GetMessage_raw [OF assms(9) _ m(1,2) assms(12)] m(3) append_keeps_feeds [OF ap] assms(5) k by (simp add: classic_metadata_def)
  with st sq(2) k show ?thesis by blast
qed

text \<open>
  A feed whose log is empty accepts a message with any number, but stores it as number 1. When the
  message carried a number above 1, every following message of that feed is refused as a gap.
\<close>

theorem late_start_blocks_feed:
  assumes "feedlog_inv s" and "AppendReplicatedMessage e io decode mb verify vf raw s = (Inr (a, n), s')" and "1 < n"
    and "feed_id_of s' (FeedRef_String a) = Some l" and "rows_of l s = []"
    and "ParseSignedMessageJSON decode raw' = Inr (msg', c')" and "SignedMessageRefFromJSON (sha e) raw' = Inr r'"
    and "LegacyMessage.Author msg' = a" and "LegacyMessage.Sequence msg' = n + 1" and "retry_from (io_get io') 0" and "io_seq io'"
  shows "log_Seq l s' = 1 \<and> AppendReplicatedMessage e io' decode mb verify vf raw' s' = (Inl (ReplGap 1 (n + 1)), s')"
proof -
  obtain l' where l': "feed_id_of s' (FeedRef_String a) = Some l'" "feedlog_inv s'"
    "(n = log_Seq l' s \<and> (\<forall>i. rows_of i s' = rows_of i s)) \<or>
     (log_Seq l' s < n \<and> (rows_of l' s \<noteq> [] \<longrightarrow> n = log_Seq l' s + 1) \<and> log_Seq l' s' = int (length (rows_of l' s)) + 1 \<and>
      (\<exists>r. rows_of l' s' = rows_of l' s @ [r]))"
    using replicated_outcome [OF assms(2,1)] by metis
  then have one: "log_Seq l s' = 1" using assms(3,4,5) log_Seq_length [OF assms(1), of l] by auto
  moreover have "open_log e io' (FeedRef_String a) s' = (Inr l, s')" using assms(4,10) by (simp add: open_log_def multiLog_Get_def)
  ultimately show ?thesis using assms(3,6-9,11) by (simp add: AppendReplicatedMessage_def store_replicated_def Let_def)
qed

section \<open>Instances\<close>

text \<open>A database whose rows are written in bencode, and whose transactions all succeed.\<close>

definition bj_value :: "string \<times> Metadata \<Rightarrow> bval" where
  "bj_value x = (case x of (c, md) \<Rightarrow> BList [BStr c, BStr (Metadata.Author md), BInt (Metadata.Sequence md), BStr (Metadata.Previous md),
     BInt (Metadata.Timestamp md), BStr (Sig md), BStr (Metadata.Hash md), BStr (MTangleName md), BStr (MRoot md), BList (map BStr (MParents md)),
     BStr (FeedFormat md), BStr (MessageFormat md), BStr (RawValue md), BStr (CanonicalRef md), BStr (ValidationStatus md)])"

fun text_of :: "bval \<Rightarrow> string" where "text_of (BStr s) = s" | "text_of _ = []"
fun int_of :: "bval \<Rightarrow> int" where "int_of (BInt n) = n" | "int_of _ = 0"
fun items_of :: "bval \<Rightarrow> bval list" where "items_of (BList vs) = vs" | "items_of _ = []"

definition bj_read :: "string \<Rightarrow> (string \<times> Metadata option) option" where
  "bj_read d = (case DecodeBytes d of Inl _ \<Rightarrow> None
     | Inr v \<Rightarrow> (let f = (\<lambda>i. text_of (items_of v ! i)) in
         Some (f 0, Some \<lparr>Metadata.Author = f 1, Sequence = int_of (items_of v ! 2), Previous = f 3, Timestamp = int_of (items_of v ! 4), Sig = f 5,
           Hash = f 6, MTangleName = f 7, MRoot = f 8, MParents = map text_of (items_of (items_of v ! 9)), FeedFormat = f 10, MessageFormat = f 11,
           RawValue = f 12, CanonicalRef = f 13, ValidationStatus = f 14\<rparr>)))"

definition bj_env :: env where
  "bj_env = \<lparr>marshal = (\<lambda>x. if encodable (bj_value x) then (case Encode (bj_value x) of Inl _ \<Rightarrow> None | Inr b \<Rightarrow> Some b) else None),
     unmarshal = bj_read, marshal_strings = concat, unmarshal_strings = (\<lambda>s. [s]), sha = toy_sha, sha_hex = (\<lambda>s. s), now = 5\<rparr>"

definition ok_io :: io where
  "ok_io = \<lparr>io_get = (\<lambda>_. TxOk), io_create = (\<lambda>_. TxOk), io_seq = True, io_append = (\<lambda>_. TxOk), io_receive = (\<lambda>_. TxOk)\<rparr>"

lemma bj_json: "json_reads bj_env"
proof (unfold json_reads_def, intro allI impI)
  fix c md data
  assume a: "marshal bj_env (c, md) = Some data"
  then have e: "encodable (bj_value (c, md))" "Encode (bj_value (c, md)) = Inr data"
    by (auto simp: bj_env_def split: if_splits sum.splits)
  from DecodeBytes_encode [OF this] have "DecodeBytes data = Inr (bj_value (c, md))"
    by (simp add: bj_value_def comp_def)
  then show "unmarshal bj_env data = Some (c, Some md)"
    by (simp add: bj_env_def bj_read_def bj_value_def comp_def Let_def)
qed

lemma bj_marshal: "encodable (bj_value x) \<Longrightarrow> marshal bj_env x \<noteq> None"
  using encodable_encodes [of "bj_value x"] by (auto simp: bj_env_def Encode_def split: sum.splits)

lemma bj_sha: "sha bj_env = toy_sha"
  by (simp add: bj_env_def)

lemma ok_retry [simp]: "retry_from (\<lambda>_. TxOk) n"
  by (simp add: retry_from.simps)

lemma ok_io_simps [simp]: "io_get ok_io = (\<lambda>_. TxOk)" "io_create ok_io = (\<lambda>_. TxOk)" "io_seq ok_io" "io_append ok_io = (\<lambda>_. TxOk)"
  "io_receive ok_io = (\<lambda>_. TxOk)"
  by (simp_all add: ok_io_def)

text \<open>Messages as they arrive: compact JSON text with a given number.\<close>

definition wire :: "string \<Rightarrow> string" where
  "wire n = ''{'' @ quot @ ''previous'' @ quot @ '':null,'' @ quot @ ''author'' @ quot @ '':'' @ quot @ ''@'' @ replicate 43 CHR ''A'' @ ''=.ed25519'' @ quot @
     '','' @ quot @ ''sequence'' @ quot @ '':'' @ n @ '','' @ quot @ ''timestamp'' @ quot @ '':1,'' @ quot @ ''hash'' @ quot @ '':'' @ quot @ ''sha256'' @ quot @
     '','' @ quot @ ''content'' @ quot @ '':{'' @ quot @ ''a'' @ quot @ '':1},'' @ quot @ ''signature'' @ quot @ '':'' @ quot @ replicate 86 CHR ''A'' @
     ''==.sig.ed25519'' @ quot @ ''}''"

definition wire_author :: FeedRef where
  "wire_author = \<lparr>feed_algo = ''ed25519'', feed_id = replicate 32 (CHR 0x00)\<rparr>"

definition wire_content :: string where "wire_content = ''{'' @ quot @ ''a'' @ quot @ '':1}''"

definition wire_msg :: "int \<Rightarrow> string SignedMessage" where
  "wire_msg n = with_signature \<lparr>LegacyMessage.Previous = None, Author = wire_author, Sequence = n, Timestamp = 1, Hash = ''sha256'',
     Content = wire_content\<rparr> (replicate 64 (CHR 0x00))"

lemma wire_msg_simps [simp]:
  "LegacyMessage.Previous (wire_msg n) = None" "LegacyMessage.Author (wire_msg n) = wire_author" "LegacyMessage.Sequence (wire_msg n) = n"
  "LegacyMessage.Timestamp (wire_msg n) = 1" "SignedMessage.Signature (wire_msg n) = replicate 64 (CHR 0x00)"
  by (simp_all add: wire_msg_def with_signature_def)

definition wire_members :: "string \<Rightarrow> (string \<times> string) list" where
  "wire_members n = [(''previous'', ''null''), (''author'', quot @ ''@'' @ replicate 43 CHR ''A'' @ ''=.ed25519'' @ quot), (''sequence'', n),
     (''timestamp'', ''1''), (''hash'', quot @ ''sha256'' @ quot), (''content'', wire_content),
     (''signature'', quot @ replicate 86 CHR ''A'' @ ''==.sig.ed25519'' @ quot)]"

definition wire_json :: "int \<Rightarrow> signedMessageJSON" where
  "wire_json n = \<lparr>j_previous = None, j_author = wire_author, j_sequence = n, j_timestamp = 1, j_hash = ''sha256'', j_content = wire_content,
     j_signature = replicate 86 CHR ''A'' @ ''==.sig.ed25519''\<rparr>"

lemma wire_members_1: "raw_members (TrimSpace (wire ''1'')) = Some (wire_members ''1'')"
  by code_simp

lemma wire_object_1: "\<not> HasPrefix (skip_ws (TrimSpace (wire ''1''))) ''null''"
  by code_simp

lemma wire_stored_1: "store_members (wire_members ''1'') zero_json = Some (wire_json 1)"
  by code_simp

lemma wire_members_5: "raw_members (TrimSpace (wire ''5'')) = Some (wire_members ''5'')"
  by code_simp

lemma wire_object_5: "\<not> HasPrefix (skip_ws (TrimSpace (wire ''5''))) ''null''"
  by code_simp

lemma wire_stored_5: "store_members (wire_members ''5'') zero_json = Some (wire_json 5)"
  by code_simp

lemma wire_members_6: "raw_members (TrimSpace (wire ''6'')) = Some (wire_members ''6'')"
  by code_simp

lemma wire_object_6: "\<not> HasPrefix (skip_ws (TrimSpace (wire ''6''))) ''null''"
  by code_simp

lemma wire_stored_6: "store_members (wire_members ''6'') zero_json = Some (wire_json 6)"
  by code_simp

lemma wire_members_2: "raw_members (TrimSpace (wire ''2'')) = Some (wire_members ''2'')"
  by code_simp

lemma wire_object_2: "\<not> HasPrefix (skip_ws (TrimSpace (wire ''2''))) ''null''"
  by code_simp

lemma wire_stored_2: "store_members (wire_members ''2'') zero_json = Some (wire_json 2)"
  by code_simp

lemma wire_signature: "ParseSignatureString (replicate 86 CHR ''A'' @ ''==.sig.ed25519'') = Inr (replicate 64 (CHR 0x00))"
  by code_simp

lemma wire_trim: "TrimSpace wire_content = wire_content"
  by code_simp

lemma wire_parses_if:
  assumes "raw_members (TrimSpace (wire d)) = Some (wire_members d)" and "\<not> HasPrefix (skip_ws (TrimSpace (wire d))) ''null''"
    and "store_members (wire_members d) zero_json = Some (wire_json n)"
  shows "ParseSignedMessageJSON (\<lambda>x. x) (wire d) = Inr (wire_msg n, wire_content)"
  using assms by (simp add: ParseSignedMessageJSON_def parseSignedMessageJSONRaw_def wire_json_def wire_signature wire_trim Let_def
      wire_msg_def with_signature_def)

lemmas wire_parses = wire_parses_if [OF wire_members_1 wire_object_1 wire_stored_1]
  wire_parses_if [OF wire_members_5 wire_object_5 wire_stored_5] wire_parses_if [OF wire_members_6 wire_object_6 wire_stored_6]
  wire_parses_if [OF wire_members_2 wire_object_2 wire_stored_2]

lemma wire_not_Nil: "wire n \<noteq> []"
  by (simp add: wire_def)

lemma parsed_has_ref:
  assumes "ParseSignedMessageJSON decode raw = Inr x"
  shows "\<exists>r. SignedMessageRefFromJSON toy_sha raw = Inr r \<and> msg_algo r = ''sha256'' \<and> length (msg_hash r) = 32"
  using assms by (auto simp: ParseSignedMessageJSON_def SignedMessageRefFromJSON_def marshalSignedMessageJSON_def Let_def NewMessageRef_def
      HashMessage_def toy_sha_def RefAlgoMessageSSB1_def split: option.splits sum.splits)

lemma message_ref_length: "length (msg_hash r) = 32 \<Longrightarrow> msg_algo r = ''sha256'' \<Longrightarrow> length (MessageRef_String r) = 52"
  by (simp add: MessageRef_String_def length_EncodeToString StdEncoding_def)

lemma feed_ref_length: "length (feed_id f) = 32 \<Longrightarrow> feed_algo f = ''ed25519'' \<Longrightarrow> length (FeedRef_String f) = 53"
  by (simp add: FeedRef_String_def length_EncodeToString StdEncoding_def)

lemma wire_marshals:
  assumes "msg_algo r = ''sha256''" and "length (msg_hash r) = 32" and "0 \<le> n" and "n < 100" and "length c < 1000"
  shows "marshal bj_env (c, metadataForValueJSON (normalizeMetadata c (Some (classic_metadata (wire_msg n) r raw)) b)) \<noteq> None"
proof (rule bj_marshal)
  have "length (FeedRef_String wire_author) = 53" by (rule feed_ref_length) (simp_all add: wire_author_def)
  moreover note message_ref_length [OF assms(2,1)]
  ultimately show "encodable (bj_value (c, metadataForValueJSON (normalizeMetadata c (Some (classic_metadata (wire_msg n) r raw)) b)))"
    using assms(3-5) by (simp add: bj_value_def metadataForValueJSON_def normalize_keeps classic_metadata_def zero_Metadata_def)
qed

lemma wire_lengths: "length wire_content < 1000" "length (wire n) = length n + 257"
  by (simp_all add: wire_content_def wire_def quot_def)

text \<open>A database in which the feed is known and its log empty.\<close>

definition known_db :: db where
  "known_db = empty_db\<lparr>feed_rows := [\<lparr>f_id = 1, f_addr = FeedRef_String wire_author, f_created = 5\<rparr>], next_feed := 2\<rparr>"

lemma known_db_inv: "feedlog_inv known_db"
  by (simp add: feedlog_inv_def known_db_def empty_db_def numbered_def rows_of_def)

lemma known_db_feed: "feed_id_of known_db (FeedRef_String wire_author) = Some 1" "rows_of 1 known_db = []"
  by (simp_all add: known_db_def feed_id_of_def empty_db_def rows_of_def)

lemma accepted_next:
  assumes "ParseSignedMessageJSON (\<lambda>x. x) raw = Inr (wire_msg n, wire_content)" and "0 \<le> n" and "n < 100" and "length raw < 1000"
    and "feed_id_of s (FeedRef_String wire_author) = Some l" and "log_Seq l s = - 1 \<or> n = log_Seq l s + 1"
  shows "\<exists>s'. AppendReplicatedMessage bj_env ok_io (\<lambda>x. x) mb verify (Some (\<lambda>_ _. True)) raw s = (Inr (wire_author, n), s')"
proof -
  from parsed_has_ref [OF assms(1)] obtain r where r: "SignedMessageRefFromJSON toy_sha raw = Inr r" "msg_algo r = ''sha256''"
    "length (msg_hash r) = 32" by blast
  let ?md = "classic_metadata (wire_msg n) r raw"
  have o: "open_log bj_env ok_io (FeedRef_String wire_author) s = (Inr l, s)" using assms(5) by (simp add: open_log_def multiLog_Get_def)
  obtain k s2 where ap: "log_Append bj_env (\<lambda>_. TxOk) l wire_content (Some ?md) s = (Inr k, s2)"
    using wire_marshals [OF r(2,3) assms(2,3) wire_lengths(1), of raw False] by (auto simp: log_Append_def Let_def split: option.splits)
  have "marshal bj_env (raw, metadataForValueJSON (normalizeMetadata raw (Some ?md) True)) \<noteq> None"
    by (rule wire_marshals [OF r(2,3) assms(2-4)])
  then obtain k' s' where re: "receive_Append bj_env (\<lambda>_. TxOk) (Some (\<lambda>_ _. True)) raw (Some ?md) s2 = (Inr k', s')"
    by (auto simp: receive_Append_def Let_def split: option.splits)
  have "\<not> n \<le> log_Seq l s" "\<not> (log_Seq l s \<ge> 0 \<and> n \<noteq> log_Seq l s + 1)" using assms(2,6) by auto
  with assms(1) r(1) o ap re show ?thesis
    by (simp add: AppendReplicatedMessage_def store_replicated_def Let_def bj_sha)
qed

lemma known_db_Seq: "log_Seq 1 known_db = - 1"
  using log_Seq_length [OF known_db_inv, of 1] known_db_feed(2) by simp

theorem forged_message_stays_witness:
  "\<exists>s'. AppendReplicatedMessage bj_env ok_io (\<lambda>x. x) (\<lambda>_. None) (\<lambda>_ _ _. False) (Some (default_verifier (\<lambda>x. x) (\<lambda>_ _ _. False) toy_sha)) (wire ''1'') known_db
      = (Inl (ReplReceive ErrSignature), s') \<and>
    log_Seq 1 s' = 1 \<and> GetMessage bj_env ok_io (\<lambda>x. x) Some s' wire_author 1 = Inr (wire ''1'')"
proof -
  from parsed_has_ref [OF wire_parses(1)] obtain r where r: "SignedMessageRefFromJSON toy_sha (wire ''1'') = Inr r" "msg_algo r = ''sha256''"
    "length (msg_hash r) = 32" by blast
  have "\<not> default_verifier (\<lambda>x. x) (\<lambda>_ _ _. False) toy_sha (wire ''1'') (normalizeMetadata (wire ''1'') (Some (classic_metadata (wire_msg 1) r (wire ''1''))) True)"
    by (auto simp: default_verifier_def DefaultSignatureVerifier_Verify_def wire_parses Signature_Verify_def split: sum.splits)
  with forged_message_stays [OF known_db_inv bj_json wire_parses(1), of r 1 "default_verifier (\<lambda>x. x) (\<lambda>_ _ _. False) toy_sha" ok_io
      "\<lambda>_. None" "\<lambda>_ _ _. False" "\<lambda>x. x" Some]
    r wire_marshals [OF r(2,3) _ _ wire_lengths(1), of 1] wire_not_Nil known_db_feed
  show ?thesis by (simp add: bj_sha)
qed

theorem late_start_blocks_feed_witness:
  "\<exists>s'. AppendReplicatedMessage bj_env ok_io (\<lambda>x. x) (\<lambda>_. None) (\<lambda>_ _ _. True) (Some (\<lambda>_ _. True)) (wire ''5'') known_db = (Inr (wire_author, 5), s') \<and>
    log_Seq 1 s' = 1 \<and>
    AppendReplicatedMessage bj_env ok_io (\<lambda>x. x) (\<lambda>_. None) (\<lambda>_ _ _. True) (Some (\<lambda>_ _. True)) (wire ''6'') s' = (Inl (ReplGap 1 6), s')"
proof -
  let ?ap = "AppendReplicatedMessage bj_env ok_io (\<lambda>x. x) (\<lambda>_. None) (\<lambda>_ _ _. True) (Some (\<lambda>_ _. True))"
  from parsed_has_ref [OF wire_parses(3)] obtain r' where r': "SignedMessageRefFromJSON toy_sha (wire ''6'') = Inr r'" by blast
  obtain s' where s': "?ap (wire ''5'') known_db = (Inr (wire_author, 5), s')"
    using accepted_next [OF wire_parses(2) _ _ _ known_db_feed(1)] by (auto simp: wire_lengths known_db_Seq)
  have "feed_id_of s' (FeedRef_String wire_author) = Some 1" by (rule replicated_feed_kept [OF s' known_db_feed(1)])
  from late_start_blocks_feed [OF known_db_inv s' _ this known_db_feed(2) wire_parses(3), of r' ok_io] r' have
    "log_Seq 1 s' = 1 \<and> ?ap (wire ''6'') s' = (Inl (ReplGap 1 6), s')" by (simp add: bj_sha)
  with s' show ?thesis by blast
qed

text \<open>After the first message of the feed.\<close>

lemma first_stored:
  "\<exists>s1. AppendReplicatedMessage bj_env ok_io (\<lambda>x. x) (\<lambda>_. None) (\<lambda>_ _ _. True) (Some (\<lambda>_ _. True)) (wire ''1'') known_db = (Inr (wire_author, 1), s1) \<and>
     feed_id_of s1 (FeedRef_String wire_author) = Some 1 \<and> feedlog_inv s1 \<and> log_Seq 1 s1 = 1 \<and> length (rows_of 1 s1) = 1"
proof -
  obtain s1 where s1: "AppendReplicatedMessage bj_env ok_io (\<lambda>x. x) (\<lambda>_. None) (\<lambda>_ _ _. True) (Some (\<lambda>_ _. True)) (wire ''1'') known_db = (Inr (wire_author, 1), s1)"
    using accepted_next [OF wire_parses(1) _ _ _ known_db_feed(1)] by (auto simp: wire_lengths known_db_Seq)
  have f: "feed_id_of s1 (FeedRef_String wire_author) = Some 1" by (rule replicated_feed_kept [OF s1 known_db_feed(1)])
  obtain l where l: "feed_id_of s1 (FeedRef_String wire_author) = Some l" "feedlog_inv s1"
    "(1 = log_Seq l known_db \<and> (\<forall>i. rows_of i s1 = rows_of i known_db)) \<or>
     (log_Seq l known_db < 1 \<and> (rows_of l known_db \<noteq> [] \<longrightarrow> 1 = log_Seq l known_db + 1) \<and>
      log_Seq l s1 = int (length (rows_of l known_db)) + 1 \<and> (\<exists>r. rows_of l s1 = rows_of l known_db @ [r]))"
    using replicated_outcome [OF s1 known_db_inv] by metis
  with f have "l = 1" by simp
  with l(2,3) have "feedlog_inv s1 \<and> log_Seq 1 s1 = 1 \<and> length (rows_of 1 s1) = 1" using known_db_Seq known_db_feed(2) by auto
  with s1 f show ?thesis by blast
qed

theorem replicated_in_order_witness:
  "\<exists>s1 s2. AppendReplicatedMessage bj_env ok_io (\<lambda>x. x) (\<lambda>_. None) (\<lambda>_ _ _. True) (Some (\<lambda>_ _. True)) (wire ''1'') known_db = (Inr (wire_author, 1), s1) \<and>
     AppendReplicatedMessage bj_env ok_io (\<lambda>x. x) (\<lambda>_. None) (\<lambda>_ _ _. True) (Some (\<lambda>_ _. True)) (wire ''2'') s1 = (Inr (wire_author, 2), s2) \<and>
     feedlog_inv s2 \<and> log_Seq 1 s2 = 2"
proof -
  obtain s1 where s1: "AppendReplicatedMessage bj_env ok_io (\<lambda>x. x) (\<lambda>_. None) (\<lambda>_ _ _. True) (Some (\<lambda>_ _. True)) (wire ''1'') known_db = (Inr (wire_author, 1), s1)"
    "feed_id_of s1 (FeedRef_String wire_author) = Some 1" "feedlog_inv s1" "log_Seq 1 s1 = 1" "length (rows_of 1 s1) = 1"
    using first_stored by blast
  obtain s2 where s2: "AppendReplicatedMessage bj_env ok_io (\<lambda>x. x) (\<lambda>_. None) (\<lambda>_ _ _. True) (Some (\<lambda>_ _. True)) (wire ''2'') s1 = (Inr (wire_author, 2), s2)"
    using accepted_next [OF wire_parses(4) _ _ _ s1(2)] s1(4) by (auto simp: wire_lengths)
  have "rows_of 1 s1 \<noteq> []" using s1(5) by auto
  from replicated_in_order [OF s1(3) s2 s1(2) this] s1(1) s2 show ?thesis by blast
qed

theorem replicated_bytes_kept_witness:
  "\<exists>s1. AppendReplicatedMessage bj_env ok_io (\<lambda>x. x) (\<lambda>_. None) (\<lambda>_ _ _. True) (Some (\<lambda>_ _. True)) (wire ''1'') known_db = (Inr (wire_author, 1), s1) \<and>
     GetMessage bj_env ok_io (\<lambda>x. x) Some s1 wire_author 1 = Inr (wire ''1'')"
proof -
  obtain s1 where s1: "AppendReplicatedMessage bj_env ok_io (\<lambda>x. x) (\<lambda>_. None) (\<lambda>_ _ _. True) (Some (\<lambda>_ _. True)) (wire ''1'') known_db = (Inr (wire_author, 1), s1)"
    "feed_id_of s1 (FeedRef_String wire_author) = Some 1" "length (rows_of 1 s1) = 1"
    using first_stored by blast
  have "rows_of 1 s1 \<noteq> rows_of 1 known_db" using s1(3) known_db_feed(2) by auto
  from replicated_bytes_kept [OF known_db_inv bj_json s1(1,2) this, of ok_io] s1(1,3) show ?thesis by (simp add: wire_not_Nil)
qed

definition plain_env :: env where
  "plain_env = \<lparr>marshal = (\<lambda>x. Some (fst x)), unmarshal = (\<lambda>_. None), marshal_strings = concat, unmarshal_strings = (\<lambda>s. [s]),
     sha = toy_sha, sha_hex = (\<lambda>s. s), now = 5\<rparr>"

lemma toy_bendy_replicates:
  "case toy_created of Inl _ \<Rightarrow> False | Inr m \<Rightarrow> (case EncodeBendy m of Inl _ \<Rightarrow> False
     | Inr b \<Rightarrow> (case ParseSignedMessageJSON (\<lambda>x. x) b of Inr _ \<Rightarrow> False | Inl _ \<Rightarrow> True) \<and>
         feed_rows (snd (AppendReplicatedMessage plain_env ok_io (\<lambda>x. x) (\<lambda>_. None) toy_verify None b empty_db)) \<noteq> [])"
  by code_simp

theorem replicated_bendy_verified_witness:
  "\<exists>b err m. ParseSignedMessageJSON (\<lambda>x. x) b = Inl err \<and>
     snd (AppendReplicatedMessage plain_env ok_io (\<lambda>x. x) (\<lambda>_. None) toy_verify None b empty_db) \<noteq> empty_db \<and>
     FromStoredMessage b = Inr m \<and> Bendy.Verify toy_verify m = None"
proof -
  from toy_bendy_replicates obtain b err where b: "ParseSignedMessageJSON (\<lambda>x. x) b = Inl err"
    "feed_rows (snd (AppendReplicatedMessage plain_env ok_io (\<lambda>x. x) (\<lambda>_. None) toy_verify None b empty_db)) \<noteq> []"
    by (auto split: sum.splits)
  then have "snd (AppendReplicatedMessage plain_env ok_io (\<lambda>x. x) (\<lambda>_. None) toy_verify None b empty_db) \<noteq> empty_db"
    by (auto simp: empty_db_def)
  with b(1) replicated_bendy_verified [OF b(1) this] show ?thesis by blast
qed




end
