(* ===== verification/EbtProps.thy ===== *)
theory EbtProps
  imports Ebt ReplicationProps
begin

text \<open>
  What the EBT code guarantees: notes survive their JSON form, the frontier agrees with the logs,
  notes that the peer knows are not sent again, streams start exactly where the peer stops and are
  polled with bounded delays; a feed that is behind catches up through the feed store. And where it
  goes wrong: feeds without messages are announced as unwanted, and overlapping sessions.
\<close>

section \<open>Notes\<close>

lemma int64_id: "- (2 ^ 63) \<le> i \<Longrightarrow> i < 2 ^ 63 \<Longrightarrow> int64 i = i"
  by (simp add: int64_def signed_take_bit_int_eq_self)

lemma note_int_eq:
  assumes "- (2 ^ 62) \<le> Seq n" and "Seq n < 2 ^ 62" and "Replicate n" and "Seq n \<noteq> - 1"
  shows "note_int n = (if Receive n then 2 * Seq n else 2 * Seq n + 1)"
proof -
  have "int64 (push_bit 1 (Seq n)) = 2 * Seq n"
    using int64_id [of "2 * Seq n"] assms(1,2) by (simp add: push_bit_eq_mult mult.commute)
  moreover have "2 * Seq n OR 1 = 2 * Seq n + 1" by (simp add: or_one_eq)
  ultimately show ?thesis using assms(3,4) by (simp add: note_int_def)
qed

lemma note_of_int:
  assumes "- (2 ^ 62) \<le> Seq n" and "Seq n < 2 ^ 62" and "Replicate n" and "Seq n \<noteq> - 1" and "TangleRootSeq n = 0"
  shows "note_of (note_int n) = n"
proof -
  have "Seq (note_of (note_int n)) = Seq n" "Receive (note_of (note_int n)) = Receive n" "Replicate (note_of (note_int n)) = Replicate n"
    using note_int_eq [OF assms(1-4)] assms(3,4) by (auto simp: note_of_def drop_bit_eq_div and_one_eq)
  then show ?thesis using assms(5) by (simp add: note_of_def)
qed

section \<open>Frontiers\<close>

lemma load_store: "store_frontier p f sm = Inr sm' \<Longrightarrow> loadFrontier sm' q = (if q = p then f else loadFrontier sm q)"
  by (auto simp: store_frontier_def loadFrontier_def gm_simps split: option.splits)

lemma SetFeedSeq_load:
  assumes "SetFeedSeq feed seq sm = Inr sm'" and "sm_self sm \<noteq> []"
  shows "loadFrontier sm' q = (if q = sm_self sm then gput (FeedRef_String feed) \<lparr>Seq = seq, Replicate = True, Receive = True, TangleRootSeq = 0\<rparr>
      (loadFrontier sm (sm_self sm)) else loadFrontier sm q)" and "sm_self sm' = sm_self sm" and "notified sm'"
proof -
  from assms obtain s2 where s2: "store_frontier (sm_self sm) (gput (FeedRef_String feed) \<lparr>Seq = seq, Replicate = True, Receive = True, TangleRootSeq = 0\<rparr>
      (loadFrontier sm (sm_self sm))) sm = Inr s2" "sm' = notify s2"
    by (auto simp: SetFeedSeq_def split: sum.splits)
  have "loadFrontier sm' q = loadFrontier s2 q" using s2(2) by (simp add: notify_def loadFrontier_def)
  with load_store [OF s2(1)] show "loadFrontier sm' q = (if q = sm_self sm then gput (FeedRef_String feed) \<lparr>Seq = seq, Replicate = True, Receive = True,
      TangleRootSeq = 0\<rparr> (loadFrontier sm (sm_self sm)) else loadFrontier sm q)" by simp
  show "sm_self sm' = sm_self sm" "notified sm'"
    using s2 by (auto simp: notify_def store_frontier_def split: option.splits)
qed

lemma SetFeedSeq_open: "frontiers sm \<noteq> None \<Longrightarrow> \<exists>sm'. SetFeedSeq feed seq sm = Inr sm' \<and> frontiers sm' \<noteq> None"
  by (auto simp: SetFeedSeq_def store_frontier_def notify_def split: sum.splits option.splits)

lemma map_of_fold_gput_note:
  "distinct (map fst upd) \<Longrightarrow> map_of (foldl (\<lambda>f (feed, note). gput feed note f) f0 upd) k = (case map_of upd k of None \<Rightarrow> map_of f0 k | Some n \<Rightarrow> Some n)"
proof (induction upd arbitrary: f0)
  case (Cons p upd)
  obtain a b where p: "p = (a, b)" by (cases p)
  have "map_of upd a = None" using Cons.prems p by (simp add: map_of_eq_None_iff)
  then show ?case using Cons.IH [of "gput a b f0"] Cons.prems p by (auto simp: gm_simps split: option.splits)
qed simp

lemma Changed_sub: "distinct (map fst (loadFrontier sm (FeedRef_String self))) \<Longrightarrow> distinct (map fst (Changed self peer sm))"
  by (auto simp: Changed_def Let_def distinct_map_filter split: option.splits)

lemma map_of_filter_key:
  "distinct (map fst m) \<Longrightarrow> map_of (filter (\<lambda>(k, v). P k v) m) k = (case map_of m k of None \<Rightarrow> None | Some v \<Rightarrow> if P k v then Some v else None)"
proof (induction m)
  case (Cons p m)
  obtain a b where p: "p = (a, b)" by (cases p)
  have "map_of m a = None" using Cons.prems p by (simp add: map_of_eq_None_iff)
  then show ?case using Cons p by (auto split: option.splits)
qed simp

lemma Changed_exact:
  assumes "distinct (map fst (loadFrontier sm (FeedRef_String self)))"
  shows "map_of (Changed self (Some peer) sm) feed =
    (case map_of (loadFrontier sm (FeedRef_String self)) feed of None \<Rightarrow> None
     | Some my \<Rightarrow> (case map_of (loadFrontier sm (FeedRef_String peer)) feed of None \<Rightarrow> Some my
         | Some their \<Rightarrow> if same_note my their then None else Some my))"
  unfolding Changed_def Let_def using map_of_filter_key [OF assms] by (auto split: option.splits)

text \<open>After the start, the own frontier has one note for every feed of the database, with the number of its last message.\<close>

definition log_note :: "db \<Rightarrow> string \<Rightarrow> Note" where
  "log_note s a = \<lparr>Seq = log_Seq (the (feed_id_of s a)) s, Replicate = True, Receive = True, TangleRootSeq = 0\<rparr>"

definition canonical :: "string \<Rightarrow> bool" where
  "canonical a \<longleftrightarrow> (\<forall>f. ParseFeedRef a = Inr f \<longrightarrow> FeedRef_String f = a)"

lemma init_notes:
  assumes "initialize_feeds txs s ids sm = Inr sm'" and "retry_from txs 0" and "sm_self sm \<noteq> []"
    and "\<And>a. a \<in> set ids \<Longrightarrow> feed_id_of s a \<noteq> None \<and> canonical a"
  shows "sm_self sm' = sm_self sm \<and> map_of (loadFrontier sm' (sm_self sm)) a =
    (if a \<in> set ids \<and> (\<exists>f. ParseFeedRef a = Inr f) then Some (log_note s a) else map_of (loadFrontier sm (sm_self sm)) a)"
  using assms
proof (induction ids arbitrary: sm)
  case (Cons x ids)
  from Cons.prems(4) [of x] obtain l where l: "feed_id_of s x = Some l" "canonical x" by auto
  then have g: "multiLog_Get txs s x = Inr l" using Cons.prems(2) by (simp add: multiLog_Get_def)
  show ?case
  proof (cases "ParseFeedRef x")
    case (Inl e)
    with Cons.prems(1) g have i: "initialize_feeds txs s ids sm = Inr sm'" by simp
    from Cons.IH [OF i Cons.prems(2,3)] Cons.prems(4) Inl show ?thesis by auto
  next
    case (Inr f)
    then have fx: "FeedRef_String f = x" using l(2) by (simp add: canonical_def)
    from Cons.prems(1) g Inr obtain sm1 where s1: "SetFeedSeq f (log_Seq l s) sm = Inr sm1" "initialize_feeds txs s ids sm1 = Inr sm'"
      by (auto simp: initializeFeed_def split: sum.splits)
    note ld = SetFeedSeq_load [OF s1(1) Cons.prems(3)]
    have "map_of (loadFrontier sm1 (sm_self sm)) a = (if a = x then Some (log_note s x) else map_of (loadFrontier sm (sm_self sm)) a)"
      using ld(1) [of "sm_self sm"] l(1) fx by (simp add: gm_simps log_note_def)
    with Cons.IH [OF s1(2) Cons.prems(2)] Cons.prems(3,4) ld(2) Inr show ?thesis by auto
  qed
qed simp

lemma set_gput_sub: "set (gput k v m) \<subseteq> insert (k, v) (set m)"
  by (induction m) (auto split: if_splits)

lemma init_replicated:
  assumes "initialize_feeds txs s ids sm = Inr sm'"
  shows "(b, v) \<in> set (loadFrontier sm' q) \<Longrightarrow> (b, v) \<in> set (loadFrontier sm q) \<or> Replicate v"
  using assms
proof (induction ids arbitrary: sm)
  case (Cons x ids)
  show ?case
  proof (cases "\<exists>l f sm1. multiLog_Get txs s x = Inr l \<and> ParseFeedRef x = Inr f \<and> SetFeedSeq f (log_Seq l s) sm = Inr sm1 \<and>
      initialize_feeds txs s ids sm1 = Inr sm'")
    case True
    then obtain l f sm1 where s1: "SetFeedSeq f (log_Seq l s) sm = Inr sm1" "initialize_feeds txs s ids sm1 = Inr sm'" by blast
    have "(b, v) \<in> set (loadFrontier sm q) \<or> Replicate v" if "(b, v) \<in> set (loadFrontier sm1 q)"
    proof (cases "sm_self sm = []")
      case True
      then show ?thesis using s1(1) that by (simp add: SetFeedSeq_def)
    next
      case False
      show ?thesis using SetFeedSeq_load(1) [OF s1(1) False, of q] that set_gput_sub by (fastforce split: if_splits)
    qed
    with Cons.IH [OF Cons.prems(1) s1(2)] show ?thesis by blast
  next
    case False
    then have "initialize_feeds txs s ids sm = Inr sm'"
      using Cons.prems(2) by (auto simp: initializeFeed_def split: sum.splits)
    from Cons.IH [OF Cons.prems(1) this] show ?thesis .
  qed
qed simp

lemma init_frontier:
  assumes "InitializeFromFeedlog txs True (Some s) (NewStateMatrix (Some self)) = Inr sm" and "retry_from txs 0"
    and "\<forall>a \<in> set (map f_addr (feed_rows s)). canonical a"
  shows "map_of (loadFrontier sm (FeedRef_String self)) a =
      (if a \<in> set (map f_addr (feed_rows s)) \<and> (\<exists>f. ParseFeedRef a = Inr f) then Some (log_note s a) else None)"
    and "\<And>b v. (b, v) \<in> set (loadFrontier sm (FeedRef_String self)) \<Longrightarrow> Replicate v"
proof -
  let ?ids = "multiLog_List s" and ?m = "NewStateMatrix (Some self)"
  have set: "set ?ids = set (map f_addr (feed_rows s))" by (simp add: multiLog_List_def)
  have i: "initialize_feeds txs s ?ids ?m = Inr sm" using assms(1) by (simp add: InitializeFromFeedlog_def)
  have self: "sm_self ?m = FeedRef_String self" "sm_self ?m \<noteq> []" "loadFrontier ?m q = []" for q
    by (simp_all add: NewStateMatrix_def loadFrontier_def FeedRef_String_def)
  have "feed_id_of s b \<noteq> None \<and> canonical b" if "b \<in> set ?ids" for b
    using that assms(3) set feed_id_of_None [of s b] by blast
  then show "map_of (loadFrontier sm (FeedRef_String self)) a =
      (if a \<in> set (map f_addr (feed_rows s)) \<and> (\<exists>f. ParseFeedRef a = Inr f) then Some (log_note s a) else None)"
    using init_notes [OF i assms(2) self(2), of a] self(1,3) unfolding set by simp
  show "Replicate v" if "(b, v) \<in> set (loadFrontier sm (FeedRef_String self))" for b v
    using that init_replicated [OF i] self(3) by auto
qed

section \<open>Streams\<close>

definition streamed :: "duplex_out list \<Rightarrow> (FeedRef \<times> int) set" where
  "streamed out = {(f, q). \<exists>c. DStream f q c \<in> set out}"

definition due :: "frontier \<Rightarrow> frontier \<Rightarrow> (FeedRef \<times> int) set" where
  "due nf upd = {(f, q). \<exists>a their my. (a, their) \<in> set upd \<and> map_of nf a = Some my \<and> Receive their \<and> Seq their < Seq my \<and>
     ParseFeedRef a = Inr f \<and> q = Seq their + 1}"

lemma streamed_Cons: "streamed (DStream f q c # out) = insert (f, q) (streamed out)"
  by (auto simp: streamed_def)

lemma due_Cons:
  "due nf ((a, their) # upd) = due nf upd \<union>
     {(f, q). \<exists>my. map_of nf a = Some my \<and> Receive their \<and> Seq their < Seq my \<and> ParseFeedRef a = Inr f \<and> q = Seq their + 1}"
  by (auto simp: due_def)

lemma start_streams_due: "streamed (fst (start_streams sid nf upd ss)) = due nf upd"
proof (induction upd arbitrary: ss)
  case Nil
  then show ?case by (simp add: streamed_def due_def)
next
  case (Cons p upd)
  obtain a their where p: "p = (a, their)" by (cases p)
  show ?case
  proof (cases "\<exists>my f. map_of nf a = Some my \<and> Receive their \<and> Seq their < Seq my \<and> ParseFeedRef a = Inr f")
    case True
    then obtain my f where m: "map_of nf a = Some my" "Receive their" "Seq their < Seq my" "ParseFeedRef a = Inr f" by blast
    let ?s = "Subscribed sid a (fresh ss) (ss\<lparr>fresh := fresh ss + 1\<rparr>)"
    have "fst (start_streams sid nf (p # upd) ss) = DStream f (Seq their + 1) (fresh ss) # fst (start_streams sid nf upd ?s)"
      using p m by (simp add: Let_def split: prod.splits)
    with Cons.IH [of ?s] p m show ?thesis by (auto simp del: start_streams.simps simp add: streamed_Cons due_Cons)
  next
    case False
    then have "start_streams sid nf (p # upd) ss = start_streams sid nf upd ss"
      using p by (auto split: option.splits sum.splits)
    with Cons.IH [of ss] p False show ?thesis by (auto simp del: start_streams.simps simp add: due_Cons)
  qed
qed

lemma start_streams_only: "out \<in> set (fst (start_streams sid nf upd ss)) \<Longrightarrow> \<exists>f q c. out = DStream f q c"
  by (induction sid nf upd ss rule: start_streams.induct) (auto simp: Let_def split: option.splits if_splits sum.splits prod.splits)

section \<open>Polling\<close>

definition hist_ok :: "CreateHistArgs \<Rightarrow> moment list \<Rightarrow> hist \<Rightarrow> bool" where
  "hist_ok arg ms h \<longleftrightarrow> retryDelay h \<in> {100, 200, 400, 800, 1600, 3200} \<and>
     h_next h = a_seq arg + int (length (h_out h)) \<and> (0 < a_limit arg \<longrightarrow> int (length (h_out h)) \<le> a_limit arg) \<and>
     (\<forall>i < length (h_out h). \<exists>m \<in> set ms. m_get m (a_seq arg + int i) = Found (h_out h ! i))"

lemma hist_ok_turn:
  assumes "hist_ok arg ms h"
  shows "hist_ok arg (ms @ [m]) (hist_turn arg m h)"
proof -
  have mono: "hist_ok arg (ms @ [m]) h" using assms by (auto simp: hist_ok_def)
  have w: "hist_ok arg (ms @ [m]) (hist_wait m h')" if "hist_ok arg (ms @ [m]) h'" for h'
    using that by (auto simp: hist_ok_def hist_wait_def)
  have upd: "hist_ok arg (ms @ [m]) (h\<lparr>retries := r\<rparr>)" "hist_ok arg (ms @ [m]) (h\<lparr>retries := r, h_end := x\<rparr>)" "hist_ok arg (ms @ [m]) (h\<lparr>h_end := x\<rparr>)"
    "hist_ok arg (ms @ [m]) (h\<lparr>retries := r, retryDelay := 100\<rparr>)" "hist_ok arg (ms @ [m]) (h\<lparr>retries := r, retryDelay := 100, startTime := t, h_end := x\<rparr>)"
    for r x t
    using mono by (simp_all add: hist_ok_def)
  have out: "hist_ok arg (ms @ [m]) (h\<lparr>retries := 0, retryDelay := 100, startTime := t, h_out := h_out h @ [d], h_next := h_next h + 1\<rparr>)"
    if "m_get m (h_next h) = Found d" "\<not> (a_limit arg > 0 \<and> int (length (h_out h)) \<ge> a_limit arg)" for t d
    using mono that by (auto simp: hist_ok_def nth_append less_Suc_eq)
  show ?thesis
    unfolding hist_turn_def Let_def using mono w upd out by (auto split: got.splits option.splits)
qed

lemma hist_ok_run: "hist_ok arg ms h \<Longrightarrow> hist_ok arg (ms @ ms') (foldl (\<lambda>h m. hist_turn arg m h) h ms')"
proof (induction ms' arbitrary: ms h)
  case (Cons m ms')
  from Cons.IH [OF hist_ok_turn [OF Cons.prems]] show ?case by simp
qed simp

text \<open>Waiting in vain: the start time stays, so the first moment more than a minute later ends the loop.\<close>

lemma hist_missing:
  assumes "\<And>n. m_get m n = Missing" and "h_end h = HRunning"
  shows "h_end (hist_turn arg m h) \<noteq> HRunning \<or> startTime (hist_turn arg m h) = startTime h"
  using assms by (auto simp: hist_turn_def hist_wait_def Let_def)

lemma hist_ended: "h_end h \<noteq> HRunning \<Longrightarrow> foldl (\<lambda>h m. hist_turn arg m h) h ms = h"
  by (induction ms) (simp_all add: hist_turn_def)

lemma hist_gives_up_run:
  assumes "\<And>m n. m \<in> set ms \<Longrightarrow> m_get m n = Missing" and "\<exists>m \<in> set ms. m_now m - startTime h > maxWaitTime"
  shows "h_end (foldl (\<lambda>h m. hist_turn arg m h) h ms) \<noteq> HRunning"
  using assms
proof (induction ms arbitrary: h)
  case (Cons m ms)
  show ?case
  proof (cases "h_end (hist_turn arg m h) = HRunning")
    case True
    then have r: "h_end h = HRunning" by (cases "h_end h = HRunning") (simp_all add: hist_turn_def)
    have st: "startTime (hist_turn arg m h) = startTime h" using hist_missing [of m h arg] Cons.prems(1) [of m] r True by simp
    have "\<not> m_now m - startTime h > maxWaitTime"
      using True r Cons.prems(1) [of m] by (auto simp: hist_turn_def Let_def split: if_splits)
    then show ?thesis using Cons.IH [of "hist_turn arg m h"] Cons.prems st by simp
  next
    case False
    then show ?thesis using hist_ended [of "hist_turn arg m h" arg ms] by simp
  qed
qed simp

section \<open>Sessions\<close>

lemma subs_Subscribed: "map_of (subs_of sid (Subscribed sid f c ss)) f = Some c"
  by (simp add: Subscribed_def Let_def subs_of_def gm_simps split: option.splits)

lemma open_Subscribed [simp]: "ses_open (Subscribed sid f c ss) = ses_open ss"
  by (simp add: Subscribed_def Let_def split: option.splits)

lemma open_Started: "Started addr ss = (sid, ss') \<Longrightarrow> map_of (ses_open ss') addr = Some sid"
  by (auto simp: Started_def Let_def gm_simps split: option.splits)

section \<open>Catching up\<close>

text \<open>A message that the feed store will take as number \<open>n\<close> of the feed \<open>a\<close>.\<close>

definition acceptable :: "env \<Rightarrow> (string \<Rightarrow> 'c) \<Rightarrow> verifier option \<Rightarrow> FeedRef \<Rightarrow> int \<Rightarrow> string \<Rightarrow> bool" where
  "acceptable e decode vf a n raw \<longleftrightarrow> raw \<noteq> [] \<and> Frontier_UnmarshalJSON raw = None \<and>
     (\<exists>msg c r. ParseSignedMessageJSON decode raw = Inr (msg, c) \<and> SignedMessageRefFromJSON (sha e) raw = Inr r \<and>
        LegacyMessage.Author msg = a \<and> LegacyMessage.Sequence msg = n \<and>
        (\<forall>v. vf = Some v \<longrightarrow> v raw (normalizeMetadata raw (Some (classic_metadata msg r raw)) True)) \<and>
        marshal e (c, metadataForValueJSON (normalizeMetadata c (Some (classic_metadata msg r raw)) False)) \<noteq> None \<and>
        marshal e (raw, metadataForValueJSON (normalizeMetadata raw (Some (classic_metadata msg r raw)) True)) \<noteq> None)"

definition io_works :: "io \<Rightarrow> bool" where
  "io_works io \<longleftrightarrow> retry_from (io_get io) 0 \<and> io_seq io \<and> retry_from (io_append io) 0 \<and> retry_from (io_receive io) 0"

lemma acceptable_stored:
  assumes "acceptable e decode vf a n raw" and "io_works io" and "feedlog_inv s" and "feed_id_of s (FeedRef_String a) = Some l"
    and "n = int (length (rows_of l s)) + 1"
  shows "\<exists>s'. AppendReplicatedMessage e io decode mb verify vf raw s = (Inr (a, n), s') \<and> feedlog_inv s' \<and>
    feed_id_of s' (FeedRef_String a) = Some l \<and> (\<exists>r. rows_of l s' = rows_of l s @ [r])"
proof -
  from assms(1) obtain msg c r where m: "ParseSignedMessageJSON decode raw = Inr (msg, c)" "SignedMessageRefFromJSON (sha e) raw = Inr r"
    "LegacyMessage.Author msg = a" "LegacyMessage.Sequence msg = n"
    "\<forall>v. vf = Some v \<longrightarrow> v raw (normalizeMetadata raw (Some (classic_metadata msg r raw)) True)"
    "marshal e (c, metadataForValueJSON (normalizeMetadata c (Some (classic_metadata msg r raw)) False)) \<noteq> None"
    "marshal e (raw, metadataForValueJSON (normalizeMetadata raw (Some (classic_metadata msg r raw)) True)) \<noteq> None"
    unfolding acceptable_def by blast
  let ?md = "classic_metadata msg r raw"
  have io: "retry_from (io_get io) 0" "io_seq io" "retry_from (io_append io) 0" "retry_from (io_receive io) 0"
    using assms(2) by (simp_all add: io_works_def)
  have o: "open_log e io (FeedRef_String a) s = (Inr l, s)" using assms(4) io(1) by (simp add: open_log_def multiLog_Get_def)
  obtain k s2 where ap: "log_Append e (io_append io) l c (Some ?md) s = (Inr k, s2)"
    using m(6) io(3) by (auto simp: log_Append_def Let_def split: option.splits)
  note sq = append_Seq [OF assms(3) ap]
  obtain k' s' where re: "receive_Append e (io_receive io) vf raw (Some ?md) s2 = (Inr k', s')"
    using m(5,7) io(4) by (cases vf) (auto simp: receive_Append_def Let_def split: option.splits)
  have "\<not> n \<le> log_Seq l s" "\<not> (log_Seq l s \<ge> 0 \<and> n \<noteq> log_Seq l s + 1)" using assms(5) log_Seq_length [OF assms(3), of l] by auto
  then have "AppendReplicatedMessage e io decode mb verify vf raw s = (Inr (a, n), s')"
    using m(1-4) io(2) o ap re by (simp add: AppendReplicatedMessage_def store_replicated_def Let_def)
  moreover have "feedlog_inv s'" using receive_inv [OF sq(3)] receive_Append_db [OF re] by metis
  moreover have "feed_id_of s' (FeedRef_String a) = Some l" using assms(4) append_keeps_feeds [OF ap] receive_keeps(6) [OF re] by simp
  moreover have "\<exists>r. rows_of l s' = rows_of l s @ [r]" using sq(4) receive_keeps(3) [OF re] by simp
  ultimately show ?thesis by blast
qed

lemma rows_get_kept:
  assumes "feedlog_inv s" and "feedlog_inv s'" and "prefix (rows_of l s) (rows_of l s')" and "log_Get e l n s = Inr m"
  shows "log_Get e l n s' = Inr m"
proof -
  from assms(4) obtain row where r: "find_row l n s = Some row" "read_row e False row = Inr m"
    by (auto simp: log_Get_def find_row_def split: option.splits)
  with fl.get_kept [OF assms(1-3) r(1)] show ?thesis by (simp add: log_Get_def find_row_def)
qed

lemma catches_up_step:
  assumes "acceptable e decode vf a n raw" and "io_works io" and "feedlog_inv (store st)" and "feed_id_of (store st) (FeedRef_String a) = Some l"
    and "n = int (length (rows_of l (store st))) + 1" and "frontiers (matrix st) \<noteq> None" and "sm_self (matrix st) \<noteq> []"
  shows "\<exists>st'. handle_bytes (AppendReplicatedMessage e io decode mb verify vf) self remote sid raw st = Inr ([], st') \<and>
    feedlog_inv (store st') \<and> feed_id_of (store st') (FeedRef_String a) = Some l \<and> (\<exists>r. rows_of l (store st') = rows_of l (store st) @ [r]) \<and>
    AppendReplicatedMessage e io decode mb verify vf raw (store st) = (Inr (a, n), store st') \<and>
    frontiers (matrix st') \<noteq> None \<and> sm_self (matrix st') = sm_self (matrix st) \<and>
    map_of (loadFrontier (matrix st') (sm_self (matrix st))) (FeedRef_String a) = Some \<lparr>Seq = n, Replicate = True, Receive = True, TangleRootSeq = 0\<rparr>"
proof -
  obtain s' where s': "AppendReplicatedMessage e io decode mb verify vf raw (store st) = (Inr (a, n), s')" "feedlog_inv s'"
    "feed_id_of s' (FeedRef_String a) = Some l" "\<exists>r. rows_of l s' = rows_of l (store st) @ [r]"
    using acceptable_stored [OF assms(1-5)] by blast
  obtain sm where sm: "SetFeedSeq a n (matrix st) = Inr sm" "frontiers sm \<noteq> None" using SetFeedSeq_open [OF assms(6)] by blast
  have "Frontier_UnmarshalJSON raw = None" using assms(1) by (simp add: acceptable_def)
  then have "handle_bytes (AppendReplicatedMessage e io decode mb verify vf) self remote sid raw st = Inr ([], st\<lparr>store := s', matrix := sm\<rparr>)"
    using s'(1) sm(1) by (simp add: handle_bytes_def)
  with s' sm SetFeedSeq_load [OF sm(1) assms(7)] show ?thesis by (simp add: gm_simps)
qed

lemma catches_up:
  "\<lbrakk>\<forall>i < length raws. acceptable e decode vf a (int (length (rows_of l (store st))) + 1 + int i) (raws ! i); io_works io; feedlog_inv (store st);
    feed_id_of (store st) (FeedRef_String a) = Some l; frontiers (matrix st) \<noteq> None; sm_self (matrix st) \<noteq> []; json_reads e\<rbrakk> \<Longrightarrow>
   \<exists>st'. handle_all (AppendReplicatedMessage e io decode mb verify vf) self remote sid raws st = Inr ([], st') \<and>
     feedlog_inv (store st') \<and> feed_id_of (store st') (FeedRef_String a) = Some l \<and> prefix (rows_of l (store st)) (rows_of l (store st')) \<and>
     length (rows_of l (store st')) = length (rows_of l (store st)) + length raws \<and>
     (raws \<noteq> [] \<longrightarrow> map_of (loadFrontier (matrix st') (sm_self (matrix st))) (FeedRef_String a) =
        Some \<lparr>Seq = int (length (rows_of l (store st')) ), Replicate = True, Receive = True, TangleRootSeq = 0\<rparr>) \<and>
     (\<forall>i < length raws. GetMessage e io decode' marsh (store st') a (int (length (rows_of l (store st))) + 1 + int i) = Inr (raws ! i))"
proof (induction raws arbitrary: st)
  case (Cons raw raws)
  let ?n = "int (length (rows_of l (store st))) + 1"
  have a0: "acceptable e decode vf a ?n raw" using Cons.prems(1) [rule_format, of 0] by simp
  from catches_up_step [OF a0 Cons.prems(2-4) refl Cons.prems(5,6)] obtain st1 r where st1:
    "handle_bytes (AppendReplicatedMessage e io decode mb verify vf) self remote sid raw st = Inr ([], st1)" "feedlog_inv (store st1)"
    "feed_id_of (store st1) (FeedRef_String a) = Some l" "rows_of l (store st1) = rows_of l (store st) @ [r]"
    "AppendReplicatedMessage e io decode mb verify vf raw (store st) = (Inr (a, ?n), store st1)"
    "frontiers (matrix st1) \<noteq> None" "sm_self (matrix st1) = sm_self (matrix st)"
    "map_of (loadFrontier (matrix st1) (sm_self (matrix st))) (FeedRef_String a) = Some \<lparr>Seq = ?n, Replicate = True, Receive = True, TangleRootSeq = 0\<rparr>"
    by blast
  have "\<forall>i < length raws. acceptable e decode vf a (int (length (rows_of l (store st1))) + 1 + int i) (raws ! i)"
  proof (intro allI impI)
    fix i
    assume "i < length raws"
    then show "acceptable e decode vf a (int (length (rows_of l (store st1))) + 1 + int i) (raws ! i)"
      using Cons.prems(1) [rule_format, of "Suc i"] st1(4) by (simp add: algebra_simps)
  qed
  from Cons.IH [OF this Cons.prems(2) st1(2,3,6) _ Cons.prems(7)] st1(7) Cons.prems(6) obtain st' where st':
    "handle_all (AppendReplicatedMessage e io decode mb verify vf) self remote sid raws st1 = Inr ([], st')"
    "feedlog_inv (store st')" "feed_id_of (store st') (FeedRef_String a) = Some l" "prefix (rows_of l (store st1)) (rows_of l (store st'))"
    "length (rows_of l (store st')) = length (rows_of l (store st1)) + length raws"
    "raws \<noteq> [] \<longrightarrow> map_of (loadFrontier (matrix st') (sm_self (matrix st))) (FeedRef_String a) =
        Some \<lparr>Seq = int (length (rows_of l (store st'))), Replicate = True, Receive = True, TangleRootSeq = 0\<rparr>"
    "\<forall>i < length raws. GetMessage e io decode' marsh (store st') a (int (length (rows_of l (store st1))) + 1 + int i) = Inr (raws ! i)"
    by auto
  obtain m where m: "log_Get e l ?n (store st1) = Inr m" "SRawValue m = raw" "SMessageFormat m \<in> {''sha256'', ''bendybutt-v1''}"
    using replicated_row [OF Cons.prems(3,7) st1(5,3)] st1(4) a0 by (auto simp: acceptable_def)
  have g0: "GetMessage e io decode' marsh (store st') a ?n = Inr raw"
    using GetMessage_raw [OF _ st'(3) rows_get_kept [OF st1(2) st'(2,4) m(1)] m(2) _ m(3)] a0 Cons.prems(2) by (auto simp: acceptable_def io_works_def)
  have "GetMessage e io decode' marsh (store st') a (int (length (rows_of l (store st))) + 1 + int i) = Inr ((raw # raws) ! i)"
    if "i < length (raw # raws)" for i
  proof (cases i)
    case (Suc j)
    with that st'(7) [rule_format, of j] st1(4) show ?thesis by (simp add: algebra_simps)
  qed (use g0 in simp)
  moreover have "map_of (loadFrontier (matrix st') (sm_self (matrix st))) (FeedRef_String a) =
      Some \<lparr>Seq = int (length (rows_of l (store st'))), Replicate = True, Receive = True, TangleRootSeq = 0\<rparr>"
    using st'(1,5,6) st1(4,8) by (cases "raws = []") auto
  moreover have "prefix (rows_of l (store st)) (rows_of l (store st'))" using st'(4) st1(4) by (auto simp: prefix_def)
  ultimately show ?case using st1(1,4) st'(1-3,5) by auto
qed simp

section \<open>Properties\<close>

text \<open>C24:
  A bridge that is behind catches up: when a peer streams the messages that follow its log of a feed,
  in order, the handler takes them all, the log then ends with the last of them, the own frontier
  announces exactly the length of the log, and each message is given out again with the bytes it
  arrived with.
\<close>

theorem ebt_catches_up:
  assumes "\<forall>i < length raws. acceptable e decode vf a (int (length (rows_of l (store st))) + 1 + int i) (raws ! i)" and "io_works io"
    and "feedlog_inv (store st)" and "feed_id_of (store st) (FeedRef_String a) = Some l" and "frontiers (matrix st) \<noteq> None"
    and "sm_self (matrix st) \<noteq> []" and "json_reads e" and "raws \<noteq> []"
  shows "\<exists>st'. handle_all (AppendReplicatedMessage e io decode mb verify vf) self remote sid raws st = Inr ([], st') \<and>
     length (rows_of l (store st')) = length (rows_of l (store st)) + length raws \<and>
     map_of (loadFrontier (matrix st') (sm_self (matrix st))) (FeedRef_String a) =
        Some \<lparr>Seq = int (length (rows_of l (store st'))), Replicate = True, Receive = True, TangleRootSeq = 0\<rparr> \<and>
     (\<forall>i < length raws. GetMessage e io decode' marsh (store st') a (int (length (rows_of l (store st))) + 1 + int i) = Inr (raws ! i))"
  using catches_up [OF assms(1-7), of mb verify self remote sid decode' marsh] assms(8) by blast

text \<open>
  A note about a feed that is replicated, with a number of 62 bits other than \<open>-1\<close>, is read back from
  its JSON form: the number, and whether messages are wanted.
\<close>

theorem note_round_trip:
  assumes "- (2 ^ 62) \<le> Seq n" and "Seq n < 2 ^ 62" and "Replicate n" and "Seq n \<noteq> - 1" and "TangleRootSeq n = 0"
  shows "ParseInt64 (Note_MarshalJSON n) = Some (note_int n) \<and> note_of (note_int n) = n"
proof -
  have "- (2 ^ 63) \<le> note_int n" "note_int n < 2 ^ 63" using note_int_eq [OF assms(1-4)] assms(1,2) by auto
  then show ?thesis using note_of_int [OF assms] by (simp add: Note_MarshalJSON_def ParseInt64_show_int)
qed

text \<open>
  After the start, the frontier of the bridge has for every feed of the database that has a proper
  address a note with the number of the last message of its log, and nothing else.
\<close>

theorem frontier_matches_log:
  assumes "InitializeFromFeedlog txs True (Some s) (NewStateMatrix (Some self)) = Inr sm" and "retry_from txs 0"
    and "\<forall>a \<in> set (map f_addr (feed_rows s)). canonical a"
  shows "map_of (Changed self None sm) a =
    (if a \<in> set (map f_addr (feed_rows s)) \<and> (\<exists>f. ParseFeedRef a = Inr f) then Some (log_note s a) else None)"
proof -
  have "Changed self None sm = loadFrontier sm (FeedRef_String self)"
    unfolding Changed_def Let_def using init_frontier(2) [OF assms] by (auto intro!: filter_True)
  with init_frontier(1) [OF assms, of a] show ?thesis by simp
qed

text \<open>
  A feed that is known but has no message yet is announced with the number \<open>-1\<close>, which its reader takes
  for a feed that is not wanted: no peer ever starts to stream it.
\<close>

theorem empty_feed_unwanted:
  assumes "InitializeFromFeedlog txs True (Some s) (NewStateMatrix (Some self)) = Inr sm" and "retry_from txs 0"
    and "\<forall>a \<in> set (map f_addr (feed_rows s)). canonical a" and "feed_id_of s (FeedRef_String f) = Some l" and "rows_of l s = []"
    and "ParseFeedRef (FeedRef_String f) = Inr f"
  shows "\<exists>n. map_of (loadFrontier sm (FeedRef_String self)) (FeedRef_String f) = Some n \<and> Receive n \<and> Note_MarshalJSON n = ''-1'' \<and>
    \<not> Receive (note_of (note_int n)) \<and> (\<forall>sid nf ss. start_streams sid nf [(FeedRef_String f, note_of (note_int n))] ss = ([], ss))"
proof -
  let ?n = "log_note s (FeedRef_String f)"
  have "FeedRef_String f \<in> set (map f_addr (feed_rows s))" using assms(4) feed_id_of_None [of s "FeedRef_String f"] by auto
  then have n: "map_of (loadFrontier sm (FeedRef_String self)) (FeedRef_String f) = Some ?n"
    using init_frontier(1) [OF assms(1-3)] assms(6) by simp
  have q: "Seq ?n = - 1" "Receive ?n" using assms(4,5) by (simp_all add: log_note_def log_Seq_def max_seq_def)
  then have ni: "note_int ?n = - 1" by (simp add: note_int_def)
  have "show_int (- 1) = ''-1''" "\<not> Receive (note_of (- 1))" by (code_simp, simp add: note_of_def)
  then show ?thesis using n q ni by (auto simp: Note_MarshalJSON_def split: option.splits)
qed

text \<open>
  Notes are not repeated: once the peer has announced the notes it was sent, nothing more is sent to
  it until something changes.
\<close>

theorem announced_notes_settle:
  assumes "Update (Some peer) (Changed self (Some peer) sm) sm = Inr sm'" and "FeedRef_String peer \<noteq> FeedRef_String self"
    and "distinct (map fst (loadFrontier sm (FeedRef_String self)))"
  shows "Changed self (Some peer) sm' = []"
proof -
  let ?me = "loadFrontier sm (FeedRef_String self)" and ?ch = "Changed self (Some peer) sm"
  have st: "store_frontier (FeedRef_String peer) (foldl (\<lambda>f (feed, note). gput feed note f) (loadFrontier sm (FeedRef_String peer)) ?ch) sm = Inr sm'"
    using assms(1) by (simp add: Update_def)
  have me: "loadFrontier sm' (FeedRef_String self) = ?me" using load_store [OF st] assms(2) by simp
  have d: "distinct (map fst ?ch)" by (rule Changed_sub [OF assms(3)])
  have peer: "map_of (loadFrontier sm' (FeedRef_String peer)) k =
      (case map_of ?ch k of None \<Rightarrow> map_of (loadFrontier sm (FeedRef_String peer)) k | Some n \<Rightarrow> Some n)" for k
    using load_store [OF st] map_of_fold_gput_note [OF d] by simp
  have "\<exists>their. map_of (loadFrontier sm' (FeedRef_String peer)) k = Some their \<and> same_note v their" if "(k, v) \<in> set ?me" for k v
  proof -
    have "map_of ?me k = Some v" using that assms(3) by simp
    then show ?thesis using peer [of k] Changed_exact [OF assms(3), of peer k] by (auto simp: same_note_def split: option.splits if_splits)
  qed
  then show ?thesis unfolding Changed_def Let_def me by (fastforce simp: filter_empty_conv split: option.splits)
qed

text \<open>
  When a peer announces a frontier, exactly those feeds are streamed to it that it wants and of which
  the bridge has more, each from the message after the last one the peer has.
\<close>

theorem streams_are_due:
  assumes "Frontier_UnmarshalJSON data = Some upd" and "handle_bytes app self (Some peer) sid data st = Inr (out, st')"
  shows "streamed out = due (loadFrontier (matrix st') (FeedRef_String self)) upd"
proof -
  from assms obtain sm ss out1 where h: "Update (Some peer) upd (matrix st) = Inr sm"
    "start_streams sid (loadFrontier sm (FeedRef_String self)) upd (sess st) = (out1, ss)" "out = out1 @ wants_out self (Some peer) sm" "matrix st' = sm"
    by (auto simp: handle_bytes_def Let_def split: sum.splits prod.splits)
  have "streamed out = streamed out1" by (auto simp: streamed_def h(3) wants_out_def Let_def)
  then show ?thesis using start_streams_due [of sid "loadFrontier sm (FeedRef_String self)" upd "sess st"] h(2,4) by simp
qed

text \<open>
  Two connections from one address share an entry: when the older one ends, the streams of the newer
  one are cancelled and its session is forgotten while it is still running.
\<close>

theorem overlapping_sessions:
  assumes "Started addr ss = (sid1, ss1)" and "Started addr ss1 = (sid2, ss2)"
  shows "c \<in> set (cancelled (Ended addr (Subscribed sid2 feed c ss2))) \<and> \<not> ghas addr (ses_open (Ended addr (Subscribed sid2 feed c ss2)))"
proof -
  have o: "map_of (ses_open (Subscribed sid2 feed c ss2)) addr = Some sid2" using open_Started [OF assms(2)] by simp
  moreover have "c \<in> set (map snd (subs_of sid2 (Subscribed sid2 feed c ss2)))"
    using map_of_SomeD [OF subs_Subscribed [of sid2 feed c ss2]] by force
  ultimately show ?thesis by (simp add: Ended_def gm_simps)
qed

text \<open>
  A history that is streamed to a peer is polled with delays between 100 and 3200 milliseconds and
  sends messages with consecutive numbers from the requested one on, at most the limit.
\<close>

theorem history_polling_bounded:
  "let h = createStreamHistory arg t0 ms in 100 \<le> retryDelay h \<and> retryDelay h \<le> 3200 \<and> h_next h = a_seq arg + int (length (h_out h)) \<and>
     (a_limit arg \<le> 0 \<or> int (length (h_out h)) \<le> a_limit arg) \<and>
     list_all (\<lambda>i. list_ex (\<lambda>m. m_get m (a_seq arg + int i) = Found (h_out h ! i)) ms) [0..<length (h_out h)]"
proof -
  have "hist_ok arg [] (hist_start arg t0)" by (simp add: hist_ok_def hist_start_def)
  from hist_ok_run [OF this, of ms] show ?thesis
    by (auto simp: createStreamHistory_def hist_ok_def Let_def list_all_iff list_ex_iff)
qed

text \<open>
  A live history whose next message does not come is given up at the first poll more than a minute
  after the last message.
\<close>

theorem history_gives_up:
  assumes "\<forall>m \<in> set ms. \<forall>n. m_get m n = Missing" and "\<exists>m \<in> set ms. m_now m - t0 > maxWaitTime"
  shows "h_end (createStreamHistory arg t0 ms) \<noteq> HRunning"
  unfolding createStreamHistory_def using assms by (intro hist_gives_up_run) (auto simp: hist_start_def)

section \<open>Instances\<close>

definition ebt_start :: "db \<Rightarrow> db ebt" where
  "ebt_start s = \<lparr>matrix = NewStateMatrix (Some toy_author), sess = NewSessions, store = s\<rparr>"

lemma wire_no_number: "ParseInt64 (quot @ ''@'' @ replicate 43 CHR ''A'' @ ''=.ed25519'' @ quot) = None"
  by (simp add: ParseInt64_def quot_def is_digit_def)

lemma wire_solid: "TrimSpace (wire d) = wire d"
  by (rule TrimSpace_solid) (simp_all add: wire_def quot_def solid_def space_runes_def)

lemma wire_frontier_if:
  assumes "raw_members (TrimSpace (wire d)) = Some (wire_members d)" and "\<not> HasPrefix (skip_ws (TrimSpace (wire d))) ''null''"
  shows "Frontier_UnmarshalJSON (wire d) = None"
proof -
  have "int_members (wire_members d) [] = None" using wire_no_number by (simp add: wire_members_def quot_def)
  then show ?thesis using assms by (simp add: Frontier_UnmarshalJSON_def json_int_map_def wire_solid)
qed

lemmas wire_no_frontier = wire_frontier_if [OF wire_members_1 wire_object_1] wire_frontier_if [OF wire_members_2 wire_object_2]

lemma wire_acceptable:
  assumes "ParseSignedMessageJSON (\<lambda>x. x) raw = Inr (wire_msg n, wire_content)" and "0 \<le> n" and "n < 100" and "length raw < 1000"
    and "Frontier_UnmarshalJSON raw = None" and "raw \<noteq> []"
  shows "acceptable bj_env (\<lambda>x. x) (Some (\<lambda>_ _. True)) wire_author n raw"
proof -
  from parsed_has_ref [OF assms(1)] obtain r where r: "SignedMessageRefFromJSON toy_sha raw = Inr r" "msg_algo r = ''sha256''"
    "length (msg_hash r) = 32" by blast
  show ?thesis
    unfolding acceptable_def
    using assms(1,5,6) r wire_marshals [OF r(2,3) assms(2,3) wire_lengths(1), of raw False] wire_marshals [OF r(2,3) assms(2-4), of raw True]
    by (auto simp: bj_sha)
qed

theorem ebt_catches_up_witness:
  "\<exists>st'. handle_all (AppendReplicatedMessage bj_env ok_io (\<lambda>x. x) (\<lambda>_. None) (\<lambda>_ _ _. True) (Some (\<lambda>_ _. True))) toy_author None 0
      [wire ''1'', wire ''2''] (ebt_start known_db) = Inr ([], st') \<and>
     map_of (loadFrontier (matrix st') (FeedRef_String toy_author)) (FeedRef_String wire_author) =
        Some \<lparr>Seq = 2, Replicate = True, Receive = True, TangleRootSeq = 0\<rparr> \<and>
     GetMessage bj_env ok_io (\<lambda>x. x) Some (store st') wire_author 2 = Inr (wire ''2'')"
proof -
  have a: "acceptable bj_env (\<lambda>x. x) (Some (\<lambda>_ _. True)) wire_author 1 (wire ''1'')"
    "acceptable bj_env (\<lambda>x. x) (Some (\<lambda>_ _. True)) wire_author 2 (wire ''2'')"
    by (rule wire_acceptable [OF wire_parses(1)], simp_all add: wire_lengths wire_no_frontier wire_not_Nil)
      (rule wire_acceptable [OF wire_parses(4)], simp_all add: wire_lengths wire_no_frontier wire_not_Nil)
  have s: "store (ebt_start known_db) = known_db" "matrix (ebt_start known_db) = NewStateMatrix (Some toy_author)" by (simp_all add: ebt_start_def)
  have "\<forall>i < length [wire ''1'', wire ''2'']. acceptable bj_env (\<lambda>x. x) (Some (\<lambda>_ _. True)) wire_author
      (int (length (rows_of 1 (store (ebt_start known_db)))) + 1 + int i) ([wire ''1'', wire ''2''] ! i)"
    using a known_db_feed(2) s by (simp add: less_Suc_eq)
  from ebt_catches_up [OF this, of ok_io "\<lambda>_. None" "\<lambda>_ _ _. True" toy_author None 0 "\<lambda>x. x" Some]
  obtain st' where st': "handle_all (AppendReplicatedMessage bj_env ok_io (\<lambda>x. x) (\<lambda>_. None) (\<lambda>_ _ _. True) (Some (\<lambda>_ _. True))) toy_author None 0
      [wire ''1'', wire ''2''] (ebt_start known_db) = Inr ([], st')"
    "length (rows_of 1 (store st')) = 2"
    "map_of (loadFrontier (matrix st') (FeedRef_String toy_author)) (FeedRef_String wire_author) =
        Some \<lparr>Seq = int (length (rows_of 1 (store st'))), Replicate = True, Receive = True, TangleRootSeq = 0\<rparr>"
    "\<forall>i < 2. GetMessage bj_env ok_io (\<lambda>x. x) Some (store st') wire_author (1 + int i) = Inr ([wire ''1'', wire ''2''] ! i)"
    using known_db_inv known_db_feed bj_json s by (auto simp: io_works_def NewStateMatrix_def FeedRef_String_def)
  from st'(4) [rule_format, of 1] st'(1-3) show ?thesis by auto
qed

theorem note_round_trip_witness:
  "ParseInt64 (Note_MarshalJSON \<lparr>Seq = 7, Replicate = True, Receive = False, TangleRootSeq = 0\<rparr>) = Some 15 \<and>
   note_of 15 = \<lparr>Seq = 7, Replicate = True, Receive = False, TangleRootSeq = 0\<rparr>"
proof -
  have "note_int \<lparr>Seq = 7, Replicate = True, Receive = False, TangleRootSeq = 0\<rparr> = 15" by code_simp
  then show ?thesis using note_round_trip [of "\<lparr>Seq = 7, Replicate = True, Receive = False, TangleRootSeq = 0\<rparr>"] by simp
qed

lemma known_db_canonical: "\<forall>a \<in> set (map f_addr (feed_rows known_db)). canonical a" "ParseFeedRef (FeedRef_String wire_author) = Inr wire_author"
proof -
  show p: "ParseFeedRef (FeedRef_String wire_author) = Inr wire_author"
    by (rule ParseFeedRef_String) (simp_all add: wire_author_def feed_algo_known_def RefAlgoFeedSSB1_def)
  show "\<forall>a \<in> set (map f_addr (feed_rows known_db)). canonical a" using p by (simp add: known_db_def canonical_def)
qed

lemma known_db_starts: "\<exists>sm. InitializeFromFeedlog (\<lambda>_. TxOk) True (Some known_db) (NewStateMatrix (Some toy_author)) = Inr sm"
proof -
  have "multiLog_List known_db = [FeedRef_String wire_author]" by (simp add: multiLog_List_def known_db_def)
  then show ?thesis
    using known_db_feed(1) known_db_canonical(2) SetFeedSeq_open [of "NewStateMatrix (Some toy_author)" wire_author "log_Seq 1 known_db"]
    by (auto simp: InitializeFromFeedlog_def multiLog_Get_def initializeFeed_def NewStateMatrix_def)
qed

theorem frontier_matches_log_witness:
  "\<exists>sm. InitializeFromFeedlog (\<lambda>_. TxOk) True (Some known_db) (NewStateMatrix (Some toy_author)) = Inr sm \<and>
     map_of (Changed toy_author None sm) (FeedRef_String wire_author) = Some (log_note known_db (FeedRef_String wire_author))"
proof -
  obtain sm where sm: "InitializeFromFeedlog (\<lambda>_. TxOk) True (Some known_db) (NewStateMatrix (Some toy_author)) = Inr sm" using known_db_starts by blast
  have "FeedRef_String wire_author \<in> set (map f_addr (feed_rows known_db))" by (simp add: known_db_def)
  with frontier_matches_log [OF sm ok_retry known_db_canonical(1), of "FeedRef_String wire_author"] known_db_canonical(2) sm show ?thesis by auto
qed

theorem empty_feed_unwanted_witness:
  "\<exists>sm n. InitializeFromFeedlog (\<lambda>_. TxOk) True (Some known_db) (NewStateMatrix (Some toy_author)) = Inr sm \<and>
     map_of (loadFrontier sm (FeedRef_String toy_author)) (FeedRef_String wire_author) = Some n \<and> Receive n \<and> Note_MarshalJSON n = ''-1''"
proof -
  obtain sm where sm: "InitializeFromFeedlog (\<lambda>_. TxOk) True (Some known_db) (NewStateMatrix (Some toy_author)) = Inr sm" using known_db_starts by blast
  from empty_feed_unwanted [OF sm ok_retry known_db_canonical(1) known_db_feed known_db_canonical(2)] sm show ?thesis by blast
qed

definition feed_text :: string where "feed_text = ''@'' @ replicate 43 CHR ''A'' @ ''=.ed25519''"

definition frontier_text :: string where "frontier_text = ''{'' @ quot @ feed_text @ quot @ '':4}''"

definition note_5 :: Note where "note_5 = \<lparr>Seq = 5, Replicate = True, Receive = True, TangleRootSeq = 0\<rparr>"

definition ebt_demo :: "db ebt" where
  "ebt_demo = (ebt_start known_db)\<lparr>matrix := (NewStateMatrix (Some toy_author))\<lparr>frontiers := Some [(FeedRef_String toy_author, [(feed_text, note_5)])]\<rparr>\<rparr>"

lemma frontier_text_read: "Frontier_UnmarshalJSON frontier_text = Some [(feed_text, note_of 4)]"
  by code_simp

lemma feed_text_parses: "ParseFeedRef feed_text = Inr wire_author"
  by code_simp

lemma authors_differ: "FeedRef_String wire_author \<noteq> FeedRef_String toy_author"
  using DecodeString_EncodeToString [of StdEncoding "feed_id wire_author"] DecodeString_EncodeToString [of StdEncoding "feed_id toy_author"]
  by (auto simp: FeedRef_String_def wire_author_def toy_author_def)

lemma demo_loads:
  "loadFrontier (matrix ebt_demo) (FeedRef_String toy_author) = [(feed_text, note_5)]" "loadFrontier (matrix ebt_demo) (FeedRef_String wire_author) = []"
  using authors_differ by (simp_all add: ebt_demo_def loadFrontier_def NewStateMatrix_def)

lemma demo_updates: "\<exists>sm. Update (Some wire_author) upd (matrix ebt_demo) = Inr sm"
  by (simp add: Update_def store_frontier_def ebt_demo_def)

theorem announced_notes_settle_witness:
  "\<exists>sm'. Update (Some wire_author) [(feed_text, note_5)] (matrix ebt_demo) = Inr sm' \<and> Changed toy_author (Some wire_author) (matrix ebt_demo) = [(feed_text, note_5)] \<and>
     Changed toy_author (Some wire_author) sm' = []"
proof -
  have c: "Changed toy_author (Some wire_author) (matrix ebt_demo) = [(feed_text, note_5)]" by (simp add: Changed_def demo_loads)
  obtain sm' where u: "Update (Some wire_author) (Changed toy_author (Some wire_author) (matrix ebt_demo)) (matrix ebt_demo) = Inr sm'"
    using demo_updates by blast
  have "distinct (map fst (loadFrontier (matrix ebt_demo) (FeedRef_String toy_author)))" by (simp add: demo_loads)
  from announced_notes_settle [OF u authors_differ this] u c show ?thesis by auto
qed

theorem streams_are_due_witness:
  "\<exists>out st'. handle_bytes (\<lambda>_ s. (Inl ReplReadSeq, s)) toy_author (Some wire_author) 0 frontier_text ebt_demo = Inr (out, st') \<and>
     streamed out = {(wire_author, 3)}"
proof -
  obtain sm where sm: "Update (Some wire_author) [(feed_text, note_of 4)] (matrix ebt_demo) = Inr sm" using demo_updates by blast
  obtain out1 ss where st: "start_streams 0 (loadFrontier sm (FeedRef_String toy_author)) [(feed_text, note_of 4)] (sess ebt_demo) = (out1, ss)"
    by fastforce
  have "\<exists>out st'. handle_bytes (\<lambda>_ s. (Inl ReplReadSeq, s)) toy_author (Some wire_author) 0 frontier_text ebt_demo = Inr (out, st') \<and> matrix st' = sm"
    by (simp add: handle_bytes_def frontier_text_read sm st del: start_streams.simps)
  then obtain out st' where h: "handle_bytes (\<lambda>_ s. (Inl ReplReadSeq, s)) toy_author (Some wire_author) 0 frontier_text ebt_demo = Inr (out, st')" "matrix st' = sm"
    by blast
  have l: "loadFrontier sm (FeedRef_String toy_author) = [(feed_text, note_5)]"
    using sm authors_differ by (auto simp: Update_def demo_loads dest: load_store [where q = "FeedRef_String toy_author"])
  have "due [(feed_text, note_5)] [(feed_text, note_of 4)] = {(wire_author, 3)}"
    by (auto simp: due_def note_of_def note_5_def feed_text_parses drop_bit_eq_div and_one_eq)
  with streams_are_due [OF frontier_text_read h(1)] h l show ?thesis by auto
qed

theorem overlapping_sessions_witness:
  "2 \<in> set (cancelled (Ended ''a'' (Subscribed 1 ''f'' 2 (snd (Started ''a'' (snd (Started ''a'' NewSessions)))))))"
proof -
  have "Started ''a'' NewSessions = (0, snd (Started ''a'' NewSessions))"
    "Started ''a'' (snd (Started ''a'' NewSessions)) = (1, snd (Started ''a'' (snd (Started ''a'' NewSessions))))"
    by (simp_all add: Started_def NewSessions_def Let_def)
  from overlapping_sessions [OF this, of 2 "''f''"] show ?thesis by blast
qed

theorem history_gives_up_witness:
  "h_end (createStreamHistory \<lparr>a_seq = 1, a_limit = - 1, a_live = True\<rparr> 0
     [\<lparr>m_get = (\<lambda>_. Missing), m_seqno = None, m_now = 100, m_done = False, m_write = True\<rparr>,
      \<lparr>m_get = (\<lambda>_. Missing), m_seqno = None, m_now = 60001, m_done = False, m_write = True\<rparr>]) \<noteq> HRunning"
  by (rule history_gives_up) (simp_all add: maxWaitTime_def)

end
