(* ===== verification/ReverseStore.thy ===== *)
theory ReverseStore
  imports Processor MessagePaging
begin

text \<open>
  \<open>internal/db/reverse_sync.go\<close>: the tables of the reverse direction, from SSB feeds to ATProto
  repositories. \<open>reverse_identity_mappings\<close> says which feed writes to which repository and what it may
  write; \<open>reverse_events\<close> has one row for each SSB message that was looked at. A blank nullable column
  reads back as the empty string. Times are nanoseconds.
\<close>

section \<open>Rows\<close>

record ReverseIdentityMapping =
  MapFeedID :: string
  MapDID :: string
  MapActive :: bool
  AllowPosts :: bool
  AllowReplies :: bool
  AllowFollows :: bool
  MapCreatedAt :: int
  MapUpdatedAt :: int

record ReverseEvent =
  SourceSSBMsgRef :: string
  SourceSSBAuthor :: string
  SourceSSBSeq :: "int option"
  ReceiveLogSeq :: int
  EventDID :: string
  Action :: string
  EventState :: string
  Attempts :: int
  LastAttemptAt :: "int option"
  EventPublishedAt :: "int option"
  ErrorText :: string
  EventDeferReason :: string
  TargetSSBRef :: string
  TargetSSBFeedID :: string
  TargetATDID :: string
  TargetATURI :: string
  TargetATCID :: string
  ResultATURI :: string
  ResultATCID :: string
  ResultCollection :: string
  RawSSBJSON :: string
  RawATJSON :: string
  EventCreatedAt :: int
  EventUpdatedAt :: int

definition ReverseActionPost :: string where "ReverseActionPost = ''post''"
definition ReverseActionReply :: string where "ReverseActionReply = ''reply''"
definition ReverseActionFollow :: string where "ReverseActionFollow = ''follow''"
definition ReverseActionUnfollow :: string where "ReverseActionUnfollow = ''unfollow''"
definition ReverseActionVote :: string where "ReverseActionVote = ''vote''"
definition ReverseActionAbout :: string where "ReverseActionAbout = ''about''"
definition ReverseActionRepost :: string where "ReverseActionRepost = ''repost''"

definition ReverseEventStatePending :: string where "ReverseEventStatePending = ''pending''"
definition ReverseEventStatePublished :: string where "ReverseEventStatePublished = ''published''"
definition ReverseEventStateFailed :: string where "ReverseEventStateFailed = ''failed''"
definition ReverseEventStateDeferred :: string where "ReverseEventStateDeferred = ''deferred''"
definition ReverseEventStateSkipped :: string where "ReverseEventStateSkipped = ''skipped''"

lemmas reverse_action_defs = ReverseActionPost_def ReverseActionReply_def ReverseActionFollow_def ReverseActionUnfollow_def
  ReverseActionVote_def ReverseActionAbout_def ReverseActionRepost_def

lemmas reverse_state_defs = ReverseEventStatePending_def ReverseEventStatePublished_def ReverseEventStateFailed_def
  ReverseEventStateDeferred_def ReverseEventStateSkipped_def

type_synonym mapping_table = "(string, ReverseIdentityMapping) gmap"
type_synonym event_table = "(string, ReverseEvent) gmap"

datatype reverse_db_error = FeedRequired | DIDRequired | RefRequired | AuthorRequired | ActionRequired

section \<open>Identity mappings\<close>

definition AddReverseIdentityMapping :: "int \<Rightarrow> ReverseIdentityMapping \<Rightarrow> mapping_table \<Rightarrow> reverse_db_error + mapping_table" where
  "AddReverseIdentityMapping now m t =
     (let feed = TrimSpace (MapFeedID m); did = TrimSpace (MapDID m)
      in if feed = [] then Inl FeedRequired
         else if did = [] then Inl DIDRequired
         else Inr (gput feed (m\<lparr>MapFeedID := feed, MapDID := did, MapUpdatedAt := now,
                MapCreatedAt := (case map_of t feed of None \<Rightarrow> now | Some old \<Rightarrow> MapCreatedAt old)\<rparr>) t))"

definition GetReverseIdentityMapping :: "string \<Rightarrow> mapping_table \<Rightarrow> ReverseIdentityMapping option" where
  "GetReverseIdentityMapping feed t = map_of t (TrimSpace feed)"

definition ListReverseIdentityMappings :: "mapping_table \<Rightarrow> ReverseIdentityMapping list" where
  "ListReverseIdentityMappings t = sort_key (\<lambda>m. (if MapActive m then 0 else 1 :: int, - MapUpdatedAt m, MapFeedID m)) (map snd t)"

definition RemoveReverseIdentityMapping :: "int \<Rightarrow> string \<Rightarrow> mapping_table \<Rightarrow> mapping_table" where
  "RemoveReverseIdentityMapping now feed t =
     (case map_of t (TrimSpace feed) of None \<Rightarrow> t | Some m \<Rightarrow> gput (TrimSpace feed) (m\<lparr>MapActive := False, MapUpdatedAt := now\<rparr>) t)"

text \<open>An active mapping decides first, then the newest active bridged account.\<close>

definition ResolveATDIDBySSBFeed :: "string \<Rightarrow> mapping_table \<Rightarrow> (string, BridgedAccount) gmap \<Rightarrow> string \<times> bool" where
  "ResolveATDIDBySSBFeed feed t accs =
     (let feed = TrimSpace feed
      in if feed = [] then ([], False)
         else case map_of t feed of
           Some m \<Rightarrow> if MapActive m then (MapDID m, True) else
             (case sort_key (\<lambda>a. - AccCreatedAt a) (filter (\<lambda>a. SSBFeedID a = feed \<and> Active a) (map snd accs)) of
                [] \<Rightarrow> ([], False) | a # _ \<Rightarrow> (AccDID a, True))
         | None \<Rightarrow>
             (case sort_key (\<lambda>a. - AccCreatedAt a) (filter (\<lambda>a. SSBFeedID a = feed \<and> Active a) (map snd accs)) of
                [] \<Rightarrow> ([], False) | a # _ \<Rightarrow> (AccDID a, True)))"

section \<open>Events\<close>

text \<open>The columns as they are stored: the nullable ones trimmed.\<close>

definition stored_event :: "ReverseEvent \<Rightarrow> ReverseEvent" where
  "stored_event e = e\<lparr>
     EventState := (if TrimSpace (EventState e) = [] then ReverseEventStatePending else EventState e),
     TargetSSBRef := TrimSpace (TargetSSBRef e), TargetSSBFeedID := TrimSpace (TargetSSBFeedID e),
     TargetATDID := TrimSpace (TargetATDID e), TargetATURI := TrimSpace (TargetATURI e), TargetATCID := TrimSpace (TargetATCID e),
     ResultATURI := TrimSpace (ResultATURI e), ResultATCID := TrimSpace (ResultATCID e), ResultCollection := TrimSpace (ResultCollection e)\<rparr>"

definition fresh_event :: "int \<Rightarrow> ReverseEvent \<Rightarrow> ReverseEvent" where
  "fresh_event now e = (stored_event e)\<lparr>EventUpdatedAt := now, EventCreatedAt := now\<rparr>"

text \<open>\<open>ON CONFLICT DO UPDATE\<close>: attempts add up and the creation time stays.\<close>

definition merge_event :: "int \<Rightarrow> ReverseEvent \<Rightarrow> ReverseEvent \<Rightarrow> ReverseEvent" where
  "merge_event now old e =
     (stored_event e)\<lparr>EventUpdatedAt := now, Attempts := Attempts old + Attempts e, EventCreatedAt := EventCreatedAt old\<rparr>"

definition put_event :: "int \<Rightarrow> ReverseEvent \<Rightarrow> event_table \<Rightarrow> event_table" where
  "put_event now e t =
     gput (SourceSSBMsgRef e) (case map_of t (SourceSSBMsgRef e) of None \<Rightarrow> fresh_event now e | Some old \<Rightarrow> merge_event now old e) t"

definition AddReverseEvent :: "int \<Rightarrow> ReverseEvent \<Rightarrow> event_table \<Rightarrow> reverse_db_error + event_table" where
  "AddReverseEvent now e t =
     (if TrimSpace (SourceSSBMsgRef e) = [] then Inl RefRequired
      else if TrimSpace (SourceSSBAuthor e) = [] then Inl AuthorRequired
      else if TrimSpace (EventDID e) = [] then Inl DIDRequired
      else if TrimSpace (Action e) = [] then Inl ActionRequired
      else Inr (put_event now e t))"

definition GetReverseEvent :: "string \<Rightarrow> event_table \<Rightarrow> ReverseEvent option" where
  "GetReverseEvent ref t = map_of t (TrimSpace ref)"

record ReverseEventListQuery =
  RQState :: string
  RQAction :: string
  RQSearch :: string
  RQLimit :: int

definition normalizeReverseEventListQuery :: "ReverseEventListQuery \<Rightarrow> ReverseEventListQuery" where
  "normalizeReverseEventListQuery q = q\<lparr>RQState := TrimSpace (RQState q), RQAction := TrimSpace (RQAction q), RQSearch := TrimSpace (RQSearch q),
     RQLimit := (let l = (if RQLimit q \<le> 0 then 200 else RQLimit q) in if l > 1000 then 1000 else l)\<rparr>"

definition ListReverseEvents :: "ReverseEventListQuery \<Rightarrow> event_table \<Rightarrow> ReverseEvent list" where
  "ListReverseEvents q t =
     (let q = normalizeReverseEventListQuery q; search = ''%'' @ RQSearch q @ ''%''
      in take (nat (RQLimit q)) (sort_key (\<lambda>e. (- ReceiveLogSeq e, - EventCreatedAt e))
           (filter (\<lambda>e. (RQState q = [] \<or> EventState e = RQState q) \<and> (RQAction q = [] \<or> Action e = RQAction q) \<and>
                (RQSearch q = [] \<or> like search (SourceSSBMsgRef e) \<or> like search (SourceSSBAuthor e) \<or> like search (EventDID e) \<or>
                 like search (TargetSSBFeedID e) \<or> like search (TargetATDID e) \<or> like search (ResultATURI e))) (map snd t))))"

definition ResetReverseEventForRetry :: "int \<Rightarrow> string \<Rightarrow> event_table \<Rightarrow> event_table" where
  "ResetReverseEventForRetry now ref t =
     (case map_of t (TrimSpace ref) of
        None \<Rightarrow> t
      | Some e \<Rightarrow> gput (TrimSpace ref) (e\<lparr>EventState := ReverseEventStatePending, ErrorText := [], EventDeferReason := [], EventUpdatedAt := now\<rparr>) t)"

definition published_follow :: "string \<Rightarrow> string \<Rightarrow> ReverseEvent \<Rightarrow> bool" where
  "published_follow did target e \<longleftrightarrow> EventDID e = TrimSpace did \<and> Action e = ReverseActionFollow \<and>
     EventState e = ReverseEventStatePublished \<and> TargetATDID e = TrimSpace target \<and> sql_trim (ResultATURI e) \<noteq> []"

definition GetLatestPublishedReverseFollow :: "string \<Rightarrow> string \<Rightarrow> event_table \<Rightarrow> ReverseEvent option" where
  "GetLatestPublishedReverseFollow did target t =
     (case sort_key (\<lambda>e. - coalesce (EventPublishedAt e) (EventUpdatedAt e)) (filter (published_follow did target) (map snd t)) of
        [] \<Rightarrow> None | e # _ \<Rightarrow> Some e)"


interpretation re: upsert_store SourceSSBMsgRef "fresh_event now" "merge_event now" "put_event now" map_of for now
  by unfold_locales (simp add: put_event_def gm_simps)

end
