(* ===== verification/AtSyntax.thy ===== *)
theory AtSyntax
  imports Go_Prelude "HOL-Library.Sublist"
begin

text \<open>
  \<open>pkg/atproto/syntax/syntax.go\<close>: DIDs, handles, NSIDs, record keys and AT URIs. The regular
  expressions are anchored and their classes do not overlap with what follows, so each is a
  predicate on the pieces between separators.
\<close>

section \<open>Character classes\<close>

definition is_lower :: "char \<Rightarrow> bool" where
  "is_lower c \<longleftrightarrow> 97 \<le> (of_char c :: nat) \<and> (of_char c :: nat) \<le> 122"

definition is_upper :: "char \<Rightarrow> bool" where
  "is_upper c \<longleftrightarrow> 65 \<le> (of_char c :: nat) \<and> (of_char c :: nat) \<le> 90"

definition is_letter :: "char \<Rightarrow> bool" where
  "is_letter c \<longleftrightarrow> is_lower c \<or> is_upper c"

definition alnum :: "char \<Rightarrow> bool" where
  "alnum c \<longleftrightarrow> is_letter c \<or> is_digit c"

text \<open>
  \<open>strings.ToLower\<close>. Besides the ASCII letters, U+212A becomes \<open>k\<close> and U+0130 becomes \<open>i\<close>; what it
  does to other runes is not ASCII before and after, and no pattern below accepts it.
\<close>

fun ToLower :: "string \<Rightarrow> string" where
  "ToLower [] = []"
| "ToLower (c # cs) =
     (if c = CHR 0xC4 \<and> cs \<noteq> [] \<and> hd cs = CHR 0xB0 then CHR ''i'' # ToLower (tl cs)
      else if c = CHR 0xE2 \<and> 2 \<le> length cs \<and> hd cs = CHR 0x84 \<and> cs ! 1 = CHR 0xAA then CHR ''k'' # ToLower (drop 2 cs)
      else (if is_upper c then char_of (of_char c + 32 :: nat) else c) # ToLower cs)"

section \<open>Identifiers\<close>

datatype syntax_error =
    EmptyInput | TooLong | BadFormat | ReservedKey | MissingScheme | MissingAuthority | EmptySegment
  | BadCollection syntax_error | BadRecordKey syntax_error | TooManySegments

definition didRegex :: "string \<Rightarrow> bool" where
  "didRegex s \<longleftrightarrow> HasPrefix s ''did:'' \<and>
     (let r = drop 4 s; meth = takeWhile is_lower r; body = tl (dropWhile is_lower r)
      in meth \<noteq> [] \<and> dropWhile is_lower r \<noteq> [] \<and> hd (dropWhile is_lower r) = CHR '':'' \<and> body \<noteq> [] \<and>
         list_all (\<lambda>c. alnum c \<or> c \<in> set ''._:%-'') body \<and> (alnum (last body) \<or> last body \<in> set ''._-''))"

definition plc_fast :: "string \<Rightarrow> bool" where
  "plc_fast raw \<longleftrightarrow> length raw = 32 \<and> HasPrefix raw ''did:plc:'' \<and> list_all alnum (drop 8 raw)"

definition ParseDID :: "string \<Rightarrow> syntax_error + string" where
  "ParseDID raw =
     (let raw = TrimSpace raw
      in if raw = [] then Inl EmptyInput
         else if length raw > 2048 then Inl TooLong
         else if plc_fast raw then Inr raw
         else if \<not> didRegex raw then Inl BadFormat
         else Inr raw)"

definition Method :: "string \<Rightarrow> string" where
  "Method d =
     (case split_first (CHR '':'') d of
        (_, None) \<Rightarrow> []
      | (_, Some r) \<Rightarrow> (case split_first (CHR '':'') r of (_, None) \<Rightarrow> [] | (meth, Some _) \<Rightarrow> meth))"

text \<open>A domain label: at most 63 letters, digits and hyphens, no hyphen at either end.\<close>

definition domain_label :: "string \<Rightarrow> bool" where
  "domain_label s \<longleftrightarrow> s \<noteq> [] \<and> length s \<le> 63 \<and> list_all (\<lambda>c. alnum c \<or> c = CHR ''-'') s \<and> alnum (hd s) \<and> alnum (last s)"

definition handleRegex :: "string \<Rightarrow> bool" where
  "handleRegex s \<longleftrightarrow>
     (let ls = split_on (CHR ''.'') s in 2 \<le> length ls \<and> list_all domain_label ls \<and> is_letter (hd (last ls)))"

definition ParseHandle :: "string \<Rightarrow> syntax_error + string" where
  "ParseHandle raw =
     (let raw = TrimSpace (ToLower raw)
      in if raw = [] then Inl EmptyInput
         else if length raw > 253 then Inl TooLong
         else if \<not> handleRegex raw then Inl BadFormat
         else Inr raw)"

definition TLD :: "string \<Rightarrow> string" where
  "TLD h = (let parts = split_on (CHR ''.'') h in if length parts < 2 then [] else last parts)"

definition AllowedTLD :: "string \<Rightarrow> bool" where
  "AllowedTLD h \<longleftrightarrow> TLD h \<notin> set [''local'', ''arpa'', ''invalid'', ''localhost'', ''internal'', ''example'', ''onion'', ''alt'']"

definition nsidRegex :: "string \<Rightarrow> bool" where
  "nsidRegex s \<longleftrightarrow>
     (let ls = split_on (CHR ''.'') s; name = last ls
      in 3 \<le> length ls \<and> list_all domain_label (butlast ls) \<and> is_letter (hd (hd ls)) \<and>
         name \<noteq> [] \<and> length name \<le> 63 \<and> is_letter (hd name) \<and> list_all alnum name)"

definition ParseNSID :: "string \<Rightarrow> syntax_error + string" where
  "ParseNSID raw =
     (let raw = TrimSpace raw
      in if raw = [] then Inl EmptyInput
         else if length raw > 317 then Inl TooLong
         else if \<not> nsidRegex raw then Inl BadFormat
         else Inr raw)"

definition recordKeyRegex :: "string \<Rightarrow> bool" where
  "recordKeyRegex s \<longleftrightarrow> s \<noteq> [] \<and> length s \<le> 512 \<and> list_all (\<lambda>c. alnum c \<or> c \<in> set ''_~.:-'') s"

definition ParseRecordKey :: "string \<Rightarrow> syntax_error + string" where
  "ParseRecordKey raw =
     (let raw = TrimSpace raw
      in if raw = [] then Inl EmptyInput
         else if raw = ''.'' \<or> raw = ''..'' then Inl ReservedKey
         else if length raw > 512 then Inl TooLong
         else if \<not> recordKeyRegex raw then Inl BadFormat
         else Inr raw)"

section \<open>AT URIs\<close>

record ATURI =
  authority :: string
  collection :: string
  recordKey :: string

definition parse_authority :: "string \<Rightarrow> syntax_error option" where
  "parse_authority a =
     (case (if HasPrefix a ''did:'' then ParseDID a else ParseHandle a) of Inl e \<Rightarrow> Some e | Inr _ \<Rightarrow> None)"

text \<open>The loop over the path segments, with the index of the segment.\<close>

fun parse_path :: "nat \<Rightarrow> string list \<Rightarrow> ATURI \<Rightarrow> syntax_error + ATURI" where
  "parse_path i [] u = Inr u"
| "parse_path i (part # parts) u =
     (if part = [] then Inl EmptySegment
      else if i = 0 then
        (case ParseNSID part of Inl e \<Rightarrow> Inl (BadCollection e) | Inr c \<Rightarrow> parse_path (Suc i) parts (u\<lparr>collection := c\<rparr>))
      else if i = 1 then
        (case ParseRecordKey part of Inl e \<Rightarrow> Inl (BadRecordKey e) | Inr k \<Rightarrow> parse_path (Suc i) parts (u\<lparr>recordKey := k\<rparr>))
      else Inl TooManySegments)"

definition cut_fragment :: "string \<Rightarrow> string" where
  "cut_fragment s = takeWhile (\<lambda>c. c \<noteq> CHR ''?'' \<and> c \<noteq> CHR 0x23) s"

definition ParseATURI :: "string \<Rightarrow> syntax_error + ATURI" where
  "ParseATURI raw =
     (let raw = TrimSpace raw
      in if length raw > 8192 then Inl TooLong
         else if \<not> HasPrefix raw ''at://'' then Inl MissingScheme
         else
           let rest = cut_fragment (TrimPrefix raw ''at://''); parts = split_on (CHR ''/'') rest
           in if rest = [] then Inl MissingAuthority
              else if hd parts = [] then Inl MissingAuthority
              else case parse_authority (hd parts) of Some e \<Rightarrow> Inl e
              | None \<Rightarrow> parse_path 0 (tl parts) \<lparr>authority = hd parts, collection = [], recordKey = []\<rparr>)"


section \<open>Trimming\<close>

lemma solid_class: "alnum c \<or> c \<in> set ''_~.:-%'' \<Longrightarrow> solid c"
  by (auto simp: solid_def space_runes_def alnum_def is_letter_def is_lower_def is_upper_def is_digit_def)

lemma trim_class: "s \<noteq> [] \<Longrightarrow> list_all (\<lambda>c. alnum c \<or> c \<in> set ''_~.:-%'') s \<Longrightarrow> TrimSpace s = s"
  by (intro TrimSpace_solid) (auto simp: list_all_iff intro!: solid_class)

lemma split_class:
  "list_all (list_all P) (split_on c s) \<Longrightarrow> P c \<Longrightarrow> list_all P s"
  by (induction c s rule: split_on.induct) (auto split: if_splits list.splits)

lemma label_class: "domain_label s \<Longrightarrow> list_all (\<lambda>c. alnum c \<or> c \<in> set ''_~.:-%'') s"
  by (auto simp: domain_label_def list_all_iff)

lemma nsid_class: "nsidRegex s \<Longrightarrow> list_all (\<lambda>c. alnum c \<or> c \<in> set ''_~.:-%'') s"
proof (rule split_class [of _ "CHR ''.''"])
  assume n: "nsidRegex s"
  let ?ls = "split_on (CHR ''.'') s"
  have "set ?ls = insert (last ?ls) (set (butlast ?ls))"
    by (metis append_butlast_last_id list.simps(15) rotate1.simps(2) set_rotate1 split_on_not_Nil)
  moreover have "list_all (\<lambda>c. alnum c \<or> c \<in> set ''_~.:-%'') (last ?ls)" using n by (auto simp: nsidRegex_def Let_def list_all_iff)
  moreover have "\<And>l. l \<in> set (butlast ?ls) \<Longrightarrow> list_all (\<lambda>c. alnum c \<or> c \<in> set ''_~.:-%'') l"
    using n by (intro label_class) (auto simp: nsidRegex_def Let_def list_all_iff)
  ultimately show "list_all (list_all (\<lambda>c. alnum c \<or> c \<in> set ''_~.:-%'')) ?ls" by (auto simp: list_all_iff)
qed simp

text \<open>What parses is the trimmed input, and parses again to itself.\<close>

lemma ParseNSID_again: "ParseNSID p = Inr c \<Longrightarrow> c = TrimSpace p \<and> nsidRegex c \<and> c \<noteq> [] \<and> ParseNSID c = Inr c \<and> solid (last c)"
  using trim_class [of c] nsid_class [of c] last_in_set [of c] solid_class [of "last c"]
  by (auto simp: ParseNSID_def Let_def list_all_iff split: if_splits)

lemma key_class: "recordKeyRegex s \<Longrightarrow> list_all (\<lambda>c. alnum c \<or> c \<in> set ''_~.:-%'') s"
  by (auto simp: recordKeyRegex_def list_all_iff)

lemma ParseRecordKey_again: "ParseRecordKey p = Inr k \<Longrightarrow> k = TrimSpace p \<and> recordKeyRegex k \<and> k \<noteq> [] \<and> k \<noteq> ''.'' \<and> k \<noteq> ''..'' \<and>
    ParseRecordKey k = Inr k \<and> solid (last k)"
  using trim_class [of k] key_class [of k] last_in_set [of k] solid_class [of "last k"]
  by (auto simp: ParseRecordKey_def Let_def list_all_iff split: if_splits)

section \<open>The path\<close>

lemma parse_path_cases:
  assumes "parse_path 0 ps \<lparr>authority = a, collection = [], recordKey = []\<rparr> = Inr u"
  shows "authority u = a \<and>
    (ps = [] \<and> collection u = [] \<and> recordKey u = [] \<or>
     (\<exists>p. ps = [p] \<and> ParseNSID p = Inr (collection u) \<and> recordKey u = []) \<or>
     (\<exists>p q. ps = [p, q] \<and> ParseNSID p = Inr (collection u) \<and> ParseRecordKey q = Inr (recordKey u)))"
proof (cases ps)
  case Nil
  then show ?thesis using assms by auto
next
  case (Cons p ps1)
  then show ?thesis
  proof (cases ps1)
    case Nil
    with Cons assms show ?thesis by (auto split: sum.splits if_splits)
  next
    case (Cons q ps2)
    with \<open>ps = p # ps1\<close> assms show ?thesis by (cases ps2) (auto split: sum.splits if_splits)
  qed
qed


lemma cut_fragment_free: "CHR ''?'' \<notin> set (cut_fragment s) \<and> CHR 0x23 \<notin> set (cut_fragment s)"
  by (auto simp: cut_fragment_def dest: set_takeWhileD)



lemma set_split_on: "p \<in> set (split_on c s) \<Longrightarrow> set p \<subseteq> set s"
proof (induction s arbitrary: p)
  case (Cons x s)
  obtain q qs where q: "split_on c s = q # qs" by (cases "split_on c s") auto
  with Cons show ?case by (fastforce split: if_splits)
qed simp

lemma length_split_on: "sum_list (map length (split_on c s)) + length (split_on c s) = length s + 1"
  by (induction c s rule: split_on.induct) (auto split: if_splits list.splits)

text \<open>The pieces of a parsed URI.\<close>

lemma ParseATURI_pieces:
  assumes "ParseATURI raw = Inr u"
  obtains ps where "parse_authority (authority u) = None" and "authority u \<noteq> []"
    and "set (authority u) \<inter> {CHR ''/'', CHR ''?'', CHR 0x23} = {}"
    and "parse_path 0 ps \<lparr>authority = authority u, collection = [], recordKey = []\<rparr> = Inr u"
    and "length (authority u) + sum_list (map length ps) + length ps + 5 \<le> 8192"
proof -
  let ?R = "TrimSpace raw" and ?rest = "cut_fragment (TrimPrefix (TrimSpace raw) ''at://'')"
  let ?parts = "split_on (CHR ''/'') ?rest"
  from assms have l: "length ?R \<le> 8192" and p: "HasPrefix ?R ''at://''" and h: "hd ?parts \<noteq> []" "parse_authority (hd ?parts) = None"
    and path: "parse_path 0 (tl ?parts) \<lparr>authority = hd ?parts, collection = [], recordKey = []\<rparr> = Inr u"
    by (auto simp: ParseATURI_def Let_def split: if_splits option.splits)
  have a: "authority u = hd ?parts" using parse_path_cases [OF path] by simp
  have hp: "hd ?parts \<in> set ?parts" by simp
  have free: "set (hd ?parts) \<inter> {CHR ''/'', CHR ''?'', CHR 0x23} = {}"
    using split_on_no_sep [OF hp] set_split_on [OF hp] cut_fragment_free [of "TrimPrefix ?R ''at://''"] by auto
  obtain r where r: "?R = ''at://'' @ r" using p by (auto simp: HasPrefix_iff)
  have "length ?rest \<le> length r" unfolding r cut_fragment_def TrimPrefix_append by (rule length_takeWhile_le)
  with l r have "length ?rest + 5 \<le> 8192" by simp
  moreover have "length (hd ?parts) + sum_list (map length (tl ?parts)) + length (tl ?parts) = length ?rest"
    using length_split_on [of "CHR ''/''" ?rest] by (cases ?parts) auto
  ultimately show ?thesis using that [of "tl ?parts"] h free path unfolding a by simp
qed





section \<open>Properties\<close>


text \<open>
  The fast path for \<open>did:plc\<close> identifiers changes nothing: \<open>ParseDID\<close> accepts exactly what the regular
  expression for DIDs accepts.
\<close>

theorem did_fast_path:
  "ParseDID raw =
     (let raw = TrimSpace raw
      in if raw = [] then Inl EmptyInput else if length raw > 2048 then Inl TooLong else if didRegex raw then Inr raw else Inl BadFormat)"
proof -
  have "didRegex s" if f: "plc_fast s" for s
  proof -
    from f obtain r where r: "s = ''did:plc:'' @ r" "list_all alnum r" "length r = 24" by (auto simp: plc_fast_def HasPrefix_iff)
    then have "r \<noteq> []" by auto
    with r show ?thesis by (auto simp: didRegex_def Let_def HasPrefix_def list_all_iff is_lower_def)
  qed
  then show ?thesis by (auto simp: ParseDID_def Let_def)
qed

text \<open>
  A parsed AT URI has a valid authority, an empty or valid collection, and a record key only together
  with a collection; a record key is valid and not reserved.
\<close>

theorem aturi_parts_valid:
  assumes "ParseATURI raw = Inr u"
  shows "parse_authority (authority u) = None \<and> (collection u = [] \<or> nsidRegex (collection u)) \<and>
    (recordKey u = [] \<or> collection u \<noteq> [] \<and> recordKeyRegex (recordKey u) \<and> recordKey u \<noteq> ''.'' \<and> recordKey u \<noteq> ''..'')"
proof -
  obtain ps where a: "parse_authority (authority u) = None"
    and path: "parse_path 0 ps \<lparr>authority = authority u, collection = [], recordKey = []\<rparr> = Inr u"
    using ParseATURI_pieces [OF assms(1)] by metis
  show ?thesis using a parse_path_cases [OF path] by (auto dest: ParseNSID_again ParseRecordKey_again)
qed

section \<open>Instances\<close>

definition post_uri :: string where
  "post_uri = ''at://did:plc:abcdefghijklmnopqrstuvwx/app.bsky.feed.post/3k2a''"

lemma post_uri_parses:
  "ParseATURI post_uri = Inr \<lparr>authority = ''did:plc:abcdefghijklmnopqrstuvwx'', collection = ''app.bsky.feed.post'', recordKey = ''3k2a''\<rparr>"
  by code_simp


theorem aturi_parts_valid_witness: "nsidRegex ''app.bsky.feed.post'' \<and> recordKeyRegex ''3k2a''"
  using aturi_parts_valid [OF post_uri_parses] by simp

text \<open>An authority with a blank at its end, accepted and kept, is lost in a round trip.\<close>

lemma aturi_keeps_blank:
  "ParseATURI ''at://bsky.app ?x'' = Inr \<lparr>authority = ''bsky.app '', collection = [], recordKey = []\<rparr>"
  by code_simp

end
