(* ===== verification/ReverseText.thy ===== *)
theory ReverseText
  imports Appbsky AtSyntax
begin

text \<open>
  The text handling of \<open>internal/bridge/reverse_sync.go\<close>: from the text and mentions of an SSB post to
  the text and facets of a Bluesky post. Positions are byte offsets. The regular expressions are
  matchers that give the length of the match at the front of a text; \<open>find_all\<close> is
  \<open>FindAllStringIndex\<close>, the leftmost matches that do not overlap.
\<close>

section \<open>Values\<close>

text \<open>A missing key gives \<open>nil\<close>.\<close>

definition stringValue :: "val option \<Rightarrow> string" where
  "stringValue v = (case v of None \<Rightarrow> [] | Some VNil \<Rightarrow> [] | Some v \<Rightarrow> Sprint v)"

text \<open>\<open>strings.EqualFold\<close>, for letters that fold to ASCII letters.\<close>

definition EqualFold :: "string \<Rightarrow> string \<Rightarrow> bool" where
  "EqualFold a b \<longleftrightarrow> fold_name a = fold_name b"

definition boolValue :: "val option \<Rightarrow> bool" where
  "boolValue v = (case v of Some (VBool b) \<Rightarrow> b | Some (VStr s) \<Rightarrow> EqualFold (TrimSpace s) ''true'' | _ \<Rightarrow> False)"

text \<open>Whether \<open>floatValue\<close> is above zero, from the printed form of a number.\<close>

definition floatValue_pos :: "val option \<Rightarrow> bool" where
  "floatValue_pos v = (case v of Some (VFloat s) \<Rightarrow> s \<noteq> ''0'' \<and> \<not> HasPrefix s ''-'' | Some (VInt i) \<Rightarrow> i > 0 | _ \<Rightarrow> False)"

fun firstNonBlank :: "string list \<Rightarrow> string" where
  "firstNonBlank [] = []"
| "firstNonBlank (v # vs) = (if TrimSpace v \<noteq> [] then TrimSpace v else firstNonBlank vs)"

definition isHTTPURL :: "string \<Rightarrow> bool" where
  "isHTTPURL v = (let v = TrimSpace (ToLower v) in HasPrefix v ''http://'' \<or> HasPrefix v ''https://'')"

definition normalizedReverseMentions :: "val option \<Rightarrow> msg list" where
  "normalizedReverseMentions raw =
     (case raw of
        Some (VMaps ms) \<Rightarrow> ms
      | Some (VList vs) \<Rightarrow> concat (map (\<lambda>v. case v of VMap m \<Rightarrow> [m] | _ \<Rightarrow> []) vs)
      | _ \<Rightarrow> [])"

section \<open>Ranges\<close>

type_synonym reverseByteRange = "nat \<times> nat"

definition rangeOverlaps :: "nat \<Rightarrow> nat \<Rightarrow> reverseByteRange list \<Rightarrow> bool" where
  "rangeOverlaps start stop occupied \<longleftrightarrow> stop \<le> start \<or> list_ex (\<lambda>(s, e). start < e \<and> stop > s) occupied"

function find_from :: "string \<Rightarrow> string \<Rightarrow> reverseByteRange list \<Rightarrow> nat \<Rightarrow> reverseByteRange option" where
  "find_from text token occupied searchFrom =
     (if \<not> searchFrom < length text then None
      else case from_sub token (drop searchFrom text) of
        None \<Rightarrow> None
      | Some t \<Rightarrow>
        (let start = length text - length t; stop = start + length token
         in if \<not> rangeOverlaps start stop occupied then Some (start, stop) else find_from text token occupied (start + 1)))"
  by pat_completeness auto
termination
proof (relation "measure (\<lambda>(text, _, _, n). length text - n)", goal_cases)
  case (2 x tok occ n t start stop)
  then obtain q where "drop n x = q @ t" using from_sub_Some by blast
  then have "length x - n = length q + length t" by (metis length_append length_drop)
  with 2 show ?case by auto
qed simp

declare find_from.simps [simp del]

definition findFirstNonOverlappingToken :: "string \<Rightarrow> string \<Rightarrow> reverseByteRange list \<Rightarrow> reverseByteRange option" where
  "findFirstNonOverlappingToken text token occupied =
     (let token = TrimSpace token in if token = [] \<or> text = [] then None else find_from text token occupied 0)"

section \<open>Regular expressions\<close>

fun find_all :: "(string \<Rightarrow> (nat \<times> 'a) option) \<Rightarrow> nat \<Rightarrow> nat \<Rightarrow> string \<Rightarrow> (nat \<times> nat \<times> 'a) list" where
  "find_all m off skip [] = []"
| "find_all m off (Suc k) (c # s) = find_all m (off + 1) k s"
| "find_all m off 0 (c # s) =
     (case m (c # s) of
        None \<Rightarrow> find_all m (off + 1) 0 s
      | Some (n, x) \<Rightarrow> (off, off + n, x) # find_all m (off + 1) (n - 1) s)"

definition re_space :: "char \<Rightarrow> bool" where
  "re_space c \<longleftrightarrow> c \<in> {CHR 0x09, CHR 0x0A, CHR 0x0C, CHR 0x0D, CHR '' ''}"

definition url_char :: "char \<Rightarrow> bool" where
  "url_char c \<longleftrightarrow> \<not> re_space c \<and> c \<notin> set ''<>()''"

definition reverseBareURLPattern :: "string \<Rightarrow> (nat \<times> unit) option" where
  "reverseBareURLPattern s =
     (case (if HasPrefix s ''https://'' then Some 8 else if HasPrefix s ''http://'' then Some 7 else None) of
        None \<Rightarrow> None
      | Some k \<Rightarrow> (let n = length (takeWhile url_char (drop k s)) in if n = 0 then None else Some (k + n, ())))"

definition reverseMarkdownBlobLinkPattern :: "string \<Rightarrow> (nat \<times> string) option" where
  "reverseMarkdownBlobLinkPattern s =
     (let b = (if HasPrefix s ''!'' then 1 else 0); s1 = drop b s
      in if \<not> HasPrefix s1 ''['' then None
         else let alt = takeWhile (\<lambda>c. c \<noteq> CHR '']'') (tl s1); s2 = drop (length alt) (tl s1)
           in if \<not> HasPrefix s2 ''](''  then None
              else let target = takeWhile (\<lambda>c. c \<noteq> CHR '')'' \<and> \<not> re_space c) (drop 2 s2); s3 = drop (length target) (drop 2 s2)
                in if target = [] \<or> \<not> HasPrefix s3 '')'' then None
                   else Some (b + 1 + length alt + 2 + length target + 1, target))"

text \<open>\<open>ReplaceAllString\<close> for a pattern of at least \<open>n\<close> characters of a class.\<close>

function collapse :: "(char \<Rightarrow> bool) \<Rightarrow> nat \<Rightarrow> string \<Rightarrow> string \<Rightarrow> string" where
  "collapse P n rep [] = []"
| "collapse P n rep (c # s) =
     (if P c then (let run = c # takeWhile P s in if n \<le> length run then rep else run) @ collapse P n rep (dropWhile P s)
      else c # collapse P n rep s)"
  by pat_completeness auto
termination
  by (relation "measure (\<lambda>(_, _, _, s). length s)") (auto simp: le_imp_less_Suc length_dropWhile_le)

definition reverseMultiSpacePattern :: "string \<Rightarrow> string" where
  "reverseMultiSpacePattern = collapse (\<lambda>c. c = CHR '' '' \<or> c = CHR 0x09) 2 '' ''"

definition reverseMultiBlankLinePattern :: "string \<Rightarrow> string" where
  "reverseMultiBlankLinePattern = collapse (\<lambda>c. c = CHR 0x0A) 3 [CHR 0x0A, CHR 0x0A]"

section \<open>Text\<close>

definition normalizeReversePostText :: "string \<Rightarrow> string" where
  "normalizeReversePostText text =
     (if text = [] then text
      else TrimSpace (reverseMultiBlankLinePattern
             (Join [CHR 0x0A] (map (\<lambda>line. TrimSpace (reverseMultiSpacePattern line)) (split_on (CHR 0x0A) text)))))"

fun strip_loop :: "string \<Rightarrow> string list \<Rightarrow> nat \<Rightarrow> (nat \<times> nat \<times> string) list \<Rightarrow> string" where
  "strip_loop text embedded l [] = drop l text"
| "strip_loop text embedded l ((wholeStart, wholeEnd, target) # ms) =
     (if TrimSpace target \<in> set embedded then take (wholeStart - l) (drop l text) @ strip_loop text embedded wholeEnd ms
      else strip_loop text embedded l ms)"

definition stripEmbeddedBlobMarkdown :: "string \<Rightarrow> string list \<Rightarrow> string" where
  "stripEmbeddedBlobMarkdown text embeddedRefs =
     (if embeddedRefs = [] \<or> text = [] then text
      else let matches = find_all reverseMarkdownBlobLinkPattern 0 0 text
           in if matches = [] then text else normalizeReversePostText (strip_loop text embeddedRefs 0 matches))"

section \<open>Facets\<close>

definition no_feature :: Features_Elem where
  "no_feature = \<lparr>FLink = None, FMention = None, FTag = None\<rparr>"

definition facet :: "reverseByteRange \<Rightarrow> Features_Elem \<Rightarrow> RichtextFacet" where
  "facet r f = \<lparr>Index = Some \<lparr>ByteStart = int (fst r), ByteEnd = int (snd r)\<rparr>, Features = [Some f]\<rparr>"

definition appendFacet ::
  "reverseByteRange \<Rightarrow> Features_Elem \<Rightarrow> reverseByteRange list \<times> RichtextFacet list \<Rightarrow> reverseByteRange list \<times> RichtextFacet list" where
  "appendFacet r f acc = (if snd r \<le> fst r then acc else (fst acc @ [r], snd acc @ [facet r f]))"

datatype facet_error = BlobRemained string | ResolveDID string

text \<open>What a mention asks for: nothing, or a token to be found in the text and a feature. \<open>resolve\<close> gives the DID of a feed.\<close>

definition mention_token :: "(string \<Rightarrow> (string \<times> bool) option) \<Rightarrow> string list \<Rightarrow> msg \<Rightarrow> facet_error + (string \<times> Features_Elem) option" where
  "mention_token resolve embedded mention =
     (let link = TrimSpace (stringValue (map_of mention ''link'')); name = TrimSpace (stringValue (map_of mention ''name''))
      in if link = [] then Inr None
         else if link \<in> set embedded then Inr None
         else if HasPrefix link ''&'' then Inl (BlobRemained link)
         else if HasPrefix link ''@'' then
           (case resolve link of
              None \<Rightarrow> Inl (ResolveDID link)
            | Some (atDID, ok) \<Rightarrow>
              if \<not> ok \<or> TrimSpace atDID = [] then Inr None else Inr (Some (firstNonBlank [name, link], no_feature\<lparr>FMention := Some atDID\<rparr>)))
         else if HasPrefix link [CHR 0x23] then
           (let tag = TrimSpace (TrimPrefix link [CHR 0x23])
            in if tag = [] then Inr None else Inr (Some (firstNonBlank [name, CHR 0x23 # tag], no_feature\<lparr>FTag := Some tag\<rparr>)))
         else if isHTTPURL link then Inr (Some (firstNonBlank [name, link], no_feature\<lparr>FLink := Some link\<rparr>))
         else Inr None)"

fun facet_mentions ::
  "(string \<Rightarrow> (string \<times> bool) option) \<Rightarrow> string \<Rightarrow> string list \<Rightarrow> msg list \<Rightarrow> reverseByteRange list \<times> RichtextFacet list \<Rightarrow>
   facet_error + reverseByteRange list \<times> RichtextFacet list" where
  "facet_mentions resolve text embedded [] acc = Inr acc"
| "facet_mentions resolve text embedded (mention # ms) acc =
     (case mention_token resolve embedded mention of
        Inl e \<Rightarrow> Inl e
      | Inr None \<Rightarrow> facet_mentions resolve text embedded ms acc
      | Inr (Some (token, feature)) \<Rightarrow>
        (case findFirstNonOverlappingToken text token (fst acc) of
           None \<Rightarrow> facet_mentions resolve text embedded ms acc
         | Some r \<Rightarrow> facet_mentions resolve text embedded ms (appendFacet r feature acc)))"

definition trim_url :: "string \<Rightarrow> string" where
  "trim_url s = rev (dropWhile (\<lambda>c. c \<in> set ''.,!?;:'') (rev s))"

fun facet_urls :: "string \<Rightarrow> (nat \<times> nat \<times> unit) list \<Rightarrow> reverseByteRange list \<times> RichtextFacet list \<Rightarrow> reverseByteRange list \<times> RichtextFacet list" where
  "facet_urls text [] acc = acc"
| "facet_urls text ((start, stop, u) # ms) acc =
     (let trimmedURL = trim_url (take (stop - start) (drop start text)); stop = start + length trimmedURL
      in if trimmedURL = [] \<or> rangeOverlaps start stop (fst acc) then facet_urls text ms acc
         else facet_urls text ms (appendFacet (start, stop) (no_feature\<lparr>FLink := Some trimmedURL\<rparr>) acc))"

definition buildReverseFacets ::
  "(string \<Rightarrow> (string \<times> bool) option) \<Rightarrow> string \<Rightarrow> msg list \<Rightarrow> string list \<Rightarrow> facet_error + RichtextFacet list" where
  "buildReverseFacets resolve text mentions embeddedRefs =
     (if TrimSpace text = [] \<and> mentions = [] then Inr []
      else case facet_mentions resolve text embeddedRefs mentions ([], []) of
        Inl e \<Rightarrow> Inl e
      | Inr acc \<Rightarrow> Inr (snd (facet_urls text (find_all reverseBareURLPattern 0 0 text) acc)))"

section \<open>Tokens\<close>

lemma find_map_Suc: "find P (map Suc xs) = map_option Suc (find (\<lambda>k. P (Suc k)) xs)"
  by (induction xs) auto

lemma find_upt_Suc: "find P [0..<Suc n] = (if P 0 then Some 0 else map_option Suc (find (\<lambda>k. P (Suc k)) [0..<n]))"
  by (simp add: upt_conv_Cons map_Suc_upt [symmetric] find_map_Suc del: upt_Suc)

lemma find_upt_shift: "find P [n..<n + k] = map_option ((+) n) (find (\<lambda>i. P (n + i)) [0..<k])"
proof (induction k arbitrary: n P)
  case (Suc k)
  show ?case
    using Suc [of P "Suc n"]
    by (simp add: upt_conv_Cons [of n] find_upt_Suc map_Suc_upt [symmetric] find_map_Suc option.map_comp comp_def del: upt_Suc)
qed simp

lemma from_sub_find:
  "p \<noteq> [] \<Longrightarrow> from_sub p s = map_option (\<lambda>k. drop k s) (find (\<lambda>k. HasPrefix (drop k s) p) [0..<length s])"
  by (induction s) (simp_all add: find_upt_Suc option.map_comp comp_def del: upt_Suc)

lemma from_sub_at:
  assumes "p \<noteq> []" and "n \<le> length s"
  shows "map_option (\<lambda>t. length s - length t) (from_sub p (drop n s)) = find (\<lambda>k. HasPrefix (drop k s) p) [n..<length s]"
proof -
  have "find (\<lambda>k. HasPrefix (drop k s) p) [n..<length s] = map_option ((+) n) (find (\<lambda>i. HasPrefix (drop (n + i) s) p) [0..<length s - n])"
    using find_upt_shift [of "\<lambda>k. HasPrefix (drop k s) p" n "length s - n"] assms(2) by simp
  moreover have "n + i \<le> length s" if "find P [0..<length s - n] = Some i" for i P
    using that assms(2) by (auto simp: find_Some_iff)
  ultimately show ?thesis
    using assms by (cases "find (\<lambda>i. HasPrefix (drop (n + i) s) p) [0..<length s - n]") (fastforce simp: from_sub_find add.commute)+
qed

lemma find_drop_until:
  assumes "find P [n..<m] = Some s"
  shows "find (\<lambda>k. P k \<and> Q k) [n..<m] = (if Q s then Some s else find (\<lambda>k. P k \<and> Q k) [Suc s..<m])"
  using assms
proof (induction "m - n" arbitrary: n)
  case (Suc d)
  then have "[n..<m] = n # [Suc n..<m]" by (simp add: upt_conv_Cons)
  with Suc(1) [of "Suc n"] Suc(2,3) show ?case by (cases "P n") auto
qed simp

lemma find_from_spec:
  "token \<noteq> [] \<Longrightarrow> n \<le> length text \<Longrightarrow>
   find_from text token occ n = map_option (\<lambda>s. (s, s + length token))
     (find (\<lambda>s. HasPrefix (drop s text) token \<and> \<not> rangeOverlaps s (s + length token) occ) [n..<length text])"
proof (induction "text" token occ n rule: find_from.induct)
  case (1 x token occ n)
  let ?P = "\<lambda>s. HasPrefix (drop s x) token" and ?Q = "\<lambda>s. \<not> rangeOverlaps s (s + length token) occ"
  note at = from_sub_at [OF "1.prems"]
  show ?case
  proof (cases "from_sub token (drop n x)")
    case None
    with at have "find ?P [n..<length x] = None" by simp
    then have "find (\<lambda>s. ?P s \<and> ?Q s) [n..<length x] = None" by (auto simp: find_None_iff)
    with None show ?thesis by (subst find_from.simps) simp
  next
    case (Some t)
    let ?s = "length x - length t"
    from Some at have f: "find ?P [n..<length x] = Some ?s" by simp
    then have s: "n < length x" "?s < length x" by (auto simp: find_Some_iff)
    from find_drop_until [OF f, of ?Q] have eq: "find (\<lambda>s. ?P s \<and> ?Q s) [n..<length x] = (if ?Q ?s then Some ?s else find (\<lambda>s. ?P s \<and> ?Q s) [Suc ?s..<length x])" .
    show ?thesis
    proof (cases "?Q ?s")
      case True
      with Some s eq show ?thesis by (subst find_from.simps) (simp add: Let_def)
    next
      case False
      have "find_from x token occ (?s + 1) = map_option (\<lambda>s. (s, s + length token)) (find (\<lambda>s. ?P s \<and> ?Q s) [?s + 1..<length x])"
        by (rule "1.IH") (use Some s False "1.prems" in auto)
      with Some s eq False show ?thesis by (subst find_from.simps) (simp add: Let_def)
    qed
  qed
qed

section \<open>Disjoint facets\<close>

definition apart :: "reverseByteRange \<Rightarrow> reverseByteRange \<Rightarrow> bool" where
  "apart a b \<longleftrightarrow> snd a \<le> fst b \<or> snd b \<le> fst a"

text \<open>Facets with ranges that lie in the text and apart from each other.\<close>

definition placed :: "string \<Rightarrow> reverseByteRange list \<times> RichtextFacet list \<Rightarrow> bool" where
  "placed text acc \<longleftrightarrow> list_all (\<lambda>r. fst r < snd r \<and> snd r \<le> length text) (fst acc) \<and> sorted_wrt apart (fst acc) \<and>
     list_all2 (\<lambda>r f. \<exists>x. f = facet r x) (fst acc) (snd acc)"

lemma not_overlaps_apart: "\<not> rangeOverlaps s e occ \<Longrightarrow> s < e \<and> (\<forall>r \<in> set occ. apart r (s, e))"
  by (fastforce simp: rangeOverlaps_def apart_def list_ex_iff)

lemma placed_append:
  assumes "placed text acc" and "\<not> rangeOverlaps (fst r) (snd r) (fst acc)" and "snd r \<le> length text"
  shows "placed text (appendFacet r f acc)"
  using assms not_overlaps_apart [OF assms(2)] by (auto simp: placed_def appendFacet_def sorted_wrt_append intro!: list_all2_appendI)

lemma token_place:
  assumes "findFirstNonOverlappingToken text token occ = Some r"
  shows "\<not> rangeOverlaps (fst r) (snd r) occ \<and> snd r \<le> length text \<and> take (snd r - fst r) (drop (fst r) text) = TrimSpace token"
proof -
  let ?t = "TrimSpace token"
  from assms have t: "?t \<noteq> []" "text \<noteq> []" "find_from text ?t occ 0 = Some r"
    by (auto simp: findFirstNonOverlappingToken_def Let_def split: if_splits)
  then obtain s where s: "r = (s, s + length ?t)" "HasPrefix (drop s text) ?t" "\<not> rangeOverlaps s (s + length ?t) occ" "s < length text"
    unfolding find_from_spec [OF t(1) le0] by (auto simp: find_Some_iff)
  from s(2) obtain q where q: "drop s text = ?t @ q" by (auto simp: HasPrefix_iff)
  then have "length text - s = length ?t + length q" by (metis length_append length_drop)
  with s q show ?thesis by simp
qed

lemma placed_mentions: "facet_mentions resolve text embedded ms acc = Inr acc' \<Longrightarrow> placed text acc \<Longrightarrow> placed text acc'"
proof (induction ms arbitrary: acc)
  case (Cons m ms)
  show ?case
  proof (cases "mention_token resolve embedded m")
    case (Inl e)
    then show ?thesis using Cons.prems by simp
  next
    case (Inr tf)
    show ?thesis
    proof (cases "tf = None \<or> findFirstNonOverlappingToken text (fst (the tf)) (fst acc) = None")
      case True
      then have "facet_mentions resolve text embedded ms acc = Inr acc'" using Cons.prems(1) Inr by (auto split: option.splits)
      then show ?thesis using Cons by blast
    next
      case False
      then obtain token f r where t: "tf = Some (token, f)" "findFirstNonOverlappingToken text token (fst acc) = Some r" by auto
      then have "facet_mentions resolve text embedded ms (appendFacet r f acc) = Inr acc'" using Cons.prems(1) Inr by simp
      moreover have "placed text (appendFacet r f acc)" using token_place [OF t(2)] Cons.prems(2) by (intro placed_append) auto
      ultimately show ?thesis using Cons.IH by blast
    qed
  qed
qed simp

lemma length_trim_url: "length (trim_url s) \<le> length s"
  by (simp add: trim_url_def length_dropWhile_le [of _ "rev s", simplified])

lemma placed_urls: "placed text acc \<Longrightarrow> placed text (facet_urls text ms acc)"
proof (induction "text" ms acc rule: facet_urls.induct)
  case (2 x start stop u ms acc)
  let ?t = "trim_url (take (stop - start) (drop start x))"
  show ?case
  proof (cases "?t = [] \<or> rangeOverlaps start (start + length ?t) (fst acc)")
    case True
    then show ?thesis using 2 by (auto simp: Let_def)
  next
    case False
    have "length ?t \<le> length x - start" using length_trim_url [of "take (stop - start) (drop start x)"] by simp
    moreover have "length ?t > 0" using False by simp
    ultimately have "start + length ?t \<le> length x" by linarith
    then have "placed x (appendFacet (start, start + length ?t) (no_feature\<lparr>FLink := Some ?t\<rparr>) acc)"
      using False 2(3) by (intro placed_append) auto
    then show ?thesis using False 2(2) by (simp add: Let_def)
  qed
qed simp

section \<open>Properties\<close>

text \<open>C32:
  The search for a token finds the first place in the text where the token stands and which overlaps
  no facet placed before, and fails exactly when there is no such place.
\<close>

theorem token_search_spec:
  "findFirstNonOverlappingToken text token occ =
     (if TrimSpace token = [] then None
      else map_option (\<lambda>s. (s, s + length (TrimSpace token)))
        (find (\<lambda>s. HasPrefix (drop s text) (TrimSpace token) \<and> \<not> rangeOverlaps s (s + length (TrimSpace token)) occ) [0..<length text]))"
  using find_from_spec [of "TrimSpace token" 0 "text" occ] by (auto simp: findFirstNonOverlappingToken_def Let_def)

text \<open>
  The facets of a reverse post have one feature each and ranges that are not empty, lie within the
  text and do not overlap.
\<close>

theorem reverse_facets_disjoint:
  assumes "buildReverseFacets resolve text mentions embedded = Inr facets"
  shows "\<exists>rs. list_all2 (\<lambda>r f. Index f = Some \<lparr>ByteStart = int (fst r), ByteEnd = int (snd r)\<rparr> \<and> length (Features f) = 1) rs facets \<and>
    list_all (\<lambda>r. fst r < snd r \<and> snd r \<le> length text) rs \<and> sorted_wrt apart rs"
proof (cases "TrimSpace text = [] \<and> mentions = []")
  case True
  then have "facets = []" using assms by (simp add: buildReverseFacets_def)
  then show ?thesis by (intro exI [of _ "[]"]) simp
next
  case False
  then obtain acc where acc: "facet_mentions resolve text embedded mentions ([], []) = Inr acc"
    "facets = snd (facet_urls text (find_all reverseBareURLPattern 0 0 text) acc)"
    using assms by (auto simp: buildReverseFacets_def split: sum.splits)
  let ?acc = "facet_urls text (find_all reverseBareURLPattern 0 0 text) acc"
  have "placed text ([], [])" by (simp add: placed_def)
  then have "placed text ?acc" by (intro placed_urls placed_mentions [OF acc(1)])
  then show ?thesis unfolding acc(2) placed_def
    by (intro exI [of _ "fst ?acc"]) (auto simp: facet_def elim!: list_all2_mono)
qed

text \<open>A text in which a name occurs twice and a link follows.\<close>

theorem reverse_facets_disjoint_witness:
  "\<exists>rs facets. buildReverseFacets (\<lambda>_. Some (''did:plc:a'', True)) ''bob http://x.y bob'' [[(''link'', VStr ''@b''), (''name'', VStr ''bob'')]] [] = Inr facets \<and>
     list_all (\<lambda>r. fst r < snd r \<and> snd r \<le> length ''bob http://x.y bob'') rs \<and> length rs = length facets \<and> length facets = 2"
proof -
  have f: "buildReverseFacets (\<lambda>_. Some (''did:plc:a'', True)) ''bob http://x.y bob'' [[(''link'', VStr ''@b''), (''name'', VStr ''bob'')]] [] =
    Inr [facet (0, 3) (no_feature\<lparr>FMention := Some ''did:plc:a''\<rparr>), facet (4, 14) (no_feature\<lparr>FLink := Some ''http://x.y''\<rparr>)]"
    by code_simp
  from reverse_facets_disjoint [OF f] obtain rs where
    "list_all2 (\<lambda>r f. Index f = Some \<lparr>ByteStart = int (fst r), ByteEnd = int (snd r)\<rparr> \<and> length (Features f) = 1) rs
       [facet (0, 3) (no_feature\<lparr>FMention := Some ''did:plc:a''\<rparr>), facet (4, 14) (no_feature\<lparr>FLink := Some ''http://x.y''\<rparr>)]"
    "list_all (\<lambda>r. fst r < snd r \<and> snd r \<le> length ''bob http://x.y bob'') rs" by blast
  note rs = this
  show ?thesis
    by (rule exI [of _ rs], rule exI, rule conjI [OF f], rule conjI [OF rs(2)]) (use list_all2_lengthD [OF rs(1)] in simp)
qed

end
