(* ===== verification/Reverse.thy ===== *)
theory Reverse
  imports ReverseStore ReverseText Legacy Feedlog
begin

text \<open>
  \<open>internal/bridge/reverse_sync.go\<close>: the reverse processor reads the receive log, and for feeds with an
  active identity mapping writes posts, replies, reposts, likes, follows and profiles to the ATProto
  repository of the mapping. The state has the tables and the log of what was written to
  repositories. The environment has what the code calls: clock, database faults, process environment,
  the XRPC calls of a session, host resolver, blob store and fetcher, and JSON. \<open>rtick\<close> counts effects;
  what the environment answers may depend on it.
\<close>

section \<open>State and environment\<close>

record FeedRepost =
  RepostSubject :: "RepoStrongRef option"
  RepostCreatedAt :: string

datatype reverse_record =
  RPost FeedPost | RProfile ActorProfile | RLike FeedLike | RRepost FeedRepost | RFollow GraphFollow

text \<open>Writes to a repository: uploaded bytes, created records, deleted records.\<close>

datatype repo_write =
    WUpload string string
  | WCreate string string reverse_record
  | WDelete string string string

record ReverseCredentialFileEntry =
  Identifier :: string
  PDSHost :: string
  PasswordEnv :: string

record ReverseCredentialStatus =
  Configured :: bool
  Reason :: string
  StatusIdentifier :: string
  StatusPDSHost :: string

record reverseResolvedCredential =
  CredDID :: string
  CredIdentifier :: string
  CredPDSHost :: string
  CredPassword :: string

datatype reverse_query = QEvent string | QMapping string | QDID string | QMessage string | QBlob string | QFollow string string | QState string

record rstate =
  mappings :: mapping_table
  events :: event_table
  rmessages :: table
  raccounts :: "(string, BridgedAccount) gmap"
  rblobs :: "(string, string) gmap"
  rbridge :: "(string, string) gmap"
  repo_writes :: "repo_write list"
  rtick :: nat

datatype enrich_error = LookupBlob string | CloseBlob string | FacetError facet_error

record renv =
  rclock :: "nat \<Rightarrow> int"
  rread_fault :: "nat \<Rightarrow> reverse_query \<Rightarrow> bool"
  rwrite_fault :: "nat \<Rightarrow> bool"
  Getenv :: "string \<Rightarrow> string"
  rcredentials :: "(string, ReverseCredentialFileEntry) gmap"
  hostResolver :: "(nat \<Rightarrow> string \<Rightarrow> string option) option"
  ServerCreateSession :: "nat \<Rightarrow> reverseResolvedCredential \<Rightarrow> string + string"
  RepoUploadBlob :: "nat \<Rightarrow> string \<Rightarrow> string \<Rightarrow> LexBlob option option"
  RepoCreateRecord :: "nat \<Rightarrow> string \<Rightarrow> string \<Rightarrow> reverse_record \<Rightarrow> string + string \<times> string"
  RepoDeleteRecord :: "nat \<Rightarrow> string \<Rightarrow> string \<Rightarrow> string \<Rightarrow> string option"
  close_ok :: "nat \<Rightarrow> bool"
  rblobStore :: "(nat \<Rightarrow> string \<Rightarrow> string option) option"
  rblobFetcher :: "(nat \<Rightarrow> string \<Rightarrow> BlobRef \<Rightarrow> bool) option"
  unjson :: "string \<Rightarrow> val option"
  show_record :: "reverse_record \<Rightarrow> string"
  rfc3339 :: "int \<Rightarrow> string"
  rquote :: "string \<Rightarrow> string"
  decode_text :: "string \<Rightarrow> string"
  enrich_text :: "enrich_error \<Rightarrow> string"
  syntax_text :: "string \<Rightarrow> syntax_error option \<Rightarrow> string"

datatype reverse_error =
    ReadFault reverse_query | WriteFault | Store reverse_db_error | LogSeq | LogGet int | BadSeq string
  | EventNotFound | NotRetryable | BlankRef

definition maxReverseImageEmbeds :: nat where "maxReverseImageEmbeds = 4"
definition defaultReverseScanLimit :: int where "defaultReverseScanLimit = 100"
definition reverseReceiveLogSeqKey :: string where "reverseReceiveLogSeqKey = ''reverse_receive_log_seq''"
definition reverseLastScanAtKey :: string where "reverseLastScanAtKey = ''reverse_sync_last_scan_at''"
definition reverseLastErrorKey :: string where "reverseLastErrorKey = ''reverse_sync_last_error''"

section \<open>Credentials\<close>

text \<open>The entries of the credentials file, as they are kept.\<close>

definition normal_entry :: "ReverseCredentialFileEntry \<Rightarrow> ReverseCredentialFileEntry" where
  "normal_entry e = \<lparr>Identifier = TrimSpace (Identifier e), PDSHost = TrimRight (TrimSpace (PDSHost e)) (CHR ''/''),
     PasswordEnv = TrimSpace (PasswordEnv e)\<rparr>"

datatype credentials_error = CredentialsUnread string | CredentialsUnparsed string

text \<open>The file is read by \<open>ReadFile\<close> and parsed by \<open>parse_file\<close>, for which \<open>null\<close> is an empty map.\<close>

definition LoadReverseCredentials ::
  "(string \<Rightarrow> string option) \<Rightarrow> (string \<Rightarrow> (string, ReverseCredentialFileEntry) gmap option) \<Rightarrow> string \<Rightarrow>
   credentials_error + (string, ReverseCredentialFileEntry) gmap" where
  "LoadReverseCredentials ReadFile parse_file path =
     (let path = TrimSpace path
      in if path = [] then Inr []
         else case ReadFile path of
           None \<Rightarrow> Inl (CredentialsUnread path)
         | Some data \<Rightarrow>
           (case parse_file data of
              None \<Rightarrow> Inl (CredentialsUnparsed path)
            | Some creds \<Rightarrow> Inr (foldl (\<lambda>m (did, entry). gput (TrimSpace did) (normal_entry entry) m) [] creds)))"

definition CredentialStatus :: "renv \<Rightarrow> string \<Rightarrow> ReverseCredentialStatus" where
  "CredentialStatus env did =
     (let zero = \<lparr>Configured = False, Reason = [], StatusIdentifier = [], StatusPDSHost = []\<rparr>
      in case map_of (rcredentials env) (TrimSpace did) of
           None \<Rightarrow> zero\<lparr>Reason := ''missing_credentials_entry''\<rparr>
         | Some entry \<Rightarrow>
           (let status = zero\<lparr>StatusIdentifier := Identifier entry, StatusPDSHost := PDSHost entry\<rparr>
            in if TrimSpace (Identifier entry) = [] then status\<lparr>Reason := ''missing_identifier''\<rparr>
               else if TrimSpace (PasswordEnv entry) = [] then status\<lparr>Reason := ''missing_password_env''\<rparr>
               else if TrimSpace (Getenv env (PasswordEnv entry)) = [] then status\<lparr>Reason := ''password_env_unset''\<rparr>
               else status\<lparr>Configured := True,
                      Reason := (if TrimSpace (PDSHost entry) = [] then ''configured_via_plc'' else ''configured'')\<rparr>))"

text \<open>The credential, or the reason why there is none.\<close>

definition resolveCredential :: "renv \<Rightarrow> rstate \<Rightarrow> string \<Rightarrow> string + reverseResolvedCredential" where
  "resolveCredential env st did =
     (let status = CredentialStatus env did
      in if \<not> Configured status then Inl (Reason status)
         else case map_of (rcredentials env) (TrimSpace did) of
           None \<Rightarrow> Inl (Reason status)
         | Some entry \<Rightarrow>
           (let host = TrimSpace (PDSHost entry);
                resolved = (if host = [] then (case hostResolver env of None \<Rightarrow> Some host | Some r \<Rightarrow> r (rtick st) did) else Some host)
            in case resolved of
                 None \<Rightarrow> Inl ''pds_host_unresolved''
               | Some host \<Rightarrow>
                 if host = [] then Inl ''missing_pds_host''
                 else Inr \<lparr>CredDID = TrimSpace did, CredIdentifier = Identifier entry, CredPDSHost = TrimRight host (CHR ''/''),
                           CredPassword = TrimSpace (Getenv env (PasswordEnv entry))\<rparr>))"

section \<open>The session\<close>

text \<open>
  A session is the DID the server answered with: that is the repository records are written to. Each
  call is logged and counted.
\<close>

definition did_write :: "repo_write \<Rightarrow> rstate \<Rightarrow> rstate" where
  "did_write w st = st\<lparr>repo_writes := repo_writes st @ [w], rtick := Suc (rtick st)\<rparr>"

definition UploadBlob :: "renv \<Rightarrow> string \<Rightarrow> string \<Rightarrow> rstate \<Rightarrow> LexBlob option option \<times> rstate" where
  "UploadBlob env data mime st = (RepoUploadBlob env (rtick st) data mime, did_write (WUpload data mime) st)"

definition CreateRecord :: "renv \<Rightarrow> string \<Rightarrow> string \<Rightarrow> reverse_record \<Rightarrow> rstate \<Rightarrow> (string + string \<times> string) \<times> rstate" where
  "CreateRecord env repo coll r st = (RepoCreateRecord env (rtick st) repo coll r, did_write (WCreate repo coll r) st)"

definition DeleteRecord :: "renv \<Rightarrow> string \<Rightarrow> string \<Rightarrow> rstate \<Rightarrow> string option \<times> rstate" where
  "DeleteRecord env repo atURI st =
     (case ParseATURI atURI of
        Inl e \<Rightarrow> (Some (syntax_text env atURI (Some e)), st)
      | Inr parsed \<Rightarrow>
        if collection parsed = [] \<or> recordKey parsed = [] then (Some (syntax_text env atURI None), st)
        else (RepoDeleteRecord env (rtick st) repo (collection parsed) (recordKey parsed),
              did_write (WDelete repo (collection parsed) (recordKey parsed)) st))"

section \<open>Images\<close>

text \<open>The result of building a part of a record: an error, a reason to defer, or the part.\<close>

type_synonym 'a enrich = "(enrich_error + string + 'a) \<times> rstate"

definition upload_blob ::
  "renv \<Rightarrow> (nat \<Rightarrow> string \<Rightarrow> string option) \<Rightarrow> string \<Rightarrow> string \<Rightarrow> string \<Rightarrow> rstate \<Rightarrow> LexBlob enrich" where
  "upload_blob env bs feed link mime st =
     (case ParseBlobRef link of
        Inl _ \<Rightarrow> (Inr (Inl (''blob_ref_invalid='' @ link)), st)
      | Inr ref \<Rightarrow>
        (let fetched = (case bs (rtick st) (blob_hash ref) of
               Some data \<Rightarrow> (Some data, st)
             | None \<Rightarrow>
               (case rblobFetcher env of
                  None \<Rightarrow> (None, st)
                | Some f \<Rightarrow>
                  (let st' = st\<lparr>rtick := Suc (rtick st)\<rparr>
                   in if \<not> f (rtick st) feed ref then (None, st') else (bs (rtick st') (blob_hash ref), st'))))
         in case fetched of
              (None, st) \<Rightarrow> (Inr (Inl (''blob_read_failed='' @ link)), st)
            | (Some data, st) \<Rightarrow>
              (case UploadBlob env data mime st of
                 (None, st) \<Rightarrow> (Inr (Inl (''blob_upload_failed='' @ link)), st)
               | (Some uploaded, st) \<Rightarrow>
                 if \<not> close_ok env (rtick st) then (Inl (CloseBlob link), st)
                 else case uploaded of
                   None \<Rightarrow> (Inr (Inl (''blob_upload_failed='' @ link)), st)
                 | Some b \<Rightarrow> (Inr (Inr b), st))))"

definition is_image :: "string \<Rightarrow> bool" where
  "is_image mime \<longleftrightarrow> HasPrefix (ToLower mime) ''image/''"

definition link_of :: "msg \<Rightarrow> string" where
  "link_of mention = TrimSpace (stringValue (map_of mention ''link''))"

text \<open>The MIME type of a mention that is seen for the first time, or the reason to defer.\<close>

definition image_mime :: "string \<Rightarrow> string \<Rightarrow> string option \<Rightarrow> nat \<Rightarrow> string + string" where
  "image_mime link mentionMime meta n =
     (let metaMime = (case meta of None \<Rightarrow> [] | Some t \<Rightarrow> TrimSpace t);
          mimeType = (if mentionMime = [] then metaMime else mentionMime)
      in if mentionMime \<noteq> [] \<and> metaMime \<noteq> [] \<and> \<not> EqualFold mentionMime metaMime then Inl (''blob_mime_mismatch='' @ link)
         else if mimeType = [] then Inl (''blob_mime_missing='' @ link)
         else if \<not> is_image mimeType then Inl (''blob_media_unsupported='' @ link)
         else if n \<ge> maxReverseImageEmbeds then Inl (''image_limit_exceeded='' @ show_nat (n + 1))
         else Inr mimeType)"

text \<open>The uploaded blob as it goes into the record; a server that answers with another type is refused.\<close>

definition uploaded_image :: "string \<Rightarrow> string \<Rightarrow> LexBlob \<Rightarrow> string + LexBlob" where
  "uploaded_image link mimeType b =
     (let b = (if TrimSpace (MimeType b) = [] then b\<lparr>MimeType := mimeType\<rparr> else b); uploadMime = TrimSpace (MimeType b)
      in if \<not> is_image uploadMime then Inl (''blob_media_unsupported='' @ link)
         else if mimeType \<noteq> [] \<and> uploadMime \<noteq> [] \<and> \<not> EqualFold mimeType uploadMime then Inl (''blob_mime_mismatch='' @ link)
         else Inr b)"

fun image_loop ::
  "renv \<Rightarrow> (nat \<Rightarrow> string \<Rightarrow> string option) \<Rightarrow> string \<Rightarrow> msg list \<Rightarrow> EmbedImages_Image list \<Rightarrow> (string, string) gmap \<Rightarrow> string list \<Rightarrow> rstate \<Rightarrow>
   (EmbedImages_Image list \<times> string list) enrich" where
  "image_loop env bs feed [] images seen embedded st = (Inr (Inr (images, embedded)), st)"
| "image_loop env bs feed (mention # ms) images seen embedded st =
     (let link = link_of mention; mentionMime = TrimSpace (stringValue (map_of mention ''type''))
      in if \<not> HasPrefix link ''&'' then image_loop env bs feed ms images seen embedded st
         else case map_of seen link of
           Some existingMime \<Rightarrow>
             if mentionMime \<noteq> [] \<and> existingMime \<noteq> [] \<and> \<not> EqualFold mentionMime existingMime then (Inr (Inl (''blob_mime_mismatch='' @ link)), st)
             else image_loop env bs feed ms images seen (List.insert link embedded) st
         | None \<Rightarrow>
           if rread_fault env (rtick st) (QBlob link) then (Inl (LookupBlob link), st)
           else case image_mime link mentionMime (map_of (rblobs st) link) (length images) of
             Inl reason \<Rightarrow> (Inr (Inl reason), st)
           | Inr mimeType \<Rightarrow>
             (case upload_blob env bs feed link mimeType st of
                (Inl e, st) \<Rightarrow> (Inl e, st)
              | (Inr (Inl reason), st) \<Rightarrow> (Inr (Inl reason), st)
              | (Inr (Inr b), st) \<Rightarrow>
                (case uploaded_image link mimeType b of
                   Inl reason \<Rightarrow> (Inr (Inl reason), st)
                 | Inr b \<Rightarrow>
                   image_loop env bs feed ms
                     (images @ [\<lparr>Alt = TrimSpace (stringValue (map_of mention ''name'')), Image = Some b, ImgRatio = None\<rparr>])
                     (gput link mimeType seen) (List.insert link embedded) st)))"

definition buildReverseImageEmbeds :: "renv \<Rightarrow> string \<Rightarrow> msg list \<Rightarrow> rstate \<Rightarrow> (EmbedImages_Image list \<times> string list) enrich" where
  "buildReverseImageEmbeds env feed mentions st =
     (if mentions = [] then (Inr (Inr ([], [])), st)
      else case rblobStore env of
        None \<Rightarrow> if list_ex (\<lambda>m. HasPrefix (link_of m) ''&'') mentions then (Inr (Inl ''blob_store_unavailable''), st) else (Inr (Inr ([], [])), st)
      | Some bs \<Rightarrow> image_loop env bs feed mentions [] [] [] st)"

definition resolve_did :: "renv \<Rightarrow> rstate \<Rightarrow> string \<Rightarrow> (string \<times> bool) option" where
  "resolve_did env st feed =
     (if rread_fault env (rtick st) (QDID feed) then None else Some (ResolveATDIDBySSBFeed feed (mappings st) (raccounts st)))"

definition enrichReversePostRecord :: "renv \<Rightarrow> string \<Rightarrow> msg \<Rightarrow> FeedPost \<Rightarrow> rstate \<Rightarrow> FeedPost enrich" where
  "enrichReversePostRecord env feed content post st =
     (let mentions = normalizedReverseMentions (map_of content ''mentions'')
      in case buildReverseImageEmbeds env feed mentions st of
           (Inl e, st) \<Rightarrow> (Inl e, st)
         | (Inr (Inl reason), st) \<Rightarrow> (Inr (Inl reason), st)
         | (Inr (Inr (images, embeddedRefs)), st) \<Rightarrow>
           (let txt = stripEmbeddedBlobMarkdown (Text post) embeddedRefs
            in case buildReverseFacets (resolve_did env st) txt mentions embeddedRefs of
                 Inl e \<Rightarrow> (Inl (FacetError e), st)
               | Inr fs \<Rightarrow>
                 (Inr (Inr (post\<lparr>Text := txt, Facets := map Some fs,
                    Embed := (if images \<noteq> [] then Some \<lparr>EmbedImages = Some (map Some images), EmbedVideo = None, EmbedExternal = None,
                                EmbedRecord = None, EmbedRecordWithMedia = None\<rparr> else Embed post)\<rparr>)), st)))"

definition enrichReverseProfileRecord :: "renv \<Rightarrow> string \<Rightarrow> msg \<Rightarrow> ActorProfile \<Rightarrow> rstate \<Rightarrow> ActorProfile enrich" where
  "enrichReverseProfileRecord env feed content profile st =
     (let link = TrimSpace (stringValue (map_of content ''image''))
      in if link = [] \<or> \<not> HasPrefix link ''&'' then (Inr (Inr profile), st)
         else case rblobStore env of
           None \<Rightarrow> (Inr (Inl ''blob_store_unavailable''), st)
         | Some bs \<Rightarrow>
           if rread_fault env (rtick st) (QBlob link) then (Inl (LookupBlob link), st)
           else
             let meta = (case map_of (rblobs st) link of None \<Rightarrow> [] | Some t \<Rightarrow> TrimSpace t); mimeType = (if meta = [] then ''image/jpeg'' else meta)
             in if \<not> is_image mimeType then (Inr (Inl (''blob_media_unsupported='' @ link)), st)
                else case upload_blob env bs feed link mimeType st of
                  (Inl e, st) \<Rightarrow> (Inl e, st)
                | (Inr (Inl reason), st) \<Rightarrow> (Inr (Inl reason), st)
                | (Inr (Inr b), st) \<Rightarrow> (Inr (Inr (profile\<lparr>Avatar := Some \<lparr>Ref = Ref b, MimeType = MimeType b, Size = Size b\<rparr>\<rparr>)), st))"

section \<open>Content\<close>

text \<open>
  \<open>normalizeSSBContentMap\<close> of a JSON value: a map is kept, and a value that is no map is marshalled and
  read as a map, which gives an empty map for \<open>null\<close> and an error for everything else.
\<close>

definition normalizeSSBContentMap :: "val option \<Rightarrow> msg option" where
  "normalizeSSBContentMap v = (case v of Some (VMap m) \<Rightarrow> Some m | Some VNil \<Rightarrow> Some [] | _ \<Rightarrow> None)"

definition decodeSSBContent :: "renv \<Rightarrow> string \<Rightarrow> msg option" where
  "decodeSSBContent env raw =
     (let raw = TrimSpace raw
      in if raw = [] then None
         else case ParseSignedMessageJSON (unjson env) raw of
           Inr (smsg, _) \<Rightarrow> normalizeSSBContentMap (LegacyMessage.Content smsg)
         | Inl _ \<Rightarrow>
           (case normalizeSSBContentMap (unjson env raw) of
              None \<Rightarrow> None
            | Some envelope \<Rightarrow>
              (case map_of envelope ''content'' of
                 Some content \<Rightarrow> normalizeSSBContentMap (Some content)
               | None \<Rightarrow> Some envelope)))"

fun last_ref :: "val list \<Rightarrow> string" where
  "last_ref [] = []"
| "last_ref (v # vs) = (let ref = TrimSpace (stringValue (Some v)) in if ref \<noteq> [] then ref else last_ref vs)"

definition extractReplyRefs :: "msg \<Rightarrow> string \<times> string" where
  "extractReplyRefs content =
     (let root = TrimSpace (stringValue (map_of content ''root'')); parent = TrimSpace (stringValue (map_of content ''branch''));
          (root, parent) = (case map_of content ''tangles'' of
             Some (VMap tangles) \<Rightarrow>
               (case map_of tangles ''comment'' of
                  Some (VMap comment) \<Rightarrow>
                    (if root = [] then TrimSpace (stringValue (map_of comment ''root'')) else root,
                     if parent = [] then
                       (case map_of comment ''previous'' of
                          Some (VList previous) \<Rightarrow> last_ref (rev previous)
                        | Some (VStrs previous) \<Rightarrow> if previous = [] then [] else TrimSpace (last previous)
                        | _ \<Rightarrow> [])
                     else parent)
                | _ \<Rightarrow> (root, parent))
           | _ \<Rightarrow> (root, parent));
          parent = (if parent = [] then root else parent)
      in (if root = [] then parent else root, parent))"

section \<open>Events\<close>

definition baseReverseEvent :: "int \<Rightarrow> string \<Rightarrow> string \<Rightarrow> int option \<Rightarrow> string \<Rightarrow> string \<Rightarrow> string \<Rightarrow> ReverseEvent" where
  "baseReverseEvent receiveLogSeq sourceRef sourceAuthor sourceSeq atDID action raw =
     \<lparr>SourceSSBMsgRef = sourceRef, SourceSSBAuthor = sourceAuthor, SourceSSBSeq = sourceSeq, ReceiveLogSeq = receiveLogSeq, EventDID = atDID,
      Action = action, EventState = ReverseEventStatePending, Attempts = 0, LastAttemptAt = None, EventPublishedAt = None, ErrorText = [],
      EventDeferReason = [], TargetSSBRef = [], TargetSSBFeedID = [], TargetATDID = [], TargetATURI = [], TargetATCID = [], ResultATURI = [],
      ResultATCID = [], ResultCollection = [], RawSSBJSON = raw, RawATJSON = [], EventCreatedAt = zero_time, EventUpdatedAt = zero_time\<rparr>"

definition skipped :: "string \<Rightarrow> ReverseEvent \<Rightarrow> ReverseEvent" where
  "skipped reason e = e\<lparr>EventState := ReverseEventStateSkipped, EventDeferReason := reason\<rparr>"

definition deferred :: "string \<Rightarrow> ReverseEvent \<Rightarrow> ReverseEvent" where
  "deferred reason e = e\<lparr>EventState := ReverseEventStateDeferred, EventDeferReason := reason\<rparr>"

definition lookup_message :: "renv \<Rightarrow> rstate \<Rightarrow> string \<Rightarrow> reverse_error + Message option" where
  "lookup_message env st ref =
     (if rread_fault env (rtick st) (QMessage ref) then Inl (ReadFault (QMessage ref)) else Inr (GetMessageBySSBRef ref (rmessages st)))"

definition mapped_message :: "Message option \<Rightarrow> Message option" where
  "mapped_message m = (case m of None \<Rightarrow> None | Some m \<Rightarrow> if TrimSpace (Message.ATURI m) = [] \<or> TrimSpace (ATCID m) = [] then None else Some m)"

definition strong_ref :: "Message \<Rightarrow> RepoStrongRef" where
  "strong_ref m = \<lparr>Uri = Message.ATURI m, Cid = ATCID m\<rparr>"

text \<open>The messages of root and parent, or the reason to defer.\<close>

definition resolveReplyTargets :: "renv \<Rightarrow> rstate \<Rightarrow> string \<Rightarrow> string \<Rightarrow> reverse_error + string + Message \<times> Message" where
  "resolveReplyTargets env st rootRef parentRef =
     (let rootRef = TrimSpace rootRef; parentRef = TrimSpace parentRef;
          rootRef = (if rootRef = [] \<and> parentRef \<noteq> [] then parentRef else rootRef);
          parentRef = (if parentRef = [] \<and> rootRef \<noteq> [] then rootRef else parentRef)
      in if rootRef = [] \<or> parentRef = [] then Inr (Inl ''missing_reply_refs'')
         else case lookup_message env st rootRef of
           Inl e \<Rightarrow> Inl e
         | Inr root \<Rightarrow>
           (case mapped_message root of
              None \<Rightarrow> Inr (Inl (''reply_root_unmapped='' @ rootRef))
            | Some rootMsg \<Rightarrow>
              (case lookup_message env st parentRef of
                 Inl e \<Rightarrow> Inl e
               | Inr parent \<Rightarrow>
                 (case mapped_message parent of
                    None \<Rightarrow> Inr (Inl (''reply_parent_unmapped='' @ parentRef))
                  | Some parentMsg \<Rightarrow> Inr (Inr (rootMsg, parentMsg))))))"

definition reverseCreatedAt :: "renv \<Rightarrow> rstate \<Rightarrow> string" where
  "reverseCreatedAt env st = rfc3339 env (rclock env (rtick st))"

definition new_post :: "string \<Rightarrow> string \<Rightarrow> ReplyRef option \<Rightarrow> FeedPost" where
  "new_post txt createdAt reply =
     \<lparr>LexiconTypeID = [], FeedPost.CreatedAt = createdAt, Embed = None, Facets = [], Langs = [], Reply = reply, Tags = [], Text = txt\<rparr>"

text \<open>
  What a message asks for: nothing, or an event with the record to create and the URI to delete. An
  event that is deferred or skipped has neither.
\<close>

type_synonym built = "reverse_error + (ReverseEvent \<times> reverse_record option \<times> string) option"

definition stop :: "ReverseEvent \<Rightarrow> built" where
  "stop e = Inr (Some (e, None, []))"

definition build_post :: "renv \<Rightarrow> rstate \<Rightarrow> (string \<Rightarrow> ReverseEvent) \<Rightarrow> ReverseIdentityMapping \<Rightarrow> msg \<Rightarrow> built" where
  "build_post env st base m content =
     (let (rootRef, parentRef) = extractReplyRefs content; txt = stringValue (map_of content ''text'')
      in if rootRef \<noteq> [] \<or> parentRef \<noteq> [] then
           (let event = (base ReverseActionReply)\<lparr>ResultCollection := RecordTypePost\<rparr>
            in if \<not> AllowReplies m then stop (skipped ''action_disabled=reply'' event)
               else case resolveReplyTargets env st rootRef parentRef of
                 Inl e \<Rightarrow> Inl e
               | Inr (Inl reason) \<Rightarrow> stop (deferred reason (event\<lparr>TargetSSBRef := parentRef\<rparr>))
               | Inr (Inr (rootMsg, parentMsg)) \<Rightarrow>
                 Inr (Some (event\<lparr>TargetSSBRef := parentRef, TargetATURI := Message.ATURI parentMsg, TargetATCID := ATCID parentMsg,
                              TargetATDID := ATDID rootMsg\<rparr>,
                   Some (RPost (new_post txt (reverseCreatedAt env st) (Some \<lparr>ReplyRef.Root = Some (strong_ref rootMsg), Parent = Some (strong_ref parentMsg)\<rparr>))), [])))
         else
           (let event = (base ReverseActionPost)\<lparr>ResultCollection := RecordTypePost\<rparr>
            in if \<not> AllowPosts m then stop (skipped ''action_disabled=post'' event)
               else Inr (Some (event, Some (RPost (new_post txt (reverseCreatedAt env st) None)), []))))"

text \<open>A record that refers to one message: reposts and votes.\<close>

definition build_subject ::
  "renv \<Rightarrow> rstate \<Rightarrow> ReverseEvent \<Rightarrow> bool \<Rightarrow> string \<Rightarrow> string \<Rightarrow> string \<Rightarrow> (RepoStrongRef \<Rightarrow> reverse_record) \<Rightarrow> built" where
  "build_subject env st event allowed disabled unmapped targetRef rec =
     (if \<not> allowed then stop (skipped disabled event)
      else case lookup_message env st targetRef of
        Inl e \<Rightarrow> Inl e
      | Inr t \<Rightarrow>
        (case mapped_message t of
           None \<Rightarrow> stop (deferred (unmapped @ targetRef) event)
         | Some target \<Rightarrow>
           Inr (Some (event\<lparr>TargetSSBRef := targetRef, TargetATURI := Message.ATURI target, TargetATCID := ATCID target, TargetATDID := ATDID target\<rparr>,
                      Some (rec (strong_ref target)), []))))"

definition build_repost :: "renv \<Rightarrow> rstate \<Rightarrow> (string \<Rightarrow> ReverseEvent) \<Rightarrow> ReverseIdentityMapping \<Rightarrow> msg \<Rightarrow> built" where
  "build_repost env st base m content =
     (let repost = TrimSpace (stringValue (map_of content ''repost''));
          targetRef = (if repost = [] then TrimSpace (stringValue (map_of content ''share'')) else repost);
          event = base ReverseActionRepost
      in if targetRef = [] then stop (skipped ''missing_repost_target'' event)
         else build_subject env st (event\<lparr>ResultCollection := RecordTypeRepost\<rparr>) (AllowPosts m) ''action_disabled=post'' ''repost_target_unmapped='' targetRef
                (\<lambda>subject. RRepost \<lparr>RepostSubject = Some subject, RepostCreatedAt = reverseCreatedAt env st\<rparr>))"

definition build_vote :: "renv \<Rightarrow> rstate \<Rightarrow> (string \<Rightarrow> ReverseEvent) \<Rightarrow> ReverseIdentityMapping \<Rightarrow> msg \<Rightarrow> built" where
  "build_vote env st base m content =
     (case map_of content ''vote'' of
        Some (VMap voteVal) \<Rightarrow>
          if \<not> floatValue_pos (map_of voteVal ''value'') then Inr None
          else
            let targetRef = TrimSpace (stringValue (map_of voteVal ''link'')); event = base ReverseActionVote
            in if targetRef = [] then stop (skipped ''missing_vote_target'' event)
               else build_subject env st (event\<lparr>ResultCollection := RecordTypeLike\<rparr>) (AllowPosts m) ''action_disabled=like'' ''vote_target_unmapped='' targetRef
                      (\<lambda>subject. RLike \<lparr>LType = [], LSubject = Some subject, LCreatedAt = reverseCreatedAt env st\<rparr>)
      | _ \<Rightarrow> Inr None)"

definition build_about :: "(string \<Rightarrow> ReverseEvent) \<Rightarrow> string \<Rightarrow> msg \<Rightarrow> built" where
  "build_about base sourceAuthor content =
     (let targetFeed = TrimSpace (stringValue (map_of content ''about'')); event = base ReverseActionAbout;
          name = stringValue (map_of content ''name''); description = stringValue (map_of content ''description'')
      in if targetFeed = [] \<or> targetFeed \<noteq> sourceAuthor then stop (skipped ''about_not_self'' event)
         else Inr (Some (event\<lparr>ResultCollection := RecordTypeProfile\<rparr>,
                Some (RProfile \<lparr>PType = [], DisplayName = (if name = [] then None else Some name),
                   Description = (if description = [] then None else Some description), Avatar = None, Banner = None\<rparr>), [])))"

definition build_contact :: "renv \<Rightarrow> rstate \<Rightarrow> (string \<Rightarrow> ReverseEvent) \<Rightarrow> ReverseIdentityMapping \<Rightarrow> msg \<Rightarrow> built" where
  "build_contact env st base m content =
     (let targetFeed = TrimSpace (stringValue (map_of content ''contact''));
          following = boolValue (map_of content ''following'')
      in if targetFeed = [] then stop (deferred ''missing_contact_feed'' ((base ReverseActionFollow)\<lparr>ResultCollection := RecordTypeFollow\<rparr>))
         else if boolValue (map_of content ''blocking'') then
           stop ((skipped ''unsupported_contact_block'' (base ReverseActionFollow))\<lparr>TargetSSBFeedID := targetFeed\<rparr>)
         else case resolve_did env st targetFeed of
           None \<Rightarrow> Inl (ReadFault (QDID targetFeed))
         | Some (targetATDID, ok) \<Rightarrow>
           (let event = (base (if following then ReverseActionFollow else ReverseActionUnfollow))\<lparr>TargetSSBFeedID := targetFeed,
                  TargetATDID := targetATDID, ResultCollection := RecordTypeFollow\<rparr>
            in if \<not> AllowFollows m then stop (skipped ''action_disabled=follow'' event)
               else if \<not> ok \<or> TrimSpace targetATDID = [] then stop (deferred (''target_did_unmapped='' @ targetFeed) event)
               else if following then
                 Inr (Some (event, Some (RFollow \<lparr>GType = [], GSubject = targetATDID, GCreatedAt = reverseCreatedAt env st\<rparr>), []))
               else if rread_fault env (rtick st) (QFollow (MapDID m) targetATDID) then Inl (ReadFault (QFollow (MapDID m) targetATDID))
               else case GetLatestPublishedReverseFollow (MapDID m) targetATDID (events st) of
                 None \<Rightarrow> stop (deferred (''follow_record_not_found='' @ targetATDID) event)
               | Some f \<Rightarrow>
                 if TrimSpace (ResultATURI f) = [] then stop (deferred (''follow_record_not_found='' @ targetATDID) event)
                 else Inr (Some (event\<lparr>TargetATURI := ResultATURI f, TargetATCID := ResultATCID f\<rparr>, None, ResultATURI f))))"

definition buildReverseEvent ::
  "renv \<Rightarrow> rstate \<Rightarrow> int \<Rightarrow> string \<Rightarrow> string \<Rightarrow> int option \<Rightarrow> ReverseIdentityMapping \<Rightarrow> msg \<Rightarrow> string \<Rightarrow> built" where
  "buildReverseEvent env st logSeq sourceRef sourceAuthor sourceSeq m content raw =
     (let base = (\<lambda>action. baseReverseEvent logSeq sourceRef sourceAuthor sourceSeq (MapDID m) action raw);
          msgType = TrimSpace (stringValue (map_of content ''type''))
      in if msgType = ''post'' then build_post env st base m content
         else if msgType = ''repost'' \<or> msgType = ''share'' then build_repost env st base m content
         else if msgType = ''vote'' then build_vote env st base m content
         else if msgType = ''about'' then build_about base sourceAuthor content
         else if msgType = ''contact'' then build_contact env st base m content
         else Inr None)"

section \<open>Processing\<close>

text \<open>A result without a value is \<open>None\<close>, otherwise the error.\<close>

type_synonym rop = "rstate \<Rightarrow> reverse_error option \<times> rstate"

definition persistReverseEvent :: "renv \<Rightarrow> ReverseEvent \<Rightarrow> rop" where
  "persistReverseEvent env event st =
     (case AddReverseEvent (rclock env (rtick st)) event (events st) of
        Inl e \<Rightarrow> (Some (Store e), st)
      | Inr t \<Rightarrow>
        if rwrite_fault env (rtick st) then (Some WriteFault, st\<lparr>rtick := Suc (rtick st)\<rparr>)
        else (None, st\<lparr>events := t, rtick := Suc (rtick st)\<rparr>))"

definition set_state :: "renv \<Rightarrow> string \<Rightarrow> string \<Rightarrow> rop" where
  "set_state env k v st =
     (if rwrite_fault env (rtick st) then (Some WriteFault, st\<lparr>rtick := Suc (rtick st)\<rparr>)
      else (None, st\<lparr>rbridge := gput k v (rbridge st), rtick := Suc (rtick st)\<rparr>))"

definition correlation_row :: "ReverseEvent \<Rightarrow> reverse_record \<Rightarrow> Message" where
  "correlation_row event r = zero_Message\<lparr>
     Message.ATURI := ResultATURI event, ATCID := ResultATCID event, SSBMsgRef := SourceSSBMsgRef event, ATDID := EventDID event,
     Type := ResultCollection event, MessageState := MessageStatePublished, RawATJson := RawATJSON event, RawSSBJson := RawSSBJSON event,
     PublishedAt := EventPublishedAt event,
     RootATURI := (case r of RPost p \<Rightarrow> (case Reply p of Some rr \<Rightarrow> (case ReplyRef.Root rr of Some s \<Rightarrow> TrimSpace (Uri s) | None \<Rightarrow> []) | None \<Rightarrow> []) | _ \<Rightarrow> []),
     ParentATURI := (case r of RPost p \<Rightarrow> (case Reply p of Some rr \<Rightarrow> (case Parent rr of Some s \<Rightarrow> TrimSpace (Uri s) | None \<Rightarrow> []) | None \<Rightarrow> []) | _ \<Rightarrow> [])\<rparr>"

definition persistForwardCorrelation :: "renv \<Rightarrow> ReverseEvent \<Rightarrow> reverse_record \<Rightarrow> rop" where
  "persistForwardCorrelation env event r st =
     (if TrimSpace (ResultATURI event) = [] then (None, st)
      else if rwrite_fault env (rtick st) then (Some WriteFault, st\<lparr>rtick := Suc (rtick st)\<rparr>)
      else (None, st\<lparr>rmessages := AddMessage (rclock env (rtick st)) (correlation_row event r) (rmessages st), rtick := Suc (rtick st)\<rparr>))"

definition failed :: "string \<Rightarrow> ReverseEvent \<Rightarrow> ReverseEvent" where
  "failed txt e = e\<lparr>EventState := ReverseEventStateFailed, ErrorText := txt\<rparr>"

definition published :: "int \<Rightarrow> string \<Rightarrow> string \<Rightarrow> string \<Rightarrow> ReverseEvent \<Rightarrow> ReverseEvent" where
  "published at uri cid raw e =
     e\<lparr>EventState := ReverseEventStatePublished, EventPublishedAt := Some at, ResultATURI := uri, ResultATCID := cid, RawATJSON := raw\<rparr>"

text \<open>The enrichment of posts and profiles; other records are left as they are.\<close>

definition enrich_record :: "renv \<Rightarrow> string \<Rightarrow> msg \<Rightarrow> reverse_record \<Rightarrow> rstate \<Rightarrow> reverse_record enrich" where
  "enrich_record env feed content r st =
     (case r of
        RPost p \<Rightarrow> (case enrichReversePostRecord env feed content p st of
            (Inl e, st) \<Rightarrow> (Inl e, st) | (Inr (Inl reason), st) \<Rightarrow> (Inr (Inl reason), st) | (Inr (Inr p), st) \<Rightarrow> (Inr (Inr (RPost p)), st))
      | RProfile p \<Rightarrow> (case enrichReverseProfileRecord env feed content p st of
            (Inl e, st) \<Rightarrow> (Inl e, st) | (Inr (Inl reason), st) \<Rightarrow> (Inr (Inl reason), st) | (Inr (Inr p), st) \<Rightarrow> (Inr (Inr (RProfile p)), st))
      | _ \<Rightarrow> (Inr (Inr r), st))"

definition delete_step :: "renv \<Rightarrow> string \<Rightarrow> ReverseEvent \<Rightarrow> string \<Rightarrow> rop" where
  "delete_step env repo event deleteATURI st =
     (case DeleteRecord env repo deleteATURI st of
        (Some err, st) \<Rightarrow> persistReverseEvent env (failed err event) st
      | (None, st) \<Rightarrow>
        persistReverseEvent env (published (rclock env (rtick st)) deleteATURI (ResultATCID event)
          ([CHR ''{'', CHR 0x22] @ ''op'' @ [CHR 0x22, CHR '':'', CHR 0x22] @ ''delete'' @ [CHR 0x22, CHR '','', CHR 0x22] @ ''at_uri'' @
           [CHR 0x22, CHR '':''] @ rquote env deleteATURI @ ''}'') event) st)"

definition create_step :: "renv \<Rightarrow> string \<Rightarrow> ReverseEvent \<Rightarrow> msg \<Rightarrow> reverse_record \<Rightarrow> rop" where
  "create_step env repo event content r st =
     (case enrich_record env (SourceSSBAuthor event) content r st of
        (Inl e, st) \<Rightarrow> persistReverseEvent env (failed (enrich_text env e) event) st
      | (Inr (Inl reason), st) \<Rightarrow> persistReverseEvent env ((deferred reason event)\<lparr>ErrorText := []\<rparr>) st
      | (Inr (Inr r), st) \<Rightarrow>
        (case CreateRecord env repo (ResultCollection event) r st of
           (Inl err, st) \<Rightarrow> persistReverseEvent env (failed err event) st
         | (Inr (uri, cid), st) \<Rightarrow>
           (let event = published (rclock env (rtick st)) uri cid (show_record env r) event
            in case persistForwardCorrelation env event r st of
                 (Some e, st) \<Rightarrow> (Some e, st)
               | (None, st) \<Rightarrow> persistReverseEvent env event st)))"

text \<open>
  From a built event to its outcome. A \<open>nil\<close> record with another action than unfollow does not occur:
  an event without a record is deferred, skipped or an unfollow.
\<close>

definition publish_event :: "renv \<Rightarrow> ReverseEvent \<Rightarrow> reverse_record option \<Rightarrow> string \<Rightarrow> msg \<Rightarrow> rop" where
  "publish_event env event r deleteATURI content st =
     (if EventState event = ReverseEventStateDeferred \<or> EventState event = ReverseEventStateSkipped then persistReverseEvent env event st
      else case resolveCredential env st (EventDID event) of
        Inl reason \<Rightarrow> persistReverseEvent env ((deferred (''credentials_'' @ reason) event)\<lparr>ErrorText := []\<rparr>) st
      | Inr cred \<Rightarrow>
        (let event = event\<lparr>Attempts := 1, LastAttemptAt := Some (rclock env (rtick st))\<rparr>
         in case ServerCreateSession env (rtick st) cred of
              Inl err \<Rightarrow> persistReverseEvent env (failed err event) (st\<lparr>rtick := Suc (rtick st)\<rparr>)
            | Inr repo \<Rightarrow>
              (let st = st\<lparr>rtick := Suc (rtick st)\<rparr>
               in if Action event = ReverseActionUnfollow then delete_step env repo event deleteATURI st
                  else case r of
                    None \<Rightarrow> (None, st)
                  | Some r \<Rightarrow> create_step env repo event content r st)))"

definition processDecodedMessage :: "renv \<Rightarrow> int \<Rightarrow> string \<Rightarrow> string \<Rightarrow> int option \<Rightarrow> string \<Rightarrow> bool \<Rightarrow> rop" where
  "processDecodedMessage env logSeq sourceRef sourceAuthor sourceSeq raw force st =
     (let sourceRef = TrimSpace sourceRef; sourceAuthor = TrimSpace sourceAuthor
      in if sourceRef = [] \<or> sourceAuthor = [] then (None, st)
         else if \<not> force \<and> rread_fault env (rtick st) (QEvent sourceRef) then (Some (ReadFault (QEvent sourceRef)), st)
         else if \<not> force \<and> (case GetReverseEvent sourceRef (events st) of None \<Rightarrow> False | Some e \<Rightarrow> EventState e \<noteq> ReverseEventStatePending) then (None, st)
         else if rread_fault env (rtick st) (QMapping sourceAuthor) then (Some (ReadFault (QMapping sourceAuthor)), st)
         else case GetReverseIdentityMapping sourceAuthor (mappings st) of
           None \<Rightarrow> (None, st)
         | Some m \<Rightarrow>
           if \<not> MapActive m then (None, st)
           else case decodeSSBContent env raw of
             None \<Rightarrow>
               persistReverseEvent env (failed (''decode_ssb_json='' @ decode_text env raw)
                 (baseReverseEvent logSeq sourceRef sourceAuthor sourceSeq (MapDID m) [] raw)) st
           | Some content \<Rightarrow>
             (case buildReverseEvent env st logSeq sourceRef sourceAuthor sourceSeq m content raw of
                Inl e \<Rightarrow> (Some e, st)
              | Inr None \<Rightarrow> (None, st)
              | Inr (Some (event, r, deleteATURI)) \<Rightarrow> publish_event env event r deleteATURI content st))"

definition int64Ptr :: "int \<Rightarrow> int option" where
  "int64Ptr v = (if v \<le> 0 then None else Some v)"

definition processStoredMessage :: "renv \<Rightarrow> int \<Rightarrow> StoredMessage \<Rightarrow> bool \<Rightarrow> rop" where
  "processStoredMessage env logSeq m force st =
     (let md = SMetadata m; hash = TrimSpace (Metadata.Hash md); sourceRef = (if hash = [] then TrimSpace (SKey m) else hash)
      in processDecodedMessage env logSeq sourceRef (TrimSpace (Metadata.Author md)) (int64Ptr (Metadata.Sequence md)) (SValue m) force st)"

text \<open>\<open>Sscanf\<close> with \<open>%d\<close>: a sign and digits, and whatever follows is ignored.\<close>

definition scan_int :: "string \<Rightarrow> int option" where
  "scan_int s =
     (let sgn = s \<noteq> [] \<and> (hd s = CHR ''-'' \<or> hd s = CHR ''+''); ds = takeWhile is_digit (if sgn then tl s else s)
      in if ds = [] then None
         else let v = (if sgn \<and> hd s = CHR ''-'' then - int (read_digits ds) else int (read_digits ds))
           in if - (2 ^ 63) \<le> v \<and> v < 2 ^ 63 then Some v else None)"

definition readLastProcessedSeq :: "renv \<Rightarrow> rstate \<Rightarrow> reverse_error + int" where
  "readLastProcessedSeq env st =
     (if rread_fault env (rtick st) (QState reverseReceiveLogSeqKey) then Inl (ReadFault (QState reverseReceiveLogSeqKey))
      else case map_of (rbridge st) reverseReceiveLogSeqKey of
        None \<Rightarrow> Inr 0
      | Some v \<Rightarrow>
        if TrimSpace v = [] then Inr 0
        else case scan_int (TrimSpace v) of None \<Rightarrow> Inl (BadSeq v) | Some n \<Rightarrow> Inr n)"

text \<open>The receive log: its last number and what it holds at a number, where either may fail.\<close>

record receive_log =
  log_last :: "int option"
  log_at :: "int \<Rightarrow> StoredMessage option"

text \<open>The loop of \<open>ProcessBatch\<close>: at most \<open>n\<close> messages from number \<open>seq\<close> on.\<close>

fun batch_loop :: "renv \<Rightarrow> receive_log \<Rightarrow> int \<Rightarrow> nat \<Rightarrow> int \<Rightarrow> nat \<Rightarrow> rstate \<Rightarrow> (nat \<times> reverse_error option) \<times> rstate" where
  "batch_loop env lg currentSeq 0 seq processed st = ((processed, None), st)"
| "batch_loop env lg currentSeq (Suc n) seq processed st =
     (if \<not> seq \<le> currentSeq then ((processed, None), st)
      else case log_at lg seq of
        None \<Rightarrow> ((processed, Some (LogGet seq)), st)
      | Some m \<Rightarrow>
        (case processStoredMessage env seq m False st of
           (Some e, st) \<Rightarrow> ((processed, Some e), st)
         | (None, st) \<Rightarrow>
           (case set_state env reverseReceiveLogSeqKey (show_int seq) st of
              (Some e, st) \<Rightarrow> ((processed, Some e), st)
            | (None, st) \<Rightarrow> batch_loop env lg currentSeq n (seq + 1) (processed + 1) st)))"

definition ProcessBatch :: "renv \<Rightarrow> receive_log \<Rightarrow> int \<Rightarrow> rstate \<Rightarrow> (nat \<times> reverse_error option) \<times> rstate" where
  "ProcessBatch env lg batchSize st =
     (let batchSize = (if batchSize \<le> 0 then defaultReverseScanLimit else batchSize)
      in case log_last lg of
           None \<Rightarrow> ((0, Some LogSeq), st)
         | Some currentSeq \<Rightarrow>
           if currentSeq < 1 then ((0, None), st)
           else case readLastProcessedSeq env st of
             Inl e \<Rightarrow> ((0, Some e), st)
           | Inr lastSeq \<Rightarrow> batch_loop env lg currentSeq (nat batchSize) (lastSeq + 1) 0 st)"

text \<open>The receive log of the feed database.\<close>

definition db_log :: "Feedlog.env \<Rightarrow> db \<Rightarrow> receive_log" where
  "db_log e s = \<lparr>log_last = Some (receive_Seq s), log_at = (\<lambda>n. case receive_Get e n s of Inl _ \<Rightarrow> None | Inr m \<Rightarrow> Some m)\<rparr>"

text \<open>One round of \<open>Run\<close>: faults of the two status writes are ignored. \<open>error_text\<close> is the text of an error.\<close>

definition runOnce :: "renv \<Rightarrow> (reverse_error \<Rightarrow> string) \<Rightarrow> receive_log \<Rightarrow> int \<Rightarrow> rstate \<Rightarrow> rstate" where
  "runOnce env error_text lg batchSize st =
     (case ProcessBatch env lg (if batchSize \<le> 0 then defaultReverseScanLimit else batchSize) st of
        ((processed, err), st) \<Rightarrow>
        (let st = snd (set_state env reverseLastScanAtKey (rfc3339 env (rclock env (rtick st))) st)
         in snd (set_state env reverseLastErrorKey (case err of None \<Rightarrow> [] | Some e \<Rightarrow> error_text e) st)))"

definition RetryEvent :: "renv \<Rightarrow> string \<Rightarrow> rop" where
  "RetryEvent env sourceRef st =
     (let sourceRef = TrimSpace sourceRef
      in if sourceRef = [] then (Some BlankRef, st)
         else if rread_fault env (rtick st) (QEvent sourceRef) then (Some (ReadFault (QEvent sourceRef)), st)
         else case GetReverseEvent sourceRef (events st) of
           None \<Rightarrow> (Some EventNotFound, st)
         | Some e \<Rightarrow>
           if EventState e = ReverseEventStatePublished \<or> EventState e = ReverseEventStateSkipped then (Some NotRetryable, st)
           else if rwrite_fault env (rtick st) then (Some WriteFault, st\<lparr>rtick := Suc (rtick st)\<rparr>)
           else
             let st = st\<lparr>events := ResetReverseEventForRetry (rclock env (rtick st)) sourceRef (events st), rtick := Suc (rtick st)\<rparr>
             in processDecodedMessage env (ReceiveLogSeq e) (SourceSSBMsgRef e) (SourceSSBAuthor e) (SourceSSBSeq e) (RawSSBJSON e) True st)"

end
