(* ===== verification/ReverseProps.thy ===== *)
theory ReverseProps
  imports Reverse FeedlogProps ProcessorProps
begin

text \<open>
  What the reverse processor does to the tables and to repositories. The effects of the processor are
  few: it counts, logs writes to repositories, stores events, correlation rows and bridge state. The
  locales \<open>reverse_effects\<close> and \<open>reverse_steps\<close> take a relation between states that holds for each of them and show that it
  holds for whole runs; they are interpreted for what may be written and for how the tables may change.
\<close>

section \<open>What a message may ask for\<close>

text \<open>The permission a record needs. Profiles need none.\<close>

definition permitted :: "ReverseIdentityMapping \<Rightarrow> reverse_record \<Rightarrow> bool" where
  "permitted m r =
     (case r of RPost p \<Rightarrow> if Reply p = None then AllowPosts m else AllowReplies m
      | RProfile _ \<Rightarrow> True | RLike _ \<Rightarrow> AllowPosts m | RRepost _ \<Rightarrow> AllowPosts m | RFollow _ \<Rightarrow> AllowFollows m)"

text \<open>
  An event built for a message is deferred or skipped, or it is pending and asks for a permitted
  record or, as an unfollow, for a permitted deletion.
\<close>

definition well_built :: "ReverseIdentityMapping \<Rightarrow> string \<Rightarrow> string \<Rightarrow> ReverseEvent \<Rightarrow> reverse_record option \<Rightarrow> bool" where
  "well_built m ref author ev r \<longleftrightarrow> SourceSSBMsgRef ev = ref \<and> SourceSSBAuthor ev = author \<and> EventDID ev = MapDID m \<and> Attempts ev = 0 \<and>
     TrimSpace (Action ev) \<noteq> [] \<and>
     (EventState ev = ReverseEventStateDeferred \<or> EventState ev = ReverseEventStateSkipped \<or>
      EventState ev = ReverseEventStatePending \<and>
        (if Action ev = ReverseActionUnfollow then AllowFollows m else (\<exists>r'. r = Some r' \<and> permitted m r')))"

lemma trim_action [simp]:
  "TrimSpace ReverseActionPost \<noteq> []" "TrimSpace ReverseActionReply \<noteq> []" "TrimSpace ReverseActionFollow \<noteq> []"
  "TrimSpace ReverseActionUnfollow \<noteq> []" "TrimSpace ReverseActionVote \<noteq> []" "TrimSpace ReverseActionAbout \<noteq> []"
  "TrimSpace ReverseActionRepost \<noteq> []"
  unfolding reverse_action_defs by code_simp+

lemma action_neq [simp]:
  "ReverseActionPost \<noteq> ReverseActionUnfollow" "ReverseActionReply \<noteq> ReverseActionUnfollow" "ReverseActionFollow \<noteq> ReverseActionUnfollow"
  "ReverseActionVote \<noteq> ReverseActionUnfollow" "ReverseActionAbout \<noteq> ReverseActionUnfollow" "ReverseActionRepost \<noteq> ReverseActionUnfollow"
  by (simp_all add: reverse_action_defs)

lemma base_simps [simp]:
  "SourceSSBMsgRef (baseReverseEvent n ref a sq did act raw) = ref" "SourceSSBAuthor (baseReverseEvent n ref a sq did act raw) = a"
  "EventDID (baseReverseEvent n ref a sq did act raw) = did" "Attempts (baseReverseEvent n ref a sq did act raw) = 0"
  "Action (baseReverseEvent n ref a sq did act raw) = act" "EventState (baseReverseEvent n ref a sq did act raw) = ReverseEventStatePending"
  by (simp_all add: baseReverseEvent_def)

lemmas built_defs = well_built_def permitted_def stop_def skipped_def deferred_def new_post_def

lemma build_post_ok:
  "build_post env st (\<lambda>act. baseReverseEvent n ref a sq (MapDID m) act raw) m content = Inr (Some (ev, r, d)) \<Longrightarrow> well_built m ref a ev r"
  by (auto simp: build_post_def built_defs Let_def split: prod.splits if_splits sum.splits)

lemma build_repost_ok:
  "build_repost env st (\<lambda>act. baseReverseEvent n ref a sq (MapDID m) act raw) m content = Inr (Some (ev, r, d)) \<Longrightarrow> well_built m ref a ev r"
  by (auto simp: build_repost_def Let_def build_subject_def built_defs split: if_splits sum.splits option.splits)

lemma build_vote_ok:
  "build_vote env st (\<lambda>act. baseReverseEvent n ref a sq (MapDID m) act raw) m content = Inr (Some (ev, r, d)) \<Longrightarrow> well_built m ref a ev r"
  by (auto simp: build_vote_def Let_def build_subject_def built_defs split: if_splits sum.splits option.splits val.splits)

lemma build_about_ok:
  "build_about (\<lambda>act. baseReverseEvent n ref a sq (MapDID m) act raw) a content = Inr (Some (ev, r, d)) \<Longrightarrow> well_built m ref a ev r"
  by (auto simp: build_about_def Let_def built_defs split: if_splits)

lemma build_contact_ok:
  "build_contact env st (\<lambda>act. baseReverseEvent n ref a sq (MapDID m) act raw) m content = Inr (Some (ev, r, d)) \<Longrightarrow> well_built m ref a ev r"
  by (auto simp: build_contact_def Let_def built_defs split: if_splits option.splits)

lemma buildReverseEvent_ok:
  "buildReverseEvent env st n ref a sq m content raw = Inr (Some (ev, r, d)) \<Longrightarrow> well_built m ref a ev r"
  by (auto simp: buildReverseEvent_def Let_def split: if_splits
      dest: build_post_ok build_repost_ok build_vote_ok build_about_ok build_contact_ok)

lemma enrich_permitted: "enrich_record env feed content r st = (Inr (Inr r'), st') \<Longrightarrow> permitted m r' = permitted m r"
  by (auto simp: enrich_record_def permitted_def enrichReversePostRecord_def Let_def
      split: reverse_record.splits prod.splits sum.splits)

lemma publish_states [simp]:
  "Attempts (failed txt e) = Attempts e" "Attempts (deferred txt e) = Attempts e" "Attempts (published t u c raw e) = Attempts e"
  "SourceSSBMsgRef (failed txt e) = SourceSSBMsgRef e" "SourceSSBMsgRef (deferred txt e) = SourceSSBMsgRef e"
  "SourceSSBMsgRef (published t u c raw e) = SourceSSBMsgRef e"
  "EventState (failed txt e) = ReverseEventStateFailed" "EventState (deferred txt e) = ReverseEventStateDeferred"
  "EventState (published t u c raw e) = ReverseEventStatePublished"
  by (simp_all add: failed_def deferred_def published_def)

text \<open>A repository that the server gave for the credentials of a mapping, and a write that the mapping grants.\<close>

definition session_of :: "renv \<Rightarrow> ReverseIdentityMapping \<Rightarrow> string \<Rightarrow> bool" where
  "session_of env m repo \<longleftrightarrow> (\<exists>t cred. ServerCreateSession env t cred = Inr repo \<and> CredDID cred = TrimSpace (MapDID m))"

definition grant :: "renv \<Rightarrow> ReverseIdentityMapping \<Rightarrow> repo_write \<Rightarrow> bool" where
  "grant env m w =
     (case w of WUpload _ _ \<Rightarrow> True
      | WCreate repo _ r \<Rightarrow> session_of env m repo \<and> permitted m r
      | WDelete repo _ _ \<Rightarrow> session_of env m repo \<and> AllowFollows m)"

lemma resolveCredential_did: "resolveCredential env st did = Inr cred \<Longrightarrow> CredDID cred = TrimSpace did"
  by (auto simp: resolveCredential_def Let_def split: if_splits option.splits)

section \<open>Relations kept by the processor\<close>

locale reverse_effects =
  fixes R :: "rstate \<Rightarrow> rstate \<Rightarrow> bool"
    and ok :: "repo_write \<Rightarrow> bool"
  assumes refl [simp, intro]: "R st st"
    and keeps: "R a b \<Longrightarrow> mappings b = mappings a"
    and trans: "R a b \<Longrightarrow> R b c \<Longrightarrow> R a c"
    and tick: "R st (st\<lparr>rtick := n\<rparr>)"
    and logged: "ok w \<Longrightarrow> R st (did_write w st)"
    and event: "0 \<le> Attempts e \<Longrightarrow> R st (st\<lparr>events := put_event t e (events st), rtick := n\<rparr>)"
    and correlate: "R st (st\<lparr>rmessages := AddMessage t m (rmessages st), rtick := n\<rparr>)"
begin

lemma persist: "0 \<le> Attempts e \<Longrightarrow> R st (snd (persistReverseEvent env e st))"
  by (auto simp: persistReverseEvent_def AddReverseEvent_def tick event split: sum.splits)

lemma upload:
  assumes "\<And>data mime. ok (WUpload data mime)"
  shows "R st (snd (upload_blob env bs feed link mime st))"
proof -
  have u: "R s (did_write (WUpload data mime) s)" for s data by (simp add: logged assms)
  have "R st (did_write (WUpload data mime) (st\<lparr>rtick := n\<rparr>))" for n data by (rule trans [OF tick u])
  with u show ?thesis
    by (auto simp: upload_blob_def UploadBlob_def Let_def tick split: sum.splits option.splits)
qed

lemma images:
  assumes "\<And>data mime. ok (WUpload data mime)"
  shows "R st (snd (image_loop env bs feed ms images seen embedded st))"
proof (induction ms arbitrary: images seen embedded st)
  case (Cons m ms)
  have u: "upload_blob env bs feed l t s = (r, s') \<Longrightarrow> R s s'" for l t s r s'
    using upload [OF assms, of s env bs feed l t] by simp
  show ?case
    by (auto simp: Let_def Cons split: option.splits sum.splits prod.splits dest!: u intro: trans [OF _ Cons])
qed simp

lemma enrich:
  assumes "\<And>data mime. ok (WUpload data mime)"
  shows "R st (snd (enrich_record env feed content r st))"
proof -
  have p: "enrichReversePostRecord env feed content q st = (x, st') \<Longrightarrow> R st st'" for q x st'
    using images [OF assms, of st env _ feed _ "[]" "[]" "[]"]
    by (auto simp: enrichReversePostRecord_def buildReverseImageEmbeds_def Let_def split: prod.splits sum.splits option.splits if_splits)
      (metis snd_conv)+
  have f: "enrichReverseProfileRecord env feed content q st = (x, st') \<Longrightarrow> R st st'" for q x st'
    using upload [OF assms, of st env _ feed]
    by (auto simp: enrichReverseProfileRecord_def Let_def split: prod.splits sum.splits option.splits if_splits) (metis snd_conv)+
  show ?thesis
    by (auto simp: enrich_record_def split: reverse_record.splits prod.splits sum.splits dest!: p f)
qed

lemma delete:
  assumes "AllowFollows m" and "session_of env m repo" and "\<And>w. grant env m w \<Longrightarrow> ok w" and "0 \<le> Attempts ev"
  shows "R st (snd (delete_step env repo ev uri st))"
proof -
  have w: "R s (did_write (WDelete repo c k) s)" for s c k by (rule logged) (use assms in \<open>simp add: grant_def\<close>)
  show ?thesis
    by (auto simp: delete_step_def DeleteRecord_def assms(4) split: sum.splits option.splits intro: persist trans [OF w persist])
qed

lemma correlation: "R st (snd (persistForwardCorrelation env ev r st))"
  by (simp add: persistForwardCorrelation_def tick correlate)

lemma create:
  assumes "permitted m r" and "session_of env m repo" and "\<And>w. grant env m w \<Longrightarrow> ok w" and "0 \<le> Attempts ev"
  shows "R st (snd (create_step env repo ev content r st))"
proof (cases "enrich_record env (SourceSSBAuthor ev) content r st")
  case (Pair x st1)
  have up: "ok (WUpload data mime)" for data mime by (rule assms(3)) (simp add: grant_def)
  then have r1: "R st st1" using enrich [of st env "SourceSSBAuthor ev" content r] Pair by simp
  have p: "R st (snd (persistReverseEvent env e st1))" if "0 \<le> Attempts e" for e
    by (rule trans [OF r1 persist [OF that]])
  show ?thesis
  proof (cases "\<exists>r'. x = Inr (Inr r')")
    case False
    then show ?thesis using p Pair assms(4) by (auto simp: create_step_def split: sum.splits)
  next
    case True
    then obtain r' where r': "x = Inr (Inr r')" by blast
    have "permitted m r'" using enrich_permitted [of env _ content r st r' st1 m] Pair r' assms(1) by blast
    then have r2: "R st (did_write (WCreate repo (ResultCollection ev) r') st1)"
      by (intro trans [OF r1] logged assms(3)) (simp add: grant_def assms(2))
    have fin: "R st (snd (persistReverseEvent env e (did_write (WCreate repo (ResultCollection ev) r') st1)))" if "0 \<le> Attempts e" for e
      by (rule trans [OF r2 persist [OF that]])
    have cor: "R st st2" if "persistForwardCorrelation env e r' (did_write (WCreate repo (ResultCollection ev) r') st1) = (y, st2)" for e y st2
      using trans [OF r2 correlation [of _ env e r']] that by (metis snd_conv)
    show ?thesis
      using fin assms(4) by (auto simp: create_step_def Pair r' CreateRecord_def Let_def split: sum.splits prod.splits option.splits dest!: cor intro: trans [OF _ persist])
  qed
qed

lemma publish:
  assumes "well_built m ref author ev r" and "\<And>w. grant env m w \<Longrightarrow> ok w"
  shows "R st (snd (publish_event env ev r uri content st))"
proof (cases "EventState ev = ReverseEventStateDeferred \<or> EventState ev = ReverseEventStateSkipped")
  case True
  then show ?thesis using assms(1) by (simp add: publish_event_def well_built_def persist)
next
  case False
  note b = assms(1) [unfolded well_built_def]
  let ?ev = "ev\<lparr>Attempts := 1, LastAttemptAt := Some (rclock env (rtick st))\<rparr>" and ?st = "st\<lparr>rtick := Suc (rtick st)\<rparr>"
  show ?thesis
  proof (cases "resolveCredential env st (EventDID ev)")
    case (Inl reason)
    then show ?thesis using False b by (simp add: publish_event_def persist)
  next
    case (Inr cred)
    show ?thesis
    proof (cases "ServerCreateSession env (rtick st) cred")
      case (Inl err)
      then show ?thesis using False Inr b by (simp add: publish_event_def Let_def trans [OF tick persist])
    next
      case (Inr repo)
      have s: "session_of env m repo"
        using Inr resolveCredential_did [OF \<open>resolveCredential env st (EventDID ev) = Inr cred\<close>] b by (auto simp: session_of_def)
      have d: "AllowFollows m \<Longrightarrow> R st (snd (delete_step env repo ?ev uri ?st))"
        by (rule trans [OF tick delete [OF _ s assms(2)]]) simp_all
      have c: "permitted m r' \<Longrightarrow> R st (snd (create_step env repo ?ev content r' ?st))" for r'
        by (rule trans [OF tick create [OF _ s assms(2)]]) simp_all
      show ?thesis using False b Inr \<open>resolveCredential env st (EventDID ev) = Inr cred\<close> c d
        by (auto simp: publish_event_def Let_def tick split: option.splits if_splits)
    qed
  qed
qed

lemma process:
  assumes "\<And>m w. map_of (mappings st) (TrimSpace (TrimSpace author)) = Some m \<Longrightarrow> MapActive m \<Longrightarrow> grant env m w \<Longrightarrow> ok w"
  shows "R st (snd (processDecodedMessage env n ref author sq raw force st))"
  using assms
  by (auto simp: processDecodedMessage_def Let_def GetReverseIdentityMapping_def split: option.splits sum.splits
      intro: persist publish [OF buildReverseEvent_ok])

end

text \<open>Batches also move the cursor, and retries reset an event.\<close>

locale reverse_steps = reverse_effects +
  assumes reset: "R st (st\<lparr>events := ResetReverseEventForRetry t ref (events st), rtick := n\<rparr>)"
    and bridge: "R st (st\<lparr>rbridge := gput k v (rbridge st), rtick := n\<rparr>)"
begin

lemma state: "R st (snd (set_state env k v st))"
  by (simp add: set_state_def tick bridge)

lemma batch:
  assumes "\<And>a m w. map_of (mappings st) a = Some m \<Longrightarrow> MapActive m \<Longrightarrow> grant env m w \<Longrightarrow> ok w"
  shows "R st (snd (batch_loop env lg c n seq k st))"
  using assms
proof (induction n arbitrary: seq k st)
  case (Suc n)
  have one: "R st (snd (processStoredMessage env seq m False st))" for m
    unfolding processStoredMessage_def Let_def by (rule process) (use Suc.prems in blast)
  show ?case
  proof (cases "seq \<le> c \<and> (\<exists>m st1 st2. log_at lg seq = Some m \<and> processStoredMessage env seq m False st = (None, st1) \<and>
      set_state env reverseReceiveLogSeqKey (show_int seq) st1 = (None, st2))")
    case True
    then obtain m st1 st2 where t: "seq \<le> c" "log_at lg seq = Some m" "processStoredMessage env seq m False st = (None, st1)"
      "set_state env reverseReceiveLogSeqKey (show_int seq) st1 = (None, st2)" by blast
    have r: "R st st2" using trans [OF one state] t by (metis snd_conv)
    have "R st2 (snd (batch_loop env lg c n (seq + 1) (k + 1) st2))"
      by (rule Suc.IH) (use Suc.prems keeps [OF r] in auto)
    with t r show ?thesis by (auto intro: trans)
  next
    case False
    then show ?thesis using one trans [OF one state]
      by (auto split: option.splits prod.splits) (metis snd_conv)+
  qed
qed simp

lemma batches:
  assumes "\<And>a m w. map_of (mappings st) a = Some m \<Longrightarrow> MapActive m \<Longrightarrow> grant env m w \<Longrightarrow> ok w"
  shows "R st (snd (ProcessBatch env lg n st))"
  by (auto simp: ProcessBatch_def Let_def split: option.splits sum.splits intro: batch assms)

lemma round:
  assumes "\<And>a m w. map_of (mappings st) a = Some m \<Longrightarrow> MapActive m \<Longrightarrow> grant env m w \<Longrightarrow> ok w"
  shows "R st (runOnce env txt lg n st)"
proof -
  let ?n = "if n \<le> 0 then defaultReverseScanLimit else n"
  obtain res st1 where b: "ProcessBatch env lg ?n st = (res, st1)" by fastforce
  have r: "R st st1" using batches [of st env lg ?n] assms b by (metis snd_conv)
  obtain k err where "res = (k, err)" by fastforce
  with b show ?thesis by (simp add: runOnce_def Let_def trans [OF r trans [OF state state]])
qed

lemma retry:
  assumes "\<And>a m w. map_of (mappings st) a = Some m \<Longrightarrow> MapActive m \<Longrightarrow> grant env m w \<Longrightarrow> ok w"
  shows "R st (snd (RetryEvent env ref st))"
  using assms by (auto simp: RetryEvent_def Let_def tick split: option.splits intro!: trans [OF reset process])

end

section \<open>Two readings\<close>



text \<open>Events and message rows are never lost, keep their creation time, and attempts never go down.\<close>

definition tables_grow :: "rstate \<Rightarrow> rstate \<Rightarrow> bool" where
  "tables_grow st st' \<longleftrightarrow> mappings st' = mappings st \<and>
     (\<forall>k e. map_of (events st) k = Some e \<longrightarrow>
        (\<exists>e'. map_of (events st') k = Some e' \<and> EventCreatedAt e' = EventCreatedAt e \<and> Attempts e \<le> Attempts e')) \<and>
     (\<forall>k m. map_of (rmessages st) k = Some m \<longrightarrow>
        (\<exists>m'. map_of (rmessages st') k = Some m' \<and> Message.CreatedAt m' = Message.CreatedAt m))"

lemma grow_put: "0 \<le> Attempts e \<Longrightarrow> map_of t k = Some old \<Longrightarrow>
  \<exists>e'. map_of (put_event c e t) k = Some e' \<and> EventCreatedAt e' = EventCreatedAt old \<and> Attempts old \<le> Attempts e'"
  by (auto simp: re.get_ins merge_event_def)

lemma grow_reset: "map_of t k = Some old \<Longrightarrow>
  \<exists>e'. map_of (ResetReverseEventForRetry c ref t) k = Some e' \<and> EventCreatedAt e' = EventCreatedAt old \<and> Attempts old \<le> Attempts e'"
  by (auto simp: ResetReverseEventForRetry_def gm_simps split: option.splits)

lemma tables_grow_trans:
  assumes "tables_grow a b" and "tables_grow b c"
  shows "tables_grow a c"
  unfolding tables_grow_def
proof (intro conjI allI impI)
  show "mappings c = mappings a" using assms by (simp add: tables_grow_def)
next
  fix k e assume "map_of (events a) k = Some e"
  then obtain e1 where "map_of (events b) k = Some e1" "EventCreatedAt e1 = EventCreatedAt e" "Attempts e \<le> Attempts e1"
    using assms(1) unfolding tables_grow_def by blast
  moreover from this obtain e2 where "map_of (events c) k = Some e2" "EventCreatedAt e2 = EventCreatedAt e1" "Attempts e1 \<le> Attempts e2"
    using assms(2) unfolding tables_grow_def by blast
  ultimately show "\<exists>e'. map_of (events c) k = Some e' \<and> EventCreatedAt e' = EventCreatedAt e \<and> Attempts e \<le> Attempts e'" by auto
next
  fix k m assume "map_of (rmessages a) k = Some m"
  then obtain m1 where "map_of (rmessages b) k = Some m1" "Message.CreatedAt m1 = Message.CreatedAt m"
    using assms(1) unfolding tables_grow_def by blast
  moreover from this obtain m2 where "map_of (rmessages c) k = Some m2" "Message.CreatedAt m2 = Message.CreatedAt m1"
    using assms(2) unfolding tables_grow_def by blast
  ultimately show "\<exists>m'. map_of (rmessages c) k = Some m' \<and> Message.CreatedAt m' = Message.CreatedAt m" by auto
qed

interpretation tg: reverse_steps tables_grow "\<lambda>_. True"
proof (unfold_locales, goal_cases)
  case (3 a b c)
  then show ?case by (rule tables_grow_trans)
next
  case (6 e st t n)
  then show ?case using grow_put [OF 6, of "events st"] by (simp add: tables_grow_def)
next
  case (8 st t ref n)
  then show ?case using grow_reset [of "events st"] by (simp add: tables_grow_def)
qed (simp_all add: tables_grow_def did_write_def ms.get_ins)




section \<open>Outcomes\<close>

text \<open>Every run that ends without an error after an event was built ends with storing the event in a final state.\<close>

definition final_state :: "ReverseEvent \<Rightarrow> bool" where
  "final_state e \<longleftrightarrow> EventState e \<in> {ReverseEventStatePublished, ReverseEventStateFailed, ReverseEventStateDeferred, ReverseEventStateSkipped}"

lemma final_neq: "final_state e \<Longrightarrow> EventState e \<noteq> ReverseEventStatePending \<and> TrimSpace (EventState e) \<noteq> []"
proof -
  have "TrimSpace ReverseEventStatePublished \<noteq> []" "TrimSpace ReverseEventStateFailed \<noteq> []" "TrimSpace ReverseEventStateDeferred \<noteq> []"
    "TrimSpace ReverseEventStateSkipped \<noteq> []"
    unfolding reverse_state_defs by code_simp+
  then show "final_state e \<Longrightarrow> ?thesis" by (auto simp: final_state_def reverse_state_defs)
qed

definition settles :: "renv \<Rightarrow> string \<Rightarrow> rstate \<Rightarrow> bool" where
  "settles env ref st \<longleftrightarrow> (\<exists>e st0. persistReverseEvent env e st0 = (None, st) \<and> SourceSSBMsgRef e = ref \<and> final_state e)"

lemma settlesI: "persistReverseEvent env e st0 = (None, st) \<Longrightarrow> SourceSSBMsgRef e = ref \<Longrightarrow> final_state e \<Longrightarrow> settles env ref st"
  by (auto simp: settles_def)

lemma final_simps [simp]:
  "final_state (failed txt e)" "final_state (deferred txt e)" "final_state (published t u c raw e)"
  "final_state (e\<lparr>ErrorText := x\<rparr>) = final_state e"
  by (simp_all add: final_state_def)

lemma settled_event:
  assumes "settles env ref st"
  shows "\<exists>e. map_of (events st) ref = Some e \<and> EventState e \<noteq> ReverseEventStatePending"
proof -
  from assms obtain e st0 where p: "persistReverseEvent env e st0 = (None, st)" "SourceSSBMsgRef e = ref" "final_state e"
    by (auto simp: settles_def)
  then obtain c where "events st = put_event c e (events st0)"
    by (auto simp: persistReverseEvent_def AddReverseEvent_def split: if_splits)
  then show ?thesis using p(2) final_neq [OF p(3)]
    by (auto simp: re.get_ins fresh_event_def merge_event_def stored_event_def split: option.splits)
qed

lemma delete_settles: "delete_step env repo ev uri st = (None, st') \<Longrightarrow> settles env (SourceSSBMsgRef ev) st'"
  by (auto simp: delete_step_def split: prod.splits option.splits intro: settlesI)

lemma create_settles: "create_step env repo ev content r st = (None, st') \<Longrightarrow> settles env (SourceSSBMsgRef ev) st'"
  by (auto simp: create_step_def Let_def split: prod.splits option.splits sum.splits intro: settlesI)

lemma publish_settles:
  assumes "publish_event env ev r uri content st = (None, st')" and "well_built m ref author ev r"
  shows "settles env ref st'"
  using assms
  by (auto simp: publish_event_def well_built_def Let_def final_state_def split: if_splits sum.splits option.splits
      intro: settlesI dest!: delete_settles create_settles)

lemma process_settles:
  assumes "processDecodedMessage env n ref author sq raw force st = (None, st')" and "st' \<noteq> st"
  shows "settles env (TrimSpace ref) st'"
  using assms
  by (auto simp: processDecodedMessage_def Let_def split: if_splits option.splits sum.splits
      intro: settlesI publish_settles [OF _ buildReverseEvent_ok])

section \<open>The cursor\<close>



section \<open>Created records\<close>







lemma published_result [simp]: "ResultATURI (published t u c raw e) = u" "ResultATCID (published t u c raw e) = c"
  by (simp_all add: published_def)

lemma new_writes: "repo_writes st' = repo_writes st @ ws \<Longrightarrow> w \<in> set (drop (length (repo_writes st)) (repo_writes st')) \<longleftrightarrow> w \<in> set ws"
  by simp




section \<open>Images\<close>

definition image_ok :: "EmbedImages_Image \<Rightarrow> bool" where
  "image_ok i = (case Image i of None \<Rightarrow> False | Some b \<Rightarrow> is_image (TrimSpace (MimeType b)))"

lemma uploaded_image_ok: "uploaded_image link mime b = Inr b' \<Longrightarrow> is_image (TrimSpace (MimeType b'))"
  by (auto simp: uploaded_image_def Let_def split: if_splits)

lemma image_mime_room: "image_mime link t meta n = Inr mime \<Longrightarrow> n < maxReverseImageEmbeds"
  by (auto simp: image_mime_def Let_def split: if_splits)

lemma image_loop_ok:
  assumes "image_loop env bs feed ms images seen embedded st = (Inr (Inr (images', embedded')), st')"
    and "length images \<le> maxReverseImageEmbeds" and "list_all image_ok images"
  shows "length images' \<le> maxReverseImageEmbeds \<and> list_all image_ok images'"
  using assms
proof (induction ms arbitrary: images seen embedded st)
  case (Cons m ms)
  show ?case
  proof (cases "HasPrefix (link_of m) ''&'' \<and> map_of seen (link_of m) = None")
    case False
    then show ?thesis using Cons.prems Cons.IH by (auto simp: Let_def split: if_splits option.splits)
  next
    case True
    then obtain mime b b' st1 where
      r: "image_mime (link_of m) (TrimSpace (stringValue (map_of m ''type''))) (map_of (rblobs st) (link_of m)) (length images) = Inr mime"
        "uploaded_image (link_of m) mime b = Inr b'"
        "image_loop env bs feed ms
           (images @ [\<lparr>Alt = TrimSpace (stringValue (map_of m ''name'')), Image = Some b', ImgRatio = None\<rparr>])
           (gput (link_of m) mime seen) (List.insert (link_of m) embedded) st1 = (Inr (Inr (images', embedded')), st')"
      using Cons.prems(1) by (auto simp: Let_def split: if_splits sum.splits prod.splits)
    then show ?thesis using Cons.IH [OF r(3)] Cons.prems(3) image_mime_room [OF r(1)] uploaded_image_ok [OF r(2)]
      by (simp add: image_ok_def)
  qed
qed simp

section \<open>Properties\<close>


text \<open>C28:
  Batches and retries lose no event and no message row, keep creation times and never lower an attempt
  counter, and leave the identity mappings alone.
\<close>

theorem reverse_tables_grow:
  "tables_grow st (foldl (\<lambda>s op. case op of Inl n \<Rightarrow> runOnce env txt lg n s | Inr ref \<Rightarrow> snd (RetryEvent env ref s)) st ops)"
proof (induction ops arbitrary: st)
  case (Cons op ops)
  have "tables_grow st (case op of Inl n \<Rightarrow> runOnce env txt lg n st | Inr ref \<Rightarrow> snd (RetryEvent env ref st))"
    by (auto split: sum.splits intro: tg.round tg.retry)
  then show ?case using Cons by (auto intro: tg.trans)
qed simp

text \<open>C27:
  A message is written to a repository at most once: after a run for it that ended without an error
  and changed anything, a further scan of the message changes nothing.
\<close>

theorem reverse_once:
  assumes "processDecodedMessage env n ref author sq raw force st = (None, st')" and "st' \<noteq> st"
  shows "snd (processDecodedMessage env n' ref author' sq' raw' False st') = st'"
proof -
  obtain e where "map_of (events st') (TrimSpace ref) = Some e" "EventState e \<noteq> ReverseEventStatePending"
    using settled_event [OF process_settles [OF assms]] by blast
  then show ?thesis by (simp add: processDecodedMessage_def Let_def GetReverseEvent_def)
qed

text \<open>C30:
  A message of a mapped feed whose content is not a JSON object, such as an encrypted message, stops the
  reverse processor: its failure is refused by the event table, which wants an action, so the batch
  fails, does not advance the cursor, and leaves everything as it was for the next round to fail on.
\<close>

theorem undecodable_message_blocks:
  assumes "log_last lg = Some c" and "readLastProcessedSeq env st = Inr k" and "1 \<le> c" and "k < c" and "log_at lg (k + 1) = Some msg"
    and "\<forall>q. \<not> rread_fault env (rtick st) q" and "GetReverseEvent (TrimSpace (Metadata.Hash (SMetadata msg))) (events st) = None"
    and "TrimSpace (Metadata.Hash (SMetadata msg)) \<noteq> []" and "TrimSpace (Metadata.Author (SMetadata msg)) \<noteq> []"
    and "GetReverseIdentityMapping (TrimSpace (Metadata.Author (SMetadata msg))) (mappings st) = Some m" and "MapActive m" and "TrimSpace (MapDID m) \<noteq> []"
    and "decodeSSBContent env (SValue msg) = None"
  shows "ProcessBatch env lg n st = ((0, Some (Store ActionRequired)), st)"
proof -
  obtain j where j: "nat (if n \<le> 0 then defaultReverseScanLimit else n) = Suc j"
    by (cases "nat (if n \<le> 0 then defaultReverseScanLimit else n)") (auto simp: defaultReverseScanLimit_def split: if_splits)
  have "processStoredMessage env (k + 1) msg False st = (Some (Store ActionRequired), st)"
    using assms(6-13)
    by (simp add: processStoredMessage_def processDecodedMessage_def Let_def persistReverseEvent_def AddReverseEvent_def failed_def)
  with assms j show ?thesis by (simp add: ProcessBatch_def Let_def)
qed



text \<open>C31:
  A reverse post embeds at most four images, and each uploaded blob has an image type.
\<close>

theorem reverse_images_bounded:
  assumes "buildReverseImageEmbeds env feed mentions st = (Inr (Inr (images, embedded)), st')"
  shows "length images \<le> 4 \<and> list_all (\<lambda>i. case Image i of None \<Rightarrow> False | Some b \<Rightarrow> is_image (TrimSpace (MimeType b))) images"
proof -
  have "length images \<le> maxReverseImageEmbeds \<and> list_all image_ok images"
    using assms image_loop_ok [of env _ feed mentions "[]" "[]" "[]" st images embedded st']
    by (auto simp: buildReverseImageEmbeds_def split: if_splits option.splits)
  then show ?thesis by (simp add: maxReverseImageEmbeds_def image_ok_def [abs_def])
qed

text \<open>
  When a record was created and the row that ties it to its message cannot be stored, the event is not
  stored either: the next batch creates the record a second time.
\<close>

lemma lost_correlation_repeats:
  assumes "enrich_record env (SourceSSBAuthor ev) content r st = (Inr (Inr q), st1)" and "events st1 = events st"
    and "RepoCreateRecord env (rtick st1) repo (ResultCollection ev) q = Inr (uri, cid)" and "TrimSpace uri \<noteq> []"
    and "rwrite_fault env (Suc (rtick st1))"
  shows "\<exists>st'. create_step env repo ev content r st = (Some WriteFault, st') \<and> events st' = events st \<and>
    WCreate repo (ResultCollection ev) q \<in> set (repo_writes st')"
  using assms by (simp add: create_step_def CreateRecord_def did_write_def Let_def persistForwardCorrelation_def)

section \<open>Witnesses\<close>

text \<open>
  One feed mapped to the repository \<open>b\<close>, an environment in which every call succeeds, and a receive log
  with a post; a second log starts with a message that is no JSON.
\<close>

definition rdemo_renv :: renv where
  "rdemo_renv = \<lparr>rclock = int, rread_fault = (\<lambda>_ _. False), rwrite_fault = (\<lambda>_. False), Getenv = (\<lambda>_. ''pw''),
     rcredentials = [(''b'', \<lparr>Identifier = ''bob'', PDSHost = ''https://p'', PasswordEnv = ''PW''\<rparr>)], hostResolver = None,
     ServerCreateSession = (\<lambda>_ c. Inr (CredDID c)), RepoUploadBlob = (\<lambda>_ d m. Some (Some \<lparr>Ref = ''r'', MimeType = m, Size = int (length d)\<rparr>)),
     RepoCreateRecord = (\<lambda>_ _ _ _. Inr (''at://b/p/1'', ''cid1'')), RepoDeleteRecord = (\<lambda>_ _ _ _. None), close_ok = (\<lambda>_. True),
     rblobStore = Some (\<lambda>_ _. Some ''png''), rblobFetcher = None,
     unjson = (\<lambda>s. if s = ''P'' then Some (VMap [(''type'', VStr ''post''), (''text'', VStr ''hi'')]) else None),
     show_record = (\<lambda>_. ''{}''), rfc3339 = (\<lambda>_. ''now''), rquote = (\<lambda>s. s), decode_text = (\<lambda>_. ''bad''), enrich_text = (\<lambda>_. ''bad''),
     syntax_text = (\<lambda>_ _. ''bad'')\<rparr>"

definition rdemo_mapping :: ReverseIdentityMapping where
  "rdemo_mapping = \<lparr>MapFeedID = ''@b'', MapDID = ''b'', MapActive = True, AllowPosts = True, AllowReplies = False, AllowFollows = False,
     MapCreatedAt = 0, MapUpdatedAt = 0\<rparr>"

definition rdemo_blob :: string where
  "rdemo_blob = CHR ''&'' # replicate 43 CHR ''A'' @ ''=.sha256''"

definition rdemo_state :: rstate where
  "rdemo_state = \<lparr>mappings = [(''@b'', rdemo_mapping)], events = [], rmessages = [], raccounts = [], rblobs = [(rdemo_blob, ''image/png'')], rbridge = [],
     repo_writes = [], rtick = 0\<rparr>"

definition rdemo_stored :: "string \<Rightarrow> StoredMessage" where
  "rdemo_stored raw = \<lparr>SKey = ''%1'', SValue = raw, SMetadata = zero_Metadata\<lparr>Metadata.Author := ''@b'', Metadata.Sequence := 1, Metadata.Hash := ''%1''\<rparr>, SReceived = 0,
     SFeedFormat = [], SMessageFormat = [], SRawValue = [], SCanonicalRef = [], SValidationStatus = []\<rparr>"

definition rdemo_log :: "string \<Rightarrow> receive_log" where
  "rdemo_log raw = \<lparr>log_last = Some 1, log_at = (\<lambda>n. if n = 1 then Some (rdemo_stored raw) else None)\<rparr>"


definition rdemo_run :: "reverse_error option \<times> rstate" where
  "rdemo_run = processDecodedMessage rdemo_renv 1 ''%1'' ''@b'' (Some 1) ''P'' False rdemo_state"

definition rdemo_post :: reverse_record where
  "rdemo_post = RPost (new_post ''hi'' ''now'' None)"



lemma rdemo_run_ok: "fst rdemo_run = None"
  by code_simp

lemma rdemo_run_writes: "repo_writes (snd rdemo_run) = [WCreate ''b'' ''app.bsky.feed.post'' rdemo_post]"
  by code_simp

lemma rdemo_run_eq: "processDecodedMessage rdemo_renv 1 ''%1'' ''@b'' (Some 1) ''P'' False rdemo_state = (None, snd rdemo_run)"
  using rdemo_run_ok by (simp add: rdemo_run_def prod_eq_iff)

lemma rdemo_start: "repo_writes rdemo_state = []" "readLastProcessedSeq rdemo_renv rdemo_state = Inr 0"
  by (simp_all add: rdemo_state_def readLastProcessedSeq_def rdemo_renv_def)

lemma rdemo_trim: "TrimSpace ''%1'' = ''%1''" "TrimSpace ''@b'' = ''@b''" "TrimSpace ''b'' = ''b''" "TrimSpace ''at://b/p/1'' = ''at://b/p/1''" "TrimSpace ''cid1'' = ''cid1''"
  by (simp_all add: TrimSpace_solid solid_def space_runes_def)

lemma rdemo_undecodable: "decodeSSBContent rdemo_renv ''E'' = None"
  by code_simp


theorem reverse_once_witness:
  "snd (processDecodedMessage rdemo_renv 2 ''%1'' ''@b'' (Some 1) ''P'' False (snd rdemo_run)) = snd rdemo_run"
proof (rule reverse_once [OF rdemo_run_eq])
  show "snd rdemo_run \<noteq> rdemo_state" using rdemo_run_writes rdemo_start by (metis list.distinct(1))
qed

theorem undecodable_message_blocks_witness:
  "ProcessBatch rdemo_renv (rdemo_log ''E'') 5 rdemo_state = ((0, Some (Store ActionRequired)), rdemo_state)"
proof (rule undecodable_message_blocks [where c = 1 and k = 0 and msg = "rdemo_stored ''E''" and m = rdemo_mapping])
  show "readLastProcessedSeq rdemo_renv rdemo_state = Inr 0" by (rule rdemo_start)
qed (simp_all add: rdemo_log_def rdemo_renv_def rdemo_state_def rdemo_stored_def rdemo_mapping_def rdemo_trim GetReverseEvent_def
    GetReverseIdentityMapping_def zero_Metadata_def rdemo_undecodable [unfolded rdemo_renv_def])




definition rdemo_embeds :: "(EmbedImages_Image list \<times> string list) enrich" where
  "rdemo_embeds = buildReverseImageEmbeds rdemo_renv ''@b'' [[(''link'', VStr rdemo_blob)], [(''link'', VStr rdemo_blob)], [(''link'', VStr ''@x'')]] rdemo_state"

definition rdemo_png :: EmbedImages_Image where
  "rdemo_png = \<lparr>Alt = [], Image = Some \<lparr>Ref = ''r'', MimeType = ''image/png'', Size = 3\<rparr>, ImgRatio = None\<rparr>"

lemma rdemo_embeds_ok: "fst rdemo_embeds = Inr (Inr ([rdemo_png], [rdemo_blob]))"
  by code_simp

theorem reverse_images_bounded_witness:
  "length [rdemo_png] \<le> 4 \<and> is_image (TrimSpace ''image/png'')"
  using reverse_images_bounded [of rdemo_renv "''@b''" "[[(''link'', VStr rdemo_blob)], [(''link'', VStr rdemo_blob)], [(''link'', VStr ''@x'')]]"
      rdemo_state "[rdemo_png]" "[rdemo_blob]" "snd rdemo_embeds"] rdemo_embeds_ok
  by (simp add: rdemo_embeds_def prod_eq_iff rdemo_png_def)

end
