(* ===== verification/RoomDb.thy ===== *)
theory RoomDb
  imports Refs AtSyntax "HOL-Library.List_Lexorder" "HOL-Library.Char_ord"
begin

text \<open>
  \<open>internal/ssb/roomdb\<close> and its SQLite store \<open>roomdb/sqlite/sqlite.go\<close>: the members of a room, their
  aliases, invites, tokens and passwords, denied keys, the configuration and the snapshots of who is
  online. A table is the list of its rows in the order of their ids, with the counter of
  \<open>AUTOINCREMENT\<close>; deleting a member cascades to the tables that refer to it. Each statement may fail
  and counts one tick; clock, randomness, SHA-256 and bcrypt are arguments. Times are nanoseconds.
\<close>

section \<open>Roles and modes\<close>

definition ModeOpen :: int where "ModeOpen = 0"
definition ModeCommunity :: int where "ModeCommunity = 1"
definition ModeRestricted :: int where "ModeRestricted = 2"
definition ModeUnknown :: int where "ModeUnknown = -1"

definition ParsePrivacyMode :: "string \<Rightarrow> int" where
  "ParsePrivacyMode s =
     (if s = ''open'' then ModeOpen else if s = ''community'' then ModeCommunity
      else if s = ''restricted'' then ModeRestricted else ModeUnknown)"

definition RoleUnknown :: int where "RoleUnknown = -1"
definition RoleNone :: int where "RoleNone = 0"
definition RoleMember :: int where "RoleMember = 1"
definition RoleModerator :: int where "RoleModerator = 2"
definition RoleAdmin :: int where "RoleAdmin = 3"

definition Role_String :: "int \<Rightarrow> string" where
  "Role_String r =
     (if r = RoleMember then ''member'' else if r = RoleModerator then ''moderator'' else if r = RoleAdmin then ''admin'' else ''unknown'')"

lemmas mode_defs = ModeOpen_def ModeCommunity_def ModeRestricted_def ModeUnknown_def
lemmas role_defs = RoleUnknown_def RoleNone_def RoleMember_def RoleModerator_def RoleAdmin_def

section \<open>Values\<close>

record Member =
  memberID :: int
  memberPubKey :: FeedRef
  memberRole :: int

record Alias =
  aliasID :: int
  aliasName :: string
  aliasOwner :: FeedRef
  aliasSignature :: string
  aliasReversePTR :: string

record Invite =
  inviteID :: int
  inviteToken :: string
  inviteCreatedBy :: int
  inviteUsedBy :: "FeedRef option"
  inviteUsedAt :: int
  inviteCreatedAt :: int
  inviteActive :: bool

record ListEntry =
  entryID :: int
  entryPubKey :: FeedRef
  entryComment :: string
  entryAddedAt :: int

record RuntimeSnapshot =
  snapID :: FeedRef
  snapAddr :: string
  snapSince :: int
  snapLastSeenAt :: int
  snapActive :: bool

record TokenInfo =
  infoMemberID :: int
  infoCreatedAt :: int
  infoLastUsedAt :: "int option"
  infoRotationCount :: int

section \<open>Tables\<close>

record 'r auto =
  trows :: "'r list"
  tseq :: int

record room_member =
  m_id :: int
  m_key :: string
  m_role :: int

record password_row =
  p_id :: int
  p_login :: string
  p_hash :: string
  p_member :: int

record invite_row =
  i_id :: int
  i_hash :: string
  i_by :: int
  i_at :: int
  i_active :: bool

record alias_row =
  a_id :: int
  a_name :: string
  a_member :: int
  a_sig :: string

record denied_row =
  d_id :: int
  d_key :: string
  d_comment :: string
  d_at :: int

record token_row =
  t_id :: int
  t_token :: string
  t_member :: int
  t_at :: int
  t_used :: "int option"
  t_rotations :: int

record snap_row =
  s_addr :: string
  s_since :: int
  s_seen :: int
  s_active :: bool

record roomdb =
  r_members :: "room_member auto"
  r_passwords :: "password_row auto"
  r_invites :: "invite_row auto"
  r_aliases :: "alias_row auto"
  r_denied :: "denied_row auto"
  r_config :: "(string, string) gmap"
  r_attendants :: "(string, snap_row) gmap"
  r_endpoints :: "(string, snap_row) gmap"
  r_tokens :: "token_row auto"
  r_tick :: nat

definition fresh_auto :: "'r auto" where "fresh_auto = \<lparr>trows = [], tseq = 0\<rparr>"

definition fresh_roomdb :: roomdb where
  "fresh_roomdb = \<lparr>r_members = fresh_auto, r_passwords = fresh_auto, r_invites = fresh_auto, r_aliases = fresh_auto, r_denied = fresh_auto,
     r_config = [], r_attendants = [], r_endpoints = [], r_tokens = fresh_auto, r_tick = 0\<rparr>"

text \<open>The row \<open>mk i\<close> under the next id, unless its unique column is taken.\<close>

definition auto_insert :: "('r \<Rightarrow> string) \<Rightarrow> (int \<Rightarrow> 'r) \<Rightarrow> 'r auto \<Rightarrow> (int \<times> 'r auto) option" where
  "auto_insert key mk t =
     (let i = tseq t + 1; r = mk i
      in if list_ex (\<lambda>r'. key r' = key r) (trows t) then None else Some (i, \<lparr>trows = trows t @ [r], tseq = i\<rparr>))"

definition auto_update :: "('r \<Rightarrow> bool) \<Rightarrow> ('r \<Rightarrow> 'r) \<Rightarrow> 'r auto \<Rightarrow> 'r auto" where
  "auto_update P f t = t\<lparr>trows := map (\<lambda>r. if P r then f r else r) (trows t)\<rparr>"

definition auto_delete :: "('r \<Rightarrow> bool) \<Rightarrow> 'r auto \<Rightarrow> 'r auto" where
  "auto_delete P t = t\<lparr>trows := filter (\<lambda>r. \<not> P r) (trows t)\<rparr>"

definition has_member :: "int \<Rightarrow> roomdb \<Rightarrow> bool" where
  "has_member i st \<longleftrightarrow> list_ex (\<lambda>r. m_id r = i) (trows (r_members st))"

text \<open>\<open>ON DELETE CASCADE\<close>.\<close>

definition delete_members :: "(room_member \<Rightarrow> bool) \<Rightarrow> roomdb \<Rightarrow> roomdb" where
  "delete_members P st =
     (let gone = (\<lambda>i. list_ex (\<lambda>r. P r \<and> m_id r = i) (trows (r_members st)))
      in st\<lparr>r_members := auto_delete P (r_members st), r_passwords := auto_delete (\<lambda>r. gone (p_member r)) (r_passwords st),
            r_invites := auto_delete (\<lambda>r. gone (i_by r)) (r_invites st), r_aliases := auto_delete (\<lambda>r. gone (a_member r)) (r_aliases st),
            r_tokens := auto_delete (\<lambda>r. gone (t_member r)) (r_tokens st)\<rparr>)"

section \<open>Statements\<close>

record room_env =
  room_now :: "nat \<Rightarrow> int"
  room_fault :: "nat \<Rightarrow> bool"
  room_random :: "nat \<Rightarrow> string"
  room_sha :: "string \<Rightarrow> string"
  bcrypt_hash :: "nat \<Rightarrow> string \<Rightarrow> string option"
  bcrypt_ok :: "string \<Rightarrow> string \<Rightarrow> bool"

datatype db_error =
    Fault | NoRows | Constraint | BadRef ref_error | AlreadyUsed | InvalidMode int | InvalidCredentials | HashFailed

type_synonym 'a dbop = "roomdb \<Rightarrow> (db_error + 'a) \<times> roomdb"

definition dreturn :: "'a \<Rightarrow> 'a dbop" where "dreturn x st = (Inr x, st)"
definition dfail :: "db_error \<Rightarrow> 'a dbop" where "dfail e st = (Inl e, st)"
definition dtry :: "'a dbop \<Rightarrow> (db_error + 'a \<Rightarrow> 'b dbop) \<Rightarrow> 'b dbop" where
  "dtry m f st = (case m st of (r, st') \<Rightarrow> f r st')"
definition dbind :: "'a dbop \<Rightarrow> ('a \<Rightarrow> 'b dbop) \<Rightarrow> 'b dbop" where
  "dbind m f = dtry m (\<lambda>r. case r of Inl e \<Rightarrow> dfail e | Inr x \<Rightarrow> f x)"
definition dtick :: "(nat \<Rightarrow> 'a dbop) \<Rightarrow> 'a dbop" where "dtick f st = f (r_tick st) st"

text \<open>A query for one row, a query for many, and a statement that writes.\<close>

definition query :: "room_env \<Rightarrow> (roomdb \<Rightarrow> 'a option) \<Rightarrow> 'a dbop" where
  "query env f st =
     (if room_fault env (r_tick st) then Inl Fault else case f st of None \<Rightarrow> Inl NoRows | Some x \<Rightarrow> Inr x, st\<lparr>r_tick := Suc (r_tick st)\<rparr>)"

definition query_all :: "room_env \<Rightarrow> (roomdb \<Rightarrow> 'a) \<Rightarrow> 'a dbop" where
  "query_all env f = query env (\<lambda>st. Some (f st))"

definition exec :: "room_env \<Rightarrow> (roomdb \<Rightarrow> ('a \<times> roomdb) option) \<Rightarrow> 'a dbop" where
  "exec env f st =
     (let st1 = st\<lparr>r_tick := Suc (r_tick st)\<rparr>
      in if room_fault env (r_tick st) then (Inl Fault, st1)
         else case f st of None \<Rightarrow> (Inl Constraint, st1) | Some (x, st2) \<Rightarrow> (Inr x, st2\<lparr>r_tick := Suc (r_tick st)\<rparr>))"

definition exec_all :: "room_env \<Rightarrow> (roomdb \<Rightarrow> roomdb) \<Rightarrow> unit dbop" where
  "exec_all env f = exec env (\<lambda>st. Some ((), f st))"

definition select :: "('r \<Rightarrow> bool) \<Rightarrow> 'r auto \<Rightarrow> 'r option" where
  "select P t = List.find P (trows t)"

section \<open>Members\<close>

definition Members_Add :: "room_env \<Rightarrow> FeedRef \<Rightarrow> int \<Rightarrow> int dbop" where
  "Members_Add env pubKey role =
     exec env (\<lambda>st. if role \<le> 0 then None
       else case auto_insert m_key (\<lambda>i. \<lparr>m_id = i, m_key = FeedRef_String pubKey, m_role = role\<rparr>) (r_members st) of
         None \<Rightarrow> None | Some (i, t) \<Rightarrow> Some (i, st\<lparr>r_members := t\<rparr>))"

definition Members_GetByID :: "room_env \<Rightarrow> int \<Rightarrow> Member dbop" where
  "Members_GetByID env i =
     dbind (query env (\<lambda>st. select (\<lambda>r. m_id r = i) (r_members st)))
       (\<lambda>r. case ParseFeedRef (m_key r) of
          Inl e \<Rightarrow> dfail (BadRef e) | Inr ref \<Rightarrow> dreturn \<lparr>memberID = m_id r, memberPubKey = ref, memberRole = m_role r\<rparr>)"

definition Members_GetByFeed :: "room_env \<Rightarrow> FeedRef \<Rightarrow> Member dbop" where
  "Members_GetByFeed env feed =
     dbind (query env (\<lambda>st. select (\<lambda>r. m_key r = FeedRef_String feed) (r_members st)))
       (\<lambda>r. dreturn \<lparr>memberID = m_id r, memberPubKey = feed, memberRole = m_role r\<rparr>)"

definition Members_List :: "room_env \<Rightarrow> Member list dbop" where
  "Members_List env =
     query_all env (\<lambda>st. concat (map (\<lambda>r. case ParseFeedRef (m_key r) of
        Inl _ \<Rightarrow> [] | Inr ref \<Rightarrow> [\<lparr>memberID = m_id r, memberPubKey = ref, memberRole = m_role r\<rparr>]) (sort_key m_id (trows (r_members st)))))"

definition Members_Count :: "room_env \<Rightarrow> nat dbop" where
  "Members_Count env = query_all env (\<lambda>st. length (trows (r_members st)))"

definition Members_RemoveFeed :: "room_env \<Rightarrow> FeedRef \<Rightarrow> unit dbop" where
  "Members_RemoveFeed env feed = exec_all env (delete_members (\<lambda>r. m_key r = FeedRef_String feed))"

definition Members_RemoveID :: "room_env \<Rightarrow> int \<Rightarrow> unit dbop" where
  "Members_RemoveID env i = exec_all env (delete_members (\<lambda>r. m_id r = i))"

definition Members_SetRole :: "room_env \<Rightarrow> int \<Rightarrow> int \<Rightarrow> unit dbop" where
  "Members_SetRole env i role =
     exec env (\<lambda>st. if role \<le> 0 \<and> has_member i st then None
       else Some ((), st\<lparr>r_members := auto_update (\<lambda>r. m_id r = i) (\<lambda>r. r\<lparr>m_role := role\<rparr>) (r_members st)\<rparr>))"

section \<open>Aliases\<close>

text \<open>The rows of the join with the key of their owner.\<close>

definition owner_key :: "roomdb \<Rightarrow> alias_row \<Rightarrow> string option" where
  "owner_key st a = map_option m_key (select (\<lambda>r. m_id r = a_member a) (r_members st))"

definition joined :: "(alias_row \<Rightarrow> bool) \<Rightarrow> roomdb \<Rightarrow> (alias_row \<times> string) option" where
  "joined P st =
     (case select (\<lambda>a. P a \<and> owner_key st a \<noteq> None) (r_aliases st) of
        None \<Rightarrow> None | Some a \<Rightarrow> map_option (\<lambda>k. (a, k)) (owner_key st a))"

definition to_alias :: "alias_row \<times> string \<Rightarrow> db_error + Alias" where
  "to_alias p =
     (case ParseFeedRef (snd p) of
        Inl e \<Rightarrow> Inl (BadRef e)
      | Inr ref \<Rightarrow> Inr \<lparr>aliasID = a_id (fst p), aliasName = a_name (fst p), aliasOwner = ref, aliasSignature = a_sig (fst p), aliasReversePTR = snd p\<rparr>)"

definition Aliases_Resolve :: "room_env \<Rightarrow> string \<Rightarrow> Alias dbop" where
  "Aliases_Resolve env alias =
     dbind (query env (joined (\<lambda>a. a_name a = alias))) (\<lambda>p. case to_alias p of Inl e \<Rightarrow> dfail e | Inr a \<Rightarrow> dreturn a)"

definition Aliases_GetByID :: "room_env \<Rightarrow> int \<Rightarrow> Alias dbop" where
  "Aliases_GetByID env i =
     dbind (query env (joined (\<lambda>a. a_id a = i))) (\<lambda>p. case to_alias p of Inl e \<Rightarrow> dfail e | Inr a \<Rightarrow> dreturn a)"

definition Aliases_List :: "room_env \<Rightarrow> Alias list dbop" where
  "Aliases_List env =
     query_all env (\<lambda>st. concat (map (\<lambda>a. case owner_key st a of
        None \<Rightarrow> [] | Some k \<Rightarrow> (case to_alias (a, k) of Inl _ \<Rightarrow> [] | Inr al \<Rightarrow> [al])) (sort_key a_name (trows (r_aliases st)))))"

definition Aliases_Register :: "room_env \<Rightarrow> string \<Rightarrow> FeedRef \<Rightarrow> string \<Rightarrow> unit dbop" where
  "Aliases_Register env alias userFeed signature =
     dbind (Members_GetByFeed env userFeed)
       (\<lambda>m. exec env (\<lambda>st. if \<not> has_member (memberID m) st then None
          else case auto_insert a_name (\<lambda>i. \<lparr>a_id = i, a_name = ToLower alias, a_member = memberID m, a_sig = signature\<rparr>) (r_aliases st) of
            None \<Rightarrow> None | Some (_, t) \<Rightarrow> Some ((), st\<lparr>r_aliases := t\<rparr>)))"

definition Aliases_Revoke :: "room_env \<Rightarrow> string \<Rightarrow> unit dbop" where
  "Aliases_Revoke env alias = exec_all env (\<lambda>st. st\<lparr>r_aliases := auto_delete (\<lambda>a. a_name a = ToLower alias) (r_aliases st)\<rparr>)"

section \<open>Invites\<close>

definition hashToken :: "room_env \<Rightarrow> string \<Rightarrow> string" where
  "hashToken env token = EncodeToString StdEncoding (room_sha env token)"

text \<open>\<open>randomToken\<close> at a tick; a reader of random bytes that fails panics and is left out.\<close>

definition randomToken :: "room_env \<Rightarrow> nat \<Rightarrow> string" where
  "randomToken env t = EncodeToString URLEncoding (room_random env t)"

definition unix :: "int \<Rightarrow> int" where "unix t = t div 1000000000"

definition Invites_Create :: "room_env \<Rightarrow> int \<Rightarrow> string dbop" where
  "Invites_Create env createdBy =
     dtick (\<lambda>t. let token = show_int (room_now env t) @ ''-'' @ randomToken env t
       in dbind (exec env (\<lambda>st. if \<not> has_member createdBy st then None
            else case auto_insert i_hash (\<lambda>i. \<lparr>i_id = i, i_hash = hashToken env token, i_by = createdBy, i_at = room_now env t, i_active = True\<rparr>) (r_invites st) of
              None \<Rightarrow> None | Some (_, tab) \<Rightarrow> Some ((), st\<lparr>r_invites := tab\<rparr>)))
          (\<lambda>_. dreturn token))"

definition to_invite :: "invite_row \<Rightarrow> Invite" where
  "to_invite r = \<lparr>inviteID = i_id r, inviteToken = [], inviteCreatedBy = i_by r, inviteUsedBy = None, inviteUsedAt = 0, inviteCreatedAt = unix (i_at r),
     inviteActive = i_active r\<rparr>"

text \<open>
  \<open>Consume\<close> reads the row of the token, and after that finds or adds the member, marks the invite used
  and sets the role; the statements are not in a transaction. The invite returned has no creator.
\<close>

definition consume_find :: "room_env \<Rightarrow> string \<Rightarrow> Invite dbop" where
  "consume_find env token =
     dbind (query env (\<lambda>st. select (\<lambda>r. i_hash r = hashToken env token) (r_invites st)))
       (\<lambda>r. if \<not> i_active r then dfail AlreadyUsed else dreturn ((to_invite r)\<lparr>inviteCreatedBy := 0\<rparr>))"

definition consume_use :: "room_env \<Rightarrow> FeedRef \<Rightarrow> Invite \<Rightarrow> Invite dbop" where
  "consume_use env newMember invite =
     dbind (dtry (Members_GetByFeed env newMember) (\<lambda>r. case r of Inr m \<Rightarrow> dreturn (memberID m) | Inl _ \<Rightarrow> Members_Add env newMember RoleMember))
       (\<lambda>mid. dbind (exec_all env (\<lambda>st. st\<lparr>r_invites := auto_update (\<lambda>r. i_id r = inviteID invite) (\<lambda>r. r\<lparr>i_active := False\<rparr>) (r_invites st)\<rparr>))
         (\<lambda>_. dtick (\<lambda>t. dtry (Members_SetRole env mid RoleMember)
           (\<lambda>_. dreturn (invite\<lparr>inviteActive := False, inviteUsedBy := Some newMember, inviteUsedAt := unix (room_now env t)\<rparr>)))))"

definition Invites_Consume :: "room_env \<Rightarrow> string \<Rightarrow> FeedRef \<Rightarrow> Invite dbop" where
  "Invites_Consume env token newMember = dbind (consume_find env token) (consume_use env newMember)"

definition Invites_GetByToken :: "room_env \<Rightarrow> string \<Rightarrow> Invite dbop" where
  "Invites_GetByToken env token =
     dbind (query env (\<lambda>st. select (\<lambda>r. i_hash r = hashToken env token) (r_invites st))) (\<lambda>r. dreturn (to_invite r))"

definition Invites_GetByID :: "room_env \<Rightarrow> int \<Rightarrow> Invite dbop" where
  "Invites_GetByID env i = dbind (query env (\<lambda>st. select (\<lambda>r. i_id r = i) (r_invites st))) (\<lambda>r. dreturn (to_invite r))"

definition Invites_List :: "room_env \<Rightarrow> Invite list dbop" where
  "Invites_List env = query_all env (\<lambda>st. map to_invite (sort_key (\<lambda>r. - i_at r) (trows (r_invites st))))"

definition Invites_Count :: "room_env \<Rightarrow> bool \<Rightarrow> nat dbop" where
  "Invites_Count env onlyActive = query_all env (\<lambda>st. length (filter (\<lambda>r. \<not> onlyActive \<or> i_active r) (trows (r_invites st))))"

definition Invites_Revoke :: "room_env \<Rightarrow> int \<Rightarrow> unit dbop" where
  "Invites_Revoke env i = exec_all env (\<lambda>st. st\<lparr>r_invites := auto_update (\<lambda>r. i_id r = i) (\<lambda>r. r\<lparr>i_active := False\<rparr>) (r_invites st)\<rparr>)"

section \<open>Denied keys\<close>

definition DeniedKeys_Add :: "room_env \<Rightarrow> FeedRef \<Rightarrow> string \<Rightarrow> unit dbop" where
  "DeniedKeys_Add env ref comment =
     dtick (\<lambda>t. exec env (\<lambda>st. case auto_insert d_key (\<lambda>i. \<lparr>d_id = i, d_key = FeedRef_String ref, d_comment = comment, d_at = room_now env t\<rparr>) (r_denied st) of
        None \<Rightarrow> None | Some (_, tab) \<Rightarrow> Some ((), st\<lparr>r_denied := tab\<rparr>)))"

text \<open>The error of the query is dropped, and \<open>exists\<close> stays false.\<close>

definition DeniedKeys_HasFeed :: "room_env \<Rightarrow> FeedRef \<Rightarrow> bool dbop" where
  "DeniedKeys_HasFeed env ref =
     dtry (query_all env (\<lambda>st. list_ex (\<lambda>r. d_key r = FeedRef_String ref) (trows (r_denied st)))) (\<lambda>r. dreturn (case r of Inl _ \<Rightarrow> False | Inr b \<Rightarrow> b))"

definition DeniedKeys_HasID :: "room_env \<Rightarrow> int \<Rightarrow> bool dbop" where
  "DeniedKeys_HasID env i =
     dtry (query_all env (\<lambda>st. list_ex (\<lambda>r. d_id r = i) (trows (r_denied st)))) (\<lambda>r. dreturn (case r of Inl _ \<Rightarrow> False | Inr b \<Rightarrow> b))"

text \<open>
  \<open>GetByID\<close> and \<open>List\<close> scan the column \<open>created_at\<close>, a time, into an \<open>int64\<close>. The driver returns a time for
  a column declared \<open>DATETIME\<close>, which \<open>Scan\<close> refuses, so that no row is read: \<open>created\<close> is what the
  driver makes of the column.
\<close>

definition to_entry :: "(int \<Rightarrow> int option) \<Rightarrow> denied_row \<Rightarrow> db_error + ListEntry" where
  "to_entry created r =
     (case created (d_at r) of
        None \<Rightarrow> Inl Fault
      | Some at \<Rightarrow>
        (case ParseFeedRef (d_key r) of
           Inl e \<Rightarrow> Inl (BadRef e) | Inr ref \<Rightarrow> Inr \<lparr>entryID = d_id r, entryPubKey = ref, entryComment = d_comment r, entryAddedAt = at\<rparr>))"

definition DeniedKeys_GetByID :: "(int \<Rightarrow> int option) \<Rightarrow> room_env \<Rightarrow> int \<Rightarrow> ListEntry dbop" where
  "DeniedKeys_GetByID created env i =
     dbind (query env (\<lambda>st. select (\<lambda>r. d_id r = i) (r_denied st))) (\<lambda>r. case to_entry created r of Inl e \<Rightarrow> dfail e | Inr x \<Rightarrow> dreturn x)"

definition DeniedKeys_List :: "(int \<Rightarrow> int option) \<Rightarrow> room_env \<Rightarrow> ListEntry list dbop" where
  "DeniedKeys_List created env =
     query_all env (\<lambda>st. concat (map (\<lambda>r. case to_entry created r of Inl _ \<Rightarrow> [] | Inr x \<Rightarrow> [x]) (sort_key (\<lambda>r. - d_at r) (trows (r_denied st)))))"

definition DeniedKeys_Count :: "room_env \<Rightarrow> nat dbop" where
  "DeniedKeys_Count env = query_all env (\<lambda>st. length (trows (r_denied st)))"

definition DeniedKeys_RemoveFeed :: "room_env \<Rightarrow> FeedRef \<Rightarrow> unit dbop" where
  "DeniedKeys_RemoveFeed env ref = exec_all env (\<lambda>st. st\<lparr>r_denied := auto_delete (\<lambda>r. d_key r = FeedRef_String ref) (r_denied st)\<rparr>)"

definition DeniedKeys_RemoveID :: "room_env \<Rightarrow> int \<Rightarrow> unit dbop" where
  "DeniedKeys_RemoveID env i = exec_all env (\<lambda>st. st\<lparr>r_denied := auto_delete (\<lambda>r. d_id r = i) (r_denied st)\<rparr>)"

section \<open>Configuration and snapshots\<close>

definition GetPrivacyMode :: "room_env \<Rightarrow> int dbop" where
  "GetPrivacyMode env = dbind (query env (\<lambda>st. map_of (r_config st) ''privacy_mode'')) (\<lambda>v. dreturn (ParsePrivacyMode v))"

definition SetPrivacyMode :: "room_env \<Rightarrow> int \<Rightarrow> unit dbop" where
  "SetPrivacyMode env mode =
     (let put = (\<lambda>s. exec_all env (\<lambda>st. st\<lparr>r_config := gput ''privacy_mode'' s (r_config st)\<rparr>))
      in if mode = ModeOpen then put ''open'' else if mode = ModeCommunity then put ''community''
         else if mode = ModeRestricted then put ''restricted'' else dfail (InvalidMode mode))"

definition GetDefaultLanguage :: "room_env \<Rightarrow> string dbop" where
  "GetDefaultLanguage env =
     dtry (query env (\<lambda>st. map_of (r_config st) ''default_language''))
       (\<lambda>r. case r of Inl NoRows \<Rightarrow> dreturn ''en'' | Inl e \<Rightarrow> dfail e | Inr v \<Rightarrow> dreturn v)"

definition SetDefaultLanguage :: "room_env \<Rightarrow> string \<Rightarrow> unit dbop" where
  "SetDefaultLanguage env lang = exec_all env (\<lambda>st. st\<lparr>r_config := gput ''default_language'' lang (r_config st)\<rparr>)"

definition inactive :: "(string, snap_row) gmap \<Rightarrow> (string, snap_row) gmap" where
  "inactive t = map (\<lambda>(k, r). (k, r\<lparr>s_active := False\<rparr>)) t"

definition MarkAllInactive :: "room_env \<Rightarrow> unit dbop" where
  "MarkAllInactive env =
     dbind (exec_all env (\<lambda>st. st\<lparr>r_attendants := inactive (r_attendants st)\<rparr>)) (\<lambda>_. exec_all env (\<lambda>st. st\<lparr>r_endpoints := inactive (r_endpoints st)\<rparr>))"

text \<open>The upsert and the deactivation of either snapshot table; \<open>since\<close> is in seconds.\<close>

definition snap_put :: "int \<Rightarrow> FeedRef \<Rightarrow> string \<Rightarrow> int \<Rightarrow> (string, snap_row) gmap \<Rightarrow> (string, snap_row) gmap" where
  "snap_put now feed addr since t =
     gput (FeedRef_String feed) \<lparr>s_addr = addr, s_since = (if since \<le> 0 then now else since * 1000000000), s_seen = now, s_active = True\<rparr> t"

definition snap_off :: "int \<Rightarrow> FeedRef \<Rightarrow> (string, snap_row) gmap \<Rightarrow> (string, snap_row) gmap" where
  "snap_off now feed t =
     (case map_of t (FeedRef_String feed) of None \<Rightarrow> t | Some r \<Rightarrow> gput (FeedRef_String feed) (r\<lparr>s_active := False, s_seen := now\<rparr>) t)"

definition snap_list :: "bool \<Rightarrow> (string, snap_row) gmap \<Rightarrow> RuntimeSnapshot list" where
  "snap_list onlyActive t =
     concat (map (\<lambda>(k, r). case ParseFeedRef k of
        Inl _ \<Rightarrow> []
      | Inr ref \<Rightarrow> [\<lparr>snapID = ref, snapAddr = s_addr r, snapSince = unix (s_since r), snapLastSeenAt = unix (s_seen r), snapActive = s_active r\<rparr>])
       (sort_key (\<lambda>(k, r). (if s_active r then 0 else 1 :: int) ) (rev (sort_key (\<lambda>(k, r). s_seen r) (filter (\<lambda>(k, r). \<not> onlyActive \<or> s_active r) t)))))"

definition UpsertAttendant :: "room_env \<Rightarrow> FeedRef \<Rightarrow> string \<Rightarrow> int \<Rightarrow> unit dbop" where
  "UpsertAttendant env feed addr connectedAt =
     dtick (\<lambda>t. exec_all env (\<lambda>st. st\<lparr>r_attendants := snap_put (room_now env t) feed addr connectedAt (r_attendants st)\<rparr>))"

definition DeactivateAttendant :: "room_env \<Rightarrow> FeedRef \<Rightarrow> unit dbop" where
  "DeactivateAttendant env feed = dtick (\<lambda>t. exec_all env (\<lambda>st. st\<lparr>r_attendants := snap_off (room_now env t) feed (r_attendants st)\<rparr>))"

definition ListAttendants :: "room_env \<Rightarrow> bool \<Rightarrow> RuntimeSnapshot list dbop" where
  "ListAttendants env onlyActive = query_all env (\<lambda>st. snap_list onlyActive (r_attendants st))"

definition UpsertTunnelEndpoint :: "room_env \<Rightarrow> FeedRef \<Rightarrow> string \<Rightarrow> int \<Rightarrow> unit dbop" where
  "UpsertTunnelEndpoint env target addr announcedAt =
     dtick (\<lambda>t. exec_all env (\<lambda>st. st\<lparr>r_endpoints := snap_put (room_now env t) target addr announcedAt (r_endpoints st)\<rparr>))"

definition DeactivateTunnelEndpoint :: "room_env \<Rightarrow> FeedRef \<Rightarrow> unit dbop" where
  "DeactivateTunnelEndpoint env target = dtick (\<lambda>t. exec_all env (\<lambda>st. st\<lparr>r_endpoints := snap_off (room_now env t) target (r_endpoints st)\<rparr>))"

definition ListTunnelEndpoints :: "room_env \<Rightarrow> bool \<Rightarrow> RuntimeSnapshot list dbop" where
  "ListTunnelEndpoints env onlyActive = query_all env (\<lambda>st. snap_list onlyActive (r_endpoints st))"

section \<open>Tokens and passwords\<close>

definition insert_token :: "room_env \<Rightarrow> string \<Rightarrow> int \<Rightarrow> int \<Rightarrow> int \<Rightarrow> unit dbop" where
  "insert_token env token mid now rotations =
     exec env (\<lambda>st. if \<not> has_member mid st then None
       else case auto_insert t_token (\<lambda>i. \<lparr>t_id = i, t_token = token, t_member = mid, t_at = now, t_used = None, t_rotations = rotations\<rparr>) (r_tokens st) of
         None \<Rightarrow> None | Some (_, tab) \<Rightarrow> Some ((), st\<lparr>r_tokens := tab\<rparr>))"

definition find_token :: "room_env \<Rightarrow> string \<Rightarrow> token_row dbop" where
  "find_token env token = query env (\<lambda>st. select (\<lambda>r. t_token r = token) (r_tokens st))"

definition RemoveToken :: "room_env \<Rightarrow> string \<Rightarrow> unit dbop" where
  "RemoveToken env token = exec_all env (\<lambda>st. st\<lparr>r_tokens := auto_delete (\<lambda>r. t_token r = token) (r_tokens st)\<rparr>)"

definition CreateToken :: "room_env \<Rightarrow> int \<Rightarrow> string dbop" where
  "CreateToken env mid = dtick (\<lambda>t. dbind (insert_token env (randomToken env t) mid (room_now env t) 0) (\<lambda>_. dreturn (randomToken env t)))"

definition CheckToken :: "room_env \<Rightarrow> string \<Rightarrow> int dbop" where
  "CheckToken env token =
     dbind (find_token env token)
       (\<lambda>r. dtick (\<lambda>t. dtry (exec_all env (\<lambda>st. st\<lparr>r_tokens := auto_update (\<lambda>r. t_token r = token) (\<lambda>r. r\<lparr>t_used := Some (room_now env t)\<rparr>) (r_tokens st)\<rparr>))
          (\<lambda>_. dreturn (t_member r))))"

definition WipeTokensForMember :: "room_env \<Rightarrow> int \<Rightarrow> unit dbop" where
  "WipeTokensForMember env mid = exec_all env (\<lambda>st. st\<lparr>r_tokens := auto_delete (\<lambda>r. t_member r = mid) (r_tokens st)\<rparr>)"

text \<open>A transaction: begin and commit are statements, and an error anywhere restores the tables.\<close>

definition transaction :: "room_env \<Rightarrow> 'a dbop \<Rightarrow> 'a dbop" where
  "transaction env m st =
     (let nop = exec_all env (\<lambda>st. st)
      in case dbind nop (\<lambda>_. dbind m (\<lambda>x. dbind nop (\<lambda>_. dreturn x))) st of
           (Inl e, st') \<Rightarrow> (Inl e, st\<lparr>r_tick := r_tick st'\<rparr>)
         | (Inr x, st') \<Rightarrow> (Inr x, st'))"

definition RotateToken :: "room_env \<Rightarrow> string \<Rightarrow> string dbop" where
  "RotateToken env oldToken =
     transaction env (dbind (find_token env oldToken)
       (\<lambda>r. dbind (RemoveToken env oldToken)
         (\<lambda>_. dtick (\<lambda>t. dbind (insert_token env (randomToken env t) (t_member r) (room_now env t) (t_rotations r + 1))
           (\<lambda>_. dreturn (randomToken env t))))))"

definition GetTokenInfo :: "room_env \<Rightarrow> string \<Rightarrow> TokenInfo dbop" where
  "GetTokenInfo env token =
     dbind (find_token env token)
       (\<lambda>r. dreturn \<lparr>infoMemberID = t_member r, infoCreatedAt = t_at r, infoLastUsedAt = t_used r, infoRotationCount = t_rotations r\<rparr>)"

definition AuthFallback_Check :: "room_env \<Rightarrow> string \<Rightarrow> string \<Rightarrow> int dbop" where
  "AuthFallback_Check env username password =
     dbind (query env (\<lambda>st. select (\<lambda>r. p_login r = username) (r_passwords st)))
       (\<lambda>r. if bcrypt_ok env password (p_hash r) then dreturn (p_member r) else dfail InvalidCredentials)"

definition put_hash :: "room_env \<Rightarrow> int \<Rightarrow> string \<Rightarrow> unit dbop" where
  "put_hash env mid h = exec_all env (\<lambda>st. st\<lparr>r_passwords := auto_update (\<lambda>r. p_member r = mid) (\<lambda>r. r\<lparr>p_hash := h\<rparr>) (r_passwords st)\<rparr>)"

definition with_hash :: "room_env \<Rightarrow> string \<Rightarrow> (string \<Rightarrow> unit dbop) \<Rightarrow> unit dbop" where
  "with_hash env password f = dtick (\<lambda>t. case bcrypt_hash env t password of None \<Rightarrow> dfail HashFailed | Some h \<Rightarrow> f h)"

definition SetPassword :: "room_env \<Rightarrow> int \<Rightarrow> string \<Rightarrow> unit dbop" where
  "SetPassword env mid password =
     with_hash env password (\<lambda>h.
       dtry (query env (\<lambda>st. select (\<lambda>r. p_member r = mid) (r_passwords st)))
         (\<lambda>r. case r of
            Inr _ \<Rightarrow> put_hash env mid h
          | Inl _ \<Rightarrow> exec env (\<lambda>st. if \<not> has_member mid st then None
              else case auto_insert p_login (\<lambda>i. \<lparr>p_id = i, p_login = ''member-'' @ show_int mid, p_hash = h, p_member = mid\<rparr>) (r_passwords st) of
                None \<Rightarrow> None | Some (_, tab) \<Rightarrow> Some ((), st\<lparr>r_passwords := tab\<rparr>))))"

definition CreateResetToken :: "room_env \<Rightarrow> int \<Rightarrow> int \<Rightarrow> string dbop" where
  "CreateResetToken env createdByMember forMember = CreateToken env forMember"

definition SetPasswordWithToken :: "room_env \<Rightarrow> string \<Rightarrow> string \<Rightarrow> unit dbop" where
  "SetPasswordWithToken env resetToken password =
     dbind (find_token env resetToken)
       (\<lambda>r. with_hash env password (\<lambda>h. dbind (put_hash env (t_member r) h) (\<lambda>_. dtry (RemoveToken env resetToken) (\<lambda>_. dreturn ()))))"

end
