(* ===== verification/RoomHandlers.thy ===== *)
theory RoomHandlers
  imports RoomDb Roomstate Legacy
begin

text \<open>
  \<open>internal/ssb/muxrpc/handlers/room\<close>: the calls \<open>room.*\<close>, \<open>tunnel.*\<close> and \<open>httpAuth.*\<close> of the room server,
  and the life of a connection in \<open>internal/room/runtime.go\<close>. A request is its type, its arguments and
  the feed its connection has authenticated; a handler answers with a value or closes with an error.
  Counters and logs are left out.
\<close>

section \<open>State\<close>

record room_srv =
  rs_keyPair :: FeedRef
  rs_domain :: string
  rs_env :: room_env
  rs_verify :: "string \<Rightarrow> string \<Rightarrow> string \<Rightarrow> bool"
  rs_split :: "string \<Rightarrow> string option"
  rs_loopback :: "string \<Rightarrow> bool"
  rs_hook :: "(nat \<Rightarrow> FeedRef \<Rightarrow> bool) option"

text \<open>The database, the room's state, and the registry, which has the connection of a feed.\<close>

record server =
  s_db :: roomdb
  s_state :: Manager
  s_registry :: "(string, nat) gmap"

record rpc =
  rq_type :: string
  rq_args :: string
  rq_caller :: "FeedRef option"

datatype rpc_error =
    WrongType | NoCaller | ParseArgs | TokenRequired | AliasRequired | LookupFailed db_error | MembershipRequired | ModeFailed db_error
  | InviteDisabled | CreatorFailed db_error | CreateFailed db_error | Denied | ConsumeFailed db_error | AliasDisabled | InvalidAlias
  | SignatureRequired | BadSignature legacy_error | RegisterFailed db_error | ResolveFailed db_error | NotOwner | RevokeFailed db_error
  | ListFailed db_error | HookFailed | TargetRequired | Forwarded | PortalMismatch | NotAnnounced | TargetUnavailable | MissingSubmethod
  | UnknownMethod | WipeFailed db_error | NoKeypair | MissingArgs | RotateFailed db_error

datatype rpc_value =
    RString string | RBool bool | RSuccess | RAliases "(string \<times> string \<times> string) list" | RMembers "(int \<times> string \<times> string) list"
  | RMetadata string bool "string list" | RAttendants "PeerInfo list" nat | REndpoints "PeerInfo list" nat | RForward nat FeedRef FeedRef FeedRef

type_synonym 'a hop = "server \<Rightarrow> (rpc_error + 'a) \<times> server"

definition hreturn :: "'a \<Rightarrow> 'a hop" where "hreturn x st = (Inr x, st)"
definition hfail :: "rpc_error \<Rightarrow> 'a hop" where "hfail e st = (Inl e, st)"
definition hbind :: "'a hop \<Rightarrow> ('a \<Rightarrow> 'b hop) \<Rightarrow> 'b hop" where
  "hbind m f st = (case m st of (Inl e, st') \<Rightarrow> (Inl e, st') | (Inr x, st') \<Rightarrow> f x st')"
definition hguard :: "bool \<Rightarrow> rpc_error \<Rightarrow> unit hop" where "hguard b e = (if b then hreturn () else hfail e)"
definition hstate :: "(Manager \<Rightarrow> Manager) \<Rightarrow> unit hop" where "hstate f st = (Inr (), st\<lparr>s_state := f (s_state st)\<rparr>)"
definition hread :: "(server \<Rightarrow> 'a) \<Rightarrow> 'a hop" where "hread f st = (Inr (f st), st)"
definition hdb :: "(db_error \<Rightarrow> rpc_error) \<Rightarrow> 'a dbop \<Rightarrow> 'a hop" where
  "hdb err m st = (case m (s_db st) of (Inl e, d) \<Rightarrow> (Inl (err e), st\<lparr>s_db := d\<rparr>) | (Inr x, d) \<Rightarrow> (Inr x, st\<lparr>s_db := d\<rparr>))"
definition hignore :: "'a dbop \<Rightarrow> unit hop" where "hignore m st = (Inr (), st\<lparr>s_db := snd (m (s_db st))\<rparr>)"

section \<open>Arguments\<close>

definition aliasLabelPattern :: "string \<Rightarrow> bool" where
  "aliasLabelPattern s \<longleftrightarrow>
     (let ok = (\<lambda>c. is_lower c \<or> is_digit c)
      in s \<noteq> [] \<and> length s \<le> 63 \<and> list_all (\<lambda>c. ok c \<or> c = CHR ''-'') s \<and> ok (hd s) \<and> ok (last s))"

definition parseArgList :: "string \<Rightarrow> string list option" where
  "parseArgList raw =
     (if raw = [] then Some []
      else if \<not> valid_json raw then None
      else if HasPrefix (skip_ws raw) ''null'' then Some []
      else raw_elements raw)"

definition parseSingleStringArg :: "string \<Rightarrow> string option" where
  "parseSingleStringArg raw = (case parseArgList raw of Some [a] \<Rightarrow> into_str a [] | _ \<Rightarrow> None)"

text \<open>A byte slice is base64 in a string, or an array of small numbers; \<open>null\<close> is no bytes.\<close>

fun small_numbers :: "string list \<Rightarrow> string option" where
  "small_numbers [] = Some []"
| "small_numbers (v # vs) =
     (case (if v = ''null'' then Some 0 else if v \<noteq> [] \<and> list_all is_digit v \<and> read_digits v < 256 then Some (read_digits v) else None) of
        None \<Rightarrow> None | Some n \<Rightarrow> map_option (\<lambda>bs. char_of n # bs) (small_numbers vs))"

definition raw_bytes :: "string \<Rightarrow> string option" where
  "raw_bytes raw =
     (if raw = ''null'' then Some []
      else case raw_string raw of
        Some s \<Rightarrow> DecodeString StdEncoding s
      | None \<Rightarrow> (case raw_elements raw of None \<Rightarrow> None | Some vs \<Rightarrow> small_numbers vs))"

definition parseAliasRegisterArgs :: "string \<Rightarrow> (string \<times> string) option" where
  "parseAliasRegisterArgs raw =
     (case parseArgList raw of
        Some [a, s] \<Rightarrow> (case into_str a [] of None \<Rightarrow> None | Some alias \<Rightarrow> map_option (\<lambda>sig. (alias, sig)) (raw_bytes s))
      | _ \<Rightarrow> None)"

text \<open>\<open>json.Unmarshal\<close> into a struct with the one string field \<open>name\<close>.\<close>

definition string_field :: "string \<Rightarrow> string \<Rightarrow> string option" where
  "string_field name raw =
     (if \<not> valid_json raw then None
      else if HasPrefix (skip_ws raw) ''null'' then Some []
      else case raw_members raw of
        None \<Rightarrow> None
      | Some ms \<Rightarrow> foldl (\<lambda>acc (k, v). case acc of None \<Rightarrow> None | Some s \<Rightarrow> if field_is name k then into_str v s else Some s) (Some []) ms)"

definition string_list :: "string \<Rightarrow> string list option" where
  "string_list raw =
     (if \<not> valid_json raw then None
      else if HasPrefix (skip_ws raw) ''null'' then Some []
      else case raw_elements raw of None \<Rightarrow> None | Some vs \<Rightarrow> those (map (\<lambda>v. into_str v []) vs))"

section \<open>Helpers\<close>

definition getCallerFeed :: "rpc \<Rightarrow> FeedRef hop" where
  "getCallerFeed rq = (case rq_caller rq of None \<Rightarrow> hfail NoCaller | Some f \<Rightarrow> hreturn f)"

definition isInternalMember :: "room_srv \<Rightarrow> FeedRef \<Rightarrow> bool hop" where
  "isInternalMember srv feed =
     hdb LookupFailed (dtry (Members_GetByFeed (rs_env srv) feed)
       (\<lambda>r. case r of Inr _ \<Rightarrow> dreturn True | Inl NoRows \<Rightarrow> dreturn False | Inl e \<Rightarrow> dfail e))"

definition ensureMemberID :: "room_env \<Rightarrow> FeedRef \<Rightarrow> int \<Rightarrow> int dbop" where
  "ensureMemberID env feed role =
     dtry (Members_GetByFeed env feed)
       (\<lambda>r. case r of
          Inr m \<Rightarrow> dreturn (memberID m)
        | Inl NoRows \<Rightarrow>
            dtry (Members_Add env feed role)
              (\<lambda>a. case a of
                 Inr i \<Rightarrow> dreturn i
               | Inl e \<Rightarrow> dtry (Members_GetByFeed env feed) (\<lambda>r. case r of Inr m \<Rightarrow> dreturn (memberID m) | Inl _ \<Rightarrow> dfail e))
        | Inl e \<Rightarrow> dfail e)"

definition roomFeatures :: "int \<Rightarrow> string list" where
  "roomFeatures mode = [''tunnel'', ''room2'', ''httpInvite'', ''httpAuth''] @ (if mode \<noteq> ModeRestricted then [''alias''] else [])"

definition aliasRegistrationMessage :: "FeedRef \<Rightarrow> FeedRef \<Rightarrow> string \<Rightarrow> string" where
  "aliasRegistrationMessage roomID feedID alias =
     ''=room-alias-registration:'' @ FeedRef_String roomID @ '':'' @ FeedRef_String feedID @ '':'' @ alias"

definition validateAliasRegistration :: "(string \<Rightarrow> string \<Rightarrow> string \<Rightarrow> bool) \<Rightarrow> FeedRef \<Rightarrow> FeedRef \<Rightarrow> string \<Rightarrow> string \<Rightarrow> rpc_error option" where
  "validateAliasRegistration verify roomID caller alias signature =
     (let alias = ToLower (TrimSpace alias)
      in if \<not> aliasLabelPattern alias then Some InvalidAlias
         else if signature = [] then Some SignatureRequired
         else map_option BadSignature (Signature_Verify verify signature (aliasRegistrationMessage roomID caller alias) caller))"

definition normalizeAliasBaseURL :: "(string \<Rightarrow> string option) \<Rightarrow> (string \<Rightarrow> bool) \<Rightarrow> string \<Rightarrow> string" where
  "normalizeAliasBaseURL split loopback raw =
     (let trimmed = TrimRight (TrimSpace raw) (CHR ''/'')
      in if trimmed = [] then []
         else if HasPrefix trimmed ''http://'' \<or> HasPrefix trimmed ''https://'' then trimmed
         else
           let host = (case split trimmed of Some h \<Rightarrow> h | None \<Rightarrow> trimmed);
               bracket = (\<lambda>c. c = CHR ''['' \<or> c = CHR '']'');
               host = rev (dropWhile bracket (rev (dropWhile bracket host)))
           in if host = ''localhost'' \<or> loopback host then ''http://'' @ trimmed else ''https://'' @ trimmed)"

text \<open>An alias has been checked against \<open>aliasLabelPattern\<close>, which \<open>PathEscape\<close> leaves alone.\<close>

definition aliasURL :: "room_srv \<Rightarrow> string \<Rightarrow> string" where
  "aliasURL srv alias = normalizeAliasBaseURL (rs_split srv) (rs_loopback srv) (rs_domain srv) @ ''/'' @ alias"

section \<open>Invites\<close>

definition handleCreateInvite :: "room_srv \<Rightarrow> rpc \<Rightarrow> rpc_value hop" where
  "handleCreateInvite srv rq =
     hbind (hguard (rq_type rq = ''async'') WrongType) (\<lambda>_.
     hbind (hdb ModeFailed (GetPrivacyMode (rs_env srv))) (\<lambda>mode.
     hbind (hguard (mode \<noteq> ModeRestricted) InviteDisabled) (\<lambda>_.
     hbind (if mode = ModeCommunity
            then hbind (getCallerFeed rq) (\<lambda>caller.
                 hbind (isInternalMember srv caller) (\<lambda>isMember.
                 hbind (hguard isMember MembershipRequired) (\<lambda>_.
                 hbind (hdb CreatorFailed (Members_GetByFeed (rs_env srv) caller)) (\<lambda>m. hreturn (memberID m)))))
            else hdb CreatorFailed (ensureMemberID (rs_env srv) (rs_keyPair srv) RoleAdmin)) (\<lambda>createdBy.
     hbind (hdb CreateFailed (Invites_Create (rs_env srv) createdBy)) (\<lambda>token. hreturn (RString token))))))"

text \<open>The token of a join: the field of an object, or else a string alone in an array.\<close>

definition join_token :: "string \<Rightarrow> string option" where
  "join_token raw = (case string_field ''token'' raw of Some (c # cs) \<Rightarrow> Some (c # cs) | _ \<Rightarrow> parseSingleStringArg raw)"

definition handleJoin :: "room_srv \<Rightarrow> rpc \<Rightarrow> rpc_value hop" where
  "handleJoin srv rq =
     hbind (hguard (rq_type rq = ''async'') WrongType) (\<lambda>_.
     hbind (getCallerFeed rq) (\<lambda>caller.
     hbind (hdb LookupFailed (DeniedKeys_HasFeed (rs_env srv) caller)) (\<lambda>denied.
     hbind (hguard (\<not> denied) Denied) (\<lambda>_.
     hbind (case join_token (rq_args rq) of None \<Rightarrow> hfail ParseArgs | Some t \<Rightarrow> hreturn t) (\<lambda>token.
     hbind (hguard (token \<noteq> []) TokenRequired) (\<lambda>_.
     hbind (hdb ConsumeFailed (Invites_Consume (rs_env srv) token caller)) (\<lambda>_. hreturn RSuccess)))))))"

section \<open>Aliases\<close>

definition need_member :: "room_srv \<Rightarrow> rpc \<Rightarrow> FeedRef hop" where
  "need_member srv rq =
     hbind (getCallerFeed rq) (\<lambda>caller.
     hbind (isInternalMember srv caller) (\<lambda>isMember.
     hbind (hguard isMember MembershipRequired) (\<lambda>_. hreturn caller)))"

definition handleRegisterAlias :: "room_srv \<Rightarrow> rpc \<Rightarrow> rpc_value hop" where
  "handleRegisterAlias srv rq =
     hbind (hguard (rq_type rq = ''async'') WrongType) (\<lambda>_.
     hbind (need_member srv rq) (\<lambda>caller.
     hbind (hdb ModeFailed (GetPrivacyMode (rs_env srv))) (\<lambda>mode.
     hbind (hguard (mode \<noteq> ModeRestricted) AliasDisabled) (\<lambda>_.
     hbind (case parseAliasRegisterArgs (rq_args rq) of None \<Rightarrow> hfail ParseArgs | Some p \<Rightarrow> hreturn p) (\<lambda>(alias, sig).
     let alias = ToLower (TrimSpace alias) in
     hbind (hguard (alias \<noteq> []) AliasRequired) (\<lambda>_.
     hbind (case validateAliasRegistration (rs_verify srv) (rs_keyPair srv) caller alias sig of None \<Rightarrow> hreturn () | Some e \<Rightarrow> hfail e) (\<lambda>_.
     hbind (hdb RegisterFailed (Aliases_Register (rs_env srv) alias caller sig)) (\<lambda>_.
     hbind (hstate (RegisterAlias alias (FeedRef_String caller))) (\<lambda>_. hreturn (RString (aliasURL srv alias)))))))))))"

definition handleRevokeAlias :: "room_srv \<Rightarrow> rpc \<Rightarrow> rpc_value hop" where
  "handleRevokeAlias srv rq =
     hbind (hguard (rq_type rq = ''async'') WrongType) (\<lambda>_.
     hbind (case parseSingleStringArg (rq_args rq) of None \<Rightarrow> hfail ParseArgs | Some s \<Rightarrow> hreturn (ToLower (TrimSpace s))) (\<lambda>aliasName.
     hbind (hguard (aliasName \<noteq> []) AliasRequired) (\<lambda>_.
     hbind (need_member srv rq) (\<lambda>caller.
     hbind (hdb ResolveFailed (Aliases_Resolve (rs_env srv) aliasName)) (\<lambda>alias.
     hbind (hguard (FeedRef_Equal (aliasOwner alias) caller) NotOwner) (\<lambda>_.
     hbind (hdb RevokeFailed (Aliases_Revoke (rs_env srv) aliasName)) (\<lambda>_.
     hbind (hstate (RevokeAlias aliasName)) (\<lambda>_. hreturn (RBool True)))))))))"

definition handleListAliases :: "room_srv \<Rightarrow> rpc \<Rightarrow> rpc_value hop" where
  "handleListAliases srv rq =
     hbind (hguard (rq_type rq = ''async'') WrongType) (\<lambda>_.
     hbind (hdb ListFailed (Aliases_List (rs_env srv))) (\<lambda>as.
     hreturn (RAliases (map (\<lambda>a. (aliasName a, FeedRef_String (aliasOwner a), aliasName a @ ''.room'')) as))))"

section \<open>Reading the room\<close>

text \<open>The values \<open>streamMembers\<close> writes.\<close>

definition handleMembers :: "room_srv \<Rightarrow> rpc \<Rightarrow> rpc_value hop" where
  "handleMembers srv rq =
     hbind (hguard (rq_type rq = ''source'') WrongType) (\<lambda>_.
     hbind (hdb ListFailed (Members_List (rs_env srv))) (\<lambda>ms.
     hreturn (RMembers (map (\<lambda>m. (memberID m, FeedRef_String (memberPubKey m), Role_String (memberRole m))) ms))))"

text \<open>Members always, others in open mode only.\<close>

definition admit :: "room_srv \<Rightarrow> FeedRef \<Rightarrow> unit hop" where
  "admit srv caller =
     hbind (isInternalMember srv caller) (\<lambda>isMember.
     if isMember then hreturn ()
     else hbind (hdb ModeFailed (GetPrivacyMode (rs_env srv))) (\<lambda>mode. hguard (mode = ModeOpen) MembershipRequired))"

definition room_attendants :: "room_srv \<Rightarrow> rpc \<Rightarrow> rpc_value hop" where
  "room_attendants srv rq =
     hbind (hguard (rq_type rq = ''source'') WrongType) (\<lambda>_.
     hbind (getCallerFeed rq) (\<lambda>caller.
     hbind (admit srv caller) (\<lambda>_. \<lambda>st.
       (case SubscribeAttendants (s_state st) of ((ps, ch), m) \<Rightarrow> (Inr (RAttendants ps ch), st\<lparr>s_state := m\<rparr>)))))"

definition handleMetadata :: "room_srv \<Rightarrow> rpc \<Rightarrow> rpc_value hop" where
  "handleMetadata srv rq =
     hbind (hguard (rq_type rq = ''async'') WrongType) (\<lambda>_.
     hbind (hdb ModeFailed (GetPrivacyMode (rs_env srv))) (\<lambda>mode.
     hbind (case rq_caller rq of None \<Rightarrow> hreturn False | Some f \<Rightarrow> isInternalMember srv f) (\<lambda>membership.
     hreturn (RMetadata (FeedRef_String (rs_keyPair srv)) membership (roomFeatures mode)))))"

text \<open>\<open>RoomHandler.HandleCall\<close>.\<close>

definition room_call :: "room_srv \<Rightarrow> string list \<Rightarrow> rpc \<Rightarrow> rpc_value hop" where
  "room_call srv method rq =
     (if length method < 2 then hfail MissingSubmethod
      else let sub = method ! 1
        in if sub = ''createInvite'' then handleCreateInvite srv rq
           else if sub = ''join'' then handleJoin srv rq
           else if sub = ''registerAlias'' then handleRegisterAlias srv rq
           else if sub = ''revokeAlias'' then handleRevokeAlias srv rq
           else if sub = ''listAliases'' then handleListAliases srv rq
           else if sub = ''members'' then handleMembers srv rq
           else if sub = ''attendants'' then room_attendants srv rq
           else if sub = ''metadata'' then handleMetadata srv rq
           else hfail UnknownMethod)"

section \<open>Tunnels\<close>

definition tunnelAddress :: "FeedRef \<Rightarrow> FeedRef \<Rightarrow> string" where
  "tunnelAddress portal target =
     ''tunnel:'' @ FeedRef_String portal @ '':'' @ FeedRef_String target @ ''~shs:'' @ EncodeToString StdEncoding (feed_id target)"

text \<open>The time of a peer, in seconds.\<close>

definition hclock :: "room_srv \<Rightarrow> int hop" where
  "hclock srv = hread (\<lambda>st. unix (room_now (rs_env srv) (r_tick (s_db st))))"

definition announce :: "room_srv \<Rightarrow> FeedRef \<Rightarrow> unit hop" where
  "announce srv feed =
     hbind (hclock srv) (\<lambda>now.
     let addr = tunnelAddress (rs_keyPair srv) feed in
     hbind (hstate (AddPeer (FeedRef_String feed) addr (nat now))) (\<lambda>_.
     hbind (hignore (UpsertTunnelEndpoint (rs_env srv) feed addr now)) (\<lambda>_.
     case rs_hook srv of
       None \<Rightarrow> hreturn ()
     | Some hook \<Rightarrow> hbind (hread (\<lambda>st. r_tick (s_db st))) (\<lambda>t. hguard (hook t feed) HookFailed))))"

definition handleAnnounce :: "room_srv \<Rightarrow> rpc \<Rightarrow> rpc_value hop" where
  "handleAnnounce srv rq =
     hbind (hguard (rq_type rq = ''sync'') WrongType) (\<lambda>_.
     hbind (getCallerFeed rq) (\<lambda>feed.
     hbind (hdb LookupFailed (DeniedKeys_HasFeed (rs_env srv) feed)) (\<lambda>denied.
     hbind (hguard (\<not> denied) Denied) (\<lambda>_.
     hbind (admit srv feed) (\<lambda>_.
     hbind (announce srv feed) (\<lambda>_. hreturn (RBool True)))))))"

definition handleLeave :: "room_srv \<Rightarrow> rpc \<Rightarrow> rpc_value hop" where
  "handleLeave srv rq =
     hbind (hguard (rq_type rq = ''sync'') WrongType) (\<lambda>_.
     hbind (getCallerFeed rq) (\<lambda>feed.
     hbind (admit srv feed) (\<lambda>_.
     hbind (hstate (RemovePeer (FeedRef_String feed))) (\<lambda>_.
     hbind (hignore (DeactivateTunnelEndpoint (rs_env srv) feed)) (\<lambda>_. hreturn (RBool True))))))"

text \<open>The arguments of \<open>tunnel.connect\<close>; a reference that is left out is the zero reference.\<close>

definition zero_feed :: FeedRef where "zero_feed = \<lparr>feed_algo = [], feed_id = replicate 32 (CHR 0x00)\<rparr>"

definition into_feed :: "string \<Rightarrow> FeedRef option" where
  "into_feed raw = (case into_str raw [] of None \<Rightarrow> None | Some s \<Rightarrow> (case ParseFeedRef s of Inl _ \<Rightarrow> None | Inr r \<Rightarrow> Some r))"

record connect_args =
  c_origin :: FeedRef
  c_portal :: FeedRef
  c_target :: FeedRef

definition store_connect :: "string \<Rightarrow> string \<Rightarrow> connect_args \<Rightarrow> connect_args option" where
  "store_connect k v a =
     (if field_is ''origin'' k then map_option (\<lambda>r. a\<lparr>c_origin := r\<rparr>) (into_feed v)
      else if field_is ''portal'' k then map_option (\<lambda>r. a\<lparr>c_portal := r\<rparr>) (into_feed v)
      else if field_is ''target'' k then map_option (\<lambda>r. a\<lparr>c_target := r\<rparr>) (into_feed v)
      else Some a)"

definition connect_args_of :: "string \<Rightarrow> connect_args option" where
  "connect_args_of raw =
     (let zero = \<lparr>c_origin = zero_feed, c_portal = zero_feed, c_target = zero_feed\<rparr>
      in case parseArgList raw of
           None \<Rightarrow> None
         | Some [] \<Rightarrow> Some zero
         | Some [a] \<Rightarrow>
           if a = ''null'' then Some zero
           else (case raw_members a of
                   None \<Rightarrow> None
                 | Some ms \<Rightarrow> foldl (\<lambda>acc (k, v). case acc of None \<Rightarrow> None | Some x \<Rightarrow> store_connect k v x) (Some zero) ms)
         | Some _ \<Rightarrow> None)"

definition registered :: "FeedRef \<Rightarrow> server \<Rightarrow> nat option" where
  "registered feed st = map_of (s_registry st) (FeedRef_String feed)"

text \<open>\<open>handleConnect\<close> up to the call of the target: the connection it goes to, and origin, portal and target.\<close>

definition handleConnect :: "room_srv \<Rightarrow> rpc \<Rightarrow> rpc_value hop" where
  "handleConnect srv rq =
     hbind (hguard (rq_type rq = ''duplex'') WrongType) (\<lambda>_.
     hbind (case connect_args_of (rq_args rq) of None \<Rightarrow> hfail ParseArgs | Some a \<Rightarrow> hreturn a) (\<lambda>a.
     hbind (hguard (c_target a \<noteq> zero_feed) TargetRequired) (\<lambda>_.
     hbind (hguard (c_origin a = zero_feed) Forwarded) (\<lambda>_.
     hbind (getCallerFeed rq) (\<lambda>origin.
     hbind (hguard (c_portal a = zero_feed \<or> FeedRef_Equal (c_portal a) (rs_keyPair srv)) PortalMismatch) (\<lambda>_.
     hbind (hread (\<lambda>st. HasPeer (FeedRef_String (c_target a)) (s_state st))) (\<lambda>here.
     hbind (hguard here NotAnnounced) (\<lambda>_.
     hbind (hread (registered (c_target a))) (\<lambda>edp.
     case edp of None \<Rightarrow> hfail TargetUnavailable | Some n \<Rightarrow> hreturn (RForward n origin (rs_keyPair srv) (c_target a)))))))))))"

definition tunnel_endpoints :: "rpc \<Rightarrow> rpc_value hop" where
  "tunnel_endpoints rq =
     hbind (hguard (rq_type rq = ''source'') WrongType) (\<lambda>_ st.
       (case SubscribeEndpoints (s_state st) of ((ps, ch), m) \<Rightarrow> (Inr (REndpoints ps ch), st\<lparr>s_state := m\<rparr>)))"

definition handleIsRoom :: "room_srv \<Rightarrow> rpc \<Rightarrow> rpc_value hop" where
  "handleIsRoom srv rq =
     hbind (hguard (rq_type rq = ''async'') WrongType) (\<lambda>_.
       case string_field ''id'' (rq_args rq) of
         Some (c # cs) \<Rightarrow> hreturn (RBool (c # cs = FeedRef_String (rs_keyPair srv)))
       | _ \<Rightarrow> hreturn (RBool True))"

definition handlePing :: "rpc \<Rightarrow> rpc_value hop" where
  "handlePing rq = hbind (hguard (rq_type rq = ''sync'') WrongType) (\<lambda>_. hreturn (RBool True))"

definition tunnel_call :: "room_srv \<Rightarrow> string list \<Rightarrow> rpc \<Rightarrow> rpc_value hop" where
  "tunnel_call srv method rq =
     (if length method < 2 then hfail MissingSubmethod
      else let sub = method ! 1
        in if sub = ''announce'' then handleAnnounce srv rq
           else if sub = ''leave'' then handleLeave srv rq
           else if sub = ''connect'' then handleConnect srv rq
           else if sub = ''endpoints'' then tunnel_endpoints rq
           else if sub = ''isRoom'' then handleIsRoom srv rq
           else if sub = ''ping'' then handlePing rq
           else hfail UnknownMethod)"

section \<open>HTTP authentication\<close>

definition handleInvalidateAllSolutions :: "room_srv \<Rightarrow> rpc \<Rightarrow> rpc_value hop" where
  "handleInvalidateAllSolutions srv rq =
     hbind (hguard (rq_type rq = ''async'') WrongType) (\<lambda>_.
     hbind (getCallerFeed rq) (\<lambda>caller.
     hbind (hdb LookupFailed (Members_GetByFeed (rs_env srv) caller)) (\<lambda>m.
     hbind (hdb WipeFailed (WipeTokensForMember (rs_env srv) (memberID m))) (\<lambda>_. hreturn (RBool True)))))"

definition sign_in_message :: "FeedRef \<Rightarrow> FeedRef \<Rightarrow> string \<Rightarrow> string \<Rightarrow> string" where
  "sign_in_message sid cid sc cc = ''=http-auth-sign-in:'' @ FeedRef_String sid @ '':'' @ FeedRef_String cid @ '':'' @ sc @ '':'' @ cc"

text \<open>
  The client's side: \<open>kp\<close> is its key pair, its feed and its way of signing, when it is configured. The
  room server has none.
\<close>

definition handleRequestSolution :: "(FeedRef \<times> (string \<Rightarrow> string)) option \<Rightarrow> rpc \<Rightarrow> rpc_error + string" where
  "handleRequestSolution kp rq =
     (if rq_type rq \<noteq> ''async'' then Inl WrongType
      else case kp of
        None \<Rightarrow> Inl NoKeypair
      | Some (cid, sign) \<Rightarrow>
        (case string_list (rq_args rq) of
           None \<Rightarrow> Inl ParseArgs
         | Some (sc # cc # _) \<Rightarrow>
           (case rq_caller rq of None \<Rightarrow> Inl NoCaller | Some sid \<Rightarrow> Inr (sign (sign_in_message sid cid sc cc)))
         | Some _ \<Rightarrow> Inl MissingArgs))"

definition handleRotateToken :: "room_srv \<Rightarrow> rpc \<Rightarrow> rpc_value hop" where
  "handleRotateToken srv rq =
     hbind (hguard (rq_type rq = ''async'') WrongType) (\<lambda>_.
     hbind (case string_list (rq_args rq) of None \<Rightarrow> hfail ParseArgs | Some [] \<Rightarrow> hfail MissingArgs | Some (t # _) \<Rightarrow> hreturn t) (\<lambda>t.
     hbind (hdb RotateFailed (RotateToken (rs_env srv) t)) (\<lambda>t'. hreturn (RString t'))))"

definition auth_call :: "room_srv \<Rightarrow> string list \<Rightarrow> rpc \<Rightarrow> rpc_value hop" where
  "auth_call srv method rq =
     (if length method < 2 then hfail MissingSubmethod
      else let sub = method ! 1
        in if sub = ''invalidateAllSolutions'' then handleInvalidateAllSolutions srv rq
           else if sub = ''requestSolution'' then (case handleRequestSolution None rq of Inl e \<Rightarrow> hfail e | Inr s \<Rightarrow> hreturn (RString s))
           else if sub = ''rotateToken'' then handleRotateToken srv rq
           else hfail UnknownMethod)"

section \<open>Connections\<close>

text \<open>
  \<open>handleMUXRPCConn\<close> after the handshake: \<open>connect\<close> until the connection is served, and \<open>disconnect\<close> when it
  is over, with what was found out at the start. A connection that is turned away gives \<open>None\<close>.
\<close>

definition NotifyPeerAvailable :: "room_srv \<Rightarrow> FeedRef \<Rightarrow> unit hop" where
  "NotifyPeerAvailable srv feed = announce srv feed"

definition hcatch :: "'a hop \<Rightarrow> unit hop" where "hcatch m st = (Inr (), snd (m st))"

definition admitted :: "room_srv \<Rightarrow> FeedRef \<Rightarrow> bool hop" where
  "admitted srv remote =
     hbind (hdb LookupFailed (DeniedKeys_HasFeed (rs_env srv) remote)) (\<lambda>denied.
     hbind (hguard (\<not> denied) Denied) (\<lambda>_.
     hbind (hdb ModeFailed (GetPrivacyMode (rs_env srv))) (\<lambda>mode.
     hbind (isInternalMember srv remote) (\<lambda>isMember.
     hbind (hguard (mode \<noteq> ModeRestricted \<or> isMember) MembershipRequired) (\<lambda>_. hreturn isMember)))))"

definition connect :: "room_srv \<Rightarrow> FeedRef \<Rightarrow> string \<Rightarrow> nat \<Rightarrow> bool hop" where
  "connect srv remote addr conn =
     hbind (admitted srv remote) (\<lambda>isMember.
     hbind (\<lambda>st. (Inr (), st\<lparr>s_registry := gput (FeedRef_String remote) conn (s_registry st)\<rparr>)) (\<lambda>_.
     hbind (hclock srv) (\<lambda>now.
     hbind (if isMember
            then hbind (hstate (AddAttendant (FeedRef_String remote) addr (nat now))) (\<lambda>_.
                 hbind (hcatch (NotifyPeerAvailable srv remote)) (\<lambda>_.
                 hignore (UpsertAttendant (rs_env srv) remote addr now)))
            else hreturn ()) (\<lambda>_. hreturn isMember))))"

definition disconnect :: "room_srv \<Rightarrow> FeedRef \<Rightarrow> bool \<Rightarrow> unit hop" where
  "disconnect srv remote isMember =
     (if \<not> isMember then hreturn ()
      else
        hbind (hstate (\<lambda>m. RemovePeer (FeedRef_String remote) (RemoveAttendant (FeedRef_String remote) m))) (\<lambda>_.
        hbind (hignore (DeactivateAttendant (rs_env srv) remote)) (\<lambda>_.
        hbind (hignore (DeactivateTunnelEndpoint (rs_env srv) remote)) (\<lambda>_ st.
          (Inr (), st\<lparr>s_registry := gdel (FeedRef_String remote) (s_registry st)\<rparr>)))))"

end
