(* ===== verification/RoomWeb.thy ===== *)
theory RoomWeb
  imports RoomHandlers
begin

text \<open>
  \<open>internal/room/invite.go\<close>, \<open>auth.go\<close> and \<open>ssb_auth.go\<close>: the web side of the room. A request has what the
  handlers read of it: the first value of a query or form field, the cookie, the body. The answer is
  a status with a text, a JSON object, a page with the data of its template, or a redirect; HTML, URL
  escaping and headers are left out, and a text that wraps an error is cut before it.
\<close>

section \<open>Requests and answers\<close>

record web_request =
  w_method :: string
  w_path :: string
  w_query :: "string \<Rightarrow> string"
  w_form :: "(string \<Rightarrow> string) option"
  w_body :: string
  w_cookie :: "string option"
  w_accept :: string
  w_ctype :: string
  w_host :: string

datatype web =
    Error nat string | Json nat "(string \<times> string) list" | Page string "(string \<times> string) list" | Redirect string
  | InviteRows "(int \<times> bool \<times> int \<times> int) list" "(int \<times> bool \<times> int \<times> int) list" | LoggedIn string web

definition wantsJSONResponse :: "web_request \<Rightarrow> bool" where
  "wantsJSONResponse r \<longleftrightarrow> sublist ''application/json'' (ToLower (w_accept r))"

definition content_type :: "web_request \<Rightarrow> string" where
  "content_type r = ToLower (TrimSpace (takeWhile (\<lambda>c. c \<noteq> CHR '';'') (w_ctype r)))"

definition writeInviteError :: "web_request \<Rightarrow> nat \<Rightarrow> string \<Rightarrow> web" where
  "writeInviteError r code msg = (if wantsJSONResponse r then Json code [(''status'', ''error''), (''error'', msg)] else Error code msg)"

definition writePolicyUnauthorized :: "web_request \<Rightarrow> string \<Rightarrow> string \<Rightarrow> web" where
  "writePolicyUnauthorized r next_path message =
     (if wantsJSONResponse r then Json 403 [(''status'', ''error''), (''error'', message)] else Redirect (''/login?next='' @ next_path))"

definition resolveInviteTokenQuery :: "web_request \<Rightarrow> string" where
  "resolveInviteTokenQuery r = (let t = TrimSpace (w_query r ''token'') in if t \<noteq> [] then t else TrimSpace (w_query r ''invite''))"

definition resolveInviteTokenForm :: "(string \<Rightarrow> string) \<Rightarrow> string" where
  "resolveInviteTokenForm f = (let t = TrimSpace (f ''invite'') in if t \<noteq> [] then t else TrimSpace (f ''token''))"

text \<open>\<open>Decode\<close> of a decoder reads the first value of the body.\<close>

definition first_value :: "string \<Rightarrow> string option" where
  "first_value s = (let t = skip_ws s in map_option (span_of t) (value_rest (fuel_for t) t))"

section \<open>Policy\<close>

record invitePolicyContext =
  pol_mode :: int
  pol_member :: "Member option"

definition isMemberOrHigher :: "int \<Rightarrow> bool" where
  "isMemberOrHigher role \<longleftrightarrow> role = RoleMember \<or> role = RoleModerator \<or> role = RoleAdmin"

definition isModeratorOrHigher :: "int \<Rightarrow> bool" where
  "isModeratorOrHigher role \<longleftrightarrow> role = RoleModerator \<or> role = RoleAdmin"

definition memberFromRequest :: "room_env \<Rightarrow> web_request \<Rightarrow> Member option dbop" where
  "memberFromRequest env r =
     (case w_cookie r of
        None \<Rightarrow> dreturn None
      | Some v \<Rightarrow>
        if TrimSpace v = [] then dreturn None
        else dtry (CheckToken env v)
          (\<lambda>c. case c of
             Inl _ \<Rightarrow> dreturn None
           | Inr mid \<Rightarrow> dtry (Members_GetByID env mid) (\<lambda>m. dreturn (case m of Inl _ \<Rightarrow> None | Inr m \<Rightarrow> Some m))))"

definition policyContext :: "room_env \<Rightarrow> web_request \<Rightarrow> invitePolicyContext dbop" where
  "policyContext env r =
     dbind (GetPrivacyMode env) (\<lambda>mode. dbind (memberFromRequest env r) (\<lambda>m. dreturn \<lparr>pol_mode = mode, pol_member = m\<rparr>))"

definition has_role :: "(int \<Rightarrow> bool) \<Rightarrow> invitePolicyContext \<Rightarrow> bool" where
  "has_role P pol \<longleftrightarrow> (case pol_member pol of None \<Rightarrow> False | Some m \<Rightarrow> P (memberRole m))"

definition canCreateInvite :: "invitePolicyContext \<Rightarrow> bool" where
  "canCreateInvite pol \<longleftrightarrow>
     (if pol_mode pol = ModeOpen then True
      else if pol_mode pol = ModeCommunity then has_role isMemberOrHigher pol
      else if pol_mode pol = ModeRestricted then has_role isModeratorOrHigher pol
      else False)"

definition canManageInvites :: "invitePolicyContext \<Rightarrow> bool" where
  "canManageInvites = canCreateInvite"

definition canRevokeInvite :: "invitePolicyContext \<Rightarrow> bool" where
  "canRevokeInvite pol \<longleftrightarrow>
     (if pol_mode pol = ModeOpen \<or> pol_mode pol = ModeCommunity then has_role isMemberOrHigher pol
      else if pol_mode pol = ModeRestricted then has_role isModeratorOrHigher pol
      else False)"

text \<open>A handler that first asks for the policy; an error of the mode is a server error.\<close>

definition with_policy :: "room_env \<Rightarrow> web_request \<Rightarrow> (invitePolicyContext \<Rightarrow> web dbop) \<Rightarrow> web dbop" where
  "with_policy env r f = dtry (policyContext env r) (\<lambda>p. case p of Inl _ \<Rightarrow> dreturn (writeInviteError r 500 ''Failed to check room mode'') | Inr pol \<Rightarrow> f pol)"

definition boolString :: "bool \<Rightarrow> string" where "boolString v = (if v then ''true'' else [])"

definition showInvitesNav :: "room_env \<Rightarrow> web_request \<Rightarrow> bool dbop" where
  "showInvitesNav env r = dtry (policyContext env r) (\<lambda>p. dreturn (case p of Inl _ \<Rightarrow> False | Inr pol \<Rightarrow> canManageInvites pol))"

text \<open>A page with the entry for invites in its menu, which asks for the policy once more.\<close>

definition nav_page :: "room_env \<Rightarrow> web_request \<Rightarrow> string \<Rightarrow> (string \<times> string) list \<Rightarrow> web dbop" where
  "nav_page env r name pairs = dbind (showInvitesNav env r) (\<lambda>b. dreturn (Page name ((''ShowInvitesNav'', boolString b) # pairs)))"

section \<open>Invites\<close>

definition handleCreateInviteSubmit :: "room_srv \<Rightarrow> string \<Rightarrow> web_request \<Rightarrow> invitePolicyContext \<Rightarrow> web dbop" where
  "handleCreateInviteSubmit srv base r pol =
     dtry (dbind (case pol_member pol of Some m \<Rightarrow> dreturn (memberID m) | None \<Rightarrow> ensureMemberID (rs_env srv) (rs_keyPair srv) RoleAdmin)
        (Invites_Create (rs_env srv)))
       (\<lambda>t. dreturn (case t of
          Inl _ \<Rightarrow> writeInviteError r 500 ''Failed to create invite''
        | Inr token \<Rightarrow> (let url = base @ ''/join?token='' @ token in if wantsJSONResponse r then Json 200 [(''url'', url)] else Page ''inviteCreated'' [(''URL'', url)])))"

definition web_createInvite :: "room_srv \<Rightarrow> string \<Rightarrow> web_request \<Rightarrow> web dbop" where
  "web_createInvite srv base r =
     (if w_method r \<noteq> ''GET'' \<and> w_method r \<noteq> ''POST'' then dreturn (Error 405 ''Method not allowed'')
      else with_policy (rs_env srv) r (\<lambda>pol.
        if \<not> canCreateInvite pol then dreturn (writePolicyUnauthorized r ''/create-invite'' ''invite creation requires an authenticated member role'')
        else if w_method r = ''GET'' then nav_page (rs_env srv) r ''invite'' []
        else handleCreateInviteSubmit srv base r pol))"

definition invite_row_of :: "Invite \<Rightarrow> int \<times> bool \<times> int \<times> int" where
  "invite_row_of i = (inviteID i, inviteActive i, inviteCreatedAt i, inviteCreatedBy i)"

definition splitInviteRows :: "Invite list \<Rightarrow> (int \<times> bool \<times> int \<times> int) list \<times> (int \<times> bool \<times> int \<times> int) list" where
  "splitInviteRows is = (map invite_row_of (filter inviteActive is), map invite_row_of (filter (\<lambda>i. \<not> inviteActive i) is))"

definition handleInvites :: "room_srv \<Rightarrow> web_request \<Rightarrow> web dbop" where
  "handleInvites srv r =
     (if w_method r \<noteq> ''GET'' then dreturn (Error 405 ''Method not allowed'')
      else with_policy (rs_env srv) r (\<lambda>pol.
        if \<not> canManageInvites pol then dreturn (writePolicyUnauthorized r ''/invites'' ''invite management requires an authenticated member role'')
        else dtry (Invites_List (rs_env srv)) (\<lambda>is. dreturn (case is of
          Inl _ \<Rightarrow> writeInviteError r 500 ''Failed to list invites''
        | Inr is \<Rightarrow> InviteRows (fst (splitInviteRows is)) (snd (splitInviteRows is))))))"

text \<open>The id of a revocation: fields of the JSON object, or of the form.\<close>

record revoke_payload =
  rp_id :: int
  rp_inviteID :: int
  rp_idStr :: string

definition store_revoke :: "string \<Rightarrow> string \<Rightarrow> revoke_payload \<Rightarrow> revoke_payload option" where
  "store_revoke k v p =
     (if field_is ''id'' k then map_option (\<lambda>n. p\<lparr>rp_id := n\<rparr>) (into_int v (rp_id p))
      else if field_is ''inviteID'' k then map_option (\<lambda>n. p\<lparr>rp_inviteID := n\<rparr>) (into_int v (rp_inviteID p))
      else if field_is ''idStr'' k then map_option (\<lambda>s. p\<lparr>rp_idStr := s\<rparr>) (into_str v (rp_idStr p))
      else Some p)"

definition decode_into :: "(string \<Rightarrow> string \<Rightarrow> 'p \<Rightarrow> 'p option) \<Rightarrow> 'p \<Rightarrow> string \<Rightarrow> 'p option" where
  "decode_into store zero body =
     (case first_value body of
        None \<Rightarrow> None
      | Some v \<Rightarrow>
        if v = ''null'' then Some zero
        else (case raw_members v of
                None \<Rightarrow> None
              | Some ms \<Rightarrow> foldl (\<lambda>acc (k, x). case acc of None \<Rightarrow> None | Some p \<Rightarrow> store k x p) (Some zero) ms))"

definition parseInviteIDFromRequest :: "web_request \<Rightarrow> int option" where
  "parseInviteIDFromRequest r =
     (if content_type r = ''application/json''
      then (case decode_into store_revoke \<lparr>rp_id = 0, rp_inviteID = 0, rp_idStr = []\<rparr> (w_body r) of
              None \<Rightarrow> None
            | Some p \<Rightarrow>
              if rp_id p > 0 then Some (rp_id p) else if rp_inviteID p > 0 then Some (rp_inviteID p)
              else if TrimSpace (rp_idStr p) \<noteq> [] then ParseInt64 (TrimSpace (rp_idStr p)) else None)
      else (case w_form r of
              None \<Rightarrow> None
            | Some f \<Rightarrow>
              (let v = TrimSpace (f ''id''); v = (if v = [] then TrimSpace (f ''inviteID'') else v) in if v = [] then None else ParseInt64 v)))"

definition handleInviteRevoke :: "room_srv \<Rightarrow> web_request \<Rightarrow> web dbop" where
  "handleInviteRevoke srv r =
     (let json = wantsJSONResponse r \<or> HasPrefix (ToLower (w_ctype r)) ''application/json''
      in if w_method r \<noteq> ''POST'' then dreturn (Error 405 ''Method not allowed'')
         else with_policy (rs_env srv) r (\<lambda>pol.
           if \<not> canRevokeInvite pol then dreturn (writePolicyUnauthorized r ''/invites'' ''invite revoke requires an authenticated member role'')
           else case parseInviteIDFromRequest r of
             None \<Rightarrow> dreturn (if json then Json 400 [(''status'', ''error''), (''error'', ''invalid invite id'')] else Redirect ''/invites?error=Invalid invite id'')
           | Some i \<Rightarrow>
             dtry (Invites_Revoke (rs_env srv) i) (\<lambda>res. dreturn (case res of
               Inl _ \<Rightarrow> (if json then Json 500 [(''status'', ''error''), (''error'', ''failed to revoke invite'')] else Redirect ''/invites?error=Failed to revoke invite'')
             | Inr _ \<Rightarrow> (if json then Json 200 [(''status'', ''successful'')] else Redirect ''/invites?message=Invite revoked'')))))"

definition tokenIsActive :: "room_env \<Rightarrow> string \<Rightarrow> bool dbop" where
  "tokenIsActive env token = dtry (Invites_GetByToken env token) (\<lambda>i. dreturn (case i of Inl _ \<Rightarrow> False | Inr i \<Rightarrow> inviteActive i))"

text \<open>The pages of an invite that is still active; \<open>page\<close> is what is shown then.\<close>

definition join_page :: "room_srv \<Rightarrow> web_request \<Rightarrow> string \<Rightarrow> web \<Rightarrow> web dbop \<Rightarrow> web dbop" where
  "join_page srv r token inactive_page page = dbind (tokenIsActive (rs_env srv) token) (\<lambda>active. if active then page else dreturn inactive_page)"

definition serveJoinPage :: "room_srv \<Rightarrow> string \<Rightarrow> web_request \<Rightarrow> string \<Rightarrow> web dbop" where
  "serveJoinPage srv base r token =
     (let json = w_query r ''encoding'' = ''json''
      in join_page srv r token
           (if json then Json 404 [(''status'', ''error''), (''error'', ''invalid or expired invite'')] else Error 404 ''Invalid or expired invite'')
           (if json then dreturn (Json 200 [(''status'', ''successful''), (''invite'', token), (''postTo'', base @ ''/invite/consume'')])
            else nav_page (rs_env srv) r ''join'' [(''Token'', token)]))"

definition handleJoinFallback :: "room_srv \<Rightarrow> web_request \<Rightarrow> web dbop" where
  "handleJoinFallback srv r =
     (let token = resolveInviteTokenQuery r
      in if w_method r \<noteq> ''GET'' then dreturn (Error 405 ''Method not allowed'')
         else if token = [] then dreturn (Error 404 ''404 page not found'')
         else join_page srv r token (Error 404 ''Invalid or expired invite'') (nav_page (rs_env srv) r ''joinFallback'' [(''Token'', token)]))"

definition handleJoinManually :: "room_srv \<Rightarrow> web_request \<Rightarrow> web dbop" where
  "handleJoinManually srv r =
     (let token = resolveInviteTokenQuery r
      in if w_method r \<noteq> ''GET'' then dreturn (Error 405 ''Method not allowed'')
         else if token = [] then dreturn (Error 404 ''404 page not found'')
         else join_page srv r token (Error 404 ''Invalid or expired invite'') (nav_page (rs_env srv) r ''joinManual'' [(''Token'', token)]))"

section \<open>Consuming an invite\<close>

record inviteConsumePayload =
  pay_id :: string
  pay_invite :: string
  pay_token :: string

definition store_payload :: "string \<Rightarrow> string \<Rightarrow> inviteConsumePayload \<Rightarrow> inviteConsumePayload option" where
  "store_payload k v p =
     (if field_is ''id'' k then map_option (\<lambda>s. p\<lparr>pay_id := s\<rparr>) (into_str v (pay_id p))
      else if field_is ''invite'' k then map_option (\<lambda>s. p\<lparr>pay_invite := s\<rparr>) (into_str v (pay_invite p))
      else if field_is ''token'' k then map_option (\<lambda>s. p\<lparr>pay_token := s\<rparr>) (into_str v (pay_token p))
      else Some p)"

definition renderConsumeError :: "bool \<Rightarrow> nat \<Rightarrow> string \<Rightarrow> web" where
  "renderConsumeError respondJSON code msg = (if respondJSON then Json code [(''status'', ''error''), (''error'', msg)] else Error code msg)"

text \<open>Token and feed of the request, or the text of a bad request.\<close>

definition consume_input :: "web_request \<Rightarrow> string \<Rightarrow> string + string \<times> FeedRef" where
  "consume_input r fallbackToken =
     (let with_id = (\<lambda>token i. case ParseFeedRef (TrimSpace i) of
            Inl _ \<Rightarrow> Inl ''invalid feed id'' | Inr ref \<Rightarrow> Inr (if token = [] then fallbackToken else token, ref))
      in if content_type r = ''application/json''
         then (case decode_into store_payload \<lparr>pay_id = [], pay_invite = [], pay_token = []\<rparr> (w_body r) of
                 None \<Rightarrow> Inl ''invalid json body''
               | Some p \<Rightarrow> with_id (let t = TrimSpace (pay_invite p) in if t = [] then TrimSpace (pay_token p) else t) (pay_id p))
         else if content_type r = [] \<or> content_type r = ''application/x-www-form-urlencoded''
         then (case w_form r of None \<Rightarrow> Inl ''invalid form data'' | Some f \<Rightarrow> with_id (resolveInviteTokenForm f) (f ''id''))
         else Inl ''unsupported content type'')"

definition consume_failure :: "db_error \<Rightarrow> nat \<times> string" where
  "consume_failure e = (case e of NoRows \<Rightarrow> (404, ''invalid invite token'') | AlreadyUsed \<Rightarrow> (409, ''invite already used'') | _ \<Rightarrow> (400, ''database error''))"

definition handleInviteConsume :: "room_srv \<Rightarrow> string \<Rightarrow> web_request \<Rightarrow> string \<Rightarrow> web dbop" where
  "handleInviteConsume srv address r fallbackToken =
     (let ct = content_type r;
          respondJSON = (ct = ''application/json'' \<or> (ct = [] \<and> wantsJSONResponse r) \<or> \<not> (ct = [] \<or> ct = ''application/x-www-form-urlencoded''))
      in case consume_input r fallbackToken of
           Inl msg \<Rightarrow> dreturn (renderConsumeError respondJSON 400 msg)
         | Inr (token, feed) \<Rightarrow>
           if token = [] then dreturn (renderConsumeError respondJSON 400 ''missing invite token'')
           else dbind (DeniedKeys_HasFeed (rs_env srv) feed) (\<lambda>denied.
             if denied then dreturn (renderConsumeError respondJSON 403 ''feed is denied'')
             else dtry (Invites_Consume (rs_env srv) token feed) (\<lambda>res. case res of
               Inl e \<Rightarrow> dreturn (renderConsumeError respondJSON (fst (consume_failure e)) (snd (consume_failure e)))
             | Inr _ \<Rightarrow> (if respondJSON then dreturn (Json 200 [(''status'', ''successful''), (''multiserverAddress'', address)])
                         else nav_page (rs_env srv) r ''inviteConsumed'' [(''MultiserverAddress'', address)]))))"

definition handleInviteConsumeRoute :: "room_srv \<Rightarrow> string \<Rightarrow> web_request \<Rightarrow> web dbop" where
  "handleInviteConsumeRoute srv address r =
     (if w_method r \<noteq> ''POST'' then dreturn (Error 405 ''Method not allowed'') else handleInviteConsume srv address r (resolveInviteTokenQuery r))"

definition web_join :: "room_srv \<Rightarrow> string \<Rightarrow> string \<Rightarrow> web_request \<Rightarrow> web dbop" where
  "web_join srv base address r =
     (if w_method r = ''GET'' then
        (if resolveInviteTokenQuery r = [] then dreturn (Error 404 ''404 page not found'') else serveJoinPage srv base r (resolveInviteTokenQuery r))
      else if w_method r = ''POST'' then handleInviteConsume srv address r (resolveInviteTokenQuery r)
      else dreturn (Error 405 ''Method not allowed''))"

section \<open>Aliases\<close>

definition web_alias :: "room_srv \<Rightarrow> string \<Rightarrow> web_request \<Rightarrow> web dbop" where
  "web_alias srv address r =
     (let slash = (\<lambda>c. c = CHR ''/''); trimmed = rev (dropWhile slash (rev (dropWhile slash (w_path r))))
      in if w_path r = ''/'' then dreturn (Error 404 ''404 page not found'')
         else if w_method r \<noteq> ''GET'' \<and> w_method r \<noteq> ''HEAD'' then dreturn (Error 405 ''Method not allowed'')
         else if trimmed = [] \<or> CHR ''/'' \<in> set trimmed then dreturn (Error 404 ''404 page not found'')
         else dtry (GetPrivacyMode (rs_env srv)) (\<lambda>mode. case mode of
           Inl _ \<Rightarrow> dreturn (writeInviteError r 500 ''Failed to check room mode'')
         | Inr mode \<Rightarrow>
           if mode = ModeRestricted then dreturn (Error 404 ''404 page not found'')
           else dtry (Aliases_Resolve (rs_env srv) trimmed) (\<lambda>al. case al of
             Inl _ \<Rightarrow> dreturn (Error 404 ''404 page not found'')
           | Inr a \<Rightarrow>
             (let payload = [(''status'', ''successful''), (''multiserverAddress'', address), (''roomId'', FeedRef_String (rs_keyPair srv)),
                             (''userId'', FeedRef_String (aliasOwner a)), (''alias'', aliasName a),
                             (''signature'', EncodeToString StdEncoding (aliasSignature a) @ ''.sig.ed25519'')]
              in if w_query r ''encoding'' = ''json'' \<or> wantsJSONResponse r then dreturn (Json 200 payload) else nav_page (rs_env srv) r ''alias'' payload))))"

section \<open>Signing in\<close>

definition normalizeNextPath :: "string \<Rightarrow> string" where
  "normalizeNextPath raw =
     (let n = TrimSpace raw in if n = [] \<or> \<not> HasPrefix n ''/'' \<or> HasPrefix n ''//'' \<or> sublist ''://'' n then [] else n)"

definition handleLoginSubmit :: "room_srv \<Rightarrow> web_request \<Rightarrow> web dbop" where
  "handleLoginSubmit srv r =
     (case w_form r of
        None \<Rightarrow> dreturn (Error 400 ''Invalid form data'')
      | Some f \<Rightarrow>
        if f ''username'' = [] \<or> f ''password'' = [] then dreturn (Error 400 ''Username and password required'')
        else dtry (AuthFallback_Check (rs_env srv) (f ''username'') (f ''password'')) (\<lambda>c. case c of
          Inl _ \<Rightarrow> dreturn (Error 401 ''Invalid credentials'')
        | Inr mid \<Rightarrow>
          dtry (CreateToken (rs_env srv) mid) (\<lambda>t. dreturn (case t of
            Inl _ \<Rightarrow> Error 500 ''Failed to create auth token''
          | Inr token \<Rightarrow> LoggedIn token (Redirect (let n = normalizeNextPath (f ''next'') in if n = [] then ''/'' else n))))))"

definition handleResetPasswordSubmit :: "room_srv \<Rightarrow> web_request \<Rightarrow> web dbop" where
  "handleResetPasswordSubmit srv r =
     (case w_form r of
        None \<Rightarrow> dreturn (Error 400 ''Invalid form data'')
      | Some f \<Rightarrow>
        if f ''token'' = [] \<or> f ''password'' = [] then dreturn (Error 400 ''Token and password required'')
        else dtry (SetPasswordWithToken (rs_env srv) (f ''token'') (f ''password'')) (\<lambda>res. dreturn (case res of
          Inl _ \<Rightarrow> Error 400 ''Invalid or expired token'' | Inr _ \<Rightarrow> Redirect ''/login?reset=success'')))"

definition handleResetPassword :: "room_srv \<Rightarrow> web_request \<Rightarrow> web dbop" where
  "handleResetPassword srv r =
     (if w_method r = ''GET'' then dreturn (Page ''resetPassword'' [])
      else if w_method r = ''POST'' then handleResetPasswordSubmit srv r else dreturn (Error 405 ''Method not allowed''))"

text \<open>
  The sign-in with an SSB identity has two more parts of state: the time of the last attempt from each
  host, and the challenges that are out. \<open>wrandom\<close> gives the 32 bytes of a challenge; \<open>ask\<close> is what the
  client on a connection answers to \<open>httpAuth.requestSolution\<close> with two strings.
\<close>

record pendingAuth =
  pend_sc :: string
  pend_cc :: string
  pend_cid :: FeedRef
  pend_expires :: int

record site =
  w_server :: server
  w_limits :: "(string, int) gmap"
  w_challenges :: "(string, pendingAuth) gmap"

record login_env =
  wrandom :: "nat \<Rightarrow> string option"
  ask :: "nat \<Rightarrow> nat \<Rightarrow> string \<Rightarrow> string \<Rightarrow> string option"

definition site_now :: "room_srv \<Rightarrow> site \<Rightarrow> int" where
  "site_now srv st = room_now (rs_env srv) (r_tick (s_db (w_server st)))"

definition limiter_Allow :: "int \<Rightarrow> string \<Rightarrow> (string, int) gmap \<Rightarrow> bool \<times> (string, int) gmap" where
  "limiter_Allow now host limits =
     (case map_of limits host of
        Some t \<Rightarrow> if now - t < 1000000000 then (False, limits) else (True, gput host now limits)
      | None \<Rightarrow> (True, gput host now limits))"

definition challenge_key :: "string \<Rightarrow> string \<Rightarrow> string" where
  "challenge_key sc cc = EncodeToString StdEncoding sc @ '':'' @ EncodeToString StdEncoding cc"

definition challenge_Add :: "int \<Rightarrow> string \<Rightarrow> string \<Rightarrow> FeedRef \<Rightarrow> (string, pendingAuth) gmap \<Rightarrow> (string, pendingAuth) gmap" where
  "challenge_Add now sc cc cid s =
     gput (challenge_key sc cc) \<lparr>pend_sc = sc, pend_cc = cc, pend_cid = cid, pend_expires = now + 300000000000\<rparr> s"

definition challenge_Get :: "int \<Rightarrow> string \<Rightarrow> string \<Rightarrow> (string, pendingAuth) gmap \<Rightarrow> pendingAuth option \<times> (string, pendingAuth) gmap" where
  "challenge_Get now sc cc s =
     (case map_of s (challenge_key sc cc) of
        None \<Rightarrow> (None, s)
      | Some p \<Rightarrow> if now > pend_expires p then (None, gdel (challenge_key sc cc) s) else (Some p, s))"

definition challenge_Remove :: "string \<Rightarrow> string \<Rightarrow> (string, pendingAuth) gmap \<Rightarrow> (string, pendingAuth) gmap" where
  "challenge_Remove sc cc s = gdel (challenge_key sc cc) s"

definition challenge_cleanup :: "int \<Rightarrow> (string, pendingAuth) gmap \<Rightarrow> (string, pendingAuth) gmap" where
  "challenge_cleanup now s = filter (\<lambda>(k, p). \<not> now > pend_expires p) s"

definition site_db :: "'a dbop \<Rightarrow> site \<Rightarrow> (db_error + 'a) \<times> site" where
  "site_db m st = (case m (s_db (w_server st)) of (r, d) \<Rightarrow> (r, st\<lparr>w_server := (w_server st)\<lparr>s_db := d\<rparr>\<rparr>))"

text \<open>From the answer of the client on: verify, look the member up, issue a token.\<close>

definition issue_token :: "room_srv \<Rightarrow> FeedRef \<Rightarrow> string \<Rightarrow> string \<Rightarrow> string option \<Rightarrow> web dbop" where
  "issue_token srv cid scB64 ccB64 answer =
     (case answer of
        None \<Rightarrow> dreturn (Error 403 ''Authentication flow failed'')
      | Some sol \<Rightarrow>
        if Signature_Verify (rs_verify srv) sol (sign_in_message (rs_keyPair srv) cid scB64 ccB64) cid \<noteq> None then dreturn (Error 403 ''Invalid signature'')
        else dtry (Members_GetByFeed (rs_env srv) cid) (\<lambda>m. case m of
          Inl _ \<Rightarrow> dreturn (Error 403 ''Not a member'')
        | Inr m \<Rightarrow>
          dtry (CreateToken (rs_env srv) (memberID m)) (\<lambda>t. dreturn (case t of
            Inl _ \<Rightarrow> Error 500 ''Token creation failed'' | Inr token \<Rightarrow> LoggedIn token (Page ''OK'' [])))))"

definition ssb_handleLogin :: "room_srv \<Rightarrow> login_env \<Rightarrow> web_request \<Rightarrow> site \<Rightarrow> web \<times> site" where
  "ssb_handleLogin srv lenv r st =
     (let cidStr = w_query r ''cid''; ccB64 = w_query r ''cc''
      in if w_query r ''ssb-http-auth'' \<noteq> ''1'' then (Error 400 ''Not a SIP 6 request'', st)
         else if cidStr = [] \<or> ccB64 = [] then (Error 400 ''Missing cid or cc'', st)
         else case ParseFeedRef cidStr of
           Inl _ \<Rightarrow> (Error 400 ''Invalid cid'', st)
         | Inr cid \<Rightarrow>
           (case DecodeString StdEncoding ccB64 of
              None \<Rightarrow> (Error 400 ''Invalid cc (must be 32 bytes base64)'', st)
            | Some cc \<Rightarrow>
              if length cc \<noteq> 32 then (Error 400 ''Invalid cc (must be 32 bytes base64)'', st)
              else
                let (ok, limits) = limiter_Allow (site_now srv st) (w_host r) (w_limits st); st = st\<lparr>w_limits := limits\<rparr>; t = r_tick (s_db (w_server st))
                in if \<not> ok then (Error 429 ''Rate limit exceeded'', st)
                   else case wrandom lenv t of
                     None \<Rightarrow> (Error 500 ''Internal Server Error'', st)
                   | Some sc \<Rightarrow>
                     (case registered cid (w_server st) of
                        None \<Rightarrow> (Error 403 ''Access Forbidden'', st)
                      | Some conn \<Rightarrow>
                        let scB64 = EncodeToString StdEncoding sc;
                            st = st\<lparr>w_challenges := challenge_Add (site_now srv st) sc cc cid (w_challenges st)\<rparr>;
                            (answer, st) = site_db (issue_token srv cid scB64 ccB64 (ask lenv t conn scB64 ccB64)) st;
                            st = st\<lparr>w_challenges := challenge_Remove sc cc (w_challenges st)\<rparr>
                        in (case answer of Inl _ \<Rightarrow> Error 500 [] | Inr w \<Rightarrow> w, st))))"

definition auth_handleLogin :: "room_srv \<Rightarrow> login_env \<Rightarrow> web_request \<Rightarrow> site \<Rightarrow> web \<times> site" where
  "auth_handleLogin srv lenv r st =
     (if w_method r = ''GET'' then
        (if w_query r ''ssb-http-auth'' = ''1'' then ssb_handleLogin srv lenv r st
         else (Page ''login'' [(''Next'', normalizeNextPath (w_query r ''next''))], st))
      else if w_method r = ''POST'' then
        (case site_db (handleLoginSubmit srv r) st of (Inl _, st) \<Rightarrow> (Error 500 [], st) | (Inr w, st) \<Rightarrow> (w, st))
      else (Error 405 ''Method not allowed'', st))"

end
