(* ===== verification/RoomLaws.thy ===== *)
theory RoomLaws
  imports RoomWeb
begin

text \<open>
  Laws of the room: relations between databases that every statement respects are respected by every
  operation and handler. The locale \<open>room_relation\<close> has the laws of the combinators, \<open>room_writes\<close> those
  of the operations and handlers; they are interpreted for the consistency of the tables and for the
  fate of invites.
\<close>

section \<open>Relations respected by operations\<close>

definition member_key :: "string \<Rightarrow> roomdb \<Rightarrow> bool" where
  "member_key k st \<longleftrightarrow> (\<exists>r \<in> set (trows (r_members st)). m_key r = k)"

locale room_relation =
  fixes env :: room_env and R :: "roomdb \<Rightarrow> roomdb \<Rightarrow> bool"
  assumes R_refl: "R st st"
    and R_trans: "R s1 s2 \<Longrightarrow> R s2 s3 \<Longrightarrow> R s1 s3"
    and R_tick: "R st (st\<lparr>r_tick := n\<rparr>)"
begin

lemma R_ticked: "R st st' \<Longrightarrow> R st (st'\<lparr>r_tick := n\<rparr>)"
  using R_trans R_tick by blast

lemma dreturn_R: "R st (snd (dreturn x st))"
  by (simp add: dreturn_def R_refl)

lemma dfail_R: "R st (snd (dfail e st))"
  by (simp add: dfail_def R_refl)

lemma dtry_R: "(\<And>st. R st (snd (m st))) \<Longrightarrow> (\<And>r st. R st (snd (f r st))) \<Longrightarrow> R st (snd (dtry m f st))"
  by (auto simp: dtry_def split: prod.split intro: R_trans) (metis R_trans snd_conv)

lemma dbind_R: "(\<And>st. R st (snd (m st))) \<Longrightarrow> (\<And>x st. R st (snd (f x st))) \<Longrightarrow> R st (snd (dbind m f st))"
  unfolding dbind_def by (rule dtry_R) (auto split: sum.split intro: dfail_R)

lemma dtick_R: "(\<And>t st. R st (snd (f t st))) \<Longrightarrow> R st (snd (dtick f st))"
  by (simp add: dtick_def)

lemma query_R: "R st (snd (query env f st))"
  by (simp add: query_def R_tick)

lemma query_all_R: "R st (snd (query_all env f st))"
  by (simp add: query_all_def query_R)

lemma exec_R: "(\<And>st x st'. f st = Some (x, st') \<Longrightarrow> R st st') \<Longrightarrow> R st (snd (exec env f st))"
  by (auto simp: exec_def Let_def R_tick intro: R_ticked split: option.split)

lemma exec_all_R: "(\<And>st. R st (f st)) \<Longrightarrow> R st (snd (exec_all env f st))"
  unfolding exec_all_def by (rule exec_R) auto

lemmas basic_R = dreturn_R dfail_R dtry_R dbind_R dtick_R query_R query_all_R

lemma Members_GetByFeed_R: "R st (snd (Members_GetByFeed env f st))"
  by (auto simp: Members_GetByFeed_def intro!: basic_R)

lemma Members_GetByID_R: "R st (snd (Members_GetByID env i st))"
  by (auto simp: Members_GetByID_def intro!: basic_R split: sum.split)

lemma find_token_R: "R st (snd (find_token env t st))"
  by (auto simp: find_token_def intro!: basic_R)

lemma reads_R:
  "R st (snd (Aliases_Resolve env a st))" "R st (snd (Aliases_List env st))" "R st (snd (Members_List env st))"
  "R st (snd (GetPrivacyMode env st))" "R st (snd (DeniedKeys_HasFeed env f st))" "R st (snd (Invites_GetByToken env t st))"
  "R st (snd (Invites_List env st))" "R st (snd (consume_find env t st))" "R st (snd (AuthFallback_Check env u p st))"
  by (auto simp: Aliases_Resolve_def Aliases_List_def Members_List_def GetPrivacyMode_def DeniedKeys_HasFeed_def Invites_GetByToken_def
      Invites_List_def consume_find_def AuthFallback_Check_def intro!: basic_R split: sum.split)

lemmas read_R = basic_R Members_GetByFeed_R Members_GetByID_R find_token_R reads_R

subsection \<open>The same for handlers\<close>

abbreviation S :: "server \<Rightarrow> server \<Rightarrow> bool" where "S st st' \<equiv> R (s_db st) (s_db st')"

lemma hreturn_R: "S st (snd (hreturn x st))" and hfail_R: "S st (snd (hfail e st))" and hguard_R: "S st (snd (hguard b e st))"
  and hstate_R: "S st (snd (hstate g st))" and hread_R: "S st (snd (hread f st))"
  by (simp_all add: hreturn_def hfail_def hguard_def hstate_def hread_def R_refl)

lemma hbind_R: "(\<And>st. S st (snd (m st))) \<Longrightarrow> (\<And>x st. S st (snd (f x st))) \<Longrightarrow> S st (snd (hbind m f st))"
  by (auto simp: hbind_def split: prod.split sum.split) (metis snd_conv, metis R_trans snd_conv)

lemma hdb_R: "(\<And>st. R st (snd (m st))) \<Longrightarrow> S st (snd (hdb e m st))"
  by (auto simp: hdb_def split: prod.split sum.split) (metis snd_conv)+

lemma hignore_R: "(\<And>st. R st (snd (m st))) \<Longrightarrow> S st (snd (hignore m st))"
  by (simp add: hignore_def)

lemma hcatch_R: "(\<And>st. S st (snd (m st))) \<Longrightarrow> S st (snd (hcatch m st))"
  by (simp add: hcatch_def)

lemmas h_R = hreturn_R hfail_R hguard_R hstate_R hread_R hbind_R hdb_R hignore_R hcatch_R

lemma getCallerFeed_R: "S st (snd (getCallerFeed rq st))"
  unfolding getCallerFeed_def by (auto intro!: h_R split: option.split)

lemma isInternalMember_R:
  assumes e: "rs_env srv = env"
  shows "S st (snd (isInternalMember srv f st))"
  unfolding isInternalMember_def e by (auto intro!: h_R read_R split: sum.split db_error.split)

lemma need_member_R:
  assumes e: "rs_env srv = env"
  shows "S st (snd (need_member srv rq st))"
  unfolding need_member_def by (intro h_R getCallerFeed_R isInternalMember_R [OF e])

lemma admit_R:
  assumes e: "rs_env srv = env"
  shows "S st (snd (admit srv f st))"
  unfolding admit_def e by (auto intro!: h_R isInternalMember_R [OF e] read_R)

end

text \<open>What the handlers write; \<open>A\<close> has the keys of feeds that may become members. Revoking an alias is left open.\<close>

locale room_writes = room_relation +
  fixes A :: "string set"
  assumes w_add: "FeedRef_String f \<in> A \<Longrightarrow> R st (snd (Members_Add env f r st))"
    and w_role: "R st (snd (Members_SetRole env i r st))"
    and w_create: "R st (snd (Invites_Create env i st))"
    and w_use: "R st (st\<lparr>r_invites := auto_update (\<lambda>r. i_id r = i) (\<lambda>r. r\<lparr>i_active := False\<rparr>) (r_invites st)\<rparr>)"
    and w_register: "R st (snd (Aliases_Register env a f s st))"
    and w_insert_token: "R st (snd (insert_token env t i now n st))"
    and w_used: "R st (st\<lparr>r_tokens := auto_update (\<lambda>r. t_token r = t) (\<lambda>r. r\<lparr>t_used := u\<rparr>) (r_tokens st)\<rparr>)"
    and w_drop_tokens: "R st (st\<lparr>r_tokens := auto_delete P (r_tokens st)\<rparr>)"
    and w_hash: "R st (snd (put_hash env i h st))"
    and w_snaps: "R st (st\<lparr>r_attendants := sa\<rparr>)" "R st (st\<lparr>r_endpoints := se\<rparr>)"
begin

lemma consume_use_R: "FeedRef_String f \<in> A \<Longrightarrow> R st (snd (consume_use env f i st))"
  unfolding consume_use_def by (auto intro!: read_R w_add w_role w_use exec_all_R split: sum.split)

lemma Invites_Consume_R: "FeedRef_String f \<in> A \<Longrightarrow> R st (snd (Invites_Consume env t f st))"
  unfolding Invites_Consume_def by (intro read_R consume_use_R)

lemma ensureMemberID_R: "FeedRef_String f \<in> A \<Longrightarrow> R st (snd (ensureMemberID env f r st))"
  unfolding ensureMemberID_def by (auto intro!: read_R w_add split: sum.split db_error.split)

lemma CreateToken_R: "R st (snd (CreateToken env i st))"
  unfolding CreateToken_def by (intro read_R w_insert_token)

lemma CheckToken_R: "R st (snd (CheckToken env t st))"
  unfolding CheckToken_def by (intro read_R exec_all_R w_used)

lemma RemoveToken_R: "R st (snd (RemoveToken env t st))"
  unfolding RemoveToken_def by (intro exec_all_R w_drop_tokens)

lemma Wipe_R: "R st (snd (WipeTokensForMember env i st))"
  unfolding WipeTokensForMember_def by (intro exec_all_R w_drop_tokens)

lemma transaction_R: "(\<And>st. R st (snd (m st))) \<Longrightarrow> R st (snd (transaction env m st))"
proof -
  assume m: "\<And>st. R st (snd (m st))"
  let ?b = "dbind (exec_all env (\<lambda>st. st)) (\<lambda>_. dbind m (\<lambda>x. dbind (exec_all env (\<lambda>st. st)) (\<lambda>_. dreturn x)))"
  have "R st (snd (?b st))" by (intro basic_R exec_all_R R_refl m)
  then show ?thesis by (cases "?b st") (auto simp: transaction_def Let_def R_tick split: sum.split)
qed

lemma RotateToken_R: "R st (snd (RotateToken env t st))"
  unfolding RotateToken_def by (intro transaction_R read_R RemoveToken_R w_insert_token)

lemma SetPasswordWithToken_R: "R st (snd (SetPasswordWithToken env t p st))"
  unfolding SetPasswordWithToken_def with_hash_def by (auto intro!: read_R RemoveToken_R w_hash split: option.split)

lemma snaps_R:
  "R st (snd (UpsertAttendant env f a n st))" "R st (snd (DeactivateAttendant env f st))"
  "R st (snd (UpsertTunnelEndpoint env f a n st))" "R st (snd (DeactivateTunnelEndpoint env f st))"
  by (auto simp: UpsertAttendant_def DeactivateAttendant_def UpsertTunnelEndpoint_def DeactivateTunnelEndpoint_def
      intro!: basic_R exec_all_R w_snaps)

lemmas op_R = read_R w_add w_role w_create w_register w_insert_token w_hash consume_use_R Invites_Consume_R ensureMemberID_R
  CreateToken_R CheckToken_R RemoveToken_R Wipe_R RotateToken_R SetPasswordWithToken_R snaps_R

subsection \<open>Handlers of the web\<close>

lemma memberFromRequest_R: "R st (snd (memberFromRequest env r st))"
  unfolding memberFromRequest_def by (auto intro!: op_R split: option.split sum.split)

lemma policyContext_R: "R st (snd (policyContext env r st))"
  unfolding policyContext_def by (intro op_R memberFromRequest_R)

lemma with_policy_R: "(\<And>pol st. R st (snd (f pol st))) \<Longrightarrow> R st (snd (with_policy env r f st))"
  unfolding with_policy_def by (auto intro!: op_R policyContext_R split: sum.split)

lemma nav_page_R: "R st (snd (nav_page env r name fs st))"
  unfolding nav_page_def showInvitesNav_def by (intro op_R policyContext_R)

lemma handleInviteConsume_R:
  assumes e: "rs_env srv = env" and f: "\<And>token f. consume_input r t = Inr (token, f) \<Longrightarrow> FeedRef_String f \<in> A"
  shows "R st (snd (handleInviteConsume srv addr r t st))"
  unfolding handleInviteConsume_def Let_def e by (auto intro!: op_R f nav_page_R split: sum.split prod.split)

lemma web_createInvite_R:
  assumes e: "rs_env srv = env" and f: "FeedRef_String (rs_keyPair srv) \<in> A"
  shows "R st (snd (web_createInvite srv base r st))"
  unfolding web_createInvite_def handleCreateInviteSubmit_def Let_def e
  by (auto intro!: op_R f with_policy_R nav_page_R split: option.split sum.split)

lemma web_reads_R:
  assumes e: "rs_env srv = env"
  shows serveJoinPage_R: "R st (snd (serveJoinPage srv base r t st))"
    and handleJoinFallback_R: "R st (snd (handleJoinFallback srv r st))"
    and handleJoinManually_R: "R st (snd (handleJoinManually srv r st))"
    and handleInvites_R: "R st (snd (handleInvites srv r st))"
    and web_alias_R: "R st (snd (web_alias srv addr r st))"
  unfolding serveJoinPage_def handleJoinFallback_def handleJoinManually_def join_page_def tokenIsActive_def handleInvites_def web_alias_def Let_def e
  by (auto intro!: op_R with_policy_R nav_page_R split: sum.split)

lemma web_R:
  assumes e: "rs_env srv = env"
  shows handleInviteRevoke_R: "R st (snd (handleInviteRevoke srv r st))"
    and handleLoginSubmit_R: "R st (snd (handleLoginSubmit srv r st))"
    and handleResetPasswordSubmit_R: "R st (snd (handleResetPasswordSubmit srv r st))"
    and issue_token_R: "R st (snd (issue_token srv cid sc cc ans st))"
  unfolding handleInviteRevoke_def Invites_Revoke_def handleLoginSubmit_def handleResetPasswordSubmit_def issue_token_def Let_def e
  by (auto intro!: op_R with_policy_R exec_all_R w_use split: option.split sum.split prod.split)

subsection \<open>Handlers of MUXRPC\<close>

lemma handleJoin_R:
  assumes e: "rs_env srv = env" and f: "\<And>c. rq_caller rq = Some c \<Longrightarrow> FeedRef_String c \<in> A"
  shows "S st (snd (handleJoin srv rq st))"
proof (cases "rq_caller rq")
  case None
  then show ?thesis by (simp add: handleJoin_def getCallerFeed_def hbind_def hfail_def hguard_def hreturn_def R_refl)
next
  case (Some c)
  have g: "getCallerFeed rq = hreturn c" by (simp add: getCallerFeed_def Some)
  have b: "hbind (hreturn c) k = k c" for k :: "FeedRef \<Rightarrow> rpc_value hop" by (rule ext) (simp add: hbind_def hreturn_def)
  show ?thesis unfolding handleJoin_def e g b by (auto intro!: h_R op_R f [OF Some] split: option.split list.split)
qed

lemma room_calls_R:
  assumes e: "rs_env srv = env" and f: "FeedRef_String (rs_keyPair srv) \<in> A"
    and j: "method ! 1 = ''join'' \<Longrightarrow> S st (snd (handleJoin srv rq st))"
    and r: "method ! 1 = ''revokeAlias'' \<Longrightarrow> S st (snd (handleRevokeAlias srv rq st))"
  shows "S st (snd (room_call srv method rq st))"
proof -
  have 1: "S st (snd (handleCreateInvite srv rq st))"
    unfolding handleCreateInvite_def e by (auto intro!: h_R op_R f getCallerFeed_R isInternalMember_R [OF e])
  have 3: "S st (snd (handleRegisterAlias srv rq st))"
    unfolding handleRegisterAlias_def e Let_def
    by (auto intro!: h_R op_R need_member_R [OF e] split: option.split prod.split)
  have 5: "S st (snd (handleListAliases srv rq st))" "S st (snd (handleMembers srv rq st))"
    unfolding handleListAliases_def handleMembers_def e by (auto intro!: h_R op_R)
  have 6: "S st (snd (room_attendants srv rq st))"
    unfolding room_attendants_def by (intro h_R getCallerFeed_R admit_R [OF e]) (auto simp: R_refl split: prod.split)
  have 7: "S st (snd (handleMetadata srv rq st))"
    unfolding handleMetadata_def e by (auto intro!: h_R op_R isInternalMember_R [OF e] split: option.split)
  show ?thesis unfolding room_call_def Let_def by (auto intro: h_R 1 3 5 6 7 j r)
qed

lemma announce_R:
  assumes e: "rs_env srv = env"
  shows "S st (snd (announce srv f st))"
  unfolding announce_def hclock_def e Let_def by (auto intro!: h_R op_R split: option.split)

lemma other_calls_R:
  assumes e: "rs_env srv = env"
  shows tunnel_call_R: "S st (snd (tunnel_call srv method rq st))"
    and auth_call_R: "S st (snd (auth_call srv method rq st))"
    and connect_R: "S st (snd (connect srv f a n st))"
    and disconnect_R: "S st (snd (disconnect srv f b st))"
proof -
  have 1: "S st (snd (handleAnnounce srv rq st))" "S st (snd (handleLeave srv rq st))" for st
    unfolding handleAnnounce_def handleLeave_def e by (auto intro!: h_R op_R getCallerFeed_R admit_R [OF e] announce_R [OF e])
  have 2: "S st (snd (handleConnect srv rq st))" "S st (snd (handleIsRoom srv rq st))" "S st (snd (handlePing rq st))" for st
    unfolding handleConnect_def handleIsRoom_def handlePing_def by (auto intro!: h_R getCallerFeed_R split: option.split list.split)
  have 3: "S st (snd (tunnel_endpoints rq st))" for st
    unfolding tunnel_endpoints_def by (intro h_R) (auto simp: R_refl split: prod.split)
  show "S st (snd (tunnel_call srv method rq st))" unfolding tunnel_call_def Let_def by (auto intro: h_R 1 2 3)
  have 4: "S st (snd (handleInvalidateAllSolutions srv rq st))" "S st (snd (handleRotateToken srv rq st))" for st
    unfolding handleInvalidateAllSolutions_def handleRotateToken_def e by (auto intro!: h_R op_R getCallerFeed_R split: option.split list.split)
  show "S st (snd (auth_call srv method rq st))" unfolding auth_call_def Let_def by (auto intro: h_R 4 split: sum.split)
  have 5: "S st (snd (admitted srv f st))" for st
    unfolding admitted_def e by (intro h_R op_R isInternalMember_R [OF e])
  show "S st (snd (connect srv f a n st))"
    unfolding connect_def NotifyPeerAvailable_def hclock_def e by (auto intro!: h_R op_R 5 announce_R [OF e] simp: R_refl)
  show "S st (snd (disconnect srv f b st))"
    unfolding disconnect_def e by (auto intro!: h_R op_R simp: R_refl)
qed

end

end
