(* ===== verification/RoomTables.thy ===== *)
theory RoomTables
  imports RoomLaws
begin

text \<open>
  What stays true of the room's tables: \<open>tables_ok\<close> is kept by every operation and request, ids of invites
  are spent once, members come in by an invite, and aliases stay with their owner. Each is an instance
  of the locales of \<open>RoomLaws\<close>.
\<close>

section \<open>Tables\<close>

definition auto_ok :: "('r \<Rightarrow> int) \<Rightarrow> ('r \<Rightarrow> string) \<Rightarrow> 'r auto \<Rightarrow> bool" where
  "auto_ok rid key t \<longleftrightarrow>
     distinct (map rid (trows t)) \<and> distinct (map key (trows t)) \<and> 0 \<le> tseq t \<and> (\<forall>r \<in> set (trows t). 0 < rid r \<and> rid r \<le> tseq t)"

lemma auto_ok_insert:
  assumes "auto_ok rid key t" and "auto_insert key mk t = Some (i, t')" and "\<And>i. rid (mk i) = i"
  shows "auto_ok rid key t'"
  using assms by (fastforce simp: auto_ok_def auto_insert_def Let_def list_ex_iff split: if_splits)

lemma auto_ok_update: "auto_ok rid key t \<Longrightarrow> (\<And>r. rid (f r) = rid r) \<Longrightarrow> (\<And>r. key (f r) = key r) \<Longrightarrow> auto_ok rid key (auto_update P f t)"
  by (auto simp: auto_ok_def auto_update_def comp_def if_distrib cong: if_cong)

lemma auto_ok_delete: "auto_ok rid key t \<Longrightarrow> auto_ok rid key (auto_delete P t)"
  by (auto simp: auto_ok_def auto_delete_def distinct_map_filter)

lemma auto_insert_rows: "auto_insert key mk t = Some (i, t') \<Longrightarrow> i = tseq t + 1 \<and> trows t' = trows t @ [mk i] \<and> tseq t' = i \<and> key (mk i) \<notin> key ` set (trows t)"
  by (auto simp: auto_insert_def Let_def list_ex_iff split: if_splits)

lemma auto_rows [simp]:
  "set (trows (auto_delete P t)) = {r \<in> set (trows t). \<not> P r}" "set (trows (auto_update P f t)) = (\<lambda>r. if P r then f r else r) ` set (trows t)"
  "tseq (auto_delete P t) = tseq t" "tseq (auto_update P f t) = tseq t"
  by (auto simp: auto_delete_def auto_update_def)

text \<open>Unique ids and keys, roles above zero, and every reference to a member has its member.\<close>

definition tables_ok :: "roomdb \<Rightarrow> bool" where
  "tables_ok st \<longleftrightarrow>
     (auto_ok m_id m_key (r_members st) \<and> auto_ok p_id p_login (r_passwords st) \<and> auto_ok i_id i_hash (r_invites st) \<and>
      auto_ok a_id a_name (r_aliases st) \<and> auto_ok d_id d_key (r_denied st) \<and> auto_ok t_id t_token (r_tokens st)) \<and>
     ((\<forall>r \<in> set (trows (r_members st)). 0 < m_role r) \<and>
      (\<forall>r \<in> set (trows (r_passwords st)). has_member (p_member r) st) \<and> (\<forall>r \<in> set (trows (r_invites st)). has_member (i_by r) st) \<and>
      (\<forall>r \<in> set (trows (r_aliases st)). has_member (a_member r) st) \<and> (\<forall>r \<in> set (trows (r_tokens st)). has_member (t_member r) st))"

definition keeps_ok :: "roomdb \<Rightarrow> roomdb \<Rightarrow> bool" where "keeps_ok st st' \<longleftrightarrow> (tables_ok st \<longrightarrow> tables_ok st')"

lemma has_member_iff: "has_member i st \<longleftrightarrow> (\<exists>r \<in> set (trows (r_members st)). m_id r = i)"
  by (simp add: has_member_def list_ex_iff)

lemma has_member_same: "r_members st' = r_members st \<Longrightarrow> has_member i st' = has_member i st"
  by (simp add: has_member_def)

lemma fresh_roomdb_ok: "tables_ok fresh_roomdb"
  by (simp add: tables_ok_def fresh_roomdb_def fresh_auto_def auto_ok_def)

lemma ok_tick: "tables_ok (st\<lparr>r_tick := n\<rparr>) = tables_ok st"
  by (simp add: tables_ok_def has_member_def)

lemma ok_irrelevant:
  "tables_ok (st\<lparr>r_config := c\<rparr>) = tables_ok st" "tables_ok (st\<lparr>r_attendants := sa\<rparr>) = tables_ok st" "tables_ok (st\<lparr>r_endpoints := se\<rparr>) = tables_ok st"
  by (simp_all add: tables_ok_def has_member_def)

lemma ok_delete_members:
  assumes "tables_ok st"
  shows "tables_ok (delete_members P st)"
proof -
  have d: "distinct (map m_id (trows (r_members st)))" using assms by (simp add: tables_ok_def auto_ok_def)
  have one: "r = s" if "r \<in> set (trows (r_members st))" "s \<in> set (trows (r_members st))" "m_id r = m_id s" for r s
    using d that by (metis distinct_map inj_onD)
  have left: "has_member i (delete_members P st)" if "has_member i st" "\<not> list_ex (\<lambda>r. P r \<and> m_id r = i) (trows (r_members st))" for i
    using that by (auto simp: has_member_iff delete_members_def Let_def list_ex_iff)
  show ?thesis using assms
    by (auto simp: tables_ok_def delete_members_def Let_def auto_ok_delete intro!: left [unfolded delete_members_def Let_def, simplified])
qed

text \<open>Members that stay, and rows that keep their reference, keep the tables consistent.\<close>

lemma has_member_mono: "m_id ` set (trows (r_members st)) \<subseteq> m_id ` set (trows (r_members st')) \<Longrightarrow> has_member i st \<Longrightarrow> has_member i st'"
  unfolding has_member_iff by (metis imageE image_eqI subsetD)

lemma auto_update_ids: "(\<And>r. rid (f r) = rid r) \<Longrightarrow> rid ` set (trows (auto_update P f t)) = rid ` set (trows t)"
proof -
  assume "\<And>r. rid (f r) = rid r"
  then have "map rid (trows (auto_update P f t)) = map rid (trows t)" by (simp add: auto_update_def)
  then show ?thesis by (metis list.set_map)
qed

interpretation ok: room_relation env keeps_ok for env
  by unfold_locales (auto simp: keeps_ok_def ok_tick)

lemma ok_add: "keeps_ok st (snd (Members_Add env f r st))"
  unfolding Members_Add_def
proof (rule ok.exec_R)
  fix st :: roomdb and x st'
  assume a: "(if r \<le> 0 then None
       else case auto_insert m_key (\<lambda>i. \<lparr>m_id = i, m_key = FeedRef_String f, m_role = r\<rparr>) (r_members st) of
         None \<Rightarrow> None | Some (i, t) \<Rightarrow> Some (i, st\<lparr>r_members := t\<rparr>)) = Some (x, st')"
  then obtain t where t: "auto_insert m_key (\<lambda>i. \<lparr>m_id = i, m_key = FeedRef_String f, m_role = r\<rparr>) (r_members st) = Some (x, t)"
    "st' = st\<lparr>r_members := t\<rparr>" "0 < r" by (auto split: if_splits option.splits)
  have h: "has_member i st \<Longrightarrow> has_member i (st\<lparr>r_members := t\<rparr>)" for i
    by (rule has_member_mono [of st]) (use auto_insert_rows [OF t(1)] in auto)
  show "keeps_ok st st'" using t auto_insert_rows [OF t(1)]
    by (auto simp: keeps_ok_def tables_ok_def h auto_ok_insert [OF _ t(1)])
qed

lemma ok_role: "keeps_ok st (snd (Members_SetRole env i r st))"
  unfolding Members_SetRole_def
proof (rule ok.exec_R)
  fix st :: roomdb and x st'
  assume a: "(if r \<le> 0 \<and> has_member i st then None
    else Some ((), st\<lparr>r_members := auto_update (\<lambda>r. m_id r = i) (\<lambda>m. m\<lparr>m_role := r\<rparr>) (r_members st)\<rparr>)) = Some (x, st')"
  let ?t = "auto_update (\<lambda>r. m_id r = i) (\<lambda>m. m\<lparr>m_role := r\<rparr>) (r_members st)"
  have h: "has_member j st \<Longrightarrow> has_member j (st\<lparr>r_members := ?t\<rparr>)" for j
    by (rule has_member_mono [of st]) (simp_all add: auto_update_ids del: auto_rows)
  show "keeps_ok st st'" using a
    by (auto simp: keeps_ok_def tables_ok_def h auto_ok_update split: if_splits) (auto simp: has_member_iff)
qed

lemma has_member_upd [simp]:
  "has_member i (st\<lparr>r_passwords := tp\<rparr>) = has_member i st" "has_member i (st\<lparr>r_invites := ti\<rparr>) = has_member i st"
  "has_member i (st\<lparr>r_aliases := ta\<rparr>) = has_member i st" "has_member i (st\<lparr>r_denied := td\<rparr>) = has_member i st"
  "has_member i (st\<lparr>r_tokens := tt\<rparr>) = has_member i st" "has_member i (st\<lparr>r_config := c\<rparr>) = has_member i st"
  "has_member i (st\<lparr>r_attendants := sa\<rparr>) = has_member i st" "has_member i (st\<lparr>r_endpoints := se\<rparr>) = has_member i st"
  by (simp_all add: has_member_def)

text \<open>A table with one more row that refers to a member.\<close>

lemma auto_insert_ok:
  assumes "auto_insert key mk t = Some (n, t')" "auto_ok rid key t" "\<And>i. rid (mk i) = i" "\<forall>r \<in> set (trows t). P r" "P (mk n)"
  shows "auto_ok rid key t' \<and> (\<forall>r \<in> set (trows t'). P r)"
  using auto_ok_insert [OF assms(2,1,3)] auto_insert_rows [OF assms(1)] assms(4,5) by auto

lemma ok_put_row:
  "tables_ok st \<Longrightarrow> auto_insert i_hash (\<lambda>n. \<lparr>i_id = n, i_hash = h, i_by = i, i_at = at, i_active = b\<rparr>) (r_invites st) = Some (n, ti) \<Longrightarrow>
   has_member i st \<Longrightarrow> tables_ok (st\<lparr>r_invites := ti\<rparr>)"
  "tables_ok st \<Longrightarrow> auto_insert a_name (\<lambda>n. \<lparr>a_id = n, a_name = a, a_member = i, a_sig = s\<rparr>) (r_aliases st) = Some (n, ta) \<Longrightarrow>
   has_member i st \<Longrightarrow> tables_ok (st\<lparr>r_aliases := ta\<rparr>)"
  "tables_ok st \<Longrightarrow> auto_insert t_token (\<lambda>n. \<lparr>t_id = n, t_token = t, t_member = i, t_at = at, t_used = u, t_rotations = k\<rparr>) (r_tokens st) = Some (n, tt) \<Longrightarrow>
   has_member i st \<Longrightarrow> tables_ok (st\<lparr>r_tokens := tt\<rparr>)"
  "tables_ok st \<Longrightarrow> auto_insert p_login (\<lambda>n. \<lparr>p_id = n, p_login = l, p_hash = h, p_member = i\<rparr>) (r_passwords st) = Some (n, tp) \<Longrightarrow>
   has_member i st \<Longrightarrow> tables_ok (st\<lparr>r_passwords := tp\<rparr>)"
  "tables_ok st \<Longrightarrow> auto_insert d_key (\<lambda>n. \<lparr>d_id = n, d_key = k', d_comment = c, d_at = at\<rparr>) (r_denied st) = Some (n, td) \<Longrightarrow> tables_ok (st\<lparr>r_denied := td\<rparr>)"
proof -
  show "tables_ok (st\<lparr>r_invites := ti\<rparr>)" if "tables_ok st" "has_member i st"
    "auto_insert i_hash (\<lambda>n. \<lparr>i_id = n, i_hash = h, i_by = i, i_at = at, i_active = b\<rparr>) (r_invites st) = Some (n, ti)"
    using auto_insert_ok [OF that(3), where rid = i_id and P = "\<lambda>r. has_member (i_by r) st"] that(1,2) by (simp add: tables_ok_def)
  show "tables_ok (st\<lparr>r_aliases := ta\<rparr>)" if "tables_ok st" "has_member i st"
    "auto_insert a_name (\<lambda>n. \<lparr>a_id = n, a_name = a, a_member = i, a_sig = s\<rparr>) (r_aliases st) = Some (n, ta)"
    using auto_insert_ok [OF that(3), where rid = a_id and P = "\<lambda>r. has_member (a_member r) st"] that(1,2) by (simp add: tables_ok_def)
  show "tables_ok (st\<lparr>r_tokens := tt\<rparr>)" if "tables_ok st" "has_member i st"
    "auto_insert t_token (\<lambda>n. \<lparr>t_id = n, t_token = t, t_member = i, t_at = at, t_used = u, t_rotations = k\<rparr>) (r_tokens st) = Some (n, tt)"
    using auto_insert_ok [OF that(3), where rid = t_id and P = "\<lambda>r. has_member (t_member r) st"] that(1,2) by (simp add: tables_ok_def)
  show "tables_ok (st\<lparr>r_passwords := tp\<rparr>)" if "tables_ok st" "has_member i st"
    "auto_insert p_login (\<lambda>n. \<lparr>p_id = n, p_login = l, p_hash = h, p_member = i\<rparr>) (r_passwords st) = Some (n, tp)"
    using auto_insert_ok [OF that(3), where rid = p_id and P = "\<lambda>r. has_member (p_member r) st"] that(1,2) by (simp add: tables_ok_def)
  show "tables_ok (st\<lparr>r_denied := td\<rparr>)" if "tables_ok st"
    "auto_insert d_key (\<lambda>n. \<lparr>d_id = n, d_key = k', d_comment = c, d_at = at\<rparr>) (r_denied st) = Some (n, td)"
    using auto_insert_ok [OF that(2), where rid = d_id and P = "\<lambda>_. True"] that(1) by (simp add: tables_ok_def)
qed

lemma ok_inserts:
  "keeps_ok st (snd (Invites_Create env i st))" "keeps_ok st (snd (Aliases_Register env a f s st))" "keeps_ok st (snd (DeniedKeys_Add env f c st))"
  "keeps_ok st (snd (insert_token env t i now n st))"
  unfolding Invites_Create_def Aliases_Register_def DeniedKeys_Add_def insert_token_def Let_def
  by (intro ok.dtick_R ok.dbind_R ok.dreturn_R ok.exec_R ok.Members_GetByFeed_R;
      auto simp: keeps_ok_def split: if_splits option.splits intro: ok_put_row)+

lemma ok_updates:
  "keeps_ok st (st\<lparr>r_invites := auto_update P (\<lambda>r. r\<lparr>i_active := False\<rparr>) (r_invites st)\<rparr>)"
  "keeps_ok st (st\<lparr>r_tokens := auto_update Q (\<lambda>r. r\<lparr>t_used := u\<rparr>) (r_tokens st)\<rparr>)"
  "keeps_ok st (st\<lparr>r_passwords := auto_update Z (\<lambda>r. r\<lparr>p_hash := h\<rparr>) (r_passwords st)\<rparr>)"
  by (auto simp: keeps_ok_def tables_ok_def auto_ok_update)

lemma ok_deletes:
  "keeps_ok st (st\<lparr>r_tokens := auto_delete P (r_tokens st)\<rparr>)" "keeps_ok st (st\<lparr>r_aliases := auto_delete Q (r_aliases st)\<rparr>)"
  "keeps_ok st (st\<lparr>r_denied := auto_delete Z (r_denied st)\<rparr>)"
  by (auto simp: keeps_ok_def tables_ok_def auto_ok_delete)

lemma ok_delete: "keeps_ok st (delete_members M st)"
  by (simp add: keeps_ok_def ok_delete_members)

lemma ok_others: "keeps_ok st (st\<lparr>r_attendants := sa\<rparr>)" "keeps_ok st (st\<lparr>r_endpoints := se\<rparr>)" "keeps_ok st (st\<lparr>r_config := c\<rparr>)"
  by (auto simp: keeps_ok_def ok_irrelevant)

interpretation ok: room_writes env keeps_ok UNIV for env
  by unfold_locales (auto simp: ok_add ok_role ok_inserts ok_updates ok_others ok_deletes put_hash_def intro: ok.exec_all_R)

lemma ok_insert_password:
  "keeps_ok st (snd (exec env (\<lambda>st. if \<not> has_member i st then None
     else case auto_insert p_login (\<lambda>n. \<lparr>p_id = n, p_login = l, p_hash = h, p_member = i\<rparr>) (r_passwords st) of
       None \<Rightarrow> None | Some (_, tab) \<Rightarrow> Some ((), st\<lparr>r_passwords := tab\<rparr>)) st))"
  by (intro ok.exec_R) (auto simp: keeps_ok_def split: if_splits option.splits intro: ok_put_row)

lemma ok_SetPassword: "keeps_ok st (snd (SetPassword env i p st))"
  unfolding SetPassword_def with_hash_def by (auto intro!: ok.op_R ok_insert_password split: option.split sum.split)

subsection \<open>Everything that happens to the tables\<close>

text \<open>One operation of the store, or one request, connection or disconnection.\<close>

inductive room_change :: "room_srv \<Rightarrow> roomdb \<Rightarrow> roomdb \<Rightarrow> bool" for srv where
  add: "room_change srv st (snd (Members_Add (rs_env srv) f r st))"
| remove_feed: "room_change srv st (snd (Members_RemoveFeed (rs_env srv) f st))"
| remove_id: "room_change srv st (snd (Members_RemoveID (rs_env srv) i st))"
| set_role: "room_change srv st (snd (Members_SetRole (rs_env srv) i r st))"
| register_alias: "room_change srv st (snd (Aliases_Register (rs_env srv) a f s st))"
| revoke_alias: "room_change srv st (snd (Aliases_Revoke (rs_env srv) a st))"
| create_invite: "room_change srv st (snd (Invites_Create (rs_env srv) i st))"
| consume_invite: "room_change srv st (snd (Invites_Consume (rs_env srv) t f st))"
| revoke_invite: "room_change srv st (snd (Invites_Revoke (rs_env srv) i st))"
| deny: "room_change srv st (snd (DeniedKeys_Add (rs_env srv) f c st))"
| undeny_feed: "room_change srv st (snd (DeniedKeys_RemoveFeed (rs_env srv) f st))"
| undeny_id: "room_change srv st (snd (DeniedKeys_RemoveID (rs_env srv) i st))"
| set_mode: "room_change srv st (snd (SetPrivacyMode (rs_env srv) mode st))"
| set_language: "room_change srv st (snd (SetDefaultLanguage (rs_env srv) l st))"
| mark_inactive: "room_change srv st (snd (MarkAllInactive (rs_env srv) st))"
| create_token: "room_change srv st (snd (CreateToken (rs_env srv) i st))"
| check_token: "room_change srv st (snd (CheckToken (rs_env srv) t st))"
| remove_token: "room_change srv st (snd (RemoveToken (rs_env srv) t st))"
| wipe_tokens: "room_change srv st (snd (WipeTokensForMember (rs_env srv) i st))"
| rotate_token: "room_change srv st (snd (RotateToken (rs_env srv) t st))"
| set_password: "room_change srv st (snd (SetPassword (rs_env srv) i p st))"
| reset_password: "room_change srv st (snd (SetPasswordWithToken (rs_env srv) t p st))"
| room: "room_change srv (s_db s) (s_db (snd (room_call srv method rq s)))"
| tunnel: "room_change srv (s_db s) (s_db (snd (tunnel_call srv method rq s)))"
| auth: "room_change srv (s_db s) (s_db (snd (auth_call srv method rq s)))"
| connected: "room_change srv (s_db s) (s_db (snd (connect srv f addr n s)))"
| disconnected: "room_change srv (s_db s) (s_db (snd (disconnect srv f b s)))"
| web_invite: "room_change srv st (snd (web_createInvite srv base r st))"
| web_join: "room_change srv st (snd (serveJoinPage srv base r t st))"
| web_fallback: "room_change srv st (snd (handleJoinFallback srv r st))"
| web_manually: "room_change srv st (snd (handleJoinManually srv r st))"
| web_invites: "room_change srv st (snd (handleInvites srv r st))"
| web_alias: "room_change srv st (snd (web_alias srv addr r st))"
| web_revoke: "room_change srv st (snd (handleInviteRevoke srv r st))"
| web_consume: "room_change srv st (snd (handleInviteConsume srv addr r t st))"
| web_login: "room_change srv st (snd (handleLoginSubmit srv r st))"
| web_reset: "room_change srv st (snd (handleResetPasswordSubmit srv r st))"
| ssb_login: "room_change srv st (snd (issue_token srv cid sc cc ans st))"

lemma handleRevokeAlias_ok: "keeps_ok (s_db s) (s_db (snd (handleRevokeAlias srv rq s)))"
  unfolding handleRevokeAlias_def Aliases_Revoke_def
  by (auto intro!: ok.h_R ok.op_R ok.need_member_R [OF refl] ok.exec_all_R ok_deletes split: option.split)

lemma room_change_ok: "room_change srv st st' \<Longrightarrow> keeps_ok st st'"
  by (induction rule: room_change.induct)
    (auto intro!: ok.op_R ok_SetPassword ok.web_R ok.web_reads_R ok.other_calls_R ok.web_createInvite_R ok.handleInviteConsume_R ok.room_calls_R ok.handleJoin_R
      handleRevokeAlias_ok ok_inserts ok.exec_all_R ok_deletes ok_delete ok_updates ok_others ok.dbind_R ok.dfail_R
      simp: Members_RemoveFeed_def Members_RemoveID_def Aliases_Revoke_def Invites_Revoke_def DeniedKeys_RemoveFeed_def DeniedKeys_RemoveID_def
        SetPrivacyMode_def SetDefaultLanguage_def MarkAllInactive_def Let_def)

section \<open>Invites\<close>

definition active_id :: "int \<Rightarrow> roomdb \<Rightarrow> bool" where
  "active_id i st \<longleftrightarrow> (\<exists>r \<in> set (trows (r_invites st)). i_id r = i \<and> i_active r)"

text \<open>Ids grow, and an id given out that is not active stays so.\<close>

definition spent :: "roomdb \<Rightarrow> roomdb \<Rightarrow> bool" where
  "spent st st' \<longleftrightarrow> tseq (r_invites st) \<le> tseq (r_invites st') \<and> (\<forall>i \<le> tseq (r_invites st). active_id i st' \<longrightarrow> active_id i st)"

lemma spent_same: "r_invites st' = r_invites st \<Longrightarrow> spent st st'"
  by (simp add: spent_def active_id_def)

interpretation sp: room_relation env spent for env
  by unfold_locales (auto simp: spent_def active_id_def)

lemma exec_spent: "(\<And>st x st'. f st = Some (x, st') \<Longrightarrow> r_invites st' = r_invites st) \<Longrightarrow> spent st (snd (exec env f st))"
  by (rule sp.exec_R) (auto intro: spent_same)

lemma sp_create: "spent st (snd (Invites_Create env i st))"
  unfolding Invites_Create_def Let_def
  by (intro sp.dtick_R sp.dbind_R sp.dreturn_R sp.exec_R)
    (auto simp: spent_def active_id_def split: if_splits option.splits dest!: auto_insert_rows)

lemma sp_deletes: "spent st (delete_members M st)"
  by (auto simp: spent_def active_id_def delete_members_def Let_def)

lemma sp_use: "spent st (st\<lparr>r_invites := auto_update P (\<lambda>r. r\<lparr>i_active := False\<rparr>) (r_invites st)\<rparr>)"
  by (auto simp: spent_def active_id_def split: if_splits)

lemma sp_others:
  "spent st (snd (Members_Add env f r st))" "spent st (snd (Members_SetRole env i r st))" "spent st (snd (Aliases_Register env a f s st))"
  "spent st (snd (DeniedKeys_Add env f c st))" "spent st (snd (insert_token env t i now n st))" "spent st (snd (put_hash env i h st))"
  unfolding Members_Add_def Members_SetRole_def Aliases_Register_def DeniedKeys_Add_def insert_token_def put_hash_def exec_all_def
  by (intro sp.dtick_R sp.dbind_R sp.dreturn_R exec_spent sp.Members_GetByFeed_R; auto split: if_splits option.splits)+

lemma sp_insert_password:
  "spent st (snd (exec env (\<lambda>st. if \<not> has_member i st then None
     else case auto_insert p_login (\<lambda>n. \<lparr>p_id = n, p_login = l, p_hash = h, p_member = i\<rparr>) (r_passwords st) of
       None \<Rightarrow> None | Some (_, tab) \<Rightarrow> Some ((), st\<lparr>r_passwords := tab\<rparr>)) st))"
  by (intro exec_spent) (auto split: if_splits option.splits)

lemma sp_same:
  "spent st (st\<lparr>r_tokens := tt\<rparr>)" "spent st (st\<lparr>r_aliases := ta\<rparr>)" "spent st (st\<lparr>r_denied := td\<rparr>)" "spent st (st\<lparr>r_attendants := sa\<rparr>)"
  "spent st (st\<lparr>r_endpoints := se\<rparr>)" "spent st (st\<lparr>r_config := c\<rparr>)"
  by (simp_all add: spent_same)

interpretation sp: room_writes env spent UNIV for env
  by unfold_locales (auto simp: sp_others sp_create sp_use sp_same)

lemma sp_SetPassword: "spent st (snd (SetPassword env i p st))"
  unfolding SetPassword_def with_hash_def by (auto intro!: sp.op_R sp_insert_password split: option.split sum.split)

lemma handleRevokeAlias_sp: "spent (s_db s) (s_db (snd (handleRevokeAlias srv rq s)))"
  unfolding handleRevokeAlias_def Aliases_Revoke_def
  by (auto intro!: sp.h_R sp.op_R sp.need_member_R [OF refl] sp.exec_all_R sp_same split: option.split)

lemma room_change_spent: "room_change srv st st' \<Longrightarrow> spent st st'"
  by (induction rule: room_change.induct)
    (auto intro!: sp.op_R sp_SetPassword sp.web_R sp.web_reads_R sp.other_calls_R sp.web_createInvite_R sp.handleInviteConsume_R sp.room_calls_R sp.handleJoin_R
      handleRevokeAlias_sp sp_others sp.exec_all_R sp_deletes sp_use sp_same sp.dbind_R sp.dfail_R
      simp: Members_RemoveFeed_def Members_RemoveID_def Aliases_Revoke_def Invites_Revoke_def DeniedKeys_RemoveFeed_def DeniedKeys_RemoveID_def
        SetPrivacyMode_def SetDefaultLanguage_def MarkAllInactive_def Let_def)

section \<open>Results that are no error\<close>

lemma dbind_Inr: "dbind m f st = (Inr y, st') \<Longrightarrow> \<exists>x s. m st = (Inr x, s) \<and> f x s = (Inr y, st')"
  by (auto simp: dbind_def dtry_def dfail_def split: prod.splits sum.splits)

lemma exec_Inr: "exec env f st = (Inr x, st') \<Longrightarrow> \<exists>s. f st = Some (x, s) \<and> st' = s\<lparr>r_tick := Suc (r_tick st)\<rparr>"
  by (auto simp: exec_def Let_def split: if_splits option.splits)

lemma query_Inr: "query env f st = (Inr x, st') \<Longrightarrow> f st = Some x \<and> st' = st\<lparr>r_tick := Suc (r_tick st)\<rparr>"
  by (auto simp: query_def split: if_splits option.splits)

lemma hbind_Inr: "hbind m f st = (Inr y, st') \<Longrightarrow> \<exists>x s. m st = (Inr x, s) \<and> f x s = (Inr y, st')"
  by (auto simp: hbind_def split: prod.splits sum.splits)

lemma hdb_Inr: "hdb e m st = (Inr x, st') \<Longrightarrow> \<exists>d. m (s_db st) = (Inr x, d) \<and> st' = st\<lparr>s_db := d\<rparr>"
  by (auto simp: hdb_def split: prod.splits sum.splits)

lemma hguard_Inr: "hguard b e st = (Inr x, st') \<Longrightarrow> b \<and> st' = st"
  by (auto simp: hguard_def hreturn_def hfail_def split: if_splits)

lemma select_Some: "select P t = Some r \<Longrightarrow> r \<in> set (trows t) \<and> P r"
  by (auto simp: select_def find_Some_iff)

lemma select_None: "select P t = None \<longleftrightarrow> (\<forall>r \<in> set (trows t). \<not> P r)"
  by (auto simp: select_def find_None_iff)

text \<open>The row an invite was read from.\<close>

lemma consume_find_Inr:
  assumes "consume_find env token st = (Inr iv, st')"
  shows "(\<exists>r \<in> set (trows (r_invites st)). i_hash r = hashToken env token \<and> i_active r \<and> inviteID iv = i_id r) \<and> st' = st\<lparr>r_tick := Suc (r_tick st)\<rparr>"
  using dbind_Inr [OF assms [unfolded consume_find_def]]
  by (auto simp: dreturn_def dfail_def to_invite_def split: if_splits dest!: query_Inr select_Some)

lemma consume_find_active: "consume_find env token st = (Inr iv, st') \<Longrightarrow> active_id (inviteID iv) st"
  by (auto simp: active_id_def dest!: consume_find_Inr)

lemma SetRole_invites: "r_invites (snd (Members_SetRole env i r st)) = r_invites st"
  by (auto simp: Members_SetRole_def exec_def Let_def split: option.split)

lemma consume_use_Inr:
  assumes "consume_use env f iv st = (Inr iv', st')"
  shows "inviteID iv' = inviteID iv \<and> \<not> active_id (inviteID iv) st'"
proof -
  obtain mid s1 s2 where
    "exec_all env (\<lambda>st. st\<lparr>r_invites := auto_update (\<lambda>r. i_id r = inviteID iv) (\<lambda>r. r\<lparr>i_active := False\<rparr>) (r_invites st)\<rparr>) s1 = (Inr (), s2)"
    and f: "dtick (\<lambda>t. dtry (Members_SetRole env mid RoleMember)
      (\<lambda>_. dreturn (iv\<lparr>inviteActive := False, inviteUsedBy := Some f, inviteUsedAt := unix (room_now env t)\<rparr>))) s2 = (Inr iv', st')"
    using assms unfolding consume_use_def by (force dest!: dbind_Inr)
  then have "r_invites s2 = auto_update (\<lambda>r. i_id r = inviteID iv) (\<lambda>r. r\<lparr>i_active := False\<rparr>) (r_invites s1)"
    by (auto simp: exec_all_def dest!: exec_Inr)
  then have "\<not> active_id (inviteID iv) s2" by (auto simp: active_id_def split: if_splits)
  moreover have "r_invites st' = r_invites s2" "inviteID iv' = inviteID iv"
    using f SetRole_invites [of env mid RoleMember s2] by (auto simp: dtick_def dtry_def dreturn_def split: prod.splits)
  ultimately show ?thesis by (simp add: active_id_def)
qed

lemma Consume_Inr:
  assumes "Invites_Consume env token f st = (Inr iv, st')"
  shows "active_id (inviteID iv) st \<and> \<not> active_id (inviteID iv) st'"
proof -
  obtain iv0 s where f: "consume_find env token st = (Inr iv0, s)" and u: "consume_use env f iv0 s = (Inr iv, st')"
    using dbind_Inr [OF assms [unfolded Invites_Consume_def]] by blast
  show ?thesis using consume_find_active [OF f] consume_use_Inr [OF u] by simp
qed

section \<open>Members\<close>

lemma member_key_set: "member_key k st \<longleftrightarrow> k \<in> m_key ` set (trows (r_members st))"
  by (auto simp: member_key_def)

text \<open>New members are among \<open>A\<close>.\<close>

definition members_in :: "string set \<Rightarrow> roomdb \<Rightarrow> roomdb \<Rightarrow> bool" where
  "members_in A st st' \<longleftrightarrow> (\<forall>k. member_key k st' \<longrightarrow> member_key k st \<or> k \<in> A)"

lemma members_in_iff:
  "members_in A st st' \<longleftrightarrow> m_key ` set (trows (r_members st')) \<subseteq> m_key ` set (trows (r_members st)) \<union> A"
  by (auto simp: members_in_def member_key_set subset_iff)

lemma members_same: "r_members st' = r_members st \<Longrightarrow> members_in A st st'"
  by (simp add: members_in_def member_key_def)

interpretation mi: room_relation env "members_in A" for env A
proof unfold_locales
  show "members_in A st (st\<lparr>r_tick := n\<rparr>)" for st n by (simp add: members_same)
qed (auto simp: members_in_def)

lemma exec_members_in: "(\<And>st x st'. f st = Some (x, st') \<Longrightarrow> r_members st' = r_members st) \<Longrightarrow> members_in A st (snd (exec env f st))"
  by (rule mi.exec_R) (auto intro: members_same)

lemma mi_add: "FeedRef_String f \<in> A \<Longrightarrow> members_in A st (snd (Members_Add env f r st))"
  unfolding Members_Add_def
  by (intro mi.exec_R) (auto simp: members_in_def member_key_def split: if_splits option.splits dest!: auto_insert_rows)

lemma mi_role: "members_in A st (snd (Members_SetRole env i r st))"
  unfolding Members_SetRole_def
proof (rule mi.exec_R)
  fix st :: roomdb and x st'
  assume "(if r \<le> 0 \<and> has_member i st then None
    else Some ((), st\<lparr>r_members := auto_update (\<lambda>r. m_id r = i) (\<lambda>m. m\<lparr>m_role := r\<rparr>) (r_members st)\<rparr>)) = Some (x, st')"
  then have "st' = st\<lparr>r_members := auto_update (\<lambda>r. m_id r = i) (\<lambda>m. m\<lparr>m_role := r\<rparr>) (r_members st)\<rparr>" by (simp split: if_splits)
  then show "members_in A st st'" by (simp add: members_in_iff auto_update_ids del: auto_rows image_subset_iff)
qed

lemma mi_others:
  "members_in A st (snd (Invites_Create env i st))" "members_in A st (snd (Aliases_Register env a f s st))"
  "members_in A st (snd (insert_token env t i now n st))" "members_in A st (snd (put_hash env i h st))"
  unfolding Invites_Create_def Aliases_Register_def insert_token_def put_hash_def exec_all_def Let_def
  by (intro mi.dtick_R mi.dbind_R mi.dreturn_R exec_members_in mi.Members_GetByFeed_R; auto split: if_splits option.splits)+

interpretation mi: room_writes env "members_in A" A for env A
  by unfold_locales (auto simp: mi_add mi_role mi_others members_same)

lemma members_aliases: "members_in A st (st\<lparr>r_aliases := t\<rparr>)"
  by (simp add: members_same)

lemma handleRevokeAlias_mi: "members_in A (s_db s) (s_db (snd (handleRevokeAlias srv rq s)))"
  unfolding handleRevokeAlias_def Aliases_Revoke_def
  by (auto intro!: mi.h_R mi.op_R mi.need_member_R [OF refl] mi.exec_all_R members_aliases split: option.split)

text \<open>Without an active invite of the token a join adds nobody.\<close>

definition invited :: "room_env \<Rightarrow> string \<Rightarrow> roomdb \<Rightarrow> bool" where
  "invited env token st \<longleftrightarrow> (\<exists>r \<in> set (trows (r_invites st)). i_active r \<and> i_hash r = hashToken env token)"

definition uninvited_stay :: "room_env \<Rightarrow> string \<Rightarrow> roomdb \<Rightarrow> roomdb \<Rightarrow> bool" where
  "uninvited_stay env token st st' \<longleftrightarrow> (\<not> invited env token st \<longrightarrow> \<not> invited env token st' \<and> r_members st' = r_members st)"

interpretation us: room_relation env "uninvited_stay env token" for env token
  by unfold_locales (auto simp: uninvited_stay_def invited_def)

lemma uninvited_Consume: "uninvited_stay env token st (snd (Invites_Consume env token f st))"
proof (cases "fst (consume_find env token st)")
  case (Inl e)
  have "uninvited_stay env token st (snd (consume_find env token st))" by (rule us.reads_R)
  with Inl show ?thesis by (cases "consume_find env token st") (simp add: Invites_Consume_def dbind_def dtry_def dfail_def)
next
  case (Inr iv)
  then obtain st' where "consume_find env token st = (Inr iv, st')" by (cases "consume_find env token st") simp
  from consume_find_Inr [OF this] have "invited env token st" unfolding invited_def by blast
  then show ?thesis by (simp add: uninvited_stay_def)
qed

lemma hbind_known: "hbind (hreturn x) f = f x" "hbind (hfail e) g = hfail e"
  by (rule ext, simp add: hbind_def hreturn_def hfail_def)+

lemma uninvited_join:
  assumes "join_token (rq_args rq) = None \<or> join_token (rq_args rq) = Some token"
  shows "uninvited_stay (rs_env srv) token (s_db s) (s_db (snd (handleJoin srv rq s)))"
  unfolding handleJoin_def using assms
  by (elim disjE; simp add: hbind_known; intro us.h_R us.read_R us.getCallerFeed_R uninvited_Consume)

section \<open>Aliases\<close>

text \<open>Alias \<open>a\<close> is registered to the member with key \<open>k\<close>.\<close>

definition owned :: "string \<Rightarrow> string \<Rightarrow> roomdb \<Rightarrow> bool" where
  "owned a k st \<longleftrightarrow> (\<exists>x \<in> set (trows (r_aliases st)). a_name x = a \<and> (\<exists>m \<in> set (trows (r_members st)). m_id m = a_member x \<and> m_key m = k))"

definition keeps_alias :: "string \<Rightarrow> string \<Rightarrow> roomdb \<Rightarrow> roomdb \<Rightarrow> bool" where
  "keeps_alias a k st st' \<longleftrightarrow> (owned a k st \<longrightarrow> owned a k st')"

lemma owned_same: "r_members st' = r_members st \<Longrightarrow> r_aliases st' = r_aliases st \<Longrightarrow> owned a k st' = owned a k st"
  by (simp add: owned_def)

lemma owned_upd [simp]:
  "owned a k (st\<lparr>r_passwords := tp\<rparr>) = owned a k st" "owned a k (st\<lparr>r_invites := ti\<rparr>) = owned a k st" "owned a k (st\<lparr>r_tokens := tt\<rparr>) = owned a k st"
  "owned a k (st\<lparr>r_attendants := sa\<rparr>) = owned a k st" "owned a k (st\<lparr>r_endpoints := se\<rparr>) = owned a k st" "owned a k (st\<lparr>r_tick := n\<rparr>) = owned a k st"
  by (simp_all add: owned_def)

interpretation ka: room_relation env "keeps_alias a k" for env a k
  by unfold_locales (auto simp: keeps_alias_def)

lemma owned_mono:
  assumes "set (trows (r_aliases st)) \<subseteq> set (trows (r_aliases st'))"
    and "\<And>m. m \<in> set (trows (r_members st)) \<Longrightarrow> \<exists>m' \<in> set (trows (r_members st')). m_id m' = m_id m \<and> m_key m' = m_key m"
  shows "keeps_alias a k st st'"
  using assms unfolding keeps_alias_def owned_def by (metis subsetD)

lemma ka_add: "keeps_alias a k st (snd (Members_Add env f r st))"
  unfolding Members_Add_def
  by (intro ka.exec_R owned_mono) (auto split: if_splits option.splits dest!: auto_insert_rows)

lemma ka_role: "keeps_alias a k st (snd (Members_SetRole env i r st))"
  unfolding Members_SetRole_def
proof (intro ka.exec_R owned_mono)
  fix st :: roomdb and x st' m
  assume u: "(if r \<le> 0 \<and> has_member i st then None
    else Some ((), st\<lparr>r_members := auto_update (\<lambda>r. m_id r = i) (\<lambda>m. m\<lparr>m_role := r\<rparr>) (r_members st)\<rparr>)) = Some (x, st')"
    and m: "m \<in> set (trows (r_members st))"
  have "trows (r_members st') = map (\<lambda>m. if m_id m = i then m\<lparr>m_role := r\<rparr> else m) (trows (r_members st))"
    using u by (auto simp: auto_update_def split: if_splits)
  with m show "\<exists>m' \<in> set (trows (r_members st')). m_id m' = m_id m \<and> m_key m' = m_key m"
    by (intro bexI [of _ "if m_id m = i then m\<lparr>m_role := r\<rparr> else m"]) auto
qed (auto split: if_splits)

lemma ka_others:
  "keeps_alias a k st (snd (Invites_Create env i st))" "keeps_alias a k st (snd (Aliases_Register env b f s st))"
  "keeps_alias a k st (snd (insert_token env t i now n st))" "keeps_alias a k st (snd (put_hash env i h st))"
  unfolding Invites_Create_def Aliases_Register_def insert_token_def put_hash_def exec_all_def Let_def
  by (intro ka.dtick_R ka.dbind_R ka.dreturn_R ka.exec_R ka.Members_GetByFeed_R owned_mono;
      auto split: if_splits option.splits dest!: auto_insert_rows)+

interpretation ka: room_writes env "keeps_alias a k" UNIV for env a k
  by unfold_locales (simp_all add: ka_add ka_role ka_others, simp_all add: keeps_alias_def)


text \<open>Reading changes nothing but the tick.\<close>

definition only_tick :: "roomdb \<Rightarrow> roomdb \<Rightarrow> bool" where "only_tick st st' \<longleftrightarrow> (\<exists>n. st' = st\<lparr>r_tick := n\<rparr>)"

interpretation rd: room_relation env only_tick for env
proof unfold_locales
  show "only_tick st st" for st unfolding only_tick_def by (rule exI [of _ "r_tick st"]) simp
qed (auto simp: only_tick_def)

lemma tokenless_join: "join_token (rq_args rq) = None \<Longrightarrow> only_tick (s_db s) (s_db (snd (handleJoin srv rq s)))"
  unfolding handleJoin_def by (simp add: hbind_known; intro rd.h_R rd.read_R rd.getCallerFeed_R)

text \<open>A denied caller adds nobody, unless the check itself fails.\<close>

lemma denied_join:
  assumes "rq_caller rq = Some c" and "list_ex (\<lambda>r. d_key r = FeedRef_String c) (trows (r_denied (s_db s)))"
    and "\<not> room_fault (rs_env srv) (r_tick (s_db s))"
  shows "r_members (s_db (snd (handleJoin srv rq s))) = r_members (s_db s)"
  using assms by (simp add: handleJoin_def hbind_def hguard_def hreturn_def hfail_def getCallerFeed_def hdb_def DeniedKeys_HasFeed_def
      dtry_def query_all_def query_def dreturn_def)

lemma owned_tick: "only_tick st st' \<Longrightarrow> owned a k st' = owned a k st"
  by (auto simp: only_tick_def)

lemma tables_ok_tick: "only_tick st st' \<Longrightarrow> tables_ok st' = tables_ok st"
  by (auto simp: only_tick_def ok_tick)

subsection \<open>Lower case\<close>

lemma lowered_ascii: "is_upper c \<Longrightarrow> (of_char (char_of (of_char c + 32 :: nat) :: char) :: nat) = of_char c + 32"
  by (simp add: is_upper_def)

lemma ToLower_high: "ToLower s = d # t \<Longrightarrow> 128 \<le> (of_char d :: nat) \<Longrightarrow> \<exists>s'. s = d # s' \<and> t = ToLower s'"
  by (cases s) (auto simp: lowered_ascii is_upper_def split: if_splits)

lemma lowered_once: "is_upper c \<Longrightarrow> \<not> is_upper (char_of (of_char c + 32 :: nat))"
  by (simp add: is_upper_def)

lemma not_lowered: "is_upper c \<Longrightarrow> 128 \<le> (of_char d :: nat) \<Longrightarrow> char_of (of_char c + 32 :: nat) \<noteq> d"
  using lowered_ascii [of c] by (auto simp: is_upper_def)

lemma ToLower_kept:
  assumes "\<not> (c = CHR 0xC4 \<and> cs \<noteq> [] \<and> hd cs = CHR 0xB0)" "\<not> (c = CHR 0xE2 \<and> 2 \<le> length cs \<and> hd cs = CHR 0x84 \<and> cs ! 1 = CHR 0xAA)" "\<not> is_upper c"
  shows "ToLower (c # ToLower cs) = c # ToLower (ToLower cs)"
proof -
  have 1: "\<not> (c = CHR 0xC4 \<and> ToLower cs \<noteq> [] \<and> hd (ToLower cs) = CHR 0xB0)"
  proof
    assume a: "c = CHR 0xC4 \<and> ToLower cs \<noteq> [] \<and> hd (ToLower cs) = CHR 0xB0"
    then obtain t where "ToLower cs = CHR 0xB0 # t" by (cases "ToLower cs") auto
    then have "\<exists>s'. cs = CHR 0xB0 # s' \<and> t = ToLower s'" by (rule ToLower_high) simp
    with a assms(1) show False by auto
  qed
  have 2: "\<not> (c = CHR 0xE2 \<and> 2 \<le> length (ToLower cs) \<and> hd (ToLower cs) = CHR 0x84 \<and> ToLower cs ! 1 = CHR 0xAA)"
  proof
    assume a: "c = CHR 0xE2 \<and> 2 \<le> length (ToLower cs) \<and> hd (ToLower cs) = CHR 0x84 \<and> ToLower cs ! 1 = CHR 0xAA"
    then obtain t where t: "ToLower cs = CHR 0x84 # CHR 0xAA # t" by (cases "ToLower cs"; cases "tl (ToLower cs)") auto
    then have "\<exists>s'. cs = CHR 0x84 # s' \<and> CHR 0xAA # t = ToLower s'" by (rule ToLower_high) simp
    then obtain s' where s: "cs = CHR 0x84 # s'" "ToLower s' = CHR 0xAA # t" by auto
    from ToLower_high [OF s(2)] s(1) a assms(2) show False by auto
  qed
  from 1 2 assms(3) show ?thesis by (simp del: length_greater_0_conv)
qed

lemma ToLower_ToLower: "ToLower (ToLower s) = ToLower s"
proof (induction s rule: ToLower.induct)
  case (2 c cs)
  note IH = 2
  consider "c = CHR 0xC4 \<and> cs \<noteq> [] \<and> hd cs = CHR 0xB0" | "c = CHR 0xE2 \<and> 2 \<le> length cs \<and> hd cs = CHR 0x84 \<and> cs ! 1 = CHR 0xAA"
    | "is_upper c" | "\<not> (c = CHR 0xC4 \<and> cs \<noteq> [] \<and> hd cs = CHR 0xB0)" "\<not> (c = CHR 0xE2 \<and> 2 \<le> length cs \<and> hd cs = CHR 0x84 \<and> cs ! 1 = CHR 0xAA)" "\<not> is_upper c"
    by blast
  then show ?case
  proof cases
    case 1
    with IH show ?thesis by (simp add: is_upper_def)
  next
    case 2
    with IH show ?thesis by (simp add: is_upper_def)
  next
    case 3
    then have n: "c \<noteq> CHR 0xC4" "c \<noteq> CHR 0xE2" by (auto simp: is_upper_def)
    with 3 IH show ?thesis by (simp add: lowered_once not_lowered)
  next
    case 4
    have "ToLower (c # cs) = c # ToLower cs" using 4 by (simp del: One_nat_def)
    with IH(3) [OF 4(1,2)] ToLower_kept [OF 4] show ?thesis by (simp only:)
  qed
qed simp


subsection \<open>Revoking\<close>

lemma owner_of:
  assumes "tables_ok st" and "owned a k st" and "x \<in> set (trows (r_aliases st))" and "a_name x = a" and "owner_key st x = Some k'"
  shows "k' = k"
proof -
  obtain y m where y: "y \<in> set (trows (r_aliases st))" "a_name y = a" "m \<in> set (trows (r_members st))" "m_id m = a_member y" "m_key m = k"
    using assms(2) by (auto simp: owned_def)
  have i: "inj_on a_name (set (trows (r_aliases st)))" and j: "inj_on m_id (set (trows (r_members st)))"
    using assms(1) by (auto simp: tables_ok_def auto_ok_def distinct_map)
  have "x = y" using inj_onD [OF i _ assms(3) y(1)] assms(4) y(2) by simp
  from assms(5) obtain m' where m': "select (\<lambda>r. m_id r = a_member x) (r_members st) = Some m'" "k' = m_key m'"
    by (auto simp: owner_key_def)
  from select_Some [OF m'(1)] have n: "m' \<in> set (trows (r_members st))" "m_id m' = a_member x" by simp_all
  have "m_id m' = m_id m" using n(2) y(4) \<open>x = y\<close> by simp
  from inj_onD [OF j this n(1) y(3)] show ?thesis using m'(2) y(5) by simp
qed

lemma Resolve_Inr:
  assumes "Aliases_Resolve env n st = (Inr al, st')"
  shows "\<exists>x \<in> set (trows (r_aliases st)). a_name x = n \<and> (\<exists>k. owner_key st x = Some k \<and> ParseFeedRef k = Inr (aliasOwner al))"
  using dbind_Inr [OF assms [unfolded Aliases_Resolve_def]]
  by (fastforce simp: joined_def to_alias_def dreturn_def dfail_def split: option.splits sum.splits dest!: query_Inr select_Some)

lemma resolved_other:
  assumes "tables_ok st" and "owned a (FeedRef_String f) st" and "feed_algo_known (feed_algo f)" and "length (feed_id f) = 32"
    and "Aliases_Resolve env n st = (Inr al, st')" and "aliasOwner al \<noteq> f"
  shows "n \<noteq> a"
proof
  assume "n = a"
  with Resolve_Inr [OF assms(5)] obtain x k where x: "x \<in> set (trows (r_aliases st))" "a_name x = a" "owner_key st x = Some k"
    and p: "ParseFeedRef k = Inr (aliasOwner al)" by blast
  from owner_of [OF assms(1,2) x] p assms(6) ParseFeedRef_String [OF assms(3,4)] show False by simp
qed

lemma revoked_other: "owned a k st \<Longrightarrow> ToLower n \<noteq> a \<Longrightarrow> owned a k (snd (Aliases_Revoke env n st))"
  by (auto simp: owned_def Aliases_Revoke_def exec_all_def exec_def Let_def)

lemma owned_hbind:
  assumes "owned a k (s_db st)" and "\<And>st. only_tick (s_db st) (s_db (snd (m st)))"
    and "\<And>x st'. m st = (Inr x, st') \<Longrightarrow> only_tick (s_db st) (s_db st') \<Longrightarrow> owned a k (s_db st') \<Longrightarrow> owned a k (s_db (snd (f x st')))"
  shows "owned a k (s_db (snd (hbind m f st)))"
  using assms(1) assms(2) [of st] assms(3) by (auto simp: hbind_def owned_tick split: prod.split sum.split)

lemma need_member_Inr: "need_member srv rq st = (Inr c, st') \<Longrightarrow> rq_caller rq = Some c"
  unfolding need_member_def
  by (auto dest!: hbind_Inr simp: getCallerFeed_def hreturn_def hfail_def split: option.splits)

lemma revoke_keeps_others:
  assumes "tables_ok (s_db s)" and "owned a (FeedRef_String f) (s_db s)" and "feed_algo_known (feed_algo f)" and "length (feed_id f) = 32"
    and "rq_caller rq \<noteq> Some f"
  shows "owned a (FeedRef_String f) (s_db (snd (handleRevokeAlias srv rq s)))"
  unfolding handleRevokeAlias_def
proof (rule owned_hbind [OF assms(2)], rule rd.h_R)
  fix x1 :: unit and s1 :: server
  assume t1: "only_tick (s_db s) (s_db s1)" and o1: "owned a (FeedRef_String f) (s_db s1)"
  let ?arg = "case parseSingleStringArg (rq_args rq) of None \<Rightarrow> hfail ParseArgs | Some s \<Rightarrow> hreturn (ToLower (TrimSpace s))"
  let ?rest = "\<lambda>aliasName. hbind (hguard (aliasName \<noteq> []) AliasRequired) (\<lambda>_. hbind (need_member srv rq) (\<lambda>caller.
     hbind (hdb ResolveFailed (Aliases_Resolve (rs_env srv) aliasName)) (\<lambda>alias.
     hbind (hguard (FeedRef_Equal (aliasOwner alias) caller) NotOwner) (\<lambda>_.
     hbind (hdb RevokeFailed (Aliases_Revoke (rs_env srv) aliasName)) (\<lambda>_. hbind (hstate (RevokeAlias aliasName)) (\<lambda>_. hreturn (RBool True)))))))"
  show "owned a (FeedRef_String f) (s_db (snd (hbind ?arg ?rest s1)))"
  proof (cases "parseSingleStringArg (rq_args rq)")
    case None
    with o1 show ?thesis by (simp add: hbind_known hfail_def)
  next
    case (Some str)
    let ?n = "ToLower (TrimSpace str)"
    have "owned a (FeedRef_String f) (s_db (snd (?rest ?n s1)))"
    proof (intro owned_hbind [OF o1] rd.h_R, rule owned_hbind, assumption, rule rd.need_member_R [OF refl],
        rule owned_hbind, assumption, intro rd.h_R rd.read_R, rule owned_hbind, assumption, rule rd.h_R)
      fix x2 s2 c s3 al s4 x5 s5
      assume "only_tick (s_db s1) (s_db s2)" and c: "need_member srv rq s2 = (Inr c, s3)" "only_tick (s_db s2) (s_db s3)"
        and al: "hdb ResolveFailed (Aliases_Resolve (rs_env srv) ?n) s3 = (Inr al, s4)" "owned a (FeedRef_String f) (s_db s3)"
        and g: "hguard (FeedRef_Equal (aliasOwner al) c) NotOwner s4 = (Inr x5, s5)" and o5: "owned a (FeedRef_String f) (s_db s5)"
      then have "tables_ok (s_db s3)" using assms(1) t1 by (simp add: tables_ok_tick)
      moreover have "aliasOwner al \<noteq> f" using hguard_Inr [OF g] need_member_Inr [OF c(1)] assms(5) by (auto simp: FeedRef_Equal_def)
      ultimately have "?n \<noteq> a" using hdb_Inr [OF al(1)] resolved_other [OF _ al(2) assms(3,4)] by blast
      then have "owned a (FeedRef_String f) (snd (Aliases_Revoke (rs_env srv) ?n (s_db s5)))" using o5 revoked_other by (simp add: ToLower_ToLower)
      then show "owned a (FeedRef_String f) (s_db (snd (hbind (hdb RevokeFailed (Aliases_Revoke (rs_env srv) ?n)) (\<lambda>_. hbind (hstate (RevokeAlias ?n)) (\<lambda>_. hreturn (RBool True))) s5)))"
        by (auto simp: hbind_def hdb_def hstate_def hreturn_def split: prod.splits sum.splits)
    qed
    with Some show ?thesis by (simp add: hbind_known)
  qed
qed

end
