(* ===== verification/RoomProps.thy ===== *)
theory RoomProps
  imports RoomTables
begin

text \<open>
  What the room promises: its tables stay consistent, an invite makes at most one member, nobody becomes
  a member without one, aliases stay with who registered them, a sign-in needs the signature of the
  identity, and rotating a token hands it over. At the end are the cases where it promises less than
  one would think.
\<close>

section \<open>A small room\<close>

definition room_feed :: FeedRef where "room_feed = \<lparr>feed_algo = RefAlgoFeedSSB1, feed_id = replicate 32 (CHR ''r'')\<rparr>"
definition alice :: FeedRef where "alice = \<lparr>feed_algo = RefAlgoFeedSSB1, feed_id = replicate 32 (CHR ''a'')\<rparr>"
definition bob :: FeedRef where "bob = \<lparr>feed_algo = RefAlgoFeedSSB1, feed_id = replicate 32 (CHR ''b'')\<rparr>"

definition demo_env :: room_env where
  "demo_env = \<lparr>room_now = int, room_fault = (\<lambda>_. False), room_random = (\<lambda>_. ''abc''), room_sha = (\<lambda>s. s),
     bcrypt_hash = (\<lambda>_ p. Some p), bcrypt_ok = (\<lambda>p h. p = h)\<rparr>"

definition demo_srv :: room_srv where
  "demo_srv = \<lparr>rs_keyPair = room_feed, rs_domain = ''room'', rs_env = demo_env, rs_verify = (\<lambda>k m s. s = k @ m), rs_split = (\<lambda>_. None),
     rs_loopback = (\<lambda>_. False), rs_hook = None\<rparr>"

definition served :: "roomdb \<Rightarrow> server" where "served st = \<lparr>s_db = st, s_state = NewManager, s_registry = []\<rparr>"
definition rpc_of :: "FeedRef \<Rightarrow> string \<Rightarrow> rpc" where "rpc_of f args = \<lparr>rq_type = ''async'', rq_args = args, rq_caller = Some f\<rparr>"

text \<open>The room is its own member with two invites, and then with alice, bob and an alias of alice.\<close>

definition invited_db :: roomdb where
  "invited_db = fresh_roomdb\<lparr>r_config := [(''privacy_mode'', ''open'')],
     r_members := \<lparr>trows = [\<lparr>m_id = 1, m_key = FeedRef_String room_feed, m_role = 3\<rparr>], tseq = 1\<rparr>,
     r_invites := \<lparr>trows = [\<lparr>i_id = 1, i_hash = hashToken demo_env ''tok'', i_by = 1, i_at = 0, i_active = True\<rparr>,
       \<lparr>i_id = 2, i_hash = hashToken demo_env ''more'', i_by = 1, i_at = 0, i_active = True\<rparr>], tseq = 2\<rparr>\<rparr>"

definition alias_db :: roomdb where
  "alias_db = fresh_roomdb\<lparr>r_config := [(''privacy_mode'', ''open'')],
     r_members := \<lparr>trows = [\<lparr>m_id = 1, m_key = FeedRef_String alice, m_role = 1\<rparr>, \<lparr>m_id = 2, m_key = FeedRef_String bob, m_role = 1\<rparr>], tseq = 2\<rparr>,
     r_aliases := \<lparr>trows = [\<lparr>a_id = 1, a_name = ''home'', a_member = 1, a_sig = ''s''\<rparr>], tseq = 1\<rparr>,
     r_tokens := \<lparr>trows = [\<lparr>t_id = 1, t_token = ''old'', t_member = 1, t_at = 0, t_used = None, t_rotations = 0\<rparr>], tseq = 1\<rparr>\<rparr>"


lemma alias_db_ok: "tables_ok alias_db"
  by code_simp

definition demo_site :: site where
  "demo_site = \<lparr>w_server = (served alias_db)\<lparr>s_registry := [(FeedRef_String alice, 5)]\<rparr>, w_limits = [], w_challenges = []\<rparr>"

definition demo_login :: login_env where
  "demo_login = \<lparr>wrandom = (\<lambda>_. Some (replicate 32 (CHR ''z''))), ask = (\<lambda>_ _ sc cc. Some (feed_id alice @ sign_in_message room_feed alice sc cc))\<rparr>"

definition demo_request :: web_request where
  "demo_request = \<lparr>w_method = ''GET'', w_path = ''/login'', w_query = (\<lambda>k. if k = ''ssb-http-auth'' then ''1'' else if k = ''cid'' then FeedRef_String alice
     else if k = ''cc'' then EncodeToString StdEncoding (replicate 32 (CHR ''c'')) else []), w_form = None, w_body = [], w_cookie = None, w_accept = [],
     w_ctype = [], w_host = ''h''\<rparr>"

section \<open>Properties\<close>

text \<open>C34: From an empty database, whatever operations, requests and connections follow, the tables stay consistent.\<close>

theorem room_tables_consistent: "(room_change srv)\<^sup>*\<^sup>* fresh_roomdb st \<Longrightarrow> tables_ok st"
  by (induction rule: rtranclp_induct) (auto simp: fresh_roomdb_ok dest: room_change_ok [unfolded keeps_ok_def])

theorem room_tables_consistent_witness: "tables_ok (snd (Members_Add demo_env alice RoleMember fresh_roomdb))"
  using room_tables_consistent [of demo_srv, OF r_into_rtranclp, OF room_change.add] by (simp add: demo_srv_def)



text \<open>C35:
  A call makes nobody a member but the room itself and a caller that joins with the token of an active
  invite and is not denied, unless the check for a denied key failed.
\<close>

theorem membership_needs_invite:
  assumes "member_key k (s_db (snd (room_call srv method rq s)))" and "\<not> member_key k (s_db s)"
  shows "k = FeedRef_String (rs_keyPair srv) \<or>
    (\<exists>c token. rq_caller rq = Some c \<and> k = FeedRef_String c \<and> method ! 1 = ''join'' \<and>
       join_token (rq_args rq) = Some token \<and> invited (rs_env srv) token (s_db s) \<and>
       (list_ex (\<lambda>r. d_key r = k) (trows (r_denied (s_db s))) \<longrightarrow> room_fault (rs_env srv) (r_tick (s_db s))))"
proof -
  consider "length method < 2" | "method ! 1 \<noteq> ''join''" | "2 \<le> length method" "method ! 1 = ''join''" by linarith
  then show ?thesis
  proof cases
    case 1
    with assms show ?thesis by (simp add: room_call_def hfail_def)
  next
    case 2
    then have "members_in {FeedRef_String (rs_keyPair srv)} (s_db s) (s_db (snd (room_call srv method rq s)))"
      by (intro mi.room_calls_R [OF refl] handleRevokeAlias_mi) simp_all
    with assms show ?thesis by (auto simp: members_in_def)
  next
    case 3
    then have j: "room_call srv method rq s = handleJoin srv rq s" by (simp add: room_call_def)
    have new: "r_members (s_db (snd (handleJoin srv rq s))) \<noteq> r_members (s_db s)" using assms j by (auto simp: member_key_def)
    have "members_in {k. \<exists>c. rq_caller rq = Some c \<and> k = FeedRef_String c} (s_db s) (s_db (snd (handleJoin srv rq s)))"
      by (rule mi.handleJoin_R [OF refl]) simp
    with assms j obtain c where c: "rq_caller rq = Some c" "k = FeedRef_String c" by (auto simp: members_in_def)
    obtain token where t: "join_token (rq_args rq) = Some token"
      using new tokenless_join [of rq s srv] by (cases "join_token (rq_args rq)") (auto simp: only_tick_def)
    have "invited (rs_env srv) token (s_db s)" using uninvited_join [of rq token srv s] t new by (auto simp: uninvited_stay_def)
    moreover have "list_ex (\<lambda>r. d_key r = k) (trows (r_denied (s_db s))) \<longrightarrow> room_fault (rs_env srv) (r_tick (s_db s))"
      using denied_join [OF c(1), of s srv] c(2) new by auto
    ultimately show ?thesis using c t 3 by blast
  qed
qed

theorem membership_needs_invite_witness:
  "FeedRef_String alice = FeedRef_String (rs_keyPair demo_srv) \<or>
    (\<exists>c token. rq_caller (rpc_of alice ''[\"tok\"]'') = Some c \<and> FeedRef_String alice = FeedRef_String c \<and> [''room'', ''join''] ! 1 = ''join'' \<and>
       join_token (rq_args (rpc_of alice ''[\"tok\"]'')) = Some token \<and> invited (rs_env demo_srv) token (s_db (served invited_db)) \<and>
       (list_ex (\<lambda>r. d_key r = FeedRef_String alice) (trows (r_denied (s_db (served invited_db)))) \<longrightarrow>
          room_fault (rs_env demo_srv) (r_tick (s_db (served invited_db)))))"
  by (rule membership_needs_invite) code_simp+

text \<open>C37: A call of anybody else leaves the aliases of a feed with it.\<close>

theorem alias_owner_stays:
  assumes "tables_ok (s_db s)" and "feed_algo_known (feed_algo f)" and "length (feed_id f) = 32"
    and "owned a (FeedRef_String f) (s_db s)" and "rq_caller rq \<noteq> Some f"
  shows "owned a (FeedRef_String f) (s_db (snd (room_call srv method rq s)))"
proof -
  have "keeps_alias a (FeedRef_String f) (s_db s) (s_db (snd (handleRevokeAlias srv rq s)))"
    using revoke_keeps_others [OF assms(1,4,2,3,5)] by (simp add: keeps_alias_def)
  then have "keeps_alias a (FeedRef_String f) (s_db s) (s_db (snd (room_call srv method rq s)))"
    by (intro ka.room_calls_R [OF refl] ka.handleJoin_R [OF refl]) simp_all
  with assms(4) show ?thesis by (simp add: keeps_alias_def)
qed

theorem alias_owner_stays_witness:
  "owned ''home'' (FeedRef_String alice) (s_db (snd (room_call demo_srv [''room'', ''revokeAlias''] (rpc_of bob ''[\"home\"]'') (served alias_db))))"
proof (rule alias_owner_stays)
  show "tables_ok (s_db (served alias_db))" by (simp add: served_def alias_db_ok)
  show "owned ''home'' (FeedRef_String alice) (s_db (served alias_db))" by code_simp
qed (code_simp+)

section \<open>Signing in\<close>

lemma CreateToken_Inr: "CreateToken env i st = (Inr token, st') \<Longrightarrow> \<exists>r \<in> set (trows (r_tokens st')). t_token r = token \<and> t_member r = i"
  unfolding CreateToken_def dtick_def
  by (force dest!: dbind_Inr exec_Inr auto_insert_rows simp: insert_token_def dreturn_def split: if_splits option.splits)

lemma GetByFeed_Inr: "Members_GetByFeed env f st = (Inr m, st') \<Longrightarrow>
    (\<exists>r \<in> set (trows (r_members st)). m_key r = FeedRef_String f \<and> memberID m = m_id r) \<and> st' = st\<lparr>r_tick := Suc (r_tick st)\<rparr>"
  unfolding Members_GetByFeed_def by (fastforce dest!: dbind_Inr query_Inr select_Some simp: dreturn_def)

lemma issue_token_LoggedIn:
  assumes "issue_token srv cid sc cc answer st = (Inr (LoggedIn token w), st')"
  shows "\<exists>sol m. answer = Some sol \<and> Signature_Verify (rs_verify srv) sol (sign_in_message (rs_keyPair srv) cid sc cc) cid = None \<and>
    m \<in> set (trows (r_members st)) \<and> m_key m = FeedRef_String cid \<and> (\<exists>r \<in> set (trows (r_tokens st')). t_token r = token \<and> t_member r = m_id m)"
proof -
  obtain sol where sol: "answer = Some sol" using assms by (cases answer) (simp_all add: issue_token_def dreturn_def)
  have v: "Signature_Verify (rs_verify srv) sol (sign_in_message (rs_keyPair srv) cid sc cc) cid = None"
    using assms by (simp add: issue_token_def sol dreturn_def split: if_splits)
  obtain m s1 where m: "Members_GetByFeed (rs_env srv) cid st = (Inr m, s1)"
    using assms by (cases "Members_GetByFeed (rs_env srv) cid st") (auto simp: issue_token_def sol v dtry_def dreturn_def split: sum.splits)
  have "CreateToken (rs_env srv) (memberID m) s1 = (Inr token, st')"
    using assms by (auto simp: issue_token_def sol v dtry_def dreturn_def m split: prod.splits sum.splits)
  then have t: "\<exists>r \<in> set (trows (r_tokens st')). t_token r = token \<and> t_member r = memberID m" by (rule CreateToken_Inr)
  from GetByFeed_Inr [OF m] obtain x where "x \<in> set (trows (r_members st))" "m_key x = FeedRef_String cid" "memberID m = m_id x" by blast
  with t sol v show ?thesis by metis
qed

lemma site_db_Inr: "site_db m st = (Inr x, st') \<Longrightarrow> m (s_db (w_server st)) = (Inr x, s_db (w_server st'))"
  by (auto simp: site_db_def split: prod.splits)

text \<open>C38:
  Who signs in with an identity has shown, on the connection of that identity, its signature of the
  fresh challenge of the server and the challenge of the request, and is a member; the token is theirs.
\<close>

theorem ssb_login_sound:
  assumes "ssb_handleLogin srv lenv r st = (LoggedIn token w, st')"
  shows "\<exists>cid cc sc conn sol m. ParseFeedRef (w_query r ''cid'') = Inr cid \<and> DecodeString StdEncoding (w_query r ''cc'') = Some cc \<and> length cc = 32 \<and>
    wrandom lenv (r_tick (s_db (w_server st))) = Some sc \<and> registered cid (w_server st) = Some conn \<and>
    ask lenv (r_tick (s_db (w_server st))) conn (EncodeToString StdEncoding sc) (w_query r ''cc'') = Some sol \<and>
    rs_verify srv (feed_id cid) (sign_in_message (rs_keyPair srv) cid (EncodeToString StdEncoding sc) (w_query r ''cc'')) sol \<and>
    m \<in> set (trows (r_members (s_db (w_server st)))) \<and> m_key m = FeedRef_String cid \<and>
    (\<exists>t \<in> set (trows (r_tokens (s_db (w_server st')))). t_token t = token \<and> t_member t = m_id m)"
proof -
  let ?t = "r_tick (s_db (w_server st))"
  obtain cid cc where q: "ParseFeedRef (w_query r ''cid'') = Inr cid" "DecodeString StdEncoding (w_query r ''cc'') = Some cc" "length cc = 32"
    "w_query r ''ssb-http-auth'' = ''1''" "w_query r ''cid'' \<noteq> []" "w_query r ''cc'' \<noteq> []"
    using assms by (auto simp: ssb_handleLogin_def Let_def split: if_splits sum.splits option.splits)
  obtain lim where l: "limiter_Allow (site_now srv st) (w_host r) (w_limits st) = (True, lim)"
    using assms q by (cases "limiter_Allow (site_now srv st) (w_host r) (w_limits st)") (auto simp: ssb_handleLogin_def Let_def split: if_splits)
  obtain sc conn where c: "wrandom lenv ?t = Some sc" "registered cid (w_server st) = Some conn"
    using assms q l by (auto simp: ssb_handleLogin_def Let_def split: option.splits)
  let ?a = "ask lenv ?t conn (EncodeToString StdEncoding sc) (w_query r ''cc'')"
  let ?st = "st\<lparr>w_limits := lim, w_challenges := challenge_Add (site_now srv (st\<lparr>w_limits := lim\<rparr>)) sc cc cid (w_challenges st)\<rparr>"
  let ?m = "issue_token srv cid (EncodeToString StdEncoding sc) (w_query r ''cc'') ?a"
  obtain s1 where s: "site_db ?m ?st = (Inr (LoggedIn token w), s1)" "st' = s1\<lparr>w_challenges := challenge_Remove sc cc (w_challenges s1)\<rparr>"
    using assms q l c by (cases "site_db ?m ?st") (auto simp: ssb_handleLogin_def Let_def split: sum.splits)
  have "?m (s_db (w_server st)) = (Inr (LoggedIn token w), s_db (w_server s1))" using site_db_Inr [OF s(1)] by simp
  from issue_token_LoggedIn [OF this] q c s(2) show ?thesis by (auto simp: Signature_Verify_def split: if_splits)
qed

text \<open>C39: A member whose client signs what the server asks for gets a token.\<close>

theorem ssb_login_complete:
  assumes "rq_type rq = ''async''" and "rq_caller rq = Some (rs_keyPair srv)" and "string_list (rq_args rq) = Some (sc # cc # rest)"
    and "\<And>content. rs_verify srv (feed_id cid) content (sign content)" and "feed_algo cid = RefAlgoFeedSSB1"
    and "member_key (FeedRef_String cid) st" and "\<And>t. \<not> room_fault (rs_env srv) t"
    and "\<And>t r. r \<in> set (trows (r_tokens st)) \<Longrightarrow> t_token r \<noteq> randomToken (rs_env srv) t"
  shows "\<exists>sol token st'. handleRequestSolution (Some (cid, sign)) rq = Inr sol \<and>
    issue_token srv cid sc cc (Some sol) st = (Inr (LoggedIn token (Page ''OK'' [])), st')"
proof -
  let ?env = "rs_env srv" and ?sol = "sign (sign_in_message (rs_keyPair srv) cid sc cc)"
  have h: "handleRequestSolution (Some (cid, sign)) rq = Inr ?sol" using assms(1-3) by (simp add: handleRequestSolution_def)
  have v: "Signature_Verify (rs_verify srv) ?sol (sign_in_message (rs_keyPair srv) cid sc cc) cid = None"
    using assms(4,5) by (simp add: Signature_Verify_def)
  obtain m where m: "select (\<lambda>r. m_key r = FeedRef_String cid) (r_members st) = Some m"
    using assms(6) by (cases "select (\<lambda>r. m_key r = FeedRef_String cid) (r_members st)") (auto simp: member_key_def select_None)
  let ?m = "\<lparr>memberID = m_id m, memberPubKey = cid, memberRole = m_role m\<rparr>" and ?s = "st\<lparr>r_tick := Suc (r_tick st)\<rparr>"
  have g: "Members_GetByFeed ?env cid st = (Inr ?m, ?s)"
    using assms(7) by (simp add: Members_GetByFeed_def dbind_def dtry_def query_def m dreturn_def)
  have mem: "has_member (m_id m) ?s" using select_Some [OF m] by (auto simp: has_member_def list_ex_iff)
  have fresh: "\<not> list_ex (\<lambda>r. t_token r = randomToken ?env t) (trows (r_tokens st))" for t using assms(8) by (auto simp: list_ex_iff)
  obtain s' where "CreateToken ?env (m_id m) ?s = (Inr (randomToken ?env (Suc (r_tick st))), s')"
    using assms(7) mem fresh by (simp add: CreateToken_def dtick_def dbind_def dtry_def insert_token_def exec_def auto_insert_def Let_def dreturn_def)
  with h v g show ?thesis by (auto simp: issue_token_def dtry_def dreturn_def)
qed




theorem ssb_login_sound_witness:
  "\<exists>m \<in> set (trows (r_members alias_db)). m_key m = FeedRef_String alice \<and>
    (\<exists>t \<in> set (trows (r_tokens (s_db (w_server (snd (ssb_handleLogin demo_srv demo_login demo_request demo_site)))))). t_token t = ''YWJj'' \<and> t_member t = m_id m)"
proof -
  let ?l = "ssb_handleLogin demo_srv demo_login demo_request demo_site"
  have "fst ?l = LoggedIn ''YWJj'' (Page ''OK'' [])" by code_simp
  then have l: "?l = (LoggedIn ''YWJj'' (Page ''OK'' []), snd ?l)" by (simp add: prod_eq_iff)
  have "ParseFeedRef (w_query demo_request ''cid'') = Inr alice" "r_members (s_db (w_server demo_site)) = r_members alias_db"
    by (code_simp, simp add: demo_site_def served_def)
  with ssb_login_sound [OF l] show ?thesis by auto
qed

theorem ssb_login_complete_witness:
  "\<exists>sol token st'. handleRequestSolution (Some (alice, \<lambda>m. feed_id alice @ m)) \<lparr>rq_type = ''async'', rq_args = ''[\"s\",\"c\"]'', rq_caller = Some room_feed\<rparr> = Inr sol \<and>
    issue_token demo_srv alice ''s'' ''c'' (Some sol) alias_db = (Inr (LoggedIn token (Page ''OK'' [])), st')"
proof (rule ssb_login_complete)
  show "string_list (rq_args \<lparr>rq_type = ''async'', rq_args = ''[\"s\",\"c\"]'', rq_caller = Some room_feed\<rparr>) = Some [''s'', ''c'']" by code_simp
  show "member_key (FeedRef_String alice) alias_db" by code_simp
  have "EncodeToString URLEncoding ''abc'' = ''YWJj''" by code_simp
  then show "t_token r \<noteq> randomToken (rs_env demo_srv) t" if "r \<in> set (trows (r_tokens alias_db))" for t r
    using that by (simp add: demo_srv_def demo_env_def randomToken_def alias_db_def)
qed (simp_all add: demo_srv_def demo_env_def alice_def)

section \<open>What can go wrong\<close>

text \<open>Two requests that both read the row of an invite before either has used it both make a member.\<close>

lemma invite_race:
  "let (r1, s1) = consume_find demo_env ''tok'' invited_db; (r2, s2) = consume_find demo_env ''tok'' s1;
       (r3, s3) = consume_use demo_env alice (projr r1) s2; (r4, s4) = consume_use demo_env bob (projr r2) s3
   in \<not> isl r1 \<and> \<not> isl r2 \<and> \<not> isl r3 \<and> \<not> isl r4 \<and> member_key (FeedRef_String alice) s4 \<and> member_key (FeedRef_String bob) s4"
  by code_simp

text \<open>The room's own feed, an administrator, is a plain member after it has used an invite.\<close>

lemma admin_demoted:
  "map m_role (trows (r_members invited_db)) = [RoleAdmin] \<and>
   map m_role (trows (r_members (snd (Invites_Consume demo_env ''tok'' room_feed invited_db)))) = [RoleMember]"
  by code_simp

text \<open>A denied feed joins when the check fails.\<close>

definition denied_db :: roomdb where
  "denied_db = invited_db\<lparr>r_denied := \<lparr>trows = [\<lparr>d_id = 1, d_key = FeedRef_String bob, d_comment = [], d_at = 0\<rparr>], tseq = 1\<rparr>\<rparr>"

lemma denied_fails_open:
  "fst (handleJoin demo_srv (rpc_of bob ''[\"tok\"]'') (served denied_db)) = Inl Denied \<and>
   fst (handleJoin (demo_srv\<lparr>rs_env := demo_env\<lparr>room_fault := (\<lambda>t. t = 0)\<rparr>\<rparr>) (rpc_of bob ''[\"tok\"]'') (served denied_db)) = Inr RSuccess"
  by code_simp

text \<open>A member without a password resets it: no error, the token is gone, and no password is stored.\<close>

lemma reset_without_password:
  "let (r, st) = SetPasswordWithToken demo_env ''old'' ''secret'' alias_db in r = Inr () \<and> trows (r_tokens st) = [] \<and> trows (r_passwords st) = []"
  by code_simp

text \<open>The endpoint of a feed that is no member, announced in open mode, outlives its connection.\<close>

lemma anonymous_endpoint_stays:
  "let (r1, s1) = connect demo_srv alice ''addr'' 5 (served invited_db);
       (r2, s2) = tunnel_call demo_srv [''tunnel'', ''announce''] ((rpc_of alice [])\<lparr>rq_type := ''sync''\<rparr>) s1;
       (r3, s3) = disconnect demo_srv alice (projr r1) s2
   in r1 = Inr False \<and> r2 = Inr (RBool True) \<and> HasPeer (FeedRef_String alice) (s_state s3) \<and> registered alice s3 = Some 5"
  by code_simp

text \<open>An alias the store registered with a capital letter is not resolved under the name it was given.\<close>

lemma resolve_case:
  "let (r1, s1) = Aliases_Register demo_env ''Tea'' bob ''s'' alias_db
   in r1 = Inr () \<and> fst (Aliases_Resolve demo_env ''Tea'' s1) = Inl NoRows \<and> \<not> isl (fst (Aliases_Resolve demo_env ''tea'' s1))"
  by code_simp

text \<open>A database that was only opened has no mode.\<close>

lemma no_mode: "fst (GetPrivacyMode demo_env fresh_roomdb) = Inl NoRows"
  by code_simp

end
