(* ===== verification/Spec2Isabelle.thy ===== *)
theory Spec2Isabelle
  imports MapperProps ProcessorProps MessagePaging Tid Boxstream Roomstate Handshake Bendy Legacy FeedlogProps History EbtProps ReverseProps RoomProps
begin

text \<open>
  A verification of the core of the ATProto to SSB bridge (\<open>mr_valinskys_adequate_bridge\<close>, Go).

  \<^bold>\<open>The program.\<close> The bridge follows the repositories of bridged Bluesky accounts, maps each record
  to a Secure Scuttlebutt message, publishes it on the SSB feed of the account, and keeps a table
  of what it did, so that records whose references are not yet known are deferred and tried again.
  Around this core are an SSB peer (box stream, MUXRPC, replication), a room server that lets
  SSB clients meet the bridged feeds, and an admin web UI. A commit enters at
  \<open>Processor.HandleCommit\<close> (or a stored event at \<open>HandleRecordEvent\<close>); the processor calls the mapper,
  the dependency resolver (which fetches referenced records and calls the processor again), the
  blob bridge, the publisher and the message table.

  \<^bold>\<open>The theories.\<close>
  \<^item> \<open>Go_Prelude\<close>: Go's string functions on byte strings, decimal numbers, maps as association
    lists, and three interfaces as locales: \<open>finite_map\<close>, \<open>invariant_machine\<close>, \<open>framed_codec\<close>.
  \<^item> \<open>Go_Value\<close>: JSON values and Go's \<open>map[string]interface{}\<close> with type assertions.
  \<^item> \<open>Appbsky\<close> (\<open>src/pkg/atproto/appbsky/types.go\<close>, \<open>lexutil.go\<close>): the Bluesky record types and their
    \<open>UnmarshalJSON\<close> methods, including the older flat encodings.
  \<^item> \<open>Mapper\<close>, \<open>MapperProps\<close> (\<open>src/internal/mapper/mapper.go\<close>): \<open>MapRecord\<close> for the nine record types,
    rich text, \<open>ReplaceATProtoRefs\<close>, \<open>UnresolvedATProtoRefs\<close>, \<open>SanitizeForPublish\<close>, \<open>ReadyForPublish\<close>.
    Shown: rich-text rewriting never slices out of range; a replacement pass resolves exactly the
    references that the look-ups answer and is idempotent; a mapped record is ready exactly when
    the reference its type needs is resolved; sanitizing then loses nothing.
  \<^item> \<open>MessageStore\<close>, \<open>MessagePaging\<close> (\<open>src/internal/db/messages.go\<close>, \<open>message_query.go\<close>, \<open>message_cursor.go\<close>):
    the messages table as a list of rows, the upsert, the queries as filter, sort and limit, and
    paging with keyset cursors. Shown against the locale \<open>upsert_store\<close>: rows are never lost,
    counters accumulate, creation times stay; retry candidates are the oldest that qualify;
    following the next cursor continues the listing without gaps or repeats.
  \<^item> \<open>Processor\<close>, \<open>ProcessorLaws\<close>, \<open>ProcessorProps\<close> (\<open>src/internal/bridge/processor.go\<close>,
    \<open>processor_lifecycle.go\<close>, \<open>dependencies.go\<close>): the whole record pipeline as a state-passing function;
    the state has the table, the accounts, the bridge state, the publish log, the in-flight table
    of the resolver and the rate limiters; the environment record has what the code only calls
    (clock, database faults, JSON text, publisher, blob bridge, fetcher, feed resolver, token
    bucket). The laws are proved once in the locales \<open>processor_steps\<close> and \<open>processor_retries\<close>, for a
    relation between states that the primitive effects respect, and interpreted twice: for what
    may be published and for how the table may change. Shown: nothing with placeholders is
    published by commits, events and deferred runs; the table only grows; processing returns,
    with at most 256 fetches, no record visited twice and nothing left in flight; reprocessing a
    published revision changes nothing; run counters add up; retry delays.
  \<^item> \<open>Tid\<close> (\<open>src/pkg/atproto/syntax/tid.go\<close>): timestamp identifiers on 64-bit words. Shown: they read
    back, sort like their timestamps, and the clock is strictly increasing.
  \<^item> \<open>PacketCodec\<close> (\<open>src/internal/ssb/muxrpc/codec/codec.go\<close>, \<open>muxrpc/packer.go\<close>) and \<open>Boxstream\<close>
    (\<open>src/internal/ssb/secretstream/boxstream/boxstream.go\<close>): two framed codecs, both interpretations
    of \<open>framed_codec\<close>. Shown: what is written is read back, in order; and where reading goes wrong:
    lengths that wrap, headers that are forgotten, bodies that arrive in parts.
  \<^item> \<open>Roomstate\<close> (\<open>src/internal/ssb/roomstate/roomstate.go\<close> and the streams of
    \<open>muxrpc/handlers/room/room_handler.go\<close> and \<open>tunnel.go\<close>): the room as a machine whose steps are the
    operations and the deliveries to clients, an interpretation of \<open>invariant_machine\<close>. Shown: a
    client's list of attendants converges, overflows included; the list of endpoints may not.

  \<^item> \<open>Handshake\<close> (\<open>src/internal/ssb/secretstream/secretstream.go\<close>): the secret handshake, both roles, as a
    machine fed with bytes and as loops over a connection. Shown: honest peers finish with keys
    that fit, so that the box stream between them works; who accepts has checked a signature of
    the other over this exchange; input may arrive in pieces.
  \<^item> \<open>Bencode\<close> (\<open>src/internal/ssb/message/bencode/bencode.go\<close>), \<open>Bendy\<close> (\<open>bfe/bfe.go\<close>, \<open>message/bendy/message.go\<close>):
    bencode, binary field encodings and BendyButt messages. Shown: the decoder always returns,
    reads back what the encoder writes, and a created message verifies after a round trip.
  \<^item> \<open>Base64\<close>, \<open>JsonText\<close>: base64 and a scanner for JSON text, models of Go's standard library.
  \<^item> \<open>Refs\<close>, \<open>SsbUri\<close> (\<open>src/internal/ssb/refs/refs.go\<close>, \<open>ssburi.go\<close>, \<open>formats/registry.go\<close>): references, SSB URIs
    and the registry of formats. Shown: what parses is canonical, and URIs are read back.
  \<^item> \<open>Legacy\<close> (\<open>src/internal/ssb/message/legacy/message.go\<close>, \<open>sign.go\<close>): the text, signature, hash and JSON
    form of classic messages. Shown: a signed message verifies and its signature is cut out again.
  \<^item> \<open>Tangle\<close> (\<open>src/internal/ssb/message/tangle\<close>): the topological sort. Shown: parents come first, each
    message once; cycles are reported.
  \<^item> \<open>Feedlog\<close>, \<open>FeedlogProps\<close> (\<open>src/internal/ssb/feedlog/feedlog.go\<close>): the feed database. The locale
    \<open>append_log\<close>, an append-only list per log, is interpreted for the feeds and for the receive log.
    Shown: appending refines adding to a list, nothing read ever changes, retries are bounded.
  \<^item> \<open>Replication\<close>, \<open>ReplicationProps\<close> (\<open>src/internal/ssb/sbot/feed_manager_adapter.go\<close>, \<open>feed_replicator.go\<close>,
    \<open>publisher/publisher.go\<close>, \<open>feedlog/classic_raw.go\<close>): messages of peers and of the bridge's own feeds
    enter the feed database and are served from it. Shown: they enter in order and are served byte
    for byte; published messages form a chain; a forged message stays, a late start blocks a feed.
  \<^item> \<open>Ebt\<close>, \<open>EbtProps\<close> (\<open>src/internal/ssb/replication/ebt.go\<close>): notes, frontiers, the state matrix, sessions, the
    duplex loop and the polling loop of a stream. Shown: what is announced is what the log holds,
    what is streamed is what is due, a peer that sends catches the feed up, polling is bounded.
  \<^item> \<open>History\<close> (\<open>src/internal/ssb/muxrpc/handlers/history.go\<close>): \<open>createHistoryStream\<close>. Shown: messages are
    sent in order, up to the limit, and all of them when nothing fails.
  \<^item> \<open>AtSyntax\<close> (\<open>src/pkg/atproto/syntax/syntax.go\<close>): DIDs, handles, NSIDs, record keys and AT URIs. Shown:
    URIs are read back, the fast path for \<open>did:plc\<close> agrees with the regular expression.
  \<^item> \<open>ReverseText\<close>, \<open>ReverseStore\<close>, \<open>Reverse\<close>, \<open>ReverseProps\<close> (\<open>src/internal/bridge/reverse_sync.go\<close>,
    \<open>src/internal/db/reverse_sync.go\<close>): the reverse direction, from SSB messages of mapped feeds to records
    of ATProto repositories: the text and its facets, the two tables, and the processor from the
    receive log to the session calls. The laws are proved once in the locales \<open>reverse_effects\<close> and
    \<open>reverse_steps\<close> and interpreted for what is written, for the tables and for the cursor. Shown: only
    what a mapping grants is written; a message is handled once; batches advance; what was written
    does not come back through the forward processor; facets do not overlap; and a message that does
    not decode stops the scan.
  \<^item> \<open>RoomDb\<close> (\<open>src/internal/ssb/roomdb\<close>): the tables of the room server and every query and update on them.
    \<open>RoomHandlers\<close> (\<open>src/internal/ssb/muxrpc/handlers/room\<close>, \<open>src/internal/room/runtime.go\<close>): the calls of clients
    and the life of a connection, on the database, the state of \<open>Roomstate\<close> and the registry of connections.
    \<open>RoomWeb\<close> (\<open>src/internal/room/invite.go\<close>, \<open>auth.go\<close>, \<open>ssb_auth.go\<close>): invites, aliases and signing in over the
    web. \<open>RoomLaws\<close>, \<open>RoomTables\<close>, \<open>RoomProps\<close>: the locales \<open>room_relation\<close> and \<open>room_writes\<close> have the laws of all
    operations, calls and requests for a relation between databases, and are interpreted for the
    consistency of the tables, for the ids of invites, for new members and for owners of aliases. Shown:
    the tables stay consistent; an invite is used once; a call makes a member only of a caller that has
    an active invite; aliases stay with their owner; a sign-in needs the signature of the identity, and
    a member that gives it gets a token; rotating a token is all or nothing. And where it goes wrong:
    overlapping uses of an invite, roles and denied keys at a join, endpoints that stay.

  \<^bold>\<open>Conventions.\<close> Strings are Go strings, lists of bytes written as characters. A panic is a value of
  the error type, as is a goroutine that would wait for itself. Times are integers
  (milliseconds in the table, nanoseconds for durations). Map iteration order is one fixed order
  where the code iterates a map; sorting with \<open>sort.Slice\<close> keeps document order for equal keys.
  Recursion through the dependency resolver is on fuel \<open>MaxDependencyDepth\<close>, the depth at which
  the code itself refuses to go on, so that the model never runs out where the code would not.

  \<^bold>\<open>Arguments.\<close> CID syntax, the JSON text of Go values, cursors' text, secretbox, Curve25519, Ed25519,
  the hashes, bcrypt, random bytes, clocks, the publisher, the fetcher, the XRPC calls of the reverse session and the database's
  faults are arguments, with laws as hypotheses where a theorem needs them. Fuel: the bencode decoder and the JSON scanner recurse on
  fuel that starts above the length of their input, which is proved to be enough.

  \<^bold>\<open>Not modelled.\<close> Concurrency between goroutines beyond the steps above, CAR, MST and CBOR decoding,
  cryptography, SQL text, HTTP transport and HTML, the bytes copied through a tunnel, logging and
  metrics. A call or a request of the room is one step, but for the two halves of consuming an invite.
\<close>

end
